(* ===== verification/Op_Prelude.thy ===== *)
theory Op_Prelude
  imports Main "HOL-Library.AList" "HOL-Library.Char_ord" "HOL-Library.List_Lexorder"
begin

section \<open>Shared vocabulary of the development\<close>

text \<open>
  What the component theories share:
  \<^item> the outcome of an operation that raises: \<open>'e + 'a\<close>, \<open>Inl\<close> for the exception;
  \<^item> the state/exception monad \<open>('s, 'e, 'a) sx\<close>: an operation takes the store and gives an
    outcome and the store it leaves behind, also when it raises (a Python exception does not undo
    the writes made before it);
  \<^item> \<open>sx_transaction\<close>, the database context manager of the stores: on an exception the store is
    rolled back;
  \<^item> preservation of a store relation by an operation, with one rule per combinator in the bundle
    \<open>keeps_rules\<close> of \<open>kept_relation\<close>;
  \<^item> the histories of the rows of a store, \<open>descends\<close>;
  \<^item> Python dictionaries in insertion order as association lists (\<open>AList.update\<close> replaces a value in
    place and appends a new key, as \<open>d[k] = v\<close> does), with the lemmas the stores need.
\<close>

named_theorems sx_Inr \<open>inversion of successful runs\<close>

named_theorems sx_simps "evaluation of the state/exception monad"

subsection \<open>Outcomes\<close>

definition res_bind :: "'e + 'a \<Rightarrow> ('a \<Rightarrow> 'e + 'b) \<Rightarrow> 'e + 'b" where
  "res_bind m f = (case m of Inl e \<Rightarrow> Inl e | Inr x \<Rightarrow> f x)"

lemma res_bind_simps [simp]:
  "res_bind (Inl e) f = Inl e"
  "res_bind (Inr x) f = f x"
  by (simp_all add: res_bind_def)

lemma res_bind_Inr_iff: "res_bind m f = Inr y \<longleftrightarrow> (\<exists>x. m = Inr x \<and> f x = Inr y)"
  by (cases m) simp_all

lemma res_bind_Inl_iff: "res_bind m f = Inl e \<longleftrightarrow> m = Inl e \<or> (\<exists>x. m = Inr x \<and> f x = Inl e)"
  by (cases m) simp_all

lemma res_bind_cong [fundef_cong]:
  assumes "m = m'" and "\<And>x. m' = Inr x \<Longrightarrow> f x = f' x"
  shows "res_bind m f = res_bind m' f'"
  using assms by (cases m') simp_all

definition res_guard :: "bool \<Rightarrow> 'e \<Rightarrow> 'e + unit" where
  "res_guard b e = (if b then Inr () else Inl e)"

lemma res_guard_True [simp]: "res_guard True e = Inr ()"
  by (simp add: res_guard_def)

lemma res_guard_iff [simp]:
  "res_guard b e = Inr u \<longleftrightarrow> b"
  "res_guard b e = Inl e' \<longleftrightarrow> \<not> b \<and> e' = e"
  by (auto simp: res_guard_def)

subsection \<open>Operations on a store that may raise\<close>

type_synonym ('s, 'e, 'a) sx = "'s \<Rightarrow> ('e + 'a) \<times> 's"

definition sx_return :: "'a \<Rightarrow> ('s, 'e, 'a) sx" where
  "sx_return x = (\<lambda>s. (Inr x, s))"

definition sx_raise :: "'e \<Rightarrow> ('s, 'e, 'a) sx" where
  "sx_raise e = (\<lambda>s. (Inl e, s))"

definition sx_bind :: "('s, 'e, 'a) sx \<Rightarrow> ('a \<Rightarrow> ('s, 'e, 'b) sx) \<Rightarrow> ('s, 'e, 'b) sx" where
  "sx_bind m f = (\<lambda>s. case m s of (Inl e, s') \<Rightarrow> (Inl e, s') | (Inr x, s') \<Rightarrow> f x s')"

definition sx_get :: "('s, 'e, 's) sx" where
  "sx_get = (\<lambda>s. (Inr s, s))"

definition sx_modify :: "('s \<Rightarrow> 's) \<Rightarrow> ('s, 'e, unit) sx" where
  "sx_modify f = (\<lambda>s. (Inr (), f s))"

definition sx_lift :: "'e + 'a \<Rightarrow> ('s, 'e, 'a) sx" where
  "sx_lift r = (\<lambda>s. (r, s))"

definition sx_guard :: "bool \<Rightarrow> 'e \<Rightarrow> ('s, 'e, unit) sx" where
  "sx_guard b e = (if b then sx_return () else sx_raise e)"

fun sx_each :: "('a \<Rightarrow> ('s, 'e, 'b) sx) \<Rightarrow> 'a list \<Rightarrow> ('s, 'e, 'b list) sx" where
  "sx_each f [] = sx_return []"
| "sx_each f (x # xs) = sx_bind (f x) (\<lambda>y. sx_bind (sx_each f xs) (\<lambda>ys. sx_return (y # ys)))"

definition sx_transaction :: "('s, 'e, 'a) sx \<Rightarrow> ('s, 'e, 'a) sx" where
  "sx_transaction m = (\<lambda>s. case m s of (Inl e, _) \<Rightarrow> (Inl e, s) | (Inr x, s') \<Rightarrow> (Inr x, s'))"

definition sx_catch :: "('s, 'e, 'a) sx \<Rightarrow> ('e \<Rightarrow> ('s, 'f, 'a) sx) \<Rightarrow> ('s, 'f, 'a) sx" where
  \<comment> \<open>\<open>try\<close>/\<open>except\<close>: the handler runs in the store the exception left\<close>
  "sx_catch m h = (\<lambda>s. case m s of (Inl e, s') \<Rightarrow> h e s' | (Inr x, s') \<Rightarrow> (Inr x, s'))"

definition sx_void :: "('s, 'e, 'a) sx \<Rightarrow> ('s, 'e, unit) sx" where
  "sx_void m = sx_bind m (\<lambda>_. sx_return ())"

lemma sx_apply [sx_simps]:
  "sx_return x s = (Inr x, s)"
  "sx_raise e s = (Inl e, s)"
  "sx_get s = (Inr s, s)"
  "sx_modify g s = (Inr (), g s)"
  "sx_lift r s = (r, s)"
  "sx_guard b e s = (if b then Inr () else Inl e, s)"
  by (simp_all add: sx_return_def sx_raise_def sx_get_def sx_modify_def sx_lift_def sx_guard_def)

lemma sx_bind_apply [sx_simps]:
  "sx_bind m f s = (case m s of (Inl e, s') \<Rightarrow> (Inl e, s') | (Inr x, s') \<Rightarrow> f x s')"
  by (simp add: sx_bind_def)

lemma sx_bind_Inr: "m s = (Inr x, s') \<Longrightarrow> sx_bind m f s = f x s'"
  by (simp add: sx_bind_def)

lemma sx_bind_Inl: "m s = (Inl e, s') \<Longrightarrow> sx_bind m f s = (Inl e, s')"
  by (simp add: sx_bind_def)

lemma sx_bind_InrE:
  assumes "sx_bind m f s = (Inr y, t)"
  obtains x s' where "m s = (Inr x, s')" and "f x s' = (Inr y, t)"
  using assms by (auto simp: sx_bind_def split: prod.splits sum.splits)

lemma sx_bind_InlE:
  assumes "sx_bind m f s = (Inl e, t)"
  obtains (here) "m s = (Inl e, t)" | (later) x s' where "m s = (Inr x, s')" and "f x s' = (Inl e, t)"
  using assms by (auto simp: sx_bind_def split: prod.splits sum.splits)

lemma sx_return_Inr: "sx_return x s = (Inr y, t) \<longleftrightarrow> y = x \<and> t = s"
  by (auto simp: sx_return_def)

lemma sx_each_ConsE:
  assumes "sx_each f (x # xs) s = (Inr ys, t)"
  obtains y zs s1 where "f x s = (Inr y, s1)" and "sx_each f xs s1 = (Inr zs, t)" and "ys = y # zs"
  using assms by (auto elim!: sx_bind_InrE simp: sx_return_Inr)

lemma sx_transaction_apply [sx_simps]:
  "sx_transaction m s = (case m s of (Inl e, _) \<Rightarrow> (Inl e, s) | (Inr x, s') \<Rightarrow> (Inr x, s'))"
  by (simp add: sx_transaction_def)

lemma sx_catch_apply [sx_simps]:
  "sx_catch m h s = (case m s of (Inl e, s') \<Rightarrow> h e s' | (Inr x, s') \<Rightarrow> (Inr x, s'))"
  by (simp add: sx_catch_def)

lemma sx_transaction_Inr: "sx_transaction m s = (Inr x, t) \<longleftrightarrow> m s = (Inr x, t)"
  by (auto simp: sx_transaction_def split: prod.splits sum.splits)

lemma sx_transaction_Inl: "sx_transaction m s = (Inl e, t) \<Longrightarrow> t = s"
  by (auto simp: sx_transaction_def split: prod.splits sum.splits)

lemma sx_transaction_unchanged: "fst (sx_transaction m s) = Inl e \<Longrightarrow> snd (sx_transaction m s) = s"
  by (auto simp: sx_transaction_def split: prod.splits sum.splits)

lemma sx_guard_Inr: "sx_guard b e s = (Inr u, t) \<longleftrightarrow> b \<and> t = s"
  by (auto simp: sx_simps)

text \<open>Inversion of a successful run, as rewrite rules.\<close>

lemma sx_bind_Inr_iff [sx_Inr]:
  "sx_bind m f s = (Inr y, t) \<longleftrightarrow> (\<exists>x s'. m s = (Inr x, s') \<and> f x s' = (Inr y, t))"
  by (auto simp: sx_bind_def split: prod.splits sum.splits)

lemma sx_Inr_iff [sx_Inr]:
  "sx_return x s = (Inr y, t) \<longleftrightarrow> y = x \<and> t = s"
  "sx_raise e s \<noteq> (Inr y, t)"
  "sx_get s = (Inr w, t) \<longleftrightarrow> w = s \<and> t = s"
  "sx_modify g s = (Inr u, t) \<longleftrightarrow> t = g s"
  "sx_lift r s = (Inr y, t) \<longleftrightarrow> r = Inr y \<and> t = s"
  "sx_guard b e s = (Inr u, t) \<longleftrightarrow> b \<and> t = s"
  by (auto simp: sx_return_def sx_raise_def sx_get_def sx_modify_def sx_lift_def sx_guard_def)

lemma sx_choice_Inr [sx_Inr]:
  "(if b then m else m') s = (Inr y, t) \<longleftrightarrow> (if b then m s = (Inr y, t) else m' s = (Inr y, t))"
  "(let x = v in g x) s = (Inr y, t) \<longleftrightarrow> g v s = (Inr y, t)"
  "(case opt of None \<Rightarrow> m | Some z \<Rightarrow> h z) s = (Inr y, t) \<longleftrightarrow>
     (opt = None \<and> m s = (Inr y, t) \<or> (\<exists>z. opt = Some z \<and> h z s = (Inr y, t)))"
  "(case p of (a, b) \<Rightarrow> k a b) s = (Inr y, t) \<longleftrightarrow> k (fst p) (snd p) s = (Inr y, t)"
  by (auto split: option.splits prod.splits)

subsection \<open>Preservation\<close>

text \<open>
  \<open>keeps R m\<close>: whatever the outcome of \<open>m\<close>, the store it leaves is related by \<open>R\<close> to the one it was
  given. With \<open>R s t = (I s \<longrightarrow> I t)\<close> this is preservation of an invariant. The relation is
  required reflexive and transitive where the rules need it.
\<close>

definition keeps :: "('s \<Rightarrow> 's \<Rightarrow> bool) \<Rightarrow> ('s, 'e, 'a) sx \<Rightarrow> bool" where
  "keeps R m \<longleftrightarrow> (\<forall>s. R s (snd (m s)))"

lemma keepsI: "(\<And>s. R s (snd (m s))) \<Longrightarrow> keeps R m"
  by (simp add: keeps_def)

lemma keepsD: "keeps R m \<Longrightarrow> m s = (r, t) \<Longrightarrow> R s t"
  by (metis keeps_def snd_conv)

text \<open>The interface of a preserved relation: what the rules below need of it.\<close>

locale kept_relation =
  fixes R :: "'s \<Rightarrow> 's \<Rightarrow> bool"
  assumes kept_refl: "R s s"
    and kept_trans: "R s t \<Longrightarrow> R t u \<Longrightarrow> R s u"
begin

lemma keeps_pure:
  "keeps R (sx_return x)" "keeps R (sx_raise e)" "keeps R sx_get" "keeps R (sx_lift r)"
  "keeps R (sx_guard b e)"
  by (simp_all add: keeps_def sx_simps kept_refl)

lemma keeps_bind:
  assumes "keeps R m" and "\<And>x. keeps R (f x)"
  shows "keeps R (sx_bind m f)"
proof (rule keepsI)
  fix s
  have m: "R s (snd (m s))" using assms(1) by (simp add: keeps_def)
  show "R s (snd (sx_bind m f s))"
  proof (cases "m s")
    case (Pair r t)
    show ?thesis
    proof (cases r)
      case (Inl e)
      with Pair m show ?thesis by (simp add: sx_bind_def)
    next
      case (Inr x)
      have "R t (snd (f x t))" using assms(2) by (simp add: keeps_def)
      with Pair Inr m show ?thesis by (auto simp: sx_bind_def intro: kept_trans)
    qed
  qed
qed

lemma keeps_if: "(b \<Longrightarrow> keeps R m) \<Longrightarrow> (\<not> b \<Longrightarrow> keeps R n) \<Longrightarrow> keeps R (if b then m else n)"
  by simp

lemma keeps_let: "(\<And>x. x = v \<Longrightarrow> keeps R (f x)) \<Longrightarrow> keeps R (let x = v in f x)"
  by simp

lemma keeps_option:
  "(x = None \<Longrightarrow> keeps R m) \<Longrightarrow> (\<And>y. x = Some y \<Longrightarrow> keeps R (f y)) \<Longrightarrow>
   keeps R (case x of None \<Rightarrow> m | Some y \<Rightarrow> f y)"
  by (cases x) simp_all

lemma keeps_prod: "(\<And>a b. p = (a, b) \<Longrightarrow> keeps R (f a b)) \<Longrightarrow> keeps R (case p of (a, b) \<Rightarrow> f a b)"
  by (cases p) simp

lemma keeps_each: "(\<And>x. keeps R (f x)) \<Longrightarrow> keeps R (sx_each f xs)"
  by (induction xs) (simp_all add: keeps_pure keeps_bind)

lemma keeps_transaction:
  assumes "keeps R m"
  shows "keeps R (sx_transaction m)"
proof (rule keepsI)
  fix s
  show "R s (snd (sx_transaction m s))"
  proof (cases "m s")
    case (Pair r t)
    moreover have "R s t" using keepsD [OF assms Pair] .
    ultimately show ?thesis
      by (cases r) (simp_all add: sx_transaction_def kept_refl)
  qed
qed

lemma keeps_catch:
  assumes "keeps R m" and "\<And>e. keeps R (h e)"
  shows "keeps R (sx_catch m h)"
proof (rule keepsI)
  fix s
  obtain r t where m: "m s = (r, t)" by fastforce
  then have "R s t" by (rule keepsD [OF assms(1)])
  moreover have "R t (snd (h e t))" for e using assms(2) by (simp add: keeps_def)
  ultimately show "R s (snd (sx_catch m h s))"
    using m by (cases r) (auto simp: sx_catch_def intro: kept_trans)
qed

lemma keeps_commit: "(\<And>s x t. m s = (Inr x, t) \<Longrightarrow> R s t) \<Longrightarrow> keeps R (sx_transaction m)"
  by (auto simp: keeps_def sx_transaction_def kept_refl split: prod.splits sum.splits)

text \<open>The same, for what follows a step whose effect is known.\<close>

lemma after_bind:
  "R t (snd (m s)) \<Longrightarrow> (\<And>x. keeps R (f x)) \<Longrightarrow> R t (snd (sx_bind m f s))"
  by (auto simp: sx_bind_def keeps_def split: prod.splits sum.splits intro: kept_trans)

lemma after_catch:
  "R t (snd (m s)) \<Longrightarrow> (\<And>e. keeps R (h e)) \<Longrightarrow> R t (snd (sx_catch m h s))"
  by (auto simp: sx_catch_def keeps_def split: prod.splits sum.splits intro: kept_trans)

lemmas keeps_rules = keeps_catch keeps_pure keeps_bind keeps_if keeps_let keeps_option keeps_prod keeps_each keeps_transaction

end

text \<open>An invariant is a preserved relation.\<close>

definition holding :: "('s \<Rightarrow> bool) \<Rightarrow> 's \<Rightarrow> 's \<Rightarrow> bool" where
  "holding I s t \<longleftrightarrow> (I s \<longrightarrow> I t)"

interpretation hold: kept_relation "holding I"
  by unfold_locales (auto simp: holding_def)

lemma keeps_modify: "(\<And>s. R s (g s)) \<Longrightarrow> keeps R (sx_modify g)"
  by (simp add: keeps_def sx_simps)

lemma sx_void_state: "snd (sx_void m s) = snd (m s)"
  by (simp add: sx_void_def sx_bind_def sx_return_def split: prod.splits sum.splits)

lemma keeps_void: "keeps R (sx_void m) = keeps R m"
  by (simp add: keeps_def sx_void_state)

subsection \<open>Histories of rows\<close>

definition descends :: "('v \<Rightarrow> 'v \<Rightarrow> bool) \<Rightarrow> ('v \<Rightarrow> bool) \<Rightarrow> 'v option \<Rightarrow> 'v option \<Rightarrow> bool" where
  \<comment> \<open>a record took steps, or was created and then took steps\<close>
  "descends step born old new \<longleftrightarrow>
     (case old of
        Some c \<Rightarrow> (\<exists>d. new = Some d \<and> step\<^sup>*\<^sup>* c d)
      | None \<Rightarrow> (case new of None \<Rightarrow> True | Some d \<Rightarrow> (\<exists>c. born c \<and> step\<^sup>*\<^sup>* c d)))"

lemma descends_same [simp]: "descends step born x x"
  by (cases x) (auto simp: descends_def)

lemma descends_trans: "descends step born x y \<Longrightarrow> descends step born y z \<Longrightarrow> descends step born x z"
  by (auto simp: descends_def split: option.splits)

lemma descends_step: "step c d \<Longrightarrow> descends step born (Some c) (Some d)"
  by (auto simp: descends_def)

lemma descends_born: "born d \<Longrightarrow> descends step born None (Some d)"
  by (auto simp: descends_def)

subsection \<open>Dictionaries in insertion order\<close>

lemma map_of_update: "map_of (AList.update k v d) = (map_of d)(k \<mapsto> v)"
  by (simp add: update_conv')

lemma fst_update: "map fst (AList.update k v d) =
    (if k \<in> fst ` set d then map fst d else map fst d @ [k])"
  by (induction d) auto

lemma set_update_distinct:
  "distinct (map fst d) \<Longrightarrow>
   set (AList.update k v d) = insert (k, v) {p \<in> set d. fst p \<noteq> k}"
  by (induction d) (auto simp: image_iff)

lemma map_of_in_values: "map_of d k = Some v \<Longrightarrow> v \<in> snd ` set d"
  by (induction d) (auto split: if_splits)

subsection \<open>Lists\<close>

fun list_find :: "('a \<Rightarrow> bool) \<Rightarrow> 'a list \<Rightarrow> 'a option" where
  "list_find P [] = None"
| "list_find P (x # xs) = (if P x then Some x else list_find P xs)"

lemma list_find_SomeD: "list_find P xs = Some x \<Longrightarrow> x \<in> set xs \<and> P x"
  by (induction xs) (auto split: if_splits)

lemma list_find_None_iff: "list_find P xs = None \<longleftrightarrow> (\<forall>x \<in> set xs. \<not> P x)"
  by (induction xs) auto

fun list_min_key :: "('a \<Rightarrow> 'b::linorder) \<Rightarrow> 'a \<Rightarrow> 'a list \<Rightarrow> 'a" where
  \<comment> \<open>Python's \<open>min(..., key=f)\<close> of a non-empty sequence: the first element with the least key.\<close>
  "list_min_key f x [] = x"
| "list_min_key f x (y # ys) = list_min_key f (if f y < f x then y else x) ys"

lemma list_min_key_in: "list_min_key f x xs \<in> set (x # xs)"
proof (induction xs arbitrary: x)
  case (Cons y ys)
  have "list_min_key f (if f y < f x then y else x) ys \<in> set ((if f y < f x then y else x) # ys)"
    by (rule Cons.IH)
  then show ?case by (auto split: if_splits)
qed simp

lemma list_min_key_le: "y \<in> set (x # xs) \<Longrightarrow> f (list_min_key f x xs) \<le> f y"
proof (induction xs arbitrary: x y)
  case (Cons z zs)
  let ?m = "if f z < f x then z else x"
  have least: "f (list_min_key f ?m zs) \<le> f w" if "w \<in> set (?m # zs)" for w
    using that by (rule Cons.IH)
  have "f ?m \<le> f x" and "f ?m \<le> f z" by auto
  then show ?case
    using Cons.prems least [of ?m] least [of y] by (auto simp del: list_min_key.simps simp: list_min_key.simps(2))
qed simp

fun dedup :: "'a list \<Rightarrow> 'a list" where
  \<comment> \<open>\<open>list(dict.fromkeys(xs))\<close>: first occurrences, in order\<close>
  "dedup [] = []"
| "dedup (x # xs) = x # filter (\<lambda>y. y \<noteq> x) (dedup xs)"

lemma set_dedup [simp]: "set (dedup xs) = set xs"
  by (induction xs) auto

lemma distinct_dedup [simp]: "distinct (dedup xs)"
  by (induction xs) auto

lemma dedup_Nil [simp]: "dedup xs = [] \<longleftrightarrow> xs = []"
  by (cases xs) auto

subsection \<open>Strings\<close>

fun split_on :: "char \<Rightarrow> string \<Rightarrow> string list" where
  \<comment> \<open>Python's \<open>s.split(c)\<close> for a one-character separator.\<close>
  "split_on c [] = [[]]"
| "split_on c (x # xs) =
     (if x = c then [] # split_on c xs
      else (case split_on c xs of [] \<Rightarrow> [[x]] | p # ps \<Rightarrow> (x # p) # ps))"

lemma split_on_nonempty [simp]: "split_on c s \<noteq> []"
  by (induction s) (auto split: list.splits)

lemma split_on_no_sep: "p \<in> set (split_on c s) \<Longrightarrow> c \<notin> set p"
  by (induction s arbitrary: p) (fastforce split: if_splits list.splits)+

fun join_on :: "char \<Rightarrow> string list \<Rightarrow> string" where
  "join_on c [] = []"
| "join_on c [p] = p"
| "join_on c (p # q # ps) = p @ c # join_on c (q # ps)"

lemma join_split_on [simp]: "join_on c (split_on c s) = s"
proof (induction s)
  case (Cons x xs)
  then show ?case
  proof (cases "split_on c xs")
    case (Cons p ps)
    then show ?thesis using \<open>join_on c (split_on c xs) = xs\<close> by (cases ps) auto
  qed simp
qed simp

definition starts_with :: "string \<Rightarrow> string \<Rightarrow> bool" where
  "starts_with s p = (take (length p) s = p)"

lemma starts_with_append [simp]: "starts_with (p @ s) p"
  by (simp add: starts_with_def)

lemma starts_with_iff: "starts_with s p \<longleftrightarrow> (\<exists>t. s = p @ t)"
  by (metis append_take_drop_id starts_with_append starts_with_def)

definition path_name :: "string \<Rightarrow> string" where
  \<comment> \<open>\<open>pathlib.PurePosixPath(s).name\<close>: empty and \<open>.\<close> components do not count.\<close>
  "path_name s =
     (let parts = filter (\<lambda>p. p \<noteq> [] \<and> p \<noteq> ''.'') (split_on (CHR ''/'') s)
      in if parts = [] then [] else last parts)"

definition ascii_lower :: "string \<Rightarrow> string" where
  \<comment> \<open>\<open>str.lower()\<close> on ASCII text\<close>
  "ascii_lower s =
     map (\<lambda>c. if (of_char c :: nat) \<in> {65..90} then char_of ((of_char c :: nat) + 32) else c) s"

fun show_digits :: "nat \<Rightarrow> string" where
  "show_digits n = (if n < 10 then [char_of (48 + n)] else show_digits (n div 10) @ [char_of (48 + n mod 10)])"

declare show_digits.simps [simp del]

definition show_int :: "int \<Rightarrow> string" where
  "show_int i = (if i < 0 then CHR ''-'' # show_digits (nat (- i)) else show_digits (nat i))"

end
