(* ===== verification/Py_Value.thy ===== *)
theory Py_Value
  imports Complex_Main Op_Prelude
begin

section \<open>The Python values that flow through the program\<close>

text \<open>
  Node inputs and outputs, action arguments and condition operands are Python objects. This theory
  gives the values the source distinguishes and the language operations it applies to them: truth
  testing, \<open>==\<close>, the orderings, \<open>in\<close>, subscription and \<open>isinstance\<close> tests. Integers are
  unbounded; a finite float is the rational number it denotes, and comparisons of numbers are exact
  as CPython's are. \<open>PObject\<close> stands for any object of another type (bytes, tuples, ...), which
  the source only ever rejects. Identity of containers is not represented: the values are finite
  trees, so the cycle check of \<open>_is_json_value\<close> never fires on them.
\<close>

datatype py_float = FFin rat | FPosInf | FNegInf | FNaN

datatype py =
    PNone
  | PBool bool
  | PInt int
  | PFloat py_float
  | PStr string
  | PList "py list"
  | PDict "(py \<times> py) list"
  | PObject string

datatype py_error = KeyError | IndexError | TypeError | ValueError

text \<open>A \<open>dict[str, Any]\<close> of the source.\<close>

type_synonym py_env = "(string \<times> py) list"

subsection \<open>Truth, numbers\<close>

fun py_truthy :: "py \<Rightarrow> bool" where
  "py_truthy PNone = False"
| "py_truthy (PBool b) = b"
| "py_truthy (PInt n) = (n \<noteq> 0)"
| "py_truthy (PFloat f) = (f \<noteq> FFin 0)"
| "py_truthy (PStr s) = (s \<noteq> [])"
| "py_truthy (PList xs) = (xs \<noteq> [])"
| "py_truthy (PDict d) = (d \<noteq> [])"
| "py_truthy (PObject t) = True"

fun py_number :: "py \<Rightarrow> py_float option" where
  "py_number (PBool b) = Some (FFin (if b then 1 else 0))"
| "py_number (PInt n) = Some (FFin (of_int n))"
| "py_number (PFloat f) = Some f"
| "py_number _ = None"

fun float_less :: "py_float \<Rightarrow> py_float \<Rightarrow> bool" where
  "float_less (FFin a) (FFin b) = (a < b)"
| "float_less FNegInf (FFin b) = True"
| "float_less FNegInf FPosInf = True"
| "float_less (FFin a) FPosInf = True"
| "float_less _ _ = False"

definition float_eq :: "py_float \<Rightarrow> py_float \<Rightarrow> bool" where
  "float_eq a b = (a = b \<and> a \<noteq> FNaN)"

definition float_finite :: "py_float \<Rightarrow> bool" where
  "float_finite f = (case f of FFin _ \<Rightarrow> True | _ \<Rightarrow> False)"

subsection \<open>Equality\<close>

definition py_eq_numbers :: "py \<Rightarrow> py \<Rightarrow> bool" where
  "py_eq_numbers a b =
     (case (py_number a, py_number b) of (Some x, Some y) \<Rightarrow> float_eq x y | _ \<Rightarrow> False)"

function py_eq :: "py \<Rightarrow> py \<Rightarrow> bool"
  and py_eq_list :: "py list \<Rightarrow> py list \<Rightarrow> bool"
  and py_eq_items :: "(py \<times> py) list \<Rightarrow> (py \<times> py) list \<Rightarrow> bool" where
  "py_eq PNone b = (b = PNone)"
| "py_eq (PBool a) b = py_eq_numbers (PBool a) b"
| "py_eq (PInt a) b = py_eq_numbers (PInt a) b"
| "py_eq (PFloat a) b = py_eq_numbers (PFloat a) b"
| "py_eq (PStr a) b = (case b of PStr b' \<Rightarrow> a = b' | _ \<Rightarrow> False)"
| "py_eq (PList xs) b = (case b of PList ys \<Rightarrow> py_eq_list xs ys | _ \<Rightarrow> False)"
| "py_eq (PDict a) b =
     (case b of PDict b' \<Rightarrow> length a = length b' \<and> py_eq_items a b' | _ \<Rightarrow> False)"
| "py_eq (PObject a) b = (case b of PObject b' \<Rightarrow> a = b' | _ \<Rightarrow> False)"
| "py_eq_list [] ys = (ys = [])"
| "py_eq_list (x # xs) zs = (case zs of [] \<Rightarrow> False | y # ys \<Rightarrow> py_eq x y \<and> py_eq_list xs ys)"
| "py_eq_items [] b = True"
| "py_eq_items ((k, v) # a) b =
     (list_ex (\<lambda>(k', v'). py_eq k k' \<and> py_eq v v') b \<and> py_eq_items a b)"
  by pat_completeness auto
termination
  by (relation "measure (case_sum (\<lambda>(a, b). size a)
        (case_sum (\<lambda>(xs, ys). size_list size xs) (\<lambda>(a, b). size_list (size_prod size size) a)))")
    auto

fun py_hashable :: "py \<Rightarrow> bool" where
  "py_hashable (PList _) = False"
| "py_hashable (PDict _) = False"
| "py_hashable _ = True"

definition py_dict_get :: "(py \<times> py) list \<Rightarrow> py \<Rightarrow> py option" where
  "py_dict_get d k = map_option snd (list_find (\<lambda>(k', _). py_eq k' k) d)"

subsection \<open>Ordering\<close>

datatype py_ordering = OrdLt | OrdLtE | OrdGt | OrdGtE

fun float_order :: "py_ordering \<Rightarrow> py_float \<Rightarrow> py_float \<Rightarrow> bool" where
  "float_order OrdLt a b = float_less a b"
| "float_order OrdLtE a b = (float_less a b \<or> float_eq a b)"
| "float_order OrdGt a b = float_less b a"
| "float_order OrdGtE a b = (float_less b a \<or> float_eq a b)"

fun ord_holds :: "py_ordering \<Rightarrow> 'a::linorder \<Rightarrow> 'a \<Rightarrow> bool" where
  "ord_holds OrdLt a b = (a < b)"
| "ord_holds OrdLtE a b = (a \<le> b)"
| "ord_holds OrdGt a b = (b < a)"
| "ord_holds OrdGtE a b = (b \<le> a)"

text \<open>
  Lists compare at the first position where they differ, by their lengths when there is none.
  Everything that is neither two numbers, two strings nor two lists raises \<open>TypeError\<close>.
\<close>

definition py_order_numbers :: "py_ordering \<Rightarrow> py \<Rightarrow> py \<Rightarrow> py_error + bool" where
  "py_order_numbers ord a b =
     (case (py_number a, py_number b) of
        (Some x, Some y) \<Rightarrow> Inr (float_order ord x y)
      | _ \<Rightarrow> Inl TypeError)"

function py_order :: "py_ordering \<Rightarrow> py \<Rightarrow> py \<Rightarrow> py_error + bool"
  and py_order_list :: "py_ordering \<Rightarrow> py list \<Rightarrow> py list \<Rightarrow> py_error + bool" where
  "py_order ord PNone b = Inl TypeError"
| "py_order ord (PBool a) b = py_order_numbers ord (PBool a) b"
| "py_order ord (PInt a) b = py_order_numbers ord (PInt a) b"
| "py_order ord (PFloat a) b = py_order_numbers ord (PFloat a) b"
| "py_order ord (PStr a) b = (case b of PStr b' \<Rightarrow> Inr (ord_holds ord a b') | _ \<Rightarrow> Inl TypeError)"
| "py_order ord (PList xs) b = (case b of PList ys \<Rightarrow> py_order_list ord xs ys | _ \<Rightarrow> Inl TypeError)"
| "py_order ord (PDict a) b = Inl TypeError"
| "py_order ord (PObject a) b = Inl TypeError"
| "py_order_list ord [] ys = Inr (ord_holds ord 0 (length ys))"
| "py_order_list ord (x # xs) zs =
     (case zs of
        [] \<Rightarrow> Inr (ord_holds ord (length (x # xs)) 0)
      | y # ys \<Rightarrow> if py_eq x y then py_order_list ord xs ys else py_order ord x y)"
  by pat_completeness auto
termination
  by (relation "measure (case_sum (\<lambda>(ord, a, b). size a) (\<lambda>(ord, xs, ys). size_list size xs))") auto

subsection \<open>Membership and subscription\<close>

fun is_substring :: "string \<Rightarrow> string \<Rightarrow> bool" where
  "is_substring p [] = (p = [])"
| "is_substring p (c # cs) = (take (length p) (c # cs) = p \<or> is_substring p cs)"

fun py_in :: "py \<Rightarrow> py \<Rightarrow> py_error + bool" where
  "py_in a (PStr s) = (case a of PStr p \<Rightarrow> Inr (is_substring p s) | _ \<Rightarrow> Inl TypeError)"
| "py_in a (PList xs) = Inr (list_ex (\<lambda>x. py_eq x a) xs)"
| "py_in a (PDict d) =
     (if py_hashable a then Inr (py_dict_get d a \<noteq> None) else Inl TypeError)"
| "py_in a _ = Inl TypeError"

fun py_index :: "py \<Rightarrow> int option" where
  "py_index (PInt n) = Some n"
| "py_index (PBool b) = Some (if b then 1 else 0)"
| "py_index _ = None"

definition py_list_get :: "'a list \<Rightarrow> int \<Rightarrow> py_error + 'a" where
  \<comment> \<open>a negative index counts from the end\<close>
  "py_list_get xs i =
     (if i < - int (length xs) \<or> int (length xs) \<le> i then Inl IndexError
      else Inr (xs ! nat (i mod int (length xs))))"

fun py_subscript :: "py \<Rightarrow> py \<Rightarrow> py_error + py" where
  "py_subscript (PDict d) k =
     (if py_hashable k
      then (case py_dict_get d k of None \<Rightarrow> Inl KeyError | Some v \<Rightarrow> Inr v)
      else Inl TypeError)"
| "py_subscript (PList xs) k =
     (case py_index k of None \<Rightarrow> Inl TypeError | Some i \<Rightarrow> py_list_get xs i)"
| "py_subscript (PStr s) k =
     (case py_index k of
        None \<Rightarrow> Inl TypeError
      | Some i \<Rightarrow> res_bind (py_list_get s i) (\<lambda>c. Inr (PStr [c])))"
| "py_subscript _ _ = Inl TypeError"

subsection \<open>Type tests\<close>

text \<open>\<open>bool\<close> is a subclass of \<open>int\<close>: the source excludes it where it wants integers only.\<close>

fun is_py_int :: "py \<Rightarrow> bool" where
  "is_py_int (PInt _) = True"
| "is_py_int _ = False"

fun is_py_number :: "py \<Rightarrow> bool" where
  "is_py_number (PInt _) = True"
| "is_py_number (PFloat _) = True"
| "is_py_number _ = False"

fun py_is_finite :: "py \<Rightarrow> bool" where
  "py_is_finite (PFloat f) = float_finite f"
| "py_is_finite _ = True"

lemma py_list_get_Inr: "py_list_get xs i = Inr x \<Longrightarrow> x \<in> set xs"
proof -
  assume get: "py_list_get xs i = Inr x"
  then have "xs \<noteq> []" by (cases "i < 0") (auto simp: py_list_get_def)
  then have "nat (i mod int (length xs)) < length xs" by (simp add: nat_less_iff)
  with get show ?thesis by (auto simp: py_list_get_def split: if_splits)
qed

lemma py_eq_refl_str [simp]: "py_eq (PStr a) (PStr a)"
  by simp

subsection \<open>Dictionaries with string keys\<close>

definition env_to_py :: "py_env \<Rightarrow> py" where
  "env_to_py args = PDict (map (\<lambda>(k, v). (PStr k, v)) args)"

fun py_to_items :: "(py \<times> py) list \<Rightarrow> py_env option" where
  "py_to_items [] = Some []"
| "py_to_items ((PStr k, v) # items) = map_option (Cons (k, v)) (py_to_items items)"
| "py_to_items _ = None"

definition py_to_env :: "py \<Rightarrow> py_env option" where
  "py_to_env v = (case v of PDict items \<Rightarrow> py_to_items items | _ \<Rightarrow> None)"

end
