(* ===== verification/Sec_Domain.thy ===== *)
theory Sec_Domain
  imports Py_Value
begin

section \<open>Security: the data model\<close>

text \<open>
  The types of \<open>operant/domain/security.py\<close>: decisions, policy layers, risk levels and capabilities
  as datatypes with the source's members and wire values; requests, rules, evaluations and leases
  as records with the source's fields, and each pydantic validator as a predicate or as a check
  that may fail. Timestamps carry the wall clock and the UTC offset they are written with, because
  the stores compare their ISO text.
\<close>

datatype policy_decision = DENY | ASK | ALLOW

datatype policy_layer = SYSTEM | WORKSPACE | ROLE | WORKFLOW | SESSION | APPROVAL | DEFAULT

fun layer_value :: "policy_layer \<Rightarrow> int" where
  "layer_value SYSTEM = 0"
| "layer_value WORKSPACE = 10"
| "layer_value ROLE = 20"
| "layer_value WORKFLOW = 30"
| "layer_value SESSION = 40"
| "layer_value APPROVAL = 50"
| "layer_value DEFAULT = 60"

datatype risk_level = LOW | MEDIUM | HIGH | CRITICAL

fun risk_value :: "risk_level \<Rightarrow> string" where
  "risk_value LOW = ''low''"
| "risk_value MEDIUM = ''medium''"
| "risk_value HIGH = ''high''"
| "risk_value CRITICAL = ''critical''"

datatype capability =
    WORKSPACE_READ | WORKSPACE_WRITE | WORKSPACE_DELETE
  | PROCESS_EXEC | PROCESS_EXEC_NO_NETWORK | NETWORK_EGRESS | SECRET_USE
  | GIT_COMMIT | GIT_PUSH
  | BROWSER_OBSERVE | BROWSER_NAVIGATE | BROWSER_SUBMIT | BROWSER_SCREENSHOT
  | COMPUTER_OBSERVE | COMPUTER_INPUT | COMPUTER_SCREENSHOT
  | COMPUTER_CLIPBOARD_READ | COMPUTER_CLIPBOARD_WRITE
  | REMOTE_CONTROL_OBSERVE | REMOTE_CONTROL_COMMAND | REMOTE_CONTROL_APPROVE
  | REMOTE_TARGET_READ | REMOTE_TARGET_EXEC
  | EXTERNAL_MESSAGE_SEND | PRODUCTION_MUTATE | POLICY_MODIFY

fun capability_value :: "capability \<Rightarrow> string" where
  "capability_value WORKSPACE_READ = ''workspace.read''"
| "capability_value WORKSPACE_WRITE = ''workspace.write''"
| "capability_value WORKSPACE_DELETE = ''workspace.delete''"
| "capability_value PROCESS_EXEC = ''process.exec''"
| "capability_value PROCESS_EXEC_NO_NETWORK = ''process.exec.no_network''"
| "capability_value NETWORK_EGRESS = ''network.egress''"
| "capability_value SECRET_USE = ''secret.use''"
| "capability_value GIT_COMMIT = ''git.commit''"
| "capability_value GIT_PUSH = ''git.push''"
| "capability_value BROWSER_OBSERVE = ''browser.observe''"
| "capability_value BROWSER_NAVIGATE = ''browser.navigate''"
| "capability_value BROWSER_SUBMIT = ''browser.submit''"
| "capability_value BROWSER_SCREENSHOT = ''browser.screenshot''"
| "capability_value COMPUTER_OBSERVE = ''computer.observe''"
| "capability_value COMPUTER_INPUT = ''computer.input''"
| "capability_value COMPUTER_SCREENSHOT = ''computer.screenshot''"
| "capability_value COMPUTER_CLIPBOARD_READ = ''computer.clipboard.read''"
| "capability_value COMPUTER_CLIPBOARD_WRITE = ''computer.clipboard.write''"
| "capability_value REMOTE_CONTROL_OBSERVE = ''remote.control.observe''"
| "capability_value REMOTE_CONTROL_COMMAND = ''remote.control.command''"
| "capability_value REMOTE_CONTROL_APPROVE = ''remote.control.approve''"
| "capability_value REMOTE_TARGET_READ = ''remote.target.read''"
| "capability_value REMOTE_TARGET_EXEC = ''remote.target.exec''"
| "capability_value EXTERNAL_MESSAGE_SEND = ''external.message.send''"
| "capability_value PRODUCTION_MUTATE = ''production.mutate''"
| "capability_value POLICY_MODIFY = ''policy.modify''"

datatype idempotency_level = READ_ONLY | IDEMPOTENT | NON_IDEMPOTENT | UNKNOWN

subsection \<open>Timestamps as they are stored\<close>

text \<open>
  \<open>datetime.now().astimezone()\<close> is the wall clock of the local zone with its offset at that
  moment; adding a \<open>timedelta\<close> keeps the offset. The instant it denotes subtracts the offset. In
  ISO text the wall clock comes first (fixed width for the years 1000 to 9999, and the character
  after the seconds, \<open>+\<close> or \<open>-\<close>, sorts before the dot of the microseconds), then the offset: a \<open>+\<close>
  sorts before a \<open>-\<close>, then by magnitude. Wall clock in microseconds, offset in minutes.
\<close>

record timestamp =
  ts_wall :: int
  ts_offset :: int

definition ts_instant :: "timestamp \<Rightarrow> int" where
  "ts_instant t = ts_wall t - ts_offset t * 60000000"

definition ts_plus_seconds :: "timestamp \<Rightarrow> int \<Rightarrow> timestamp" where
  "ts_plus_seconds t n = t\<lparr>ts_wall := ts_wall t + n * 1000000\<rparr>"

definition offset_text_rank :: "int \<Rightarrow> int" where
  "offset_text_rank off = (if 0 \<le> off then off else 100000 - off)"

definition iso_text_less :: "timestamp \<Rightarrow> timestamp \<Rightarrow> bool" where
  "iso_text_less a b \<longleftrightarrow>
     ts_wall a < ts_wall b
     \<or> ts_wall a = ts_wall b \<and> offset_text_rank (ts_offset a) < offset_text_rank (ts_offset b)"

lemma iso_text_less_same_offset:
  "ts_offset a = ts_offset b \<Longrightarrow> iso_text_less a b \<longleftrightarrow> ts_instant a < ts_instant b"
  by (auto simp: iso_text_less_def ts_instant_def)

subsection \<open>Requests\<close>

record normalized_target =
  target_type :: string
  target_id :: string
  target_workspace_ref :: "string option"
  target_endpoint :: "string option"
  target_host :: "string option"
  target_port :: "int option"

record action_request =
  request_id :: string
  principal :: string
  action_session_id :: "string option"
  action_workflow_run_id :: "string option"
  action_node_run_id :: "string option"
  action_agent_instance_id :: "string option"
  tool :: string
  operation :: string
  action_target :: normalized_target
  normalized_arguments :: py_env
  action_workspace_id :: "string option"
  data_classification :: string
  requested_capabilities :: "capability list"
  sandbox_profile :: string
  network_profile :: string
  secret_refs :: "string list"
  dry_run :: bool
  idempotency_key :: string
  action_hash :: string
  action_policy_version :: string
  action_idempotency_level :: idempotency_level

definition len_within :: "nat \<Rightarrow> nat \<Rightarrow> 'a list \<Rightarrow> bool" where
  "len_within lo hi s \<longleftrightarrow> lo \<le> length s \<and> length s \<le> hi"

definition option_within :: "nat \<Rightarrow> 'a list option \<Rightarrow> bool" where
  "option_within hi s \<longleftrightarrow> (case s of None \<Rightarrow> True | Some t \<Rightarrow> length t \<le> hi)"

definition normalized_target_valid :: "normalized_target \<Rightarrow> bool" where
  "normalized_target_valid t \<longleftrightarrow>
     len_within 1 100 (target_type t) \<and> len_within 1 500 (target_id t)
     \<and> option_within 4096 (target_workspace_ref t) \<and> option_within 2048 (target_endpoint t)
     \<and> option_within 253 (target_host t)
     \<and> (case target_port t of None \<Rightarrow> True | Some p \<Rightarrow> 1 \<le> p \<and> p \<le> 65535)"

definition sha256_hex :: "string \<Rightarrow> bool" where
  \<comment> \<open>\<open>^[0-9a-f]{64}$\<close>\<close>
  "sha256_hex h \<longleftrightarrow> length h = 64 \<and> set h \<subseteq> set ''0123456789abcdef''"

definition validate_secret_capability :: "action_request \<Rightarrow> bool" where
  "validate_secret_capability a \<longleftrightarrow>
     (secret_refs a \<noteq> [] \<longrightarrow> SECRET_USE \<in> set (requested_capabilities a))"

definition action_request_valid :: "action_request \<Rightarrow> bool" where
  \<comment> \<open>the field constraints and the model validator\<close>
  "action_request_valid a \<longleftrightarrow>
     len_within 1 300 (principal a)
     \<and> option_within 300 (action_session_id a) \<and> option_within 300 (action_workflow_run_id a)
     \<and> option_within 300 (action_node_run_id a) \<and> option_within 300 (action_agent_instance_id a)
     \<and> len_within 1 200 (tool a) \<and> len_within 1 200 (operation a)
     \<and> normalized_target_valid (action_target a) \<and> option_within 300 (action_workspace_id a)
     \<and> length (data_classification a) \<le> 100 \<and> len_within 1 32 (requested_capabilities a)
     \<and> length (sandbox_profile a) \<le> 100 \<and> length (network_profile a) \<le> 100
     \<and> length (secret_refs a) \<le> 32 \<and> len_within 1 300 (idempotency_key a)
     \<and> sha256_hex (action_hash a) \<and> len_within 1 100 (action_policy_version a)
     \<and> validate_secret_capability a"

subsection \<open>Rules, bundles, evaluations\<close>

record policy_rule =
  rule_id :: string
  layer :: policy_layer
  rule_decision :: policy_decision
  capabilities :: "capability list"
  tools :: "string list"
  operations :: "string list"
  target_types :: "string list"
  rule_risk_level :: risk_level
  reason :: string
  hard :: bool

definition validate_hard_rule :: "policy_rule \<Rightarrow> bool" where
  "validate_hard_rule r \<longleftrightarrow> \<not> (hard r \<and> (layer r \<noteq> SYSTEM \<or> rule_decision r \<noteq> DENY))"

record policy_bundle =
  bundle_id :: string
  bundle_version :: string
  default_decision :: policy_decision
  rules :: "policy_rule list"

definition policy_bundle_valid :: "policy_bundle \<Rightarrow> bool" where
  "policy_bundle_valid b \<longleftrightarrow> list_all validate_hard_rule (rules b)"

record policy_evaluation =
  eval_action_hash :: string
  decision :: policy_decision
  risk_level :: risk_level
  policy_version :: string
  matched_rule_ids :: "string list"
  decisive_rule_id :: "string option"
  reason_code :: string
  explanation :: string
  hard_deny :: bool
  reviewer_eligible :: bool

subsection \<open>Leases\<close>

record capability_lease =
  lease_id :: string
  lease_action_hash :: string
  lease_principal :: string
  lease_capability :: capability
  lease_target :: normalized_target
  lease_workspace_id :: "string option"
  lease_dry_run :: bool
  issued_at :: timestamp
  expires_at :: timestamp
  max_uses :: int
  uses :: int
  lease_policy_version :: string
  issued_by :: string
  revoked_at :: "timestamp option"

definition validate_lease :: "capability_lease \<Rightarrow> bool" where
  "validate_lease l \<longleftrightarrow>
     1 \<le> max_uses l \<and> max_uses l \<le> 100 \<and> 0 \<le> uses l
     \<and> ts_instant (issued_at l) < ts_instant (expires_at l)
     \<and> uses l \<le> max_uses l"

record secret_lease =
  secret_ref :: string
  secret_action_hash :: string
  secret_principal :: string
  secret_target_id :: string
  secret_issued_at :: timestamp
  secret_expires_at :: timestamp

record denial_remediation =
  denied_action_hash :: string
  denial_reason_code :: string
  denial_policy_rule_id :: "string option"
  denied_capabilities :: "capability list"
  allowed_alternatives :: "string list"
  denial_signature :: string
  repeated_count :: int
  no_progress :: bool

end
