(* ===== verification/Sec_Policy.thy ===== *)
theory Sec_Policy
  imports Sec_Domain
begin

section \<open>Security: the policy engine\<close>

text \<open>
  \<open>PolicyEngine\<close> and the balanced bundle of \<open>operant/application/security.py\<close>. The engine is
  specified abstractly by \<open>required_decision\<close>, which looks at the set of matching rules only: a hard
  rule decides alone; otherwise every requested capability gets the strictest decision of the rules
  that cover it (the bundle's default when none does), and the request gets the strictest of those.
  \<open>evaluate_refines\<close> shows that the code computes exactly this.
\<close>

subsection \<open>The engine\<close>

definition argv_executable :: "py_env \<Rightarrow> string option" where
  "argv_executable args =
     (case map_of args ''argv'' of
        Some (PList (PStr a # _)) \<Rightarrow> Some (path_name a)
      | _ \<Rightarrow> None)"

definition rule_matches :: "policy_rule \<Rightarrow> action_request \<Rightarrow> bool" where
  "rule_matches rule action =
     (let executable = argv_executable (normalized_arguments action) in
      (capabilities rule = []
        \<or> (\<exists>c \<in> set (capabilities rule). c \<in> set (requested_capabilities action)))
      \<and> (tools rule = [] \<or> tool action \<in> set (tools rule)
        \<or> (case executable of None \<Rightarrow> False | Some e \<Rightarrow> e \<in> set (tools rule)))
      \<and> (operations rule = [] \<or> operation action \<in> set (operations rule))
      \<and> (target_types rule = [] \<or> target_type (action_target action) \<in> set (target_types rule)))"

definition default_rule :: "policy_bundle \<Rightarrow> policy_rule" where
  "default_rule bundle =
     \<lparr>rule_id = ''bundle.default'', layer = DEFAULT, rule_decision = default_decision bundle,
      capabilities = [], tools = [], operations = [], target_types = [],
      rule_risk_level = HIGH, reason = ''no policy rule matched'', hard = False\<rparr>"

definition policy_result ::
  "policy_bundle \<Rightarrow> action_request \<Rightarrow> policy_rule \<Rightarrow> policy_rule list \<Rightarrow> bool \<Rightarrow> policy_evaluation" where
  "policy_result bundle action decisive matched hard_deny_flag =
     \<lparr>eval_action_hash = action_hash action, decision = rule_decision decisive,
      risk_level = rule_risk_level decisive, policy_version = bundle_version bundle,
      matched_rule_ids = map rule_id matched, decisive_rule_id = Some (rule_id decisive),
      reason_code = rule_id decisive, explanation = reason decisive, hard_deny = hard_deny_flag,
      reviewer_eligible = (rule_decision decisive = ASK)\<rparr>"

definition with_decision :: "policy_decision \<Rightarrow> policy_rule list \<Rightarrow> policy_rule list" where
  "with_decision d rs = filter (\<lambda>r. rule_decision r = d) rs"

definition min_layer :: "policy_rule list \<Rightarrow> policy_rule option" where
  "min_layer rs =
     (case rs of [] \<Rightarrow> None | r # rest \<Rightarrow> Some (list_min_key (\<lambda>x. layer_value (layer x)) r rest))"

definition first_strict :: "policy_rule list \<Rightarrow> policy_rule \<Rightarrow> policy_rule" where
  \<comment> \<open>\<open>min(denied)\<close>, else \<open>min(asked)\<close>, else \<open>min(allowed)\<close>, each by layer; else the default rule\<close>
  "first_strict rs dflt =
     (case min_layer (with_decision DENY rs) of Some r \<Rightarrow> r | None \<Rightarrow>
      (case min_layer (with_decision ASK rs) of Some r \<Rightarrow> r | None \<Rightarrow>
       (case min_layer (with_decision ALLOW rs) of Some r \<Rightarrow> r | None \<Rightarrow> dflt)))"

definition rule_covers :: "policy_rule \<Rightarrow> capability \<Rightarrow> bool" where
  "rule_covers rule c \<longleftrightarrow> capabilities rule = [] \<or> c \<in> set (capabilities rule)"

definition capability_decision :: "policy_bundle \<Rightarrow> policy_rule list \<Rightarrow> capability \<Rightarrow> policy_rule" where
  "capability_decision bundle matched c =
     (let candidates = filter (\<lambda>r. rule_covers r c) matched in
      if candidates = [] then default_rule bundle
      else first_strict candidates (default_rule bundle))"

definition evaluate :: "policy_bundle \<Rightarrow> action_request \<Rightarrow> policy_evaluation" where
  "evaluate bundle action =
     (let matched = filter (\<lambda>r. rule_matches r action) (rules bundle) in
      case list_find hard matched of
        Some h \<Rightarrow> policy_result bundle action h matched True
      | None \<Rightarrow>
          (let decisions = map (capability_decision bundle matched) (requested_capabilities action)
           in policy_result bundle action (first_strict decisions (default_rule bundle)) matched False))"

text \<open>\<open>PolicyEngine.explain\<close>: the evaluation and the layers that matched.\<close>

definition explain ::
  "policy_bundle \<Rightarrow> action_request \<Rightarrow>
   policy_evaluation \<times> (string \<times> policy_layer \<times> policy_decision \<times> bool) list" where
  "explain bundle action =
     (evaluate bundle action,
      map (\<lambda>r. (rule_id r, layer r, rule_decision r, hard r))
        (filter (\<lambda>r. rule_matches r action) (rules bundle)))"

definition test_actions :: "policy_bundle \<Rightarrow> action_request list \<Rightarrow> policy_evaluation list" where
  "test_actions bundle actions = map (evaluate bundle) actions"

subsection \<open>What the engine must answer\<close>

definition strictest :: "policy_decision set \<Rightarrow> policy_decision \<Rightarrow> policy_decision" where
  "strictest ds dflt =
     (if DENY \<in> ds then DENY else if ASK \<in> ds then ASK else if ALLOW \<in> ds then ALLOW else dflt)"

definition covering :: "policy_rule set \<Rightarrow> capability \<Rightarrow> policy_decision set" where
  "covering M c = rule_decision ` {r \<in> M. rule_covers r c}"

definition required_decision :: "policy_rule set \<Rightarrow> policy_decision \<Rightarrow> capability set \<Rightarrow> policy_decision" where
  "required_decision M dflt caps =
     (if \<exists>r \<in> M. hard r then DENY
      else strictest ((\<lambda>c. strictest (covering M c) dflt) ` caps) dflt)"

definition matching :: "policy_bundle \<Rightarrow> action_request \<Rightarrow> policy_rule set" where
  "matching bundle action = {r \<in> set (rules bundle). rule_matches r action}"

lemma strictest_in: "ds \<noteq> {} \<Longrightarrow> strictest ds dflt \<in> ds"
proof -
  assume "ds \<noteq> {}"
  then obtain d where "d \<in> ds" by blast
  then show ?thesis by (cases d) (auto simp: strictest_def)
qed

lemma with_decision_simps [simp]:
  "with_decision d [] = []"
  "with_decision d (r # rs) = (if rule_decision r = d then r # with_decision d rs else with_decision d rs)"
  by (simp_all add: with_decision_def)

lemma set_with_decision [simp]: "set (with_decision d rs) = {r \<in> set rs. rule_decision r = d}"
  by (simp add: with_decision_def)

lemma with_decision_Nil: "with_decision d rs = [] \<longleftrightarrow> d \<notin> rule_decision ` set rs"
  by (auto simp: with_decision_def filter_empty_conv)

lemma min_layer_None: "min_layer rs = None \<longleftrightarrow> rs = []"
  by (simp add: min_layer_def split: list.splits)

lemma min_layer_SomeD:
  assumes "min_layer rs = Some r"
  shows "r \<in> set rs" and "\<And>x. x \<in> set rs \<Longrightarrow> layer_value (layer r) \<le> layer_value (layer x)"
proof -
  obtain y ys where rs: "rs = y # ys"
    using assms by (cases rs) (simp_all add: min_layer_def)
  then have r: "r = list_min_key (\<lambda>x. layer_value (layer x)) y ys"
    using assms by (simp add: min_layer_def)
  show "r \<in> set rs" unfolding r rs by (rule list_min_key_in)
  show "layer_value (layer r) \<le> layer_value (layer x)" if "x \<in> set rs" for x
    using list_min_key_le [of x y ys "\<lambda>x. layer_value (layer x)"] that by (simp add: r rs)
qed

lemma min_with_decision:
  "min_layer (with_decision d rs) = None \<longleftrightarrow> d \<notin> rule_decision ` set rs"
  "min_layer (with_decision d rs) = Some r \<Longrightarrow> rule_decision r = d \<and> r \<in> set rs"
  using min_layer_SomeD(1) [of "with_decision d rs" r] by (auto simp: with_decision_Nil min_layer_None)

lemma first_strict_decision:
  "rule_decision (first_strict rs dflt) = strictest (rule_decision ` set rs) (rule_decision dflt)"
proof (cases "min_layer (with_decision DENY rs)")
  case (Some r)
  with min_with_decision(1) [of DENY rs] min_with_decision(2) [OF Some] show ?thesis
    by (simp add: first_strict_def strictest_def)
next
  case no_deny: None
  show ?thesis
  proof (cases "min_layer (with_decision ASK rs)")
    case (Some r)
    with no_deny min_with_decision(1) [of DENY rs] min_with_decision(1) [of ASK rs]
      min_with_decision(2) [OF Some] show ?thesis
      by (simp add: first_strict_def strictest_def)
  next
    case no_ask: None
    show ?thesis
    proof (cases "min_layer (with_decision ALLOW rs)")
      case (Some r)
      with no_deny no_ask min_with_decision(1) [of DENY rs] min_with_decision(1) [of ASK rs]
        min_with_decision(1) [of ALLOW rs] min_with_decision(2) [OF Some] show ?thesis
        by (simp add: first_strict_def strictest_def)
    next
      case None
      with no_deny no_ask min_with_decision(1) [of DENY rs] min_with_decision(1) [of ASK rs]
        min_with_decision(1) [of ALLOW rs] show ?thesis
        by (simp add: first_strict_def strictest_def)
    qed
  qed
qed

lemma first_strict_cases:
  obtains (rule) d where "min_layer (with_decision d rs) = Some (first_strict rs dflt)"
  | (none) "rs = []"
proof (cases "rs = []")
  case False
  then obtain r where r: "r \<in> set rs" by (cases rs) auto
  then have some: "min_layer (with_decision (rule_decision r) rs) \<noteq> None"
    by (simp only: min_with_decision(1)) blast
  show ?thesis
  proof (cases "min_layer (with_decision DENY rs)")
    case no_deny: None
    show ?thesis
    proof (cases "min_layer (with_decision ASK rs)")
      case no_ask: None
      with no_deny some have "min_layer (with_decision ALLOW rs) \<noteq> None"
        by (cases "rule_decision r") simp_all
      then obtain x where "min_layer (with_decision ALLOW rs) = Some x" by blast
      with no_deny no_ask show ?thesis
        by (intro rule [of ALLOW]) (simp add: first_strict_def)
    qed (use no_deny rule [of ASK] in \<open>simp add: first_strict_def\<close>)
  qed (use rule [of DENY] in \<open>simp add: first_strict_def\<close>)
qed (use none in simp)

lemma first_strict_in: "rs \<noteq> [] \<Longrightarrow> first_strict rs dflt \<in> set rs"
  by (rule first_strict_cases [of rs dflt]) (auto dest: min_with_decision(2))

lemma first_strict_layer:
  assumes "x \<in> set rs" and "rule_decision x = rule_decision (first_strict rs dflt)"
  shows "layer_value (layer (first_strict rs dflt)) \<le> layer_value (layer x)"
proof (rule first_strict_cases [of rs dflt])
  fix d assume d: "min_layer (with_decision d rs) = Some (first_strict rs dflt)"
  then have "rule_decision (first_strict rs dflt) = d" using min_with_decision(2) by blast
  with assms have "x \<in> set (with_decision d rs)" by simp
  then show ?thesis by (rule min_layer_SomeD(2) [OF d])
qed (use assms in simp)

lemma default_rule_decision [simp]: "rule_decision (default_rule b) = default_decision b"
  by (simp add: default_rule_def)

lemma default_rule_layer [simp]: "layer (default_rule b) = DEFAULT"
  by (simp add: default_rule_def)

lemma capability_decision_decision:
  "rule_decision (capability_decision bundle matched c) =
     strictest (covering (set matched) c) (default_decision bundle)"
proof (cases "filter (\<lambda>r. rule_covers r c) matched = []")
  case True
  then have "covering (set matched) c = {}" by (auto simp: covering_def filter_empty_conv)
  with True show ?thesis by (simp add: capability_decision_def strictest_def)
next
  case False
  then show ?thesis
    by (simp add: capability_decision_def first_strict_decision covering_def)
qed

lemma policy_result_simps [simp]:
  "decision (policy_result b a r m h) = rule_decision r"
  "hard_deny (policy_result b a r m h) = h"
  "reviewer_eligible (policy_result b a r m h) \<longleftrightarrow> rule_decision r = ASK"
  "eval_action_hash (policy_result b a r m h) = action_hash a"
  "policy_version (policy_result b a r m h) = bundle_version b"
  "decisive_rule_id (policy_result b a r m h) = Some (rule_id r)"
  "matched_rule_ids (policy_result b a r m h) = map rule_id m"
  by (simp_all add: policy_result_def)

lemma matching_set: "set (filter (\<lambda>r. rule_matches r action) (rules bundle)) = matching bundle action"
  by (auto simp: matching_def)

lemma hard_is_deny: "validate_hard_rule r \<Longrightarrow> hard r \<Longrightarrow> rule_decision r = DENY"
  by (simp add: validate_hard_rule_def)

lemma valid_bundle_rule: "policy_bundle_valid b \<Longrightarrow> r \<in> set (rules b) \<Longrightarrow> validate_hard_rule r"
  by (simp add: policy_bundle_valid_def list_all_iff)

lemma evaluate_decision_no_hard:
  assumes "\<not> (\<exists>r \<in> matching bundle action. hard r)"
  shows "decision (evaluate bundle action) =
    strictest ((\<lambda>c. strictest (covering (matching bundle action) c) (default_decision bundle))
      ` set (requested_capabilities action)) (default_decision bundle)"
    and "\<not> hard_deny (evaluate bundle action)"
proof -
  let ?m = "filter (\<lambda>r. rule_matches r action) (rules bundle)"
  have nf: "list_find hard ?m = None"
    using assms by (auto simp: list_find_None_iff matching_def)
  show "decision (evaluate bundle action) =
    strictest ((\<lambda>c. strictest (covering (matching bundle action) c) (default_decision bundle))
      ` set (requested_capabilities action)) (default_decision bundle)"
    unfolding evaluate_def Let_def
    by (simp add: nf first_strict_decision image_image capability_decision_decision
          matching_set del: set_filter)
  show "\<not> hard_deny (evaluate bundle action)"
    by (simp add: evaluate_def Let_def nf)
qed

lemma evaluate_hard_rule:
  assumes "policy_bundle_valid bundle" and "r \<in> matching bundle action" and "hard r"
  shows "decision (evaluate bundle action) = DENY" and "hard_deny (evaluate bundle action)"
proof -
  let ?m = "filter (\<lambda>r. rule_matches r action) (rules bundle)"
  have "list_find hard ?m \<noteq> None"
    using assms(2,3) by (auto simp: list_find_None_iff matching_def)
  then obtain h where h: "list_find hard ?m = Some h" by blast
  from list_find_SomeD [OF h] have hm: "h \<in> set (rules bundle)" "hard h" by auto
  then have "rule_decision h = DENY"
    using assms(1) by (blast intro: hard_is_deny valid_bundle_rule)
  with h show "decision (evaluate bundle action) = DENY" and "hard_deny (evaluate bundle action)"
    by (simp_all add: evaluate_def Let_def)
qed

lemma evaluate_binds [simp]:
  "eval_action_hash (evaluate bundle action) = action_hash action"
  "policy_version (evaluate bundle action) = bundle_version bundle"
  by (simp_all add: evaluate_def Let_def split: option.splits)

lemma evaluate_eligible:
  "reviewer_eligible (evaluate bundle action) \<longleftrightarrow> decision (evaluate bundle action) = ASK"
  by (simp add: evaluate_def Let_def split: option.splits)

subsection \<open>The balanced bundle\<close>

definition balanced_policy_bundle :: "string \<Rightarrow> policy_bundle" where
  "balanced_policy_bundle version =
    \<lparr>bundle_id = ''balanced'', bundle_version = version, default_decision = DENY,
     rules = [
      \<lparr>rule_id = ''system.hard.policy-modification'', layer = SYSTEM, rule_decision = DENY,
       capabilities = [POLICY_MODIFY], tools = [], operations = [], target_types = [],
       rule_risk_level = CRITICAL,
       reason = ''runtime actions cannot modify the security policy'', hard = True\<rparr>,
      \<lparr>rule_id = ''system.hard.production-mutation'', layer = SYSTEM, rule_decision = DENY,
       capabilities = [PRODUCTION_MUTATE], tools = [], operations = [], target_types = [],
       rule_risk_level = CRITICAL,
       reason = ''production mutation requires a separately governed flow'', hard = True\<rparr>,
      \<lparr>rule_id = ''system.hard.privilege-escalation'', layer = SYSTEM, rule_decision = DENY,
       capabilities = [], tools = [''sudo'', ''doas''], operations = [], target_types = [],
       rule_risk_level = CRITICAL, reason = ''privilege escalation is forbidden'', hard = True\<rparr>,
      \<lparr>rule_id = ''workspace.read'', layer = WORKSPACE, rule_decision = ALLOW,
       capabilities = [WORKSPACE_READ], tools = [], operations = [], target_types = [],
       rule_risk_level = LOW, reason = ''workspace-scoped reads are allowed'', hard = False\<rparr>,
      \<lparr>rule_id = ''remote.read-observe'', layer = WORKSPACE, rule_decision = ALLOW,
       capabilities = [REMOTE_TARGET_READ, BROWSER_OBSERVE, COMPUTER_OBSERVE,
         COMPUTER_CLIPBOARD_READ], tools = [], operations = [], target_types = [],
       rule_risk_level = LOW,
       reason = ''remote target reads and observations are allowed'', hard = False\<rparr>,
      \<lparr>rule_id = ''workspace.isolated-write'', layer = WORKSPACE, rule_decision = ALLOW,
       capabilities = [WORKSPACE_WRITE, PROCESS_EXEC_NO_NETWORK], tools = [], operations = [],
       target_types = [], rule_risk_level = MEDIUM,
       reason = ''isolated workspace edits and no-network execution are allowed'', hard = False\<rparr>,
      \<lparr>rule_id = ''workspace.destructive'', layer = WORKSPACE, rule_decision = ASK,
       capabilities = [WORKSPACE_DELETE], tools = [], operations = [], target_types = [],
       rule_risk_level = HIGH,
       reason = ''workspace deletion requires an exact approval'', hard = False\<rparr>,
      \<lparr>rule_id = ''session.network-secret-external'', layer = SESSION, rule_decision = ASK,
       capabilities = [NETWORK_EGRESS, SECRET_USE, GIT_PUSH, EXTERNAL_MESSAGE_SEND, PROCESS_EXEC,
         GIT_COMMIT, REMOTE_TARGET_EXEC, BROWSER_NAVIGATE, BROWSER_SUBMIT, BROWSER_SCREENSHOT,
         COMPUTER_INPUT, COMPUTER_SCREENSHOT, COMPUTER_CLIPBOARD_WRITE],
       tools = [], operations = [], target_types = [], rule_risk_level = HIGH,
       reason = ''network, secret, push, and external send actions require review'',
       hard = False\<rparr>]\<rparr>"

text \<open>The table the bundle is meant to be: what it says of each capability.\<close>

definition balanced_hard :: "capability set" where
  "balanced_hard = {POLICY_MODIFY, PRODUCTION_MUTATE}"

definition balanced_allow :: "capability set" where
  "balanced_allow = {WORKSPACE_READ, REMOTE_TARGET_READ, BROWSER_OBSERVE, COMPUTER_OBSERVE,
     COMPUTER_CLIPBOARD_READ, WORKSPACE_WRITE, PROCESS_EXEC_NO_NETWORK}"

definition balanced_ask :: "capability set" where
  "balanced_ask = {WORKSPACE_DELETE, NETWORK_EGRESS, SECRET_USE, GIT_PUSH, EXTERNAL_MESSAGE_SEND,
     PROCESS_EXEC, GIT_COMMIT, REMOTE_TARGET_EXEC, BROWSER_NAVIGATE, BROWSER_SUBMIT,
     BROWSER_SCREENSHOT, COMPUTER_INPUT, COMPUTER_SCREENSHOT, COMPUTER_CLIPBOARD_WRITE}"

definition escalates :: "action_request \<Rightarrow> bool" where
  "escalates a \<longleftrightarrow>
     tool a \<in> {''sudo'', ''doas''}
     \<or> (\<exists>e. argv_executable (normalized_arguments a) = Some e \<and> e \<in> {''sudo'', ''doas''})"

lemma balanced_valid: "policy_bundle_valid (balanced_policy_bundle v)"
  by (simp add: policy_bundle_valid_def balanced_policy_bundle_def validate_hard_rule_def)

lemma balanced_default [simp]: "default_decision (balanced_policy_bundle v) = DENY"
  by (simp add: balanced_policy_bundle_def)

lemma hard_matching_list:
  "(\<exists>r \<in> matching b a. hard r) \<longleftrightarrow> list_ex (\<lambda>r. rule_matches r a) (filter hard (rules b))"
  by (auto simp: matching_def list_ex_iff)

lemma balanced_hard_match:
  "(\<exists>r \<in> matching (balanced_policy_bundle v) a. hard r) \<longleftrightarrow>
   escalates a \<or> (\<exists>c \<in> set (requested_capabilities a). c \<in> balanced_hard)"
  unfolding hard_matching_list escalates_def balanced_hard_def
  by (cases "argv_executable (normalized_arguments a)")
    (simp_all add: balanced_policy_bundle_def rule_matches_def Let_def, blast+)

lemma balanced_soft_rules:
  "r \<in> set (rules (balanced_policy_bundle v)) \<Longrightarrow> \<not> hard r \<Longrightarrow>
   tools r = [] \<and> operations r = [] \<and> target_types r = [] \<and> capabilities r \<noteq> []"
proof -
  have "list_all (\<lambda>r. hard r \<or> tools r = [] \<and> operations r = [] \<and> target_types r = []
      \<and> capabilities r \<noteq> []) (rules (balanced_policy_bundle v))"
    by (simp add: balanced_policy_bundle_def)
  then show "r \<in> set (rules (balanced_policy_bundle v)) \<Longrightarrow> \<not> hard r \<Longrightarrow>
   tools r = [] \<and> operations r = [] \<and> target_types r = [] \<and> capabilities r \<noteq> []"
    by (auto simp: list_all_iff)
qed

lemma balanced_matching_covers:
  assumes "c \<in> set (requested_capabilities a)" and "r \<in> set (rules (balanced_policy_bundle v))"
    and "\<not> hard r"
  shows "rule_matches r a \<and> rule_covers r c \<longleftrightarrow> c \<in> set (capabilities r)"
  using assms(1) balanced_soft_rules [OF assms(2,3)]
  by (auto simp: rule_matches_def rule_covers_def Let_def)

lemma balanced_covering:
  assumes "c \<in> set (requested_capabilities a)"
    and "\<not> (\<exists>r \<in> matching (balanced_policy_bundle v) a. hard r)"
  shows "covering (matching (balanced_policy_bundle v) a) c =
    (if c \<in> balanced_allow then {ALLOW} else if c \<in> balanced_ask then {ASK} else {})"
proof -
  have "covering (matching (balanced_policy_bundle v) a) c =
    rule_decision ` {r \<in> set (rules (balanced_policy_bundle v)). \<not> hard r \<and> c \<in> set (capabilities r)}"
    unfolding covering_def matching_def
    using assms balanced_matching_covers [OF assms(1), of _ v]
    by (intro arg_cong [where f = "image rule_decision"]) (auto simp: matching_def)
  also have "\<dots> = set (map rule_decision
      (filter (\<lambda>r. \<not> hard r \<and> c \<in> set (capabilities r)) (rules (balanced_policy_bundle v))))"
    by auto
  also have "\<dots> = (if c \<in> balanced_allow then {ALLOW} else if c \<in> balanced_ask then {ASK} else {})"
    by (cases c) (simp_all add: balanced_policy_bundle_def balanced_allow_def balanced_ask_def)
  finally show ?thesis .
qed

end
