(* ===== verification/Sec_Normalize.thy ===== *)
theory Sec_Normalize
  imports Sec_Domain
begin

section \<open>Security: action normalisation\<close>

text \<open>
  \<open>ActionNormalizer\<close> of \<open>operant/application/security.py\<close>: a proposed action becomes one fully bound
  request, or is refused. What the host answers is the argument \<open>host_env\<close>: path resolution (the
  file system and its symbolic links), the text of a value that is not a string, and
  \<open>urlsplit\<close>/\<open>urlunsplit\<close>. A resolved path is the list of its components. The SHA-256 of the
  canonical JSON is the argument \<open>digest\<close>.
\<close>

record url_parts =
  url_scheme :: string
  url_hostname :: "string option"
  url_username :: "string option"
  url_port :: "py_error + int option"
  url_path :: string
  url_query :: string

record host_env =
  resolve_strict :: "string \<Rightarrow> string list option"
  resolve_under :: "string list \<Rightarrow> string \<Rightarrow> string list"
  str_of :: "py \<Rightarrow> string"
  urlsplit :: "string \<Rightarrow> url_parts option"
  urlunsplit :: "string \<Rightarrow> string \<Rightarrow> string \<Rightarrow> string \<Rightarrow> string"

datatype sec_error =
    SecValueError string
  | SecFileNotFound
  | SecCapabilityDenied string
  | SecSecretUnavailable string
  | SecPolicyDenied
  | SecConflict string
  | SecIdempotencyConflict
  | SecKeyError

definition path_str :: "string list \<Rightarrow> string" where
  "path_str p = CHR ''/'' # join_on (CHR ''/'') p"

definition path_within :: "string list \<Rightarrow> string list \<Rightarrow> bool" where
  \<comment> \<open>\<open>candidate == root or root in candidate.parents\<close>\<close>
  "path_within base candidate \<longleftrightarrow> take (length base) candidate = base"

definition secret_ref_ok :: "string \<Rightarrow> bool" where
  \<comment> \<open>\<open>^[A-Z][A-Z0-9_]{1,127}$\<close>\<close>
  "secret_ref_ok s \<longleftrightarrow>
     (case s of [] \<Rightarrow> False
      | c # cs \<Rightarrow> c \<in> set ''ABCDEFGHIJKLMNOPQRSTUVWXYZ''
          \<and> set cs \<subseteq> set ''ABCDEFGHIJKLMNOPQRSTUVWXYZ0123456789_''
          \<and> len_within 1 127 cs)"

definition py_text :: "host_env \<Rightarrow> py \<Rightarrow> string" where
  "py_text env v = (case v of PStr s \<Rightarrow> s | _ \<Rightarrow> str_of env v)"

definition resolve_workspace :: "host_env \<Rightarrow> string option \<Rightarrow> sec_error + string list option" where
  "resolve_workspace env workspace =
     (case workspace of
        None \<Rightarrow> Inr None
      | Some w \<Rightarrow> (case resolve_strict env w of None \<Rightarrow> Inl SecFileNotFound | Some r \<Rightarrow> Inr (Some r)))"

fun argv_part_ok :: "py \<Rightarrow> bool" where
  "argv_part_ok (PStr s) = (CHR 0x00 \<notin> set s)"
| "argv_part_ok _ = False"

definition check_argv :: "py_env \<Rightarrow> sec_error + unit" where
  "check_argv args =
     (case map_of args ''argv'' of
        None \<Rightarrow> Inr ()
      | Some v \<Rightarrow>
          (case v of
             PList parts \<Rightarrow>
               res_guard (parts \<noteq> [] \<and> list_all argv_part_ok parts)
                 (SecValueError ''argv must be a non-empty string array'')
           | _ \<Rightarrow> Inl (SecValueError ''argv must be a non-empty string array'')))"

definition normalize_path_key ::
  "host_env \<Rightarrow> string list option \<Rightarrow> string \<Rightarrow> py_env \<Rightarrow> sec_error + py_env" where
  "normalize_path_key env base key args =
     (case map_of args key of
        None \<Rightarrow> Inr args
      | Some v \<Rightarrow>
          (case base of
             None \<Rightarrow> Inl (SecValueError (''workspace is required to normalize '' @ key))
           | Some r \<Rightarrow>
               (let candidate = resolve_under env r (py_text env v) in
                if path_within r candidate
                then Inr (AList.update key (PStr (path_str candidate)) args)
                else Inl (SecValueError (key @ '' escapes the workspace'')))))"

definition split_url :: "host_env \<Rightarrow> string \<Rightarrow> sec_error + url_parts" where
  "split_url env u =
     (case urlsplit env u of None \<Rightarrow> Inl (SecValueError ''urlsplit'') | Some p \<Rightarrow> Inr p)"

definition url_port_value :: "url_parts \<Rightarrow> sec_error + int option" where
  "url_port_value p = (case url_port p of Inl _ \<Rightarrow> Inl (SecValueError ''port'') | Inr q \<Rightarrow> Inr q)"

definition truthy_string :: "string option \<Rightarrow> bool" where
  "truthy_string s \<longleftrightarrow> (case s of None \<Rightarrow> False | Some t \<Rightarrow> t \<noteq> [])"

definition normalize_url :: "host_env \<Rightarrow> py_env \<Rightarrow> sec_error + py_env" where
  "normalize_url env args =
     (case map_of args ''url'' of
        None \<Rightarrow> Inr args
      | Some v \<Rightarrow>
          res_bind (split_url env (py_text env v)) (\<lambda>parsed.
          res_bind (res_guard
              (url_scheme parsed \<in> {''http'', ''https''} \<and> truthy_string (url_hostname parsed)
                \<and> \<not> truthy_string (url_username parsed))
              (SecValueError ''url must be an http(s) endpoint without userinfo'')) (\<lambda>_.
          res_bind (url_port_value parsed) (\<lambda>port.
          let host = ascii_lower (the (url_hostname parsed));
              netloc = (case port of None \<Rightarrow> host | Some p \<Rightarrow> host @ '':'' @ show_int p)
          in Inr (AList.update ''url''
               (PStr (urlunsplit env (ascii_lower (url_scheme parsed)) netloc
                 (if url_path parsed = [] then ''/'' else url_path parsed) (url_query parsed)))
               args)))))"

definition normalize_arguments ::
  "host_env \<Rightarrow> py_env \<Rightarrow> string option \<Rightarrow> sec_error + py_env" where
  "normalize_arguments env arguments workspace =
     res_bind (resolve_workspace env workspace) (\<lambda>base.
     res_bind (check_argv arguments) (\<lambda>_.
     res_bind (normalize_path_key env base ''path'' arguments) (\<lambda>args1.
     res_bind (normalize_path_key env base ''cwd'' args1) (\<lambda>args2.
     normalize_url env args2))))"

definition truthy_arg :: "py_env \<Rightarrow> string \<Rightarrow> py option" where
  "truthy_arg args key =
     (case map_of args key of None \<Rightarrow> None | Some v \<Rightarrow> if py_truthy v then Some v else None)"

definition normalize_target ::
  "host_env \<Rightarrow> string \<Rightarrow> py_env \<Rightarrow> string option \<Rightarrow> string option \<Rightarrow> sec_error + normalized_target" where
  "normalize_target env tool_name args workspace workspace_id =
     res_bind
      (case map_of args ''url'' of
         Some v \<Rightarrow>
           (let url = py_text env v in
            res_bind (split_url env url) (\<lambda>parsed.
            res_bind (url_port_value parsed) (\<lambda>p.
            let port = (case p of Some n \<Rightarrow> if n \<noteq> 0 then n
                                     else if url_scheme parsed = ''https'' then 443 else 80
                        | None \<Rightarrow> if url_scheme parsed = ''https'' then 443 else 80);
                host = (case url_hostname parsed of None \<Rightarrow> ''None'' | Some h \<Rightarrow> h)
            in Inr \<lparr>target_type = ''network_endpoint'',
                  target_id = url_scheme parsed @ ''://'' @ host @ '':'' @ show_int port,
                  target_workspace_ref = None, target_endpoint = Some url,
                  target_host = url_hostname parsed, target_port = Some port\<rparr>)))
       | None \<Rightarrow>
           res_bind (resolve_workspace env workspace) (\<lambda>base.
           let root_str = map_option path_str base;
               path = (case truthy_arg args ''path'' of Some v \<Rightarrow> Some (py_text env v)
                 | None \<Rightarrow> (case truthy_arg args ''cwd'' of Some v \<Rightarrow> Some (py_text env v)
                     | None \<Rightarrow> root_str));
               tid = (case workspace_id of
                   Some w \<Rightarrow> if w \<noteq> [] then w
                      else (case root_str of Some r \<Rightarrow> r | None \<Rightarrow> ''tool:'' @ tool_name)
                 | None \<Rightarrow> (case root_str of Some r \<Rightarrow> r | None \<Rightarrow> ''tool:'' @ tool_name))
           in Inr \<lparr>target_type = ''workspace'', target_id = tid, target_workspace_ref = path,
                 target_endpoint = None, target_host = None, target_port = None\<rparr>))
      (\<lambda>t. if normalized_target_valid t then Inr t else Inl (SecValueError ''NormalizedTarget''))"

definition network_tools :: "string list" where
  "network_tools = [''curl'', ''wget'', ''ssh'', ''scp'', ''nc'']"

definition shells :: "string list" where
  "shells = [''bash'', ''dash'', ''fish'', ''ksh'', ''pwsh'', ''sh'', ''zsh'']"

definition argv_name :: "host_env \<Rightarrow> py_env \<Rightarrow> string" where
  "argv_name env args =
     (case map_of args ''argv'' of Some (PList (a # _)) \<Rightarrow> path_name (py_text env a) | _ \<Rightarrow> [])"

definition idempotency_level_of :: "host_env \<Rightarrow> string \<Rightarrow> string \<Rightarrow> py_env \<Rightarrow> idempotency_level" where
  "idempotency_level_of env tool_name op args =
     (if op \<in> {''read'', ''list'', ''search'', ''diff'', ''check'', ''explain'', ''test''} then READ_ONLY
      else if tool_name = ''run_command''
          \<and> (argv_name env args \<in> set network_tools \<or> argv_name env args \<in> set shells) then UNKNOWN
      else if tool_name = ''run_command''
          \<and> argv_name env args \<in> {''ruff'', ''mypy'', ''pytest'', ''git''} then IDEMPOTENT
      else if op \<in> {''delete'', ''send'', ''submit'', ''push'', ''publish'', ''pay''} then NON_IDEMPOTENT
      else UNKNOWN)"

subsection \<open>The bound request\<close>

text \<open>The keyword arguments of \<open>normalize\<close>; the request id is the fresh identifier the model draws.\<close>

record action_proposal =
  prop_request_id :: string
  prop_principal :: string
  prop_tool :: string
  prop_operation :: string
  prop_arguments :: py_env
  prop_capabilities :: "capability list"
  prop_idempotency_key :: string
  prop_policy_version :: string
  prop_workspace :: "string option"
  prop_workspace_id :: "string option"
  prop_session_id :: "string option"
  prop_workflow_run_id :: "string option"
  prop_node_run_id :: "string option"
  prop_agent_instance_id :: "string option"
  prop_secret_refs :: "string list"
  prop_data_classification :: string
  prop_sandbox_profile :: string
  prop_network_profile :: string
  prop_dry_run :: bool

text \<open>What the action hash covers, in the order of the dictionary \<open>hash_input\<close>.\<close>

record hash_input =
  hash_principal :: string
  hash_tool :: string
  hash_operation :: string
  hash_target :: normalized_target
  hash_arguments :: py_env
  hash_workspace_id :: "string option"
  hash_capabilities :: "string list"
  hash_sandbox :: string
  hash_network :: string
  hash_secret_refs :: "string list"
  hash_dry_run :: bool
  hash_idempotency_key :: string
  hash_policy_version :: string
  hash_idempotency_level :: idempotency_level

definition sorted_set :: "string list \<Rightarrow> string list" where
  "sorted_set xs = sort (remdups xs)"

definition build_hash_input ::
  "action_proposal \<Rightarrow> normalized_target \<Rightarrow> py_env \<Rightarrow> idempotency_level \<Rightarrow> hash_input" where
  "build_hash_input p target args level =
     \<lparr>hash_principal = prop_principal p, hash_tool = prop_tool p, hash_operation = prop_operation p,
      hash_target = target, hash_arguments = args, hash_workspace_id = prop_workspace_id p,
      hash_capabilities = sort (map capability_value (prop_capabilities p)),
      hash_sandbox = prop_sandbox_profile p, hash_network = prop_network_profile p,
      hash_secret_refs = sorted_set (prop_secret_refs p), hash_dry_run = prop_dry_run p,
      hash_idempotency_key = prop_idempotency_key p, hash_policy_version = prop_policy_version p,
      hash_idempotency_level = level\<rparr>"

definition normalize_action ::
  "host_env \<Rightarrow> (hash_input \<Rightarrow> string) \<Rightarrow> action_proposal \<Rightarrow> sec_error + action_request" where
  "normalize_action env digest p =
     res_bind (res_guard (prop_capabilities p \<noteq> [])
       (SecValueError ''at least one capability is required'')) (\<lambda>_.
     res_bind (normalize_arguments env (prop_arguments p) (prop_workspace p)) (\<lambda>args.
     res_bind (normalize_target env (prop_tool p) args (prop_workspace p) (prop_workspace_id p)) (\<lambda>target.
     res_bind (res_guard (list_all secret_ref_ok (sorted_set (prop_secret_refs p)))
       (SecValueError ''secret_ref must be an environment variable name'')) (\<lambda>_.
     let level = idempotency_level_of env (prop_tool p) (prop_operation p) args;
         request =
           \<lparr>request_id = prop_request_id p, principal = prop_principal p,
            action_session_id = prop_session_id p, action_workflow_run_id = prop_workflow_run_id p,
            action_node_run_id = prop_node_run_id p,
            action_agent_instance_id = prop_agent_instance_id p,
            tool = prop_tool p, operation = prop_operation p, action_target = target,
            normalized_arguments = args, action_workspace_id = prop_workspace_id p,
            data_classification = prop_data_classification p,
            requested_capabilities = sort_key capability_value (remdups (prop_capabilities p)),
            sandbox_profile = prop_sandbox_profile p, network_profile = prop_network_profile p,
            secret_refs = sorted_set (prop_secret_refs p), dry_run = prop_dry_run p,
            idempotency_key = prop_idempotency_key p,
            action_hash = digest (build_hash_input p target args level),
            action_policy_version = prop_policy_version p, action_idempotency_level = level\<rparr>
     in if action_request_valid request then Inr request
        else Inl (SecValueError ''ActionRequest'')))))"

subsection \<open>What a normalised request satisfies\<close>

lemma normalize_path_key_Inr:
  assumes "normalize_path_key env rootp key args = Inr args'"
  shows "map_of args' k =
      (if k = key \<and> map_of args key \<noteq> None then map_of args' key else map_of args k)"
    and "map_of args' key = None \<longleftrightarrow> map_of args key = None"
    and "map_of args' key = Some v \<Longrightarrow>
      \<exists>r c. rootp = Some r \<and> path_within r c \<and> v = PStr (path_str c)"
  using assms
  by (auto simp: normalize_path_key_def Let_def map_of_update split: option.splits if_splits)

lemma normalize_url_Inr:
  assumes "normalize_url env args = Inr args'" and "k \<noteq> ''url''"
  shows "map_of args' k = map_of args k"
  using assms
  by (auto simp: normalize_url_def Let_def map_of_update res_bind_Inr_iff split: option.splits)

lemma resolve_workspace_Inr:
  "resolve_workspace env w = Inr r \<Longrightarrow>
   (w = None \<and> r = None) \<or> (\<exists>x y. w = Some x \<and> resolve_strict env x = Some y \<and> r = Some y)"
  by (cases w; cases "resolve_strict env (the w)") (auto simp: resolve_workspace_def)

lemma normalize_arguments_paths:
  assumes "normalize_arguments env args w = Inr args'" and "k \<in> {''path'', ''cwd''}"
    and "map_of args' k = Some v"
  shows "\<exists>x r c. w = Some x \<and> resolve_strict env x = Some r \<and> path_within r c \<and> v = PStr (path_str c)"
proof -
  from assms(1) obtain r a1 a2 where r: "resolve_workspace env w = Inr r"
    and p: "normalize_path_key env r ''path'' args = Inr a1"
    and c: "normalize_path_key env r ''cwd'' a1 = Inr a2"
    and u: "normalize_url env a2 = Inr args'"
    by (auto simp: normalize_arguments_def res_bind_Inr_iff)
  have a2: "map_of a2 k = Some v" using normalize_url_Inr [OF u, of k] assms(2,3) by auto
  have "\<exists>r' c. r = Some r' \<and> path_within r' c \<and> v = PStr (path_str c)"
  proof (cases "k = ''cwd''")
    case True
    with a2 show ?thesis using normalize_path_key_Inr(3) [OF c] by simp
  next
    case False
    with assms(2) have "k = ''path''" by simp
    with a2 have "map_of a1 ''path'' = Some v"
      using normalize_path_key_Inr(1) [OF c, of "''path''"] by simp
    then show ?thesis by (rule normalize_path_key_Inr(3) [OF p])
  qed
  with resolve_workspace_Inr [OF r] show ?thesis by auto
qed

lemma normalize_action_Inr:
  assumes "normalize_action env digest p = Inr a"
  obtains args target where
    "normalize_arguments env (prop_arguments p) (prop_workspace p) = Inr args"
    "normalize_target env (prop_tool p) args (prop_workspace p) (prop_workspace_id p) = Inr target"
    "list_all secret_ref_ok (sorted_set (prop_secret_refs p))"
    "action_request_valid a" "normalized_arguments a = args" "action_target a = target"
    "principal a = prop_principal p" "tool a = prop_tool p" "operation a = prop_operation p"
    "action_workspace_id a = prop_workspace_id p" "dry_run a = prop_dry_run p"
    "requested_capabilities a = sort_key capability_value (remdups (prop_capabilities p))"
    "secret_refs a = sorted_set (prop_secret_refs p)"
    "idempotency_key a = prop_idempotency_key p"
    "action_policy_version a = prop_policy_version p"
    "sandbox_profile a = prop_sandbox_profile p" "network_profile a = prop_network_profile p"
    "action_idempotency_level a = idempotency_level_of env (prop_tool p) (prop_operation p) args"
    "action_hash a = digest (build_hash_input p target args (action_idempotency_level a))"
  using assms
  by (auto simp: normalize_action_def res_bind_Inr_iff Let_def split: if_splits)

end
