(* ===== verification/Sec_Redact.thy ===== *)
theory Sec_Redact
  imports Py_Value
begin

section \<open>Redaction of persisted payloads\<close>

text \<open>
  \<open>is_sensitive_key\<close>, \<open>_bounded_public_data\<close> and \<open>redact_public_data\<close> of \<open>operant/protocol.py\<close>.
  The pattern substitutions of \<open>redact_public_text\<close> and the length of the JSON text are the
  arguments \<open>redact_text\<close> (with the character bound) and \<open>json_size\<close> (\<open>None\<close> when the value cannot
  be serialised). The item budget is shared by the whole traversal, so it is passed along.
\<close>

subsection \<open>Sensitive keys\<close>

definition key_char :: "char \<Rightarrow> bool" where
  "key_char c \<longleftrightarrow> c \<in> set ''abcdefghijklmnopqrstuvwxyz0123456789''"

fun squash_key :: "string \<Rightarrow> string" where
  \<comment> \<open>\<open>re.sub(r"[^a-z0-9]+", "_", key)\<close>\<close>
  "squash_key [] = []"
| "squash_key (c # cs) =
     (if key_char c then c # squash_key cs
      else (case cs of
              [] \<Rightarrow> ''_''
            | d # _ \<Rightarrow> if key_char d then CHR ''_'' # squash_key cs else squash_key cs))"

definition strip_underscores :: "string \<Rightarrow> string" where
  "strip_underscores s =
     rev (dropWhile (\<lambda>c. c = CHR ''_'') (rev (dropWhile (\<lambda>c. c = CHR ''_'') s)))"

definition ends_with :: "string \<Rightarrow> string \<Rightarrow> bool" where
  "ends_with s suffix \<longleftrightarrow> starts_with (rev s) (rev suffix)"

definition no_underscore :: "string \<Rightarrow> string" where
  "no_underscore s = filter (\<lambda>c. c \<noteq> CHR ''_'') s"

definition sensitive_key_names :: "string list" where
  "sensitive_key_names =
     [''api_key'', ''apikey'', ''client_secret'', ''access_token'', ''refresh_token'', ''token'',
      ''password'', ''passwd'', ''authorization'', ''cookie'', ''private_key'', ''secret'']"

definition sensitive_key_suffixes :: "string list" where
  "sensitive_key_suffixes =
     [''api_key'', ''apikey'', ''access_token'', ''refresh_token'', ''token'', ''password'',
      ''passwd'', ''authorization'', ''cookie'', ''private_key'', ''client_secret'', ''secret'']"

definition is_sensitive_key :: "string \<Rightarrow> bool" where
  "is_sensitive_key key =
     (let normalized = strip_underscores (squash_key (ascii_lower key));
          compact = no_underscore normalized in
      if normalized = ''secret_ref'' then False
      else normalized \<in> set sensitive_key_names
        \<or> list_ex (\<lambda>suffix. normalized = suffix
              \<or> ends_with normalized (CHR ''_'' # suffix)
              \<or> ends_with compact (no_underscore suffix)) sensitive_key_suffixes)"

subsection \<open>The bounded traversal\<close>

record redact_env =
  redact_text :: "nat \<Rightarrow> string \<Rightarrow> string"
  json_size :: "py \<Rightarrow> nat option"
  redact_str_of :: "py \<Rightarrow> string"

definition key_text :: "redact_env \<Rightarrow> py \<Rightarrow> string" where
  "key_text env k = redact_text env 500 (case k of PStr s \<Rightarrow> s | _ \<Rightarrow> redact_str_of env k)"

function bounded_public_data :: "redact_env \<Rightarrow> nat \<Rightarrow> nat \<Rightarrow> nat \<Rightarrow> py \<Rightarrow> nat \<Rightarrow> py \<times> nat"
  and bounded_items :: "redact_env \<Rightarrow> nat \<Rightarrow> nat \<Rightarrow> nat \<Rightarrow> (py \<times> py) list \<Rightarrow> (py \<times> py) list \<Rightarrow> nat
    \<Rightarrow> (py \<times> py) list \<times> nat"
  and bounded_elements :: "redact_env \<Rightarrow> nat \<Rightarrow> nat \<Rightarrow> nat \<Rightarrow> py list \<Rightarrow> nat \<Rightarrow> py list \<times> nat" where
  "bounded_public_data env max_chars max_depth depth value remaining =
     (if max_depth < depth then (PStr ''[truncated: maximum depth]'', remaining)
      else (case value of
          PStr s \<Rightarrow> (PStr (redact_text env max_chars s), remaining)
        | PDict items \<Rightarrow>
            (case bounded_items env max_chars max_depth depth items [] remaining of
               (sanitized, r) \<Rightarrow> (PDict sanitized, r))
        | PList xs \<Rightarrow>
            (case bounded_elements env max_chars max_depth depth xs remaining of
               (ys, r) \<Rightarrow> (PList ys, r))
        | PObject t \<Rightarrow> (PStr (redact_text env max_chars (redact_str_of env (PObject t))), remaining)
        | v \<Rightarrow> (v, remaining)))"
| "bounded_items env max_chars max_depth depth [] acc remaining = (acc, remaining)"
| "bounded_items env max_chars max_depth depth ((k, v) # items) acc remaining =
     (if remaining = 0
      then (AList.update (PStr ''_truncated_items'') (PBool True) acc, remaining)
      else
        (let safe_key = key_text env k in
         if is_sensitive_key safe_key
         then bounded_items env max_chars max_depth depth items
                (AList.update (PStr safe_key) (PStr ''[REDACTED]'') acc) (remaining - 1)
         else
           (case bounded_public_data env max_chars max_depth (Suc depth) v (remaining - 1) of
              (v', r) \<Rightarrow> bounded_items env max_chars max_depth depth items
                (AList.update (PStr safe_key) v' acc) r)))"
| "bounded_elements env max_chars max_depth depth [] remaining = ([], remaining)"
| "bounded_elements env max_chars max_depth depth (x # xs) remaining =
     (if remaining = 0 then ([PStr ''[truncated items]''], remaining)
      else
        (case bounded_public_data env max_chars max_depth (Suc depth) x (remaining - 1) of
           (x', r) \<Rightarrow>
             (case bounded_elements env max_chars max_depth depth xs r of
                (xs', r') \<Rightarrow> (x' # xs', r'))))"
  by pat_completeness auto
termination
  by (relation "measure (case_sum (\<lambda>(e, c, m, d, v, r). size v)
      (case_sum (\<lambda>(e, c, m, d, items, a, r). size_list (size_prod size size) items)
        (\<lambda>(e, c, m, d, xs, r). size_list size xs)))") auto

declare bounded_public_data.simps [simp del]

definition first_fitting :: "redact_env \<Rightarrow> nat \<Rightarrow> py list \<Rightarrow> py option" where
  "first_fitting env max_bytes candidates =
     list_find (\<lambda>c. case json_size env c of None \<Rightarrow> False | Some n \<Rightarrow> n \<le> max_bytes) candidates"

definition truncation_markers :: "py \<Rightarrow> py list" where
  "truncation_markers sanitized =
     (case sanitized of
        PDict _ \<Rightarrow>
          [PDict [(PStr ''_truncated'', PBool True),
                  (PStr ''_reason'', PStr ''public payload exceeded byte limit'')],
           PDict [(PStr ''_truncated'', PBool True)], PDict []]
      | PList _ \<Rightarrow>
          [PList [PStr ''[truncated: public payload exceeded byte limit]''],
           PList [PStr ''[truncated]''], PList []]
      | _ \<Rightarrow>
          [PStr ''[truncated: public payload exceeded byte limit]'', PStr ''[truncated]'', PStr []])"

text \<open>
  \<open>redact_public_data\<close> with the bounds of its caller; the callers modelled here keep the defaults
  of 100000 bytes, depth 12 and 200 items, for which the argument check passes. The last \<open>None\<close> is
  the unreachable assertion: a one-byte marker always fits.
\<close>

definition redact_public_data :: "redact_env \<Rightarrow> nat \<Rightarrow> nat \<Rightarrow> nat \<Rightarrow> nat \<Rightarrow> py \<Rightarrow> py option" where
  "redact_public_data env max_chars max_bytes max_depth max_items value =
     (if max_bytes < 1 \<or> max_items < 1 then None
      else
        (let sanitized = fst (bounded_public_data env max_chars max_depth 0 value max_items);
             sanitized' = (case json_size env sanitized of
                 None \<Rightarrow> PStr ''[redacted: unserializable public payload]'' | Some _ \<Rightarrow> sanitized) in
         (case json_size env sanitized' of
            Some n \<Rightarrow> if n \<le> max_bytes then Some sanitized'
                      else first_fitting env max_bytes (truncation_markers sanitized' @ [PInt 0])
          | None \<Rightarrow> None)))"

text \<open>A value kept by the redaction is one that fits the byte bound.\<close>

lemma redact_public_data_fits:
  "redact_public_data env mc mb md mi v = Some w \<Longrightarrow> \<exists>n. json_size env w = Some n \<and> n \<le> mb"
  by (auto simp: redact_public_data_def Let_def first_fitting_def dest!: list_find_SomeD
      split: if_splits option.splits)

end
