(* ===== verification/Sec_Store.thy ===== *)
theory Sec_Store
  imports Sec_Normalize Sec_Redact
begin

section \<open>Security: the repository\<close>

text \<open>
  \<open>SQLiteSecurityRepository\<close> (\<open>operant/persistence/security.py\<close>) and the approval rows of
  \<open>SQLitePhase45Repository\<close> (\<open>operant/persistence/phase45.py\<close>). One record holds the tables; each
  method is one transaction. A unique or foreign key that the schema declares is a check of the
  insertion, and its violation is the \<open>ConflictError\<close> the method raises. Approval times are UTC,
  where ISO text and time order agree; they are integers.
\<close>

record action_row =
  row_body :: action_request
  row_arguments :: py

record audit_event =
  audit_id :: string
  audit_action_hash :: string
  audit_principal :: string
  audit_event_type :: string
  audit_decision :: "policy_decision option"
  audit_rule_ids :: "string list"
  audit_detail :: py

datatype approval_status = ApPending | ApApproved | ApDenied | ApExpired | ApConsumed

record approval_row =
  approval_id :: string
  approval_action_hash :: string
  approval_target :: normalized_target
  approval_policy_version :: string
  approval_status :: approval_status
  approval_expires_at :: int
  approval_decided_by :: "string option"
  approval_reason_code :: "string option"

record sec_store =
  action_rows :: "action_row list"
  lease_rows :: "(string \<times> capability_lease) list"
  audit_rows :: "audit_event list"
  denial_rows :: "(string \<times> int) list"
  approval_rows :: "(string \<times> approval_row) list"

type_synonym 'a sec = "(sec_store, sec_error, 'a) sx"

definition known_action :: "sec_store \<Rightarrow> string \<Rightarrow> bool" where
  "known_action s h \<longleftrightarrow> list_ex (\<lambda>r. action_hash (row_body r) = h) (action_rows s)"

subsection \<open>Actions\<close>

definition load_action :: "action_row \<Rightarrow> sec_error + action_request" where
  \<comment> \<open>\<open>ActionRequest.model_validate\<close> of the stored body\<close>
  "load_action r =
     (case py_to_env (row_arguments r) of
        None \<Rightarrow> Inl (SecValueError ''ActionRequest'')
      | Some args \<Rightarrow> Inr ((row_body r)\<lparr>normalized_arguments := args\<rparr>))"

definition insert_action :: "action_row \<Rightarrow> unit sec" where
  "insert_action r =
     sx_bind sx_get (\<lambda>s.
     sx_bind (sx_guard
        (\<not> list_ex (\<lambda>q. request_id (row_body q) = request_id (row_body r)
            \<or> action_hash (row_body q) = action_hash (row_body r)
            \<or> principal (row_body q) = principal (row_body r)
              \<and> idempotency_key (row_body q) = idempotency_key (row_body r)) (action_rows s))
        (SecConflict ''unable to persist security action'')) (\<lambda>_.
     sx_modify (\<lambda>s. s\<lparr>action_rows := action_rows s @ [r]\<rparr>)))"

definition find_bound_action :: "sec_store \<Rightarrow> string \<Rightarrow> string \<Rightarrow> action_row option" where
  "find_bound_action s who key =
     list_find (\<lambda>r. principal (row_body r) = who \<and> idempotency_key (row_body r) = key) (action_rows s)"

definition record_security_action :: "redact_env \<Rightarrow> action_request \<Rightarrow> action_request sec" where
  "record_security_action env action =
     sx_bind (sx_lift
       (case redact_public_data env 12000 100000 12 200 (env_to_py (normalized_arguments action)) of
          None \<Rightarrow> Inl (SecValueError ''redact'') | Some safe \<Rightarrow> Inr safe)) (\<lambda>safe.
     sx_bind (sx_transaction
       (sx_bind sx_get (\<lambda>s.
        case find_bound_action s (principal action) (idempotency_key action) of
          Some row \<Rightarrow>
            sx_bind (sx_lift (load_action row)) (\<lambda>existing.
            if action_hash existing \<noteq> action_hash action
            then sx_raise SecIdempotencyConflict
            else sx_return (Some existing))
        | None \<Rightarrow>
            sx_bind (insert_action \<lparr>row_body = action, row_arguments = safe\<rparr>) (\<lambda>_.
            sx_return None)))) (\<lambda>existing.
     case existing of
       Some a \<Rightarrow> sx_return a
     | None \<Rightarrow> sx_lift (load_action \<lparr>row_body = action, row_arguments = safe\<rparr>)))"

definition get_security_action :: "string \<Rightarrow> action_request sec" where
  "get_security_action h =
     sx_bind sx_get (\<lambda>s.
     case list_find (\<lambda>r. action_hash (row_body r) = h) (action_rows s) of
       None \<Rightarrow> sx_raise SecKeyError
     | Some row \<Rightarrow> sx_lift (load_action row))"

subsection \<open>Audit\<close>

definition append_security_audit :: "redact_env \<Rightarrow> audit_event \<Rightarrow> audit_event sec" where
  "append_security_audit env event =
     sx_bind (sx_lift
       (case redact_public_data env 12000 100000 12 200 (audit_detail event) of
          None \<Rightarrow> Inl (SecValueError ''redact'') | Some safe \<Rightarrow> Inr safe)) (\<lambda>safe.
     let stored = event\<lparr>audit_detail := safe\<rparr> in
     sx_transaction
       (sx_bind sx_get (\<lambda>s.
        sx_bind (sx_guard
          (known_action s (audit_action_hash event)
            \<and> \<not> list_ex (\<lambda>e. audit_id e = audit_id event) (audit_rows s))
          (SecConflict ''unable to append security audit event'')) (\<lambda>_.
        sx_bind (sx_modify (\<lambda>s. s\<lparr>audit_rows := audit_rows s @ [stored]\<rparr>)) (\<lambda>_.
        sx_return stored)))))"

definition list_security_audit :: "string \<Rightarrow> int \<Rightarrow> int \<Rightarrow> (nat \<times> audit_event) list sec" where
  \<comment> \<open>the sequence number of a row is its position, from 1: rows are never deleted\<close>
  "list_security_audit h after_cursor limit =
     sx_bind (sx_guard (0 \<le> after_cursor \<and> 1 \<le> limit \<and> limit \<le> 500)
       (SecValueError ''invalid security audit page'')) (\<lambda>_.
     sx_bind sx_get (\<lambda>s.
     sx_return
       (take (nat limit)
         (filter (\<lambda>(i, e). audit_action_hash e = h \<and> after_cursor < int i)
           (zip [1..<Suc (length (audit_rows s))] (audit_rows s))))))"

subsection \<open>Leases\<close>

definition issue_capability_lease :: "capability_lease \<Rightarrow> capability_lease sec" where
  "issue_capability_lease lease =
     sx_transaction
       (sx_bind sx_get (\<lambda>s.
        sx_bind (sx_guard
          (known_action s (lease_action_hash lease) \<and> map_of (lease_rows s) (lease_id lease) = None)
          (SecConflict ''unable to issue capability lease'')) (\<lambda>_.
        sx_bind (sx_modify (\<lambda>s. s\<lparr>lease_rows :=
            lease_rows s @ [(lease_id lease, lease\<lparr>revoked_at := None\<rparr>)]\<rparr>)) (\<lambda>_.
        sx_return lease))))"

definition lease_usable ::
  "capability_lease \<Rightarrow> string \<Rightarrow> string \<Rightarrow> capability \<Rightarrow> string \<Rightarrow> timestamp \<Rightarrow> bool" where
  \<comment> \<open>the \<open>WHERE\<close> clause of the update; \<open>expires_at > now\<close> compares ISO text\<close>
  "lease_usable l h who cap tid now \<longleftrightarrow>
     lease_action_hash l = h \<and> lease_principal l = who \<and> lease_capability l = cap
     \<and> target_id (lease_target l) = tid \<and> revoked_at l = None
     \<and> iso_text_less now (expires_at l) \<and> uses l < max_uses l"

definition consume_capability_lease ::
  "string \<Rightarrow> string \<Rightarrow> string \<Rightarrow> capability \<Rightarrow> string \<Rightarrow> timestamp \<Rightarrow> capability_lease sec" where
  "consume_capability_lease lid h who cap tid now =
     sx_transaction
       (sx_bind sx_get (\<lambda>s.
        case map_of (lease_rows s) lid of
          None \<Rightarrow> sx_raise (SecConflict ''capability lease is expired, exhausted, revoked, or mismatched'')
        | Some l \<Rightarrow>
            if lease_usable l h who cap tid now
            then
              (let l' = l\<lparr>uses := uses l + 1\<rparr> in
               sx_bind (sx_modify (\<lambda>s. s\<lparr>lease_rows := AList.update lid l' (lease_rows s)\<rparr>)) (\<lambda>_.
               sx_return l'))
            else sx_raise
              (SecConflict ''capability lease is expired, exhausted, revoked, or mismatched'')))"

definition get_capability_lease :: "string \<Rightarrow> capability_lease sec" where
  "get_capability_lease lid =
     sx_bind sx_get (\<lambda>s.
     case map_of (lease_rows s) lid of None \<Rightarrow> sx_raise SecKeyError | Some l \<Rightarrow> sx_return l)"

definition revoke_capability_lease :: "string \<Rightarrow> timestamp \<Rightarrow> capability_lease sec" where
  "revoke_capability_lease lid moment =
     sx_transaction
       (sx_bind sx_get (\<lambda>s.
        case map_of (lease_rows s) lid of
          None \<Rightarrow> sx_raise SecKeyError
        | Some l \<Rightarrow>
            (let l' = l\<lparr>revoked_at := Some (case revoked_at l of None \<Rightarrow> moment | Some t \<Rightarrow> t)\<rparr> in
             sx_bind (sx_modify (\<lambda>s. s\<lparr>lease_rows := AList.update lid l' (lease_rows s)\<rparr>)) (\<lambda>_.
             sx_return l'))))"

subsection \<open>Denials\<close>

definition record_denial_signature :: "string \<Rightarrow> string \<Rightarrow> int sec" where
  "record_denial_signature signature h =
     sx_transaction
       (sx_bind sx_get (\<lambda>s.
        sx_bind (sx_guard (known_action s h) (SecConflict ''foreign key'')) (\<lambda>_.
        let n = (case map_of (denial_rows s) signature of None \<Rightarrow> 1 | Some k \<Rightarrow> k + 1) in
        sx_bind (sx_modify (\<lambda>s. s\<lparr>denial_rows := AList.update signature n (denial_rows s)\<rparr>)) (\<lambda>_.
        sx_return n))))"

subsection \<open>Approvals\<close>

definition ensure_approval ::
  "string \<Rightarrow> string \<Rightarrow> normalized_target \<Rightarrow> string \<Rightarrow> int \<Rightarrow> (approval_row \<times> bool) sec" where
  "ensure_approval aid h target version expires =
     sx_transaction
       (sx_bind sx_get (\<lambda>s.
        sx_bind
          (case map_of (approval_rows s) h of
             Some row \<Rightarrow> sx_return (row, False)
           | None \<Rightarrow>
               (let row = \<lparr>approval_id = aid, approval_action_hash = h, approval_target = target,
                      approval_policy_version = version, approval_status = ApPending,
                      approval_expires_at = expires, approval_decided_by = None,
                      approval_reason_code = None\<rparr> in
                sx_bind (sx_guard
                    (known_action s h
                      \<and> \<not> list_ex (\<lambda>(_, r). approval_id r = aid) (approval_rows s))
                    (SecConflict ''approval row'')) (\<lambda>_.
                sx_bind (sx_modify (\<lambda>s. s\<lparr>approval_rows := AList.update h row (approval_rows s)\<rparr>)) (\<lambda>_.
                sx_return (row, True)))))
          (\<lambda>(row, created).
            if approval_target row \<noteq> target \<or> approval_policy_version row \<noteq> version
            then sx_raise (SecConflict ''approval action binding changed'')
            else sx_return (row, created))))"

definition find_approval :: "sec_store \<Rightarrow> string \<Rightarrow> (string \<times> approval_row) option" where
  "find_approval s aid = list_find (\<lambda>(h, r). approval_id r = aid) (approval_rows s)"

definition store_approval :: "string \<Rightarrow> approval_row \<Rightarrow> unit sec" where
  "store_approval h row = sx_modify (\<lambda>s. s\<lparr>approval_rows := AList.update h row (approval_rows s)\<rparr>)"

definition get_approval :: "string \<Rightarrow> int \<Rightarrow> approval_row sec" where
  "get_approval aid now =
     sx_transaction
       (sx_bind sx_get (\<lambda>s.
        case find_approval s aid of
          None \<Rightarrow> sx_raise SecKeyError
        | Some (h, row) \<Rightarrow>
            if approval_status row = ApPending \<and> approval_expires_at row \<le> now
            then
              (let row' = row\<lparr>approval_status := ApExpired\<rparr> in
               sx_bind (store_approval h row') (\<lambda>_. sx_return row'))
            else sx_return row))"

definition decide_approval ::
  "string \<Rightarrow> bool \<Rightarrow> string \<Rightarrow> string option \<Rightarrow> int \<Rightarrow> (approval_row \<times> bool) sec" where
  \<comment> \<open>the expiry is committed before \<open>ConflictError\<close> is raised, so it is outside the transaction\<close>
  "decide_approval aid approved decided_by why now =
     sx_bind (sx_guard (decided_by \<in> {''user'', ''reviewer''})
       (SecValueError ''approval decision identity is invalid'')) (\<lambda>_.
     sx_bind (sx_transaction
       (sx_bind sx_get (\<lambda>s.
        case find_approval s aid of
          None \<Rightarrow> sx_raise SecKeyError
        | Some (h, row) \<Rightarrow>
            if approval_status row = ApPending \<and> approval_expires_at row \<le> now
            then sx_bind (store_approval h (row\<lparr>approval_status := ApExpired\<rparr>)) (\<lambda>_. sx_return None)
            else
              (let desired = (if approved then ApApproved else ApDenied) in
               if approval_status row = desired then sx_return (Some (row, False))
               else if approval_status row \<noteq> ApPending
               then sx_raise (SecConflict ''approval is no longer pending'')
               else
                 (let row' = row\<lparr>approval_status := desired, approval_decided_by := Some decided_by,
                        approval_reason_code := why\<rparr> in
                  sx_bind (store_approval h row') (\<lambda>_. sx_return (Some (row', True)))))))) (\<lambda>outcome.
     case outcome of
       None \<Rightarrow> sx_raise (SecConflict ''approval has expired'')
     | Some r \<Rightarrow> sx_return r))"

definition consume_approval :: "string \<Rightarrow> string \<Rightarrow> int \<Rightarrow> bool sec" where
  "consume_approval h version now =
     sx_transaction
       (sx_bind sx_get (\<lambda>s.
        case map_of (approval_rows s) h of
          None \<Rightarrow> sx_return False
        | Some row \<Rightarrow>
            if approval_policy_version row = version \<and> approval_status row = ApApproved
              \<and> now < approval_expires_at row
            then sx_bind (store_approval h (row\<lparr>approval_status := ApConsumed\<rparr>)) (\<lambda>_. sx_return True)
            else sx_return False))"

end
