(* ===== verification/Sec_Gateway.thy ===== *)
theory Sec_Gateway
  imports Sec_Policy Sec_Store
begin

section \<open>Security: brokers, remediation, the action gateway\<close>

text \<open>
  \<open>CapabilityBroker\<close>, \<open>SecretBroker\<close> and \<open>DenialRemediator\<close> of \<open>operant/application/security.py\<close>
  and \<open>Phase45ActionGateway.guard\<close>/\<open>consume\<close> of \<open>operant/application/phase45_gateway.py\<close>, over the
  repository of \<open>Sec_Store\<close>. Clock readings and fresh identifiers are arguments.
\<close>

subsection \<open>Capability leases\<close>

definition broker_issue ::
  "int \<Rightarrow> string \<Rightarrow> timestamp \<Rightarrow> action_request \<Rightarrow> policy_evaluation \<Rightarrow> capability \<Rightarrow>
   string \<Rightarrow> int \<Rightarrow> int \<Rightarrow> capability_lease sec" where
  "broker_issue max_ttl_seconds fresh_id now action evaluation cap issuer ttl_seconds uses_allowed =
     sx_bind (sx_guard
        (eval_action_hash evaluation = action_hash action
          \<and> policy_version evaluation = action_policy_version action)
        (SecCapabilityDenied ''policy evaluation does not bind this exact action'')) (\<lambda>_.
     sx_bind (sx_guard (decision evaluation = ALLOW)
        (SecCapabilityDenied ''only an allowed action can receive a capability lease'')) (\<lambda>_.
     sx_bind (sx_guard (cap \<in> set (requested_capabilities action))
        (SecCapabilityDenied ''capability was not requested by this action'')) (\<lambda>_.
     sx_bind (sx_guard (1 \<le> ttl_seconds \<and> ttl_seconds \<le> max_ttl_seconds)
        (SecCapabilityDenied ''capability lease TTL exceeds the configured maximum'')) (\<lambda>_.
     let lease = \<lparr>lease_id = fresh_id, lease_action_hash = action_hash action,
           lease_principal = principal action, lease_capability = cap,
           lease_target = action_target action, lease_workspace_id = action_workspace_id action,
           lease_dry_run = dry_run action, issued_at = now,
           expires_at = ts_plus_seconds now ttl_seconds, max_uses = uses_allowed, uses = 0,
           lease_policy_version = action_policy_version action, issued_by = issuer,
           revoked_at = None\<rparr> in
     sx_bind (sx_guard (validate_lease lease) (SecValueError ''CapabilityLease'')) (\<lambda>_.
     issue_capability_lease lease)))))"

definition broker_consume ::
  "string \<Rightarrow> action_request \<Rightarrow> capability \<Rightarrow> timestamp \<Rightarrow> capability_lease sec" where
  "broker_consume lid action cap now =
     consume_capability_lease lid (action_hash action) (principal action) cap
       (target_id (action_target action)) now"

subsection \<open>Secrets\<close>

text \<open>The environment maps a reference to its value; the result is the lease and that binding.\<close>

definition secret_issue ::
  "(string \<rightharpoonup> string) \<Rightarrow> int \<Rightarrow> timestamp \<Rightarrow> action_request \<Rightarrow> policy_evaluation \<Rightarrow> string \<Rightarrow> int \<Rightarrow>
   sec_error + (secret_lease \<times> (string \<times> string))" where
  "secret_issue environment max_ttl_seconds now action evaluation ref ttl_seconds =
     res_bind (res_guard
        (decision evaluation = ALLOW \<and> eval_action_hash evaluation = action_hash action)
        (SecSecretUnavailable ''secret use requires an exact allowed action'')) (\<lambda>_.
     res_bind (res_guard
        (SECRET_USE \<in> set (requested_capabilities action) \<and> ref \<in> set (secret_refs action))
        (SecSecretUnavailable ''secret_ref was not authorized for this action'')) (\<lambda>_.
     res_bind (res_guard (secret_ref_ok ref \<and> 1 \<le> ttl_seconds \<and> ttl_seconds \<le> max_ttl_seconds)
        (SecSecretUnavailable ''secret request is invalid'')) (\<lambda>_.
     case environment ref of
       None \<Rightarrow> Inl (SecSecretUnavailable ''secret_ref is unavailable'')
     | Some value \<Rightarrow>
         if value = [] then Inl (SecSecretUnavailable ''secret_ref is unavailable'')
         else Inr (\<lparr>secret_ref = ref, secret_action_hash = action_hash action,
               secret_principal = principal action,
               secret_target_id = target_id (action_target action), secret_issued_at = now,
               secret_expires_at = ts_plus_seconds now ttl_seconds\<rparr>, (ref, value)))))"

subsection \<open>Denial remediation\<close>

text \<open>\<open>digest4\<close> is the hash of the four bound facts of a denial.\<close>

definition build_remediation ::
  "(string \<Rightarrow> string option \<Rightarrow> string list \<Rightarrow> string \<Rightarrow> string) \<Rightarrow> int \<Rightarrow> action_request \<Rightarrow>
   policy_evaluation \<Rightarrow> denial_remediation sec" where
  "build_remediation digest4 no_progress_threshold action evaluation =
     (let signature = digest4 (reason_code evaluation) (decisive_rule_id evaluation)
            (sort (map capability_value (requested_capabilities action)))
            (target_type (action_target action)) in
      sx_bind (record_denial_signature signature (action_hash action)) (\<lambda>count.
      sx_return
        \<lparr>denied_action_hash = action_hash action, denial_reason_code = reason_code evaluation,
         denial_policy_rule_id = decisive_rule_id evaluation,
         denied_capabilities = requested_capabilities action,
         allowed_alternatives =
           (if hard_deny evaluation then []
            else [''reduce the requested capability set'',
                  ''use a workspace-scoped or no-network target'',
                  ''request a new action with changed, lower-risk parameters'']),
         denial_signature = signature, repeated_count = count,
         no_progress = (no_progress_threshold \<le> count)\<rparr>))"

subsection \<open>The gateway\<close>

text \<open>What one call reads from outside: fresh identifiers and the clock at three points.\<close>

record guard_inputs =
  fresh_approval_id :: string
  fresh_audit_id :: "nat \<Rightarrow> string"
  fresh_lease_id :: "nat \<Rightarrow> string"
  request_time :: int
  consume_time :: int
  issue_time :: timestamp

record gateway_result =
  gw_decision :: policy_decision
  gw_reason_code :: string
  gw_approval_id :: "string option"
  gw_lease_ids :: "string list"

definition audit_entry ::
  "string \<Rightarrow> action_request \<Rightarrow> string \<Rightarrow> policy_decision option \<Rightarrow> string list \<Rightarrow> py \<Rightarrow> audit_event" where
  "audit_entry aid action event_type dec rids detail =
     \<lparr>audit_id = aid, audit_action_hash = action_hash action, audit_principal = principal action,
      audit_event_type = event_type, audit_decision = dec, audit_rule_ids = rids,
      audit_detail = detail\<rparr>"

definition approval_status_value :: "approval_status \<Rightarrow> string" where
  "approval_status_value st =
     (case st of ApPending \<Rightarrow> ''pending'' | ApApproved \<Rightarrow> ''approved'' | ApDenied \<Rightarrow> ''denied''
      | ApExpired \<Rightarrow> ''expired'' | ApConsumed \<Rightarrow> ''consumed'')"

definition resolve_ask ::
  "redact_env \<Rightarrow> policy_bundle \<Rightarrow> guard_inputs \<Rightarrow> action_request \<Rightarrow> policy_evaluation \<Rightarrow>
   (policy_evaluation \<times> string option) sec" where
  \<comment> \<open>the branch of \<open>guard\<close> for a decision that is \<open>ASK\<close>\<close>
  "resolve_ask env bundle inp action evaluation =
     sx_bind (ensure_approval (fresh_approval_id inp) (action_hash action) (action_target action)
       (action_policy_version action) (request_time inp + 600000000)) (\<lambda>(approval, created).
     sx_bind
       (if created
        then sx_bind (append_security_audit env
            (audit_entry (fresh_audit_id inp 1) action ''approval.requested'' (Some ASK) []
              (PDict [(PStr ''approval_id'', PStr (approval_id approval)),
                      (PStr ''policy_version'', PStr (action_policy_version action)),
                      (PStr ''expires_at'', PInt (approval_expires_at approval))]))) (\<lambda>_. sx_return ())
        else sx_return ()) (\<lambda>_.
     if approval_status approval = ApApproved
     then
       (let current = evaluate bundle action in
        sx_bind
          (if decision current = ASK \<and> policy_version current = approval_policy_version approval
           then consume_approval (action_hash action) (policy_version current) (consume_time inp)
           else sx_return False) (\<lambda>consumed.
        if consumed
        then
          sx_bind (append_security_audit env
            (audit_entry (fresh_audit_id inp 2) action ''approval.consumed'' (Some ALLOW) []
              (PDict [(PStr ''approval_id'', PStr (approval_id approval)),
                      (PStr ''policy_version'', PStr (policy_version current))]))) (\<lambda>_.
          sx_return (current\<lparr>decision := ALLOW, reason_code := ''approval.granted''\<rparr>,
            Some (approval_id approval)))
        else sx_return (evaluation, Some (approval_id approval))))
     else if approval_status approval \<in> {ApDenied, ApExpired, ApConsumed}
     then sx_return (evaluation\<lparr>decision := DENY,
         reason_code := ''approval.'' @ approval_status_value (approval_status approval)\<rparr>,
       Some (approval_id approval))
     else sx_return (evaluation, Some (approval_id approval))))"

definition issue_one ::
  "guard_inputs \<Rightarrow> action_request \<Rightarrow> policy_evaluation \<Rightarrow> nat \<times> capability \<Rightarrow> string sec" where
  "issue_one inp action evaluation p =
     sx_bind (broker_issue 300 (fresh_lease_id inp (fst p)) (issue_time inp) action evaluation (snd p)
       ''phase45-action-gateway'' 60 1) (\<lambda>l. sx_return (lease_id l))"

definition issue_all ::
  "guard_inputs \<Rightarrow> action_request \<Rightarrow> policy_evaluation \<Rightarrow> capability list \<Rightarrow> string list sec" where
  "issue_all inp action evaluation caps =
     sx_each (issue_one inp action evaluation) (zip [0..<length (dedup caps)] (dedup caps))"

definition guard_recorded ::
  "redact_env \<Rightarrow> policy_bundle \<Rightarrow> guard_inputs \<Rightarrow> capability list \<Rightarrow> action_request \<Rightarrow>
   (action_request \<times> gateway_result \<times> policy_evaluation) sec" where
  \<comment> \<open>\<open>guard\<close> from the recorded action on\<close>
  "guard_recorded env bundle inp caps action =
     (let evaluation = evaluate bundle action in
      sx_bind (append_security_audit env
        (audit_entry (fresh_audit_id inp 0) action ''policy.evaluated'' (Some (decision evaluation))
          (matched_rule_ids evaluation)
          (PDict [(PStr ''reason_code'', PStr (reason_code evaluation)),
                  (PStr ''risk_level'', PStr (risk_value (risk_level evaluation))),
                  (PStr ''hard_deny'', PBool (hard_deny evaluation))]))) (\<lambda>_.
      sx_bind
        (if decision evaluation = ASK then resolve_ask env bundle inp action evaluation
         else sx_return (evaluation, None)) (\<lambda>(final, aid).
      if decision final \<noteq> ALLOW
      then sx_return (action, \<lparr>gw_decision = decision final, gw_reason_code = reason_code final,
             gw_approval_id = aid, gw_lease_ids = []\<rparr>, final)
      else
        sx_bind (issue_all inp action final caps) (\<lambda>ids.
        sx_return (action, \<lparr>gw_decision = ALLOW, gw_reason_code = reason_code final,
             gw_approval_id = None, gw_lease_ids = ids\<rparr>, final)))))"

definition gateway_proposal :: "string \<Rightarrow> string \<Rightarrow> action_proposal \<Rightarrow> action_proposal" where
  \<comment> \<open>the keyword arguments \<open>guard\<close> passes on; the rest are the defaults of \<open>normalize\<close>\<close>
  "gateway_proposal who version call =
     call\<lparr>prop_principal := who, prop_policy_version := version, prop_session_id := None,
       prop_workflow_run_id := None, prop_node_run_id := None, prop_agent_instance_id := None,
       prop_data_classification := ''internal'', prop_dry_run := False\<rparr>"

definition guard ::
  "host_env \<Rightarrow> (hash_input \<Rightarrow> string) \<Rightarrow> redact_env \<Rightarrow> string \<Rightarrow> policy_bundle \<Rightarrow> guard_inputs \<Rightarrow>
   action_proposal \<Rightarrow> (action_request \<times> gateway_result \<times> policy_evaluation) sec" where
  "guard henv digest env who bundle inp call =
     sx_bind (sx_lift (normalize_action henv digest
       (gateway_proposal who (bundle_version bundle) call))) (\<lambda>action.
     sx_bind (record_security_action env action) (\<lambda>recorded.
     guard_recorded env bundle inp (prop_capabilities call) recorded))"

definition gateway_consume :: "string list \<Rightarrow> action_request \<Rightarrow> timestamp \<Rightarrow> unit sec" where
  \<comment> \<open>any failure becomes \<open>McpError("mcp.capability_lease_invalid")\<close>; leases already used stay used\<close>
  "gateway_consume lids action now =
     sx_bind (sx_each (\<lambda>lid.
       sx_bind (get_capability_lease lid) (\<lambda>l.
       broker_consume lid action (lease_capability l) now)) lids) (\<lambda>_. sx_return ())"

end
