(* ===== verification/Sec_Runs.thy ===== *)
theory Sec_Runs
  imports Sec_Gateway
begin

section \<open>Security: every interleaving of repository operations\<close>

text \<open>
  The repository is shared by the gateway, the reviewer and the approval endpoints, so what it
  promises is stated over arbitrary sequences of its operations: a lease grants no more uses than it
  has left, a revoked lease grants none, an approval moves only forward through its states and is
  consumed at most once.
\<close>

subsection \<open>Operations as data\<close>

datatype sec_op =
    OpRecordAction action_request
  | OpAudit audit_event
  | OpIssueLease capability_lease
  | OpConsumeLease string string string capability string timestamp
  | OpRevokeLease string timestamp
  | OpDenial string string
  | OpEnsureApproval string string normalized_target string int
  | OpGetApproval string int
  | OpDecideApproval string bool string "string option" int
  | OpConsumeApproval string string int

definition outcome_ok :: "('e + 'a) \<times> 's \<Rightarrow> bool \<times> 's" where
  "outcome_ok p = (case p of (Inl e, t) \<Rightarrow> (False, t) | (Inr x, t) \<Rightarrow> (True, t))"

fun sec_apply :: "redact_env \<Rightarrow> sec_op \<Rightarrow> sec_store \<Rightarrow> bool \<times> sec_store" where
  "sec_apply env (OpRecordAction a) s = outcome_ok (record_security_action env a s)"
| "sec_apply env (OpAudit e) s = outcome_ok (append_security_audit env e s)"
| "sec_apply env (OpIssueLease l) s = outcome_ok (issue_capability_lease l s)"
| "sec_apply env (OpConsumeLease lid h who cap tid now) s =
     outcome_ok (consume_capability_lease lid h who cap tid now s)"
| "sec_apply env (OpRevokeLease lid now) s = outcome_ok (revoke_capability_lease lid now s)"
| "sec_apply env (OpDenial sig h) s = outcome_ok (record_denial_signature sig h s)"
| "sec_apply env (OpEnsureApproval aid h tgt v ex) s = outcome_ok (ensure_approval aid h tgt v ex s)"
| "sec_apply env (OpGetApproval aid now) s = outcome_ok (get_approval aid now s)"
| "sec_apply env (OpDecideApproval aid ok who why now) s =
     outcome_ok (decide_approval aid ok who why now s)"
| "sec_apply env (OpConsumeApproval h v now) s =
     (case consume_approval h v now s of (Inr b, t) \<Rightarrow> (b, t) | (Inl e, t) \<Rightarrow> (False, t))"

fun sec_run :: "redact_env \<Rightarrow> sec_op list \<Rightarrow> sec_store \<Rightarrow> sec_store" where
  "sec_run env [] s = s"
| "sec_run env (op # ops) s = sec_run env ops (snd (sec_apply env op s))"

fun granted :: "redact_env \<Rightarrow> (sec_op \<Rightarrow> bool) \<Rightarrow> sec_op list \<Rightarrow> sec_store \<Rightarrow> nat" where
  \<comment> \<open>how many operations of the given kind succeed in the run\<close>
  "granted env kind [] s = 0"
| "granted env kind (op # ops) s =
     (if kind op \<and> fst (sec_apply env op s) then 1 else 0)
     + granted env kind ops (snd (sec_apply env op s))"

fun consumes_lease :: "string \<Rightarrow> sec_op \<Rightarrow> bool" where
  "consumes_lease lid (OpConsumeLease l h who cap tid now) = (l = lid)"
| "consumes_lease lid _ = False"

fun consumes_approval :: "string \<Rightarrow> sec_op \<Rightarrow> bool" where
  "consumes_approval h (OpConsumeApproval h' v now) = (h' = h)"
| "consumes_approval h _ = False"

lemma snd_outcome_ok [simp]: "snd (outcome_ok p) = snd p"
  by (auto simp: outcome_ok_def split: prod.splits sum.splits)

lemma fst_outcome_ok: "fst (outcome_ok p) \<longleftrightarrow> (\<exists>x. fst p = Inr x)"
  by (auto simp: outcome_ok_def split: prod.splits sum.splits)

subsection \<open>Leases\<close>

text \<open>
  What an operation may do to the row of a lease: nothing, or fix its revocation time once; or, when
  it is a successful consumption of that lease, count one use of a live row.
\<close>

definition lease_kept :: "string \<Rightarrow> sec_store \<Rightarrow> sec_store \<Rightarrow> bool" where
  "lease_kept lid s t \<longleftrightarrow>
     (\<forall>l. map_of (lease_rows s) lid = Some l \<longrightarrow>
        (\<exists>r. map_of (lease_rows t) lid = Some (l\<lparr>revoked_at := r\<rparr>)
           \<and> (revoked_at l \<noteq> None \<longrightarrow> r = revoked_at l)))"

lemma lease_kept_refl: "lease_kept lid s s"
  unfolding lease_kept_def by (metis capability_lease.surjective capability_lease.update_convs(14))

lemma lease_keptI:
  assumes "\<And>l. map_of (lease_rows s) lid = Some l \<Longrightarrow>
    \<exists>r. map_of (lease_rows t) lid = Some (l\<lparr>revoked_at := r\<rparr>) \<and> (revoked_at l \<noteq> None \<longrightarrow> r = revoked_at l)"
  shows "lease_kept lid s t"
  using assms unfolding lease_kept_def by blast

lemma lease_kept_trans:
  assumes "lease_kept lid s t" and "lease_kept lid t u"
  shows "lease_kept lid s u"
proof (rule lease_keptI)
  fix l assume "map_of (lease_rows s) lid = Some l"
  with assms(1) obtain r where t: "map_of (lease_rows t) lid = Some (l\<lparr>revoked_at := r\<rparr>)"
    and r: "revoked_at l \<noteq> None \<longrightarrow> r = revoked_at l" unfolding lease_kept_def by blast
  from assms(2) t obtain r' where
    u: "map_of (lease_rows u) lid = Some ((l\<lparr>revoked_at := r\<rparr>)\<lparr>revoked_at := r'\<rparr>)"
    and r': "r \<noteq> None \<longrightarrow> r' = r" unfolding lease_kept_def by fastforce
  from u r r' show "\<exists>r. map_of (lease_rows u) lid = Some (l\<lparr>revoked_at := r\<rparr>)
    \<and> (revoked_at l \<noteq> None \<longrightarrow> r = revoked_at l)"
    by (intro exI [of _ r']) auto
qed

interpretation leases: kept_relation "lease_kept lid"
  by unfold_locales (auto intro: lease_kept_refl lease_kept_trans)

lemma lease_kept_same: "lease_rows t = lease_rows s \<Longrightarrow> lease_kept lid s t"
  using lease_kept_refl [of lid s] by (simp add: lease_kept_def)

lemma lease_kept_append: "lease_rows t = lease_rows s @ added \<Longrightarrow> lease_kept lid s t"
  using lease_kept_refl [of lid s] by (auto simp: lease_kept_def map_add_def)

lemmas lease_modify = keeps_modify [where R = "lease_kept lid" for lid]

lemma lease_record: "keeps (lease_kept lid) (record_security_action env a)"
  unfolding record_security_action_def insert_action_def
  by (intro leases.keeps_rules lease_modify lease_kept_same) simp_all

lemma lease_audit: "keeps (lease_kept lid) (append_security_audit env e)"
  unfolding append_security_audit_def
  by (intro leases.keeps_rules lease_modify lease_kept_same) simp_all

lemma lease_issue: "keeps (lease_kept lid) (issue_capability_lease l)"
  unfolding issue_capability_lease_def
  by (intro leases.keeps_rules lease_modify lease_kept_append) simp_all

lemma lease_denial: "keeps (lease_kept lid) (record_denial_signature sig h)"
  unfolding record_denial_signature_def
  by (intro leases.keeps_rules lease_modify lease_kept_same) simp_all

lemma lease_ensure: "keeps (lease_kept lid) (ensure_approval aid h tgt v ex)"
  unfolding ensure_approval_def
  by (intro leases.keeps_rules lease_modify lease_kept_same) simp_all

lemma lease_get_approval: "keeps (lease_kept lid) (get_approval aid now)"
  unfolding get_approval_def store_approval_def
  by (intro leases.keeps_rules lease_modify lease_kept_same) simp_all

lemma lease_decide: "keeps (lease_kept lid) (decide_approval aid ok who why now)"
  unfolding decide_approval_def store_approval_def
  by (intro leases.keeps_rules lease_modify lease_kept_same) simp_all

lemma lease_consume_approval: "keeps (lease_kept lid) (consume_approval h v now)"
  unfolding consume_approval_def store_approval_def
  by (intro leases.keeps_rules lease_modify lease_kept_same) simp_all

lemma lease_unrevised:
  "\<exists>r. l = l\<lparr>revoked_at := r\<rparr> \<and> ((\<exists>y. revoked_at l = Some y) \<longrightarrow> r = revoked_at l)"
  by (rule exI [of _ "revoked_at l"]) simp

lemma lease_revoke: "keeps (lease_kept lid) (revoke_capability_lease l now)"
  by (rule keepsI, rule lease_keptI)
    (auto simp: revoke_capability_lease_def sx_simps map_of_update Let_def lease_unrevised
      split: option.splits)

lemma lease_consume_cases:
  assumes "consume_capability_lease l h who cap tid now s = (r, t)"
  obtains (refused) e where "r = Inl e" "t = s"
  | (used) row where "map_of (lease_rows s) l = Some row" "lease_usable row h who cap tid now"
      "r = Inr (row\<lparr>uses := uses row + 1\<rparr>)"
      "t = s\<lparr>lease_rows := AList.update l (row\<lparr>uses := uses row + 1\<rparr>) (lease_rows s)\<rparr>"
  using assms
  by (auto simp: consume_capability_lease_def sx_simps Let_def split: option.splits if_splits)

lemma lease_apply_other:
  assumes "\<not> (consumes_lease lid op \<and> fst (sec_apply env op s))"
  shows "lease_kept lid s (snd (sec_apply env op s))"
proof (cases op)
  case (OpConsumeLease l h who cap tid now)
  obtain r t where rt: "consume_capability_lease l h who cap tid now s = (r, t)" by fastforce
  from rt show ?thesis
  proof (cases rule: lease_consume_cases)
    case (used row)
    with OpConsumeLease rt assms have "l \<noteq> lid" by (auto simp: fst_outcome_ok)
    with used OpConsumeLease rt show ?thesis
      by (auto intro!: lease_keptI simp: map_of_update lease_unrevised)
  qed (use OpConsumeLease rt in \<open>simp add: lease_kept_refl\<close>)
next
  case (OpConsumeApproval h v now)
  then show ?thesis
    using lease_consume_approval [of lid h v now]
    by (auto simp: keeps_def split: prod.splits sum.splits dest: spec [of _ s])
qed (simp_all add: lease_record lease_audit lease_issue lease_revoke lease_denial lease_ensure
  lease_get_approval lease_decide keepsD [OF _ surjective_pairing])

lemma lease_apply_use:
  assumes "consumes_lease lid op" and "fst (sec_apply env op s)"
    and "map_of (lease_rows s) lid = Some l"
  shows "revoked_at l = None" and "uses l < max_uses l"
    and "map_of (lease_rows (snd (sec_apply env op s))) lid = Some (l\<lparr>uses := uses l + 1\<rparr>)"
proof -
  obtain h who cap tid now where op: "op = OpConsumeLease lid h who cap tid now"
    using assms(1) by (cases op) auto
  obtain r t where rt: "consume_capability_lease lid h who cap tid now s = (r, t)" by fastforce
  have "\<not> (\<exists>e. r = Inl e)" using assms(2) rt op by (auto simp: fst_outcome_ok)
  with rt assms(3) have "lease_usable l h who cap tid now
    \<and> map_of (lease_rows t) lid = Some (l\<lparr>uses := uses l + 1\<rparr>)"
    by (cases rule: lease_consume_cases) (auto simp: map_of_update)
  with rt op show "revoked_at l = None" and "uses l < max_uses l"
    and "map_of (lease_rows (snd (sec_apply env op s))) lid = Some (l\<lparr>uses := uses l + 1\<rparr>)"
    by (auto simp: lease_usable_def)
qed

lemma lease_run_accounting:
  assumes "map_of (lease_rows s) lid = Some l" and "uses l \<le> max_uses l"
  shows "\<exists>r. map_of (lease_rows (sec_run env ops s)) lid =
             Some (l\<lparr>uses := uses l + int (granted env (consumes_lease lid) ops s), revoked_at := r\<rparr>)
           \<and> (revoked_at l \<noteq> None \<longrightarrow> r = revoked_at l)"
    and "int (granted env (consumes_lease lid) ops s) \<le> max_uses l - uses l"
    and "revoked_at l \<noteq> None \<Longrightarrow> granted env (consumes_lease lid) ops s = 0"
proof -
  have "(\<exists>r. map_of (lease_rows (sec_run env ops s)) lid =
             Some (l\<lparr>uses := uses l + int (granted env (consumes_lease lid) ops s), revoked_at := r\<rparr>)
           \<and> (revoked_at l \<noteq> None \<longrightarrow> r = revoked_at l))
    \<and> int (granted env (consumes_lease lid) ops s) \<le> max_uses l - uses l
    \<and> (revoked_at l \<noteq> None \<longrightarrow> granted env (consumes_lease lid) ops s = 0)"
    using assms
  proof (induction ops arbitrary: s l)
    case Nil
    then show ?case by (auto intro: exI [of _ "revoked_at l"])
  next
    case (Cons op ops)
    show ?case
    proof (cases "consumes_lease lid op \<and> fst (sec_apply env op s)")
      case True
      then have use: "revoked_at l = None" "uses l < max_uses l"
        and row: "map_of (lease_rows (snd (sec_apply env op s))) lid = Some (l\<lparr>uses := uses l + 1\<rparr>)"
        using lease_apply_use [of lid op env s l] Cons.prems by auto
      let ?n = "granted env (consumes_lease lid) ops (snd (sec_apply env op s))"
      from True have n: "granted env (consumes_lease lid) (op # ops) s = Suc ?n" by simp
      from Cons.IH [OF row] use(2) obtain r where
        "map_of (lease_rows (sec_run env ops (snd (sec_apply env op s)))) lid =
           Some (l\<lparr>uses := uses l + 1, uses := uses l + 1 + int ?n, revoked_at := r\<rparr>)"
        and "int ?n \<le> max_uses l - (uses l + 1)" by auto
      then have "map_of (lease_rows (sec_run env (op # ops) s)) lid =
           Some (l\<lparr>uses := uses l + int (Suc ?n), revoked_at := r\<rparr>)"
        and "int (Suc ?n) \<le> max_uses l - uses l" by (simp_all add: algebra_simps)
      with use(1) show ?thesis unfolding n by blast
    next
      case False
      from lease_apply_other [OF False] Cons.prems(1) obtain r where
        row: "map_of (lease_rows (snd (sec_apply env op s))) lid = Some (l\<lparr>revoked_at := r\<rparr>)"
        and r: "revoked_at l \<noteq> None \<longrightarrow> r = revoked_at l"
        unfolding lease_kept_def by blast
      from False have "granted env (consumes_lease lid) (op # ops) s =
        granted env (consumes_lease lid) ops (snd (sec_apply env op s))" by auto
      moreover from Cons.IH [OF row] Cons.prems(2) r
      have "int (granted env (consumes_lease lid) ops (snd (sec_apply env op s))) \<le> max_uses l - uses l"
        and "revoked_at l \<noteq> None \<longrightarrow> granted env (consumes_lease lid) ops (snd (sec_apply env op s)) = 0"
        by simp_all
      moreover from Cons.IH [OF row] Cons.prems(2) r obtain r' where
        "map_of (lease_rows (sec_run env ops (snd (sec_apply env op s)))) lid =
           Some (l\<lparr>uses := uses l + int (granted env (consumes_lease lid) ops (snd (sec_apply env op s))),
             revoked_at := r'\<rparr>)" and "revoked_at l \<noteq> None \<longrightarrow> r' = revoked_at l"
        by auto
      ultimately show ?thesis unfolding sec_run.simps by metis
    qed
  qed
  then show "\<exists>r. map_of (lease_rows (sec_run env ops s)) lid =
             Some (l\<lparr>uses := uses l + int (granted env (consumes_lease lid) ops s), revoked_at := r\<rparr>)
           \<and> (revoked_at l \<noteq> None \<longrightarrow> r = revoked_at l)"
    and "int (granted env (consumes_lease lid) ops s) \<le> max_uses l - uses l"
    and "revoked_at l \<noteq> None \<Longrightarrow> granted env (consumes_lease lid) ops s = 0"
    by blast+
qed

end
