(* ===== verification/Sec_Approvals.thy ===== *)
theory Sec_Approvals
  imports Sec_Runs
begin

section \<open>Security: the life of an approval\<close>

text \<open>
  An approval row is created pending, is decided once or expires, and an approved one is consumed
  once; its binding (identifier, action, target, policy version, deadline) never changes. The
  transition relation \<open>approval_next\<close> is the specification; every operation of the repository moves
  every row along it or leaves it alone.
\<close>

inductive approval_next :: "approval_status \<Rightarrow> approval_status \<Rightarrow> bool" where
  approve: "approval_next ApPending ApApproved"
| deny: "approval_next ApPending ApDenied"
| expire: "approval_next ApPending ApExpired"
| consume: "approval_next ApApproved ApConsumed"

code_pred approval_next .

inductive_simps approval_next_from [simp]:
  "approval_next ApPending b"
  "approval_next ApApproved b"
  "approval_next ApDenied b"
  "approval_next ApExpired b"
  "approval_next ApConsumed b"

definition same_binding :: "approval_row \<Rightarrow> approval_row \<Rightarrow> bool" where
  "same_binding r r' \<longleftrightarrow>
     approval_id r' = approval_id r \<and> approval_action_hash r' = approval_action_hash r
     \<and> approval_target r' = approval_target r
     \<and> approval_policy_version r' = approval_policy_version r
     \<and> approval_expires_at r' = approval_expires_at r"

definition approval_forward :: "string \<Rightarrow> sec_store \<Rightarrow> sec_store \<Rightarrow> bool" where
  \<comment> \<open>the row of an action is kept, and its status moves only forward\<close>
  "approval_forward h s t \<longleftrightarrow>
     (\<forall>r. map_of (approval_rows s) h = Some r \<longrightarrow>
        (\<exists>r'. map_of (approval_rows t) h = Some r' \<and> same_binding r r'
            \<and> approval_next\<^sup>*\<^sup>* (approval_status r) (approval_status r')))"

definition approvals_ok :: "sec_store \<Rightarrow> bool" where
  "approvals_ok s \<longleftrightarrow> distinct (map fst (approval_rows s))"

definition approval_kept :: "string \<Rightarrow> sec_store \<Rightarrow> sec_store \<Rightarrow> bool" where
  "approval_kept h s t \<longleftrightarrow> (approvals_ok s \<longrightarrow> approvals_ok t \<and> approval_forward h s t)"

lemma same_binding_refl [simp]: "same_binding r r"
  by (simp add: same_binding_def)

lemma same_binding_trans: "same_binding a b \<Longrightarrow> same_binding b c \<Longrightarrow> same_binding a c"
  by (simp add: same_binding_def)

lemma approval_forward_refl [simp]: "approval_forward h s s"
  by (auto simp: approval_forward_def)

lemma approval_forward_trans:
  "approval_forward h s t \<Longrightarrow> approval_forward h t u \<Longrightarrow> approval_forward h s u"
  unfolding approval_forward_def by (meson rtranclp_trans same_binding_trans)

interpretation approvals: kept_relation "approval_kept h"
  by unfold_locales (auto simp: approval_kept_def intro: approval_forward_trans)

lemma approval_same: "approval_rows t = approval_rows s \<Longrightarrow> approval_kept h s t"
  by (auto simp: approval_kept_def approvals_ok_def approval_forward_def)

lemmas approval_modify = keeps_modify [where R = "approval_kept h" for h]

text \<open>Storing a row under the key where it was found.\<close>

lemma approval_stored:
  assumes "map_of (approval_rows s) k = Some r" and "same_binding r r'"
    and "approval_next\<^sup>*\<^sup>* (approval_status r) (approval_status r')"
  shows "approval_kept h s (s\<lparr>approval_rows := AList.update k r' (approval_rows s)\<rparr>)"
  using assms
  by (auto simp: approval_kept_def approvals_ok_def approval_forward_def map_of_update
      intro: distinct_update)

lemma approval_inserted:
  assumes "map_of (approval_rows s) k = None"
  shows "approval_kept h s (s\<lparr>approval_rows := AList.update k r (approval_rows s)\<rparr>)"
  using assms
  by (auto simp: approval_kept_def approvals_ok_def approval_forward_def map_of_update
      intro: distinct_update)

lemma find_approval_map_of:
  "approvals_ok s \<Longrightarrow> find_approval s aid = Some (h, r) \<Longrightarrow> map_of (approval_rows s) h = Some r"
  by (auto simp: find_approval_def approvals_ok_def dest!: list_find_SomeD)

lemma approval_keptI: "(approvals_ok s \<Longrightarrow> approval_kept h s t) \<Longrightarrow> approval_kept h s t"
  by (auto simp: approval_kept_def)

lemma approval_record: "keeps (approval_kept h) (record_security_action env a)"
  unfolding record_security_action_def insert_action_def
  by (intro approvals.keeps_rules approval_modify approval_same) simp_all

lemma approval_audit: "keeps (approval_kept h) (append_security_audit env e)"
  unfolding append_security_audit_def
  by (intro approvals.keeps_rules approval_modify approval_same) simp_all

lemma approval_issue: "keeps (approval_kept h) (issue_capability_lease l)"
  unfolding issue_capability_lease_def
  by (intro approvals.keeps_rules approval_modify approval_same) simp_all

lemma approval_lease_use: "keeps (approval_kept h) (consume_capability_lease lid a who cap tid now)"
  unfolding consume_capability_lease_def
  by (intro approvals.keeps_rules approval_modify approval_same) simp_all

lemma approval_revoke: "keeps (approval_kept h) (revoke_capability_lease lid now)"
  unfolding revoke_capability_lease_def
  by (intro approvals.keeps_rules approval_modify approval_same) simp_all

lemma approval_denial: "keeps (approval_kept h) (record_denial_signature sig a)"
  unfolding record_denial_signature_def
  by (intro approvals.keeps_rules approval_modify approval_same) simp_all

lemma approval_get: "keeps (approval_kept h) (get_approval aid now)"
proof (rule keepsI, rule approval_keptI)
  fix s assume ok: "approvals_ok s"
  show "approval_kept h s (snd (get_approval aid now s))"
    using find_approval_map_of [OF ok, of aid]
    by (auto simp: get_approval_def store_approval_def sx_simps Let_def same_binding_def
        intro!: approvals.kept_refl approval_stored split: option.splits)
qed

lemma approval_ensure: "keeps (approval_kept h) (ensure_approval aid a tgt v ex)"
  by (rule keepsI)
    (auto simp: ensure_approval_def sx_simps Let_def
      intro!: approvals.kept_refl approval_inserted split: option.splits prod.splits sum.splits)

lemma approval_decide: "keeps (approval_kept h) (decide_approval aid ok who why now)"
proof (rule keepsI, rule approval_keptI)
  fix s assume "approvals_ok s"
  then show "approval_kept h s (snd (decide_approval aid ok who why now s))"
    using find_approval_map_of [of s aid]
    by (auto simp: decide_approval_def store_approval_def sx_simps Let_def same_binding_def
        intro!: approvals.kept_refl approval_stored split: option.splits)
qed

lemma consume_approval_cases:
  assumes "consume_approval a v now s = (r, t)"
  obtains (refused) "r = Inr False" "t = s"
  | (used) row where "map_of (approval_rows s) a = Some row" "r = Inr True"
      "approval_policy_version row = v" "approval_status row = ApApproved" "now < approval_expires_at row"
      "t = s\<lparr>approval_rows := AList.update a (row\<lparr>approval_status := ApConsumed\<rparr>) (approval_rows s)\<rparr>"
  using assms
  by (auto simp: consume_approval_def store_approval_def sx_simps split: option.splits if_splits)

lemma approval_consume: "keeps (approval_kept h) (consume_approval a v now)"
proof (rule keepsI)
  fix s
  obtain r t where rt: "consume_approval a v now s = (r, t)" by fastforce
  then have "approval_kept h s t"
    by (cases rule: consume_approval_cases)
      (auto simp: same_binding_def intro!: approvals.kept_refl approval_stored)
  with rt show "approval_kept h s (snd (consume_approval a v now s))" by simp
qed

lemma approval_apply: "approval_kept h s (snd (sec_apply env op s))"
proof (cases op)
  case (OpConsumeApproval a v now)
  obtain r t where rt: "consume_approval a v now s = (r, t)" by fastforce
  with keepsD [OF approval_consume [of h a v now] rt] OpConsumeApproval show ?thesis
    by (cases r) simp_all
qed (simp_all add: approval_record approval_audit approval_issue approval_lease_use approval_revoke
  approval_denial approval_ensure approval_get approval_decide keepsD [OF _ surjective_pairing])

lemma approval_run: "approval_kept h s (sec_run env ops s)"
  by (induction ops arbitrary: s) (auto intro: approvals.kept_refl approvals.kept_trans approval_apply)

subsection \<open>Consumed once\<close>

lemma approval_consumed_stuck: "approval_next\<^sup>*\<^sup>* ApConsumed b \<longleftrightarrow> b = ApConsumed"
  by (auto elim: converse_rtranclpE)

lemma consume_op_cases:
  assumes "consumes_approval h op" and "fst (sec_apply env op s)"
  obtains row where "map_of (approval_rows s) h = Some row" "approval_status row = ApApproved"
    "map_of (approval_rows (snd (sec_apply env op s))) h = Some (row\<lparr>approval_status := ApConsumed\<rparr>)"
proof -
  obtain v now where op: "op = OpConsumeApproval h v now" using assms(1) by (cases op) auto
  obtain r t where rt: "consume_approval h v now s = (r, t)" by fastforce
  then show ?thesis
  proof (cases rule: consume_approval_cases)
    case (used row)
    with op rt show ?thesis by (intro that [of row]) (simp_all add: map_of_update)
  qed (use assms(2) op rt in simp)
qed

lemma consumed_grants_nothing:
  assumes "approvals_ok s" and "map_of (approval_rows s) h = Some r" and "approval_status r = ApConsumed"
  shows "granted env (consumes_approval h) ops s = 0"
  using assms
proof (induction ops arbitrary: s r)
  case (Cons op ops)
  have refuse: "\<not> (consumes_approval h op \<and> fst (sec_apply env op s))"
    using Cons.prems by (auto elim!: consume_op_cases)
  from approval_apply [of h s env op] Cons.prems obtain r' where
    "approvals_ok (snd (sec_apply env op s))"
    and "map_of (approval_rows (snd (sec_apply env op s))) h = Some r'"
    and "approval_status r' = ApConsumed"
    by (auto simp: approval_kept_def approval_forward_def approval_consumed_stuck)
  with Cons.IH refuse show ?case by simp
qed simp

lemma granted_approval_le_1:
  "approvals_ok s \<Longrightarrow> granted env (consumes_approval h) ops s \<le> 1"
proof (induction ops arbitrary: s)
  case (Cons op ops)
  have ok: "approvals_ok (snd (sec_apply env op s))"
    using approval_apply [of h s env op] Cons.prems by (simp add: approval_kept_def)
  show ?case
  proof (cases "consumes_approval h op \<and> fst (sec_apply env op s)")
    case True
    then obtain row where
      "map_of (approval_rows (snd (sec_apply env op s))) h = Some (row\<lparr>approval_status := ApConsumed\<rparr>)"
      by (auto elim: consume_op_cases)
    from consumed_grants_nothing [OF ok this] True show ?thesis by simp
  qed (use Cons.IH [OF ok] in auto)
qed simp

end
