(* ===== verification/Sec_Review.thy ===== *)
theory Sec_Review
  imports Sec_Approvals
begin

section \<open>Security: review of an ASK by a model\<close>

text \<open>
  \<open>ApprovalReviewerAdapter.review\<close> (\<open>operant/application/security.py\<close>),
  \<open>ApprovalModelReviewer.review\<close> (\<open>operant/application/approval_review.py\<close>) and the background
  task \<open>automatic_review\<close> of \<open>operant/api_phase45.py\<close>, which turns a verdict into a decision of the
  approval. What the provider answers (profile lookup, model discovery, the streamed response, JSON
  parsing) is the record \<open>review_provider\<close>; a raise or a timeout there is \<open>None\<close>. Cancellation of
  the task is not modelled.
\<close>

subsection \<open>Verdicts\<close>

record reviewer_decision =
  verdict :: policy_decision
  verdict_reason :: string
  verdict_summary :: string

definition validate_reviewer_decision :: "reviewer_decision \<Rightarrow> bool" where
  "validate_reviewer_decision d \<longleftrightarrow>
     len_within 1 200 (verdict_reason d) \<and> len_within 1 1000 (verdict_summary d)
     \<and> verdict d \<noteq> ASK"

definition wire_decision :: "string \<Rightarrow> policy_decision option" where
  "wire_decision d =
     (if d = ''allow'' then Some ALLOW else if d = ''deny'' then Some DENY
      else if d = ''ask'' then Some ASK else None)"

definition checked_verdict :: "reviewer_decision \<Rightarrow> reviewer_decision option" where
  "checked_verdict rd = (if validate_reviewer_decision rd then Some rd else None)"

definition parse_verdict :: "py \<Rightarrow> reviewer_decision option" where
  \<comment> \<open>\<open>ReviewerDecision.model_validate\<close> of a decoded payload; extra fields are forbidden\<close>
  "parse_verdict v =
     (case py_to_env v of
        None \<Rightarrow> None
      | Some entries \<Rightarrow>
          if set (map fst entries) \<noteq> {''decision'', ''reason_code'', ''summary''} then None
          else
            (case (map_of entries ''decision'', map_of entries ''reason_code'', map_of entries ''summary'') of
               (Some (PStr d), Some (PStr r), Some (PStr t)) \<Rightarrow>
                 (case wire_decision d of
                    None \<Rightarrow> None
                  | Some x \<Rightarrow>
                      checked_verdict \<lparr>verdict = x, verdict_reason = r, verdict_summary = t\<rparr>)
             | _ \<Rightarrow> None))"

subsection \<open>The adapter\<close>

definition py_strs :: "string list \<Rightarrow> py" where
  "py_strs xs = PList (map PStr xs)"

definition adapter_facts :: "action_request \<Rightarrow> policy_evaluation \<Rightarrow> py" where
  "adapter_facts action evaluation =
     PDict [(PStr ''action_hash'', PStr (action_hash action)),
       (PStr ''principal'', PStr (principal action)), (PStr ''tool'', PStr (tool action)),
       (PStr ''operation'', PStr (operation action)),
       (PStr ''target_type'', PStr (target_type (action_target action))),
       (PStr ''target_id'', PStr (target_id (action_target action))),
       (PStr ''capabilities'', py_strs (map capability_value (requested_capabilities action))),
       (PStr ''data_classification'', PStr (data_classification action)),
       (PStr ''risk_level'', PStr (risk_value (risk_level evaluation))),
       (PStr ''secret_ref_count'', PInt (int (length (secret_refs action))))]"

definition fail_closed :: reviewer_decision where
  "fail_closed = \<lparr>verdict = DENY, verdict_reason = ''reviewer_fail_closed'',
     verdict_summary = ''approval reviewer failed, timed out, or returned invalid output''\<rparr>"

definition adapter_review ::
  "redact_env \<Rightarrow> (py \<Rightarrow> py option) \<Rightarrow> action_request \<Rightarrow> policy_evaluation \<Rightarrow>
   sec_error + reviewer_decision" where
  "adapter_review env reviewer action evaluation =
     (if decision evaluation \<noteq> ASK \<or> \<not> reviewer_eligible evaluation then Inl SecPolicyDenied
      else Inr
        (case redact_public_data env 4000 100000 12 200 (adapter_facts action evaluation) of
           None \<Rightarrow> fail_closed
         | Some payload \<Rightarrow>
             (case reviewer payload of
                None \<Rightarrow> fail_closed
              | Some candidate \<Rightarrow>
                  (case parse_verdict candidate of None \<Rightarrow> fail_closed | Some d \<Rightarrow> d))))"

subsection \<open>The model reviewer\<close>

datatype review_mode = RM_OFF | RM_HUMAN | RM_AUTO
datatype strictness = CAUTIOUS | BALANCED | PERMISSIVE

record reviewer_config =
  review_mode :: review_mode
  review_profile :: "string option"
  review_strictness :: strictness
  custom_rules :: "string list"

definition validate_settings :: "redact_env \<Rightarrow> (string \<Rightarrow> bool) \<Rightarrow> reviewer_config \<Rightarrow> bool" where
  \<comment> \<open>\<open>blank\<close> decides whether a text is only white space\<close>
  "validate_settings env blank c \<longleftrightarrow>
     (case review_profile c of None \<Rightarrow> True | Some p \<Rightarrow> len_within 1 200 p)
     \<and> length (custom_rules c) \<le> 12
     \<and> (review_mode c = RM_AUTO \<longrightarrow> review_profile c \<noteq> None)
     \<and> list_all (\<lambda>r. \<not> blank r \<and> length r \<le> 500) (custom_rules c)
     \<and> list_all (\<lambda>r. redact_text env 500 r = r) (custom_rules c)"

fun auto_approval_risks :: "strictness \<Rightarrow> risk_level set" where
  "auto_approval_risks CAUTIOUS = {LOW}"
| "auto_approval_risks BALANCED = {LOW, MEDIUM}"
| "auto_approval_risks PERMISSIVE = {LOW, MEDIUM, HIGH}"

record review_attempt =
  attempt_decision :: "reviewer_decision option"
  attempt_reason :: string
  attempt_profile :: "string option"
  attempt_model :: "string option"

record review_profile_info =
  profile_key :: string
  profile_enabled :: bool
  profile_model :: string

record stream_event =
  event_kind :: string
  event_response :: "(bool \<times> string) option"

record review_provider =
  find_profile :: "string \<Rightarrow> review_profile_info option"
  list_models :: "review_profile_info \<Rightarrow> string list option"
  stream_review :: "review_profile_info \<Rightarrow> string \<Rightarrow> stream_event list option"
  dump_review :: "strictness \<Rightarrow> string list \<Rightarrow> py \<Rightarrow> string"
  parse_json :: "string \<Rightarrow> py option"
  fingerprint16 :: "string \<Rightarrow> string"

definition minimal_review_facts ::
  "redact_env \<Rightarrow> (string \<Rightarrow> string) \<Rightarrow> action_request \<Rightarrow> policy_evaluation \<Rightarrow> py option" where
  "minimal_review_facts env fp action evaluation =
     (case redact_public_data env 2000 100000 12 200
        (PDict [(PStr ''action_hash'', PStr (action_hash action)), (PStr ''tool'', PStr (tool action)),
          (PStr ''operation'', PStr (operation action)),
          (PStr ''target_type'', PStr (target_type (action_target action))),
          (PStr ''target_fingerprint'', PStr (fp (target_id (action_target action)))),
          (PStr ''capabilities'', py_strs (map capability_value (requested_capabilities action))),
          (PStr ''data_classification'', PStr (data_classification action)),
          (PStr ''risk_level'', PStr (risk_value (risk_level evaluation))),
          (PStr ''reason_code'', PStr (reason_code evaluation)),
          (PStr ''secret_ref_count'', PInt (int (length (secret_refs action)))),
          (PStr ''dry_run'', PBool (dry_run action))]) of
        Some (PDict items) \<Rightarrow> Some (PDict items)
      | _ \<Rightarrow> None)"

fun collect_response :: "stream_event list \<Rightarrow> string option \<Rightarrow> string option" where
  \<comment> \<open>\<open>collect\<close>: \<open>None\<close> is the \<open>ValueError\<close>\<close>
  "collect_response [] content =
     (case content of None \<Rightarrow> None
      | Some c \<Rightarrow> if c = [] \<or> 4000 < length c then None else Some c)"
| "collect_response (e # es) content =
     (if event_kind e \<noteq> ''model.completed'' then collect_response es content
      else
        (case event_response e of
           None \<Rightarrow> collect_response es content
         | Some (calls_tools, text) \<Rightarrow>
             if calls_tools then None else collect_response es (Some text)))"

definition undecided :: "string \<Rightarrow> string option \<Rightarrow> string option \<Rightarrow> review_attempt" where
  "undecided why pid model =
     \<lparr>attempt_decision = None, attempt_reason = why, attempt_profile = pid, attempt_model = model\<rparr>"

definition consult_model ::
  "redact_env \<Rightarrow> review_provider \<Rightarrow> action_request \<Rightarrow> policy_evaluation \<Rightarrow> reviewer_config \<Rightarrow>
   review_profile_info \<Rightarrow> reviewer_decision option" where
  \<comment> \<open>facts, request, response and its validation; \<open>None\<close> for any exception\<close>
  "consult_model env prov action evaluation config profile =
     (case minimal_review_facts env (fingerprint16 prov) action evaluation of
        None \<Rightarrow> None
      | Some facts \<Rightarrow>
          (let instruction = dump_review prov (review_strictness config)
                 (map (redact_text env 500) (custom_rules config)) facts in
           case stream_review prov profile instruction of
             None \<Rightarrow> None
           | Some events \<Rightarrow>
               (case collect_response events None of
                  None \<Rightarrow> None
                | Some content \<Rightarrow>
                    (case parse_json prov content of None \<Rightarrow> None | Some v \<Rightarrow> parse_verdict v))))"

definition review ::
  "redact_env \<Rightarrow> review_provider \<Rightarrow> action_request \<Rightarrow> policy_evaluation \<Rightarrow> reviewer_config \<Rightarrow>
   review_attempt" where
  "review env prov action evaluation config =
     (if eval_action_hash evaluation \<noteq> action_hash action
        \<or> policy_version evaluation \<noteq> action_policy_version action
      then undecided ''review_action_binding_changed'' None None
      else if decision evaluation \<noteq> ASK \<or> hard_deny evaluation \<or> \<not> reviewer_eligible evaluation
        \<or> dry_run action
      then undecided ''review_not_eligible'' None None
      else if review_mode config \<noteq> RM_AUTO
      then undecided (if review_mode config = RM_OFF then ''review_disabled'' else ''review_human'') None None
      else if risk_level evaluation \<notin> auto_approval_risks (review_strictness config)
      then undecided ''review_requires_human'' None None
      else
        (case review_profile config of
           None \<Rightarrow> undecided ''AssertionError'' None None
         | Some pid \<Rightarrow>
             (case find_profile prov pid of
                None \<Rightarrow> undecided ''review_unavailable'' (Some pid) None
              | Some profile \<Rightarrow>
                  if \<not> profile_enabled profile
                  then undecided ''review_profile_inactive'' (Some (profile_key profile)) None
                  else
                    (case list_models prov profile of
                       None \<Rightarrow> undecided ''review_unavailable'' (Some pid) None
                     | Some models \<Rightarrow>
                         if profile_model profile \<notin> set models
                         then undecided ''review_model_not_discovered'' (Some (profile_key profile)) None
                         else
                           (case consult_model env prov action evaluation config profile of
                              None \<Rightarrow> undecided ''review_unavailable'' (Some pid) None
                            | Some d \<Rightarrow>
                                if verdict d = ALLOW \<and>
                                  risk_level evaluation \<notin> auto_approval_risks (review_strictness config)
                                then undecided ''review_requires_human'' (Some (profile_key profile))
                                  (Some (profile_model profile))
                                else
                                  \<lparr>attempt_decision = Some (d\<lparr>verdict_summary :=
                                       redact_text env 500 (verdict_summary d)\<rparr>),
                                   attempt_reason = ''review_decided'',
                                   attempt_profile = Some (profile_key profile),
                                   attempt_model = Some (profile_model profile)\<rparr>)))))"

text \<open>The last check is dead code: the risk was refused before the model was asked.\<close>

lemma checked_verdict_Some: "checked_verdict rd = Some d \<Longrightarrow> d = rd \<and> verdict d \<noteq> ASK"
  by (auto simp: checked_verdict_def validate_reviewer_decision_def split: if_splits)

lemma parse_verdict_not_ask: "parse_verdict v = Some d \<Longrightarrow> verdict d \<noteq> ASK"
  by (auto simp: parse_verdict_def dest!: checked_verdict_Some
      split: option.split_asm if_split_asm py.split_asm)

lemma consult_model_not_ask: "consult_model env p a e c pr = Some d \<Longrightarrow> verdict d \<noteq> ASK"
  by (auto simp: consult_model_def Let_def split: option.splits dest: parse_verdict_not_ask)

lemma review_decided:
  assumes "attempt_decision (review env prov action evaluation config) = Some d"
  obtains pid profile models d' where
    "eval_action_hash evaluation = action_hash action"
    "policy_version evaluation = action_policy_version action"
    "decision evaluation = ASK" "\<not> hard_deny evaluation" "reviewer_eligible evaluation"
    "\<not> dry_run action" "review_mode config = RM_AUTO"
    "risk_level evaluation \<in> auto_approval_risks (review_strictness config)"
    "review_profile config = Some pid" "find_profile prov pid = Some profile"
    "profile_enabled profile" "list_models prov profile = Some models"
    "profile_model profile \<in> set models"
    "consult_model env prov action evaluation config profile = Some d'" "verdict d' = verdict d"
    "verdict d \<noteq> ASK"
proof -
  from assms have bound: "eval_action_hash evaluation = action_hash action"
    "policy_version evaluation = action_policy_version action"
    "decision evaluation = ASK" "\<not> hard_deny evaluation" "reviewer_eligible evaluation"
    "\<not> dry_run action" "review_mode config = RM_AUTO"
    "risk_level evaluation \<in> auto_approval_risks (review_strictness config)"
    by (simp_all add: review_def undecided_def split: if_splits)
  from assms bound obtain pid where pid: "review_profile config = Some pid"
    by (cases "review_profile config") (simp_all add: review_def undecided_def)
  from assms bound pid obtain profile where profile: "find_profile prov pid = Some profile"
    by (cases "find_profile prov pid") (simp_all add: review_def undecided_def)
  from assms bound pid profile have enabled: "profile_enabled profile"
    by (simp add: review_def undecided_def split: if_splits)
  from assms bound pid profile enabled obtain models where models: "list_models prov profile = Some models"
    by (cases "list_models prov profile") (simp_all add: review_def undecided_def)
  from assms bound pid profile enabled models have known: "profile_model profile \<in> set models"
    by (simp add: review_def undecided_def split: if_splits)
  from assms bound pid profile enabled models known obtain d' where
    d': "consult_model env prov action evaluation config profile = Some d'"
    by (cases "consult_model env prov action evaluation config profile")
      (simp_all add: review_def undecided_def)
  from assms bound pid profile enabled models known d' have "verdict d' = verdict d"
    by (auto simp: review_def)
  with consult_model_not_ask [OF d'] show ?thesis
    by (intro that [OF bound pid profile enabled models known d']) simp_all
qed

subsection \<open>From a verdict to a decision\<close>

text \<open>
  \<open>automatic_review\<close> awaits the model between reading the approval and deciding it, so anything may
  happen to the repository meanwhile: \<open>others\<close> is that change. \<open>settle_review\<close> is the part after the
  wait.
\<close>

definition audit_approval_decision ::
  "redact_env \<Rightarrow> string \<Rightarrow> bool \<Rightarrow> string \<Rightarrow> py_env \<Rightarrow> approval_row \<times> bool \<Rightarrow> unit sec" where
  "audit_approval_decision env fresh approved by_whom extra outcome =
     (if \<not> snd outcome then sx_return ()
      else
        sx_bind (get_security_action (approval_action_hash (fst outcome))) (\<lambda>action.
        sx_bind (append_security_audit env
          (audit_entry fresh action ''approval.decided'' (Some (if approved then ALLOW else DENY)) []
            (env_to_py ([(''approval_id'', PStr (approval_id (fst outcome))),
               (''decided_by'', PStr by_whom),
               (''reason_code'', case approval_reason_code (fst outcome) of None \<Rightarrow> PNone | Some r \<Rightarrow> PStr r)]
               @ extra)))) (\<lambda>_.
        sx_return ())))"

definition optional_entry :: "string \<Rightarrow> string option \<Rightarrow> py_env" where
  "optional_entry key v = (case v of None \<Rightarrow> [] | Some t \<Rightarrow> if t = [] then [] else [(key, PStr t)])"

definition settle_review ::
  "redact_env \<Rightarrow> policy_bundle \<Rightarrow> string \<Rightarrow> string \<Rightarrow> approval_row \<Rightarrow> action_request \<Rightarrow>
   review_attempt \<Rightarrow> int \<Rightarrow> unit sec" where
  "settle_review env bundle fresh aid pending action attempt now =
     (case attempt_decision attempt of
        None \<Rightarrow>
          sx_bind (append_security_audit env
            (audit_entry fresh action ''approval.review_deferred'' (Some ASK) []
              (env_to_py ([(''approval_id'', PStr aid), (''reason_code'', PStr (attempt_reason attempt))]
                 @ optional_entry ''model_profile_id'' (attempt_profile attempt))))) (\<lambda>_.
          sx_return ())
      | Some d \<Rightarrow>
          (let current = evaluate bundle action in
           if decision current \<noteq> ASK \<or> hard_deny current \<or> \<not> reviewer_eligible current
             \<or> policy_version current \<noteq> approval_policy_version pending
           then sx_return ()
           else
             sx_bind
               (sx_catch
                 (sx_bind (decide_approval aid (verdict d = ALLOW) ''reviewer''
                    (Some (verdict_reason d)) now) (\<lambda>r. sx_return (Some r)))
                 (\<lambda>e. case e of SecConflict _ \<Rightarrow> sx_return None | _ \<Rightarrow> sx_raise e)) (\<lambda>outcome.
             case outcome of
               None \<Rightarrow> sx_return ()
             | Some r \<Rightarrow>
                 audit_approval_decision env fresh (verdict d = ALLOW) ''reviewer''
                   (optional_entry ''review_summary'' (Some (verdict_summary d))
                    @ optional_entry ''model_profile_id'' (attempt_profile attempt)
                    @ optional_entry ''model_id'' (attempt_model attempt)) r)))"

definition automatic_review ::
  "redact_env \<Rightarrow> review_provider \<Rightarrow> policy_bundle \<Rightarrow> string \<Rightarrow> reviewer_config \<Rightarrow> string \<Rightarrow>
   int \<Rightarrow> int \<Rightarrow> (sec_store \<Rightarrow> sec_store) \<Rightarrow> unit sec" where
  "automatic_review env prov bundle fresh config aid now later others =
     sx_catch
       (sx_bind (get_approval aid now) (\<lambda>pending.
        if approval_status pending \<noteq> ApPending then sx_return ()
        else
          sx_bind (get_security_action (approval_action_hash pending)) (\<lambda>action.
          sx_catch
            (sx_bind (sx_modify others) (\<lambda>_.
             settle_review env bundle fresh aid pending action
               (review env prov action (evaluate bundle action) config) later))
            (\<lambda>_. sx_catch
               (sx_bind (append_security_audit env
                 (audit_entry fresh action ''approval.review_deferred'' (Some ASK) []
                   (env_to_py [(''approval_id'', PStr aid),
                      (''reason_code'', PStr ''review_internal_error'')]))) (\<lambda>_. sx_return ()))
               (\<lambda>_. sx_return ())))))
       (\<lambda>_. sx_return ())"

lemma decide_approval_cases:
  assumes "decide_approval aid ok who why now s = (r, t)"
  obtains (same) "t = s"
  | (expired) h row where "find_approval s aid = Some (h, row)" "approval_status row = ApPending"
      "r = Inl (SecConflict ''approval has expired'')"
      "t = s\<lparr>approval_rows := AList.update h (row\<lparr>approval_status := ApExpired\<rparr>) (approval_rows s)\<rparr>"
  | (decided) h row where "find_approval s aid = Some (h, row)" "approval_status row = ApPending"
      "now < approval_expires_at row"
      "t = s\<lparr>approval_rows := AList.update h
          (row\<lparr>approval_status := (if ok then ApApproved else ApDenied), approval_decided_by := Some who,
            approval_reason_code := why\<rparr>) (approval_rows s)\<rparr>"
proof (cases "who \<in> {''user'', ''reviewer''}")
  case who: True
  show ?thesis
  proof (cases "find_approval s aid")
    case None
    with who have "snd (decide_approval aid ok who why now s) = s"
      by (simp add: decide_approval_def sx_simps)
    with assms show ?thesis by (intro same) simp
  next
    case (Some p)
    obtain h row where p: "p = (h, row)" by fastforce
    show ?thesis
    proof (cases "approval_status row = ApPending")
      case pending: True
      note run = decide_approval_def store_approval_def sx_simps Let_def
      show ?thesis
      proof (cases "approval_expires_at row \<le> now")
        case True
        then have "decide_approval aid ok who why now s =
          (Inl (SecConflict ''approval has expired''),
           s\<lparr>approval_rows := AList.update h (row\<lparr>approval_status := ApExpired\<rparr>) (approval_rows s)\<rparr>)"
          using who Some p pending by (simp add: run)
        with assms Some p pending show ?thesis by (intro expired [of h row]) simp_all
      next
        case False
        have "snd (decide_approval aid ok who why now s) =
          s\<lparr>approval_rows := AList.update h
            (row\<lparr>approval_status := (if ok then ApApproved else ApDenied),
              approval_decided_by := Some who, approval_reason_code := why\<rparr>) (approval_rows s)\<rparr>"
          using who Some p pending False by (cases ok) (simp_all add: run)
        with assms False Some p pending show ?thesis by (intro decided [of h row]) simp_all
      qed
    next
      case False
      with who Some p have "snd (decide_approval aid ok who why now s) = s"
        by (cases "approval_status row = (if ok then ApApproved else ApDenied)")
          (simp_all add: decide_approval_def store_approval_def sx_simps Let_def)
      with assms show ?thesis by (intro same) simp
    qed
  qed
next
  case False
  then have "snd (decide_approval aid ok who why now s) = s"
    by (simp add: decide_approval_def sx_simps)
  with assms show ?thesis by (intro same) simp
qed

text \<open>Audit writes leave the approvals alone.\<close>

definition approvals_same :: "sec_store \<Rightarrow> sec_store \<Rightarrow> bool" where
  "approvals_same s t \<longleftrightarrow> approval_rows t = approval_rows s"

interpretation same_rows: kept_relation approvals_same
  by unfold_locales (simp_all add: approvals_same_def)

lemma same_rows_audit: "keeps approvals_same (append_security_audit env e)"
  unfolding append_security_audit_def
  by (intro same_rows.keeps_rules keeps_modify) (simp_all add: approvals_same_def)

lemma same_rows_action: "keeps approvals_same (get_security_action h)"
  unfolding get_security_action_def by (intro same_rows.keeps_rules)

lemma same_rows_decision: "keeps approvals_same (audit_approval_decision env fresh ok who extra r)"
  unfolding audit_approval_decision_def
  by (intro same_rows.keeps_rules same_rows_audit same_rows_action)

lemma settle_review_rows:
  assumes "approvals_ok s" and "map_of (approval_rows s) h = Some row"
    and "approval_status row = ApPending"
    and "map_of (approval_rows (snd (settle_review env bundle fresh aid pending action attempt now s))) h
      = Some row'" and "approval_status row' = ApApproved"
  obtains d where "attempt_decision attempt = Some d" "verdict d = ALLOW" "approval_id row = aid"
    "decision (evaluate bundle action) = ASK" "\<not> hard_deny (evaluate bundle action)"
    "bundle_version bundle = approval_policy_version pending" "now < approval_expires_at row"
proof -
  let ?t = "snd (settle_review env bundle fresh aid pending action attempt now s)"
  obtain d where d: "attempt_decision attempt = Some d"
  proof (cases "attempt_decision attempt")
    case None
    have "approvals_same s ?t"
      unfolding settle_review_def None option.case
      by (rule same_rows.after_bind [OF keepsD [OF same_rows_audit surjective_pairing]])
        (rule same_rows.keeps_pure)
    with assms show ?thesis by (simp add: approvals_same_def)
  qed
  let ?cur = "evaluate bundle action"
  have open_gate: "decision ?cur = ASK \<and> \<not> hard_deny ?cur
      \<and> bundle_version bundle = approval_policy_version pending"
    using assms d by (auto simp: settle_review_def sx_simps Let_def split: if_splits)
  obtain r t where dec: "decide_approval aid (verdict d = ALLOW) ''reviewer'' (Some (verdict_reason d)) now s
      = (r, t)" by fastforce
  have "approvals_same t ?t"
    using open_gate evaluate_eligible [of "bundle" action]
    by (simp add: settle_review_def d Let_def)
      (intro same_rows.after_bind same_rows.after_catch;
       auto simp: dec same_rows.kept_refl intro!: same_rows.keeps_rules same_rows_decision
        split: sec_error.splits)
  then have rows: "approval_rows ?t = approval_rows t" by (simp add: approvals_same_def)
  from dec show ?thesis
  proof (cases rule: decide_approval_cases)
    case (decided h' x)
    then have "map_of (approval_rows s) h' = Some x"
      using assms(1) find_approval_map_of by blast
    moreover have "approval_id x = aid" 
      using decided(1) by (auto simp: find_approval_def dest: list_find_SomeD)
    ultimately show ?thesis
      using decided assms rows d open_gate that
      by (auto simp: map_of_update split: if_splits)
  next
    case (expired h' x)
    then show ?thesis using assms rows by (auto simp: map_of_update split: if_splits)
  qed (use assms rows in auto)
qed

end
