(* ===== verification/Sec_Guard.thy ===== *)
theory Sec_Guard
  imports Sec_Review
begin

section \<open>Security: what the gateway grants\<close>

text \<open>
  The lemmas behind the soundness of \<open>Phase45ActionGateway.guard\<close>: what a successful
  \<open>CapabilityBroker.issue\<close> implies, that the audit leaves leases and approvals alone, and the two
  ways an action comes to be allowed.
\<close>

lemma broker_issue_Inr:
  assumes "broker_issue m fresh now a ev cap issuer ttl allowed s = (Inr l, t)"
  shows "decision ev = ALLOW" and "eval_action_hash ev = action_hash a"
    and "policy_version ev = action_policy_version a" and "cap \<in> set (requested_capabilities a)"
    and "1 \<le> ttl" and "ttl \<le> m" and "known_action s (action_hash a)"
    and "map_of (lease_rows s) fresh = None"
    and "l = \<lparr>lease_id = fresh, lease_action_hash = action_hash a,
           lease_principal = principal a, lease_capability = cap,
           lease_target = action_target a, lease_workspace_id = action_workspace_id a,
           lease_dry_run = dry_run a, issued_at = now,
           expires_at = ts_plus_seconds now ttl, max_uses = allowed, uses = 0,
           lease_policy_version = action_policy_version a, issued_by = issuer,
           revoked_at = None\<rparr>"
    and "validate_lease l"
    and "t = s\<lparr>lease_rows := lease_rows s @ [(fresh, l)]\<rparr>"
  using assms
  by (auto simp: broker_issue_def issue_capability_lease_def sx_simps Let_def split: if_splits)

definition leases_same :: "sec_store \<Rightarrow> sec_store \<Rightarrow> bool" where
  "leases_same s t \<longleftrightarrow> lease_rows t = lease_rows s"

interpretation same_leases: kept_relation leases_same
  by unfold_locales (simp_all add: leases_same_def)

lemma same_leases_audit: "keeps leases_same (append_security_audit env e)"
  unfolding append_security_audit_def
  by (intro same_leases.keeps_rules keeps_modify) (simp_all add: leases_same_def)

lemma same_leases_ensure: "keeps leases_same (ensure_approval aid h tgt v ex)"
  unfolding ensure_approval_def
  by (intro same_leases.keeps_rules keeps_modify) (simp_all add: leases_same_def)

lemma same_leases_consume_approval: "keeps leases_same (consume_approval h v now)"
  unfolding consume_approval_def store_approval_def
  by (intro same_leases.keeps_rules keeps_modify) (simp_all add: leases_same_def)

lemma same_leases_resolve: "keeps leases_same (resolve_ask env b inp a ev)"
  unfolding resolve_ask_def
  by (intro same_leases.keeps_rules same_leases_audit same_leases_ensure same_leases_consume_approval)

lemma same_rows_issue: "keeps approvals_same (issue_all inp a ev caps)"
  unfolding issue_all_def issue_one_def broker_issue_def issue_capability_lease_def
  by (intro same_rows.keeps_rules keeps_modify) (simp_all add: approvals_same_def)

lemma ensure_approval_Inr:
  assumes "ensure_approval aid h tgt v ex s = (Inr (row, created), t)"
  shows "approval_target row = tgt" and "approval_policy_version row = v"
    and "created \<Longrightarrow> approval_status row = ApPending"
    and "\<not> created \<Longrightarrow> t = s \<and> map_of (approval_rows s) h = Some row"
  using assms
  by (auto simp: ensure_approval_def sx_simps Let_def split: option.splits if_splits sum.splits prod.splits)

text \<open>The only way \<open>ASK\<close> becomes \<open>ALLOW\<close>: a decided, live approval of this binding, now consumed.\<close>

lemma resolve_ask_allows:
  assumes "resolve_ask env b inp a ev s = (Inr (final, aid), t)" and "decision final = ALLOW"
    and "decision ev = ASK"
  obtains row where "map_of (approval_rows s) (action_hash a) = Some row"
    "approval_status row = ApApproved" "approval_target row = action_target a"
    "approval_policy_version row = bundle_version b" "consume_time inp < approval_expires_at row"
    "map_of (approval_rows t) (action_hash a) = Some (row\<lparr>approval_status := ApConsumed\<rparr>)"
    "policy_version final = bundle_version b" "eval_action_hash final = action_hash a"
proof -
  let ?ens = "ensure_approval (fresh_approval_id inp) (action_hash a) (action_target a)
       (action_policy_version a) (request_time inp + 600000000)"
  from assms(1) obtain row created s1 where ens: "?ens s = (Inr (row, created), s1)"
    unfolding resolve_ask_def by (fastforce elim: sx_bind_InrE)
  note ens_facts = ensure_approval_Inr [OF ens]
  have approved: "approval_status row = ApApproved"
  proof (rule ccontr)
    assume "approval_status row \<noteq> ApApproved"
    with assms ens show False
      unfolding resolve_ask_def by (auto elim!: sx_bind_InrE simp: sx_simps split: if_splits prod.splits sum.splits)
  qed
  then have "\<not> created" using ens_facts(3) by auto
  with ens_facts(4) have s1: "s1 = s" and row: "map_of (approval_rows s) (action_hash a) = Some row"
    by blast+
  let ?cur = "evaluate b a"
  have cur: "decision ?cur = ASK \<and> policy_version ?cur = approval_policy_version row"
  proof (rule ccontr)
    assume "\<not> ?thesis"
    with assms ens approved \<open>\<not> created\<close> show False
      unfolding resolve_ask_def by (auto simp: sx_simps Let_def)
  qed
  obtain r s2 where con: "consume_approval (action_hash a) (policy_version ?cur) (consume_time inp) s = (r, s2)"
    by fastforce
  from con show ?thesis
  proof (cases rule: consume_approval_cases)
    case refused
    with assms ens approved \<open>\<not> created\<close> cur con s1 have False
      unfolding resolve_ask_def by (auto simp: sx_simps Let_def)
    then show ?thesis ..
  next
    case (used row')
    with row have row': "row' = row" by simp
    from assms(1) ens approved \<open>\<not> created\<close> cur con s1 used obtain e where
      audit: "append_security_audit env (audit_entry (fresh_audit_id inp 2) a ''approval.consumed'' (Some ALLOW) []
              (PDict [(PStr ''approval_id'', PStr (approval_id row)),
                      (PStr ''policy_version'', PStr (policy_version ?cur))])) s2 = (Inr e, t)"
      and final: "final = ?cur\<lparr>decision := ALLOW, reason_code := ''approval.granted''\<rparr>"
      unfolding resolve_ask_def by (auto simp: sx_simps Let_def split: prod.splits sum.splits)
    have "approvals_same s2 t" by (rule keepsD [OF same_rows_audit audit])
    with used row' have "map_of (approval_rows t) (action_hash a) = Some (row\<lparr>approval_status := ApConsumed\<rparr>)"
      by (simp add: approvals_same_def map_of_update)
    with row approved ens_facts(1) cur used row' final show ?thesis
      by (intro that [of row]) simp_all
  qed
qed


subsection \<open>The leases of one call\<close>

definition granted_lease ::
  "guard_inputs \<Rightarrow> action_request \<Rightarrow> capability_lease \<Rightarrow> bool" where
  \<comment> \<open>a fresh one-minute single-use lease for one requested capability of this exact action\<close>
  "granted_lease inp a l \<longleftrightarrow>
     lease_action_hash l = action_hash a \<and> lease_principal l = principal a
     \<and> lease_capability l \<in> set (requested_capabilities a) \<and> lease_target l = action_target a
     \<and> lease_policy_version l = action_policy_version a \<and> max_uses l = 1 \<and> uses l = 0
     \<and> revoked_at l = None \<and> issued_at l = issue_time inp
     \<and> expires_at l = ts_plus_seconds (issue_time inp) 60"

lemma lease_rows_prefix:
  assumes "map_of (lease_rows s) lid = Some l" and "lease_rows t = lease_rows s @ extra"
  shows "map_of (lease_rows t) lid = Some l"
  using assms by (simp add: map_add_def)

lemma issue_each_rows:
  assumes "sx_each (issue_one inp a ev) ps s = (Inr ids, t)"
  shows "\<exists>rows. lease_rows t = lease_rows s @ rows \<and> map fst rows = ids
      \<and> map (\<lambda>(i, l). lease_capability l) rows = map snd ps
      \<and> (\<forall>(lid, l) \<in> set rows. granted_lease inp a l \<and> map_of (lease_rows s) lid = None)
      \<and> distinct ids"
  using assms
proof (induction ps arbitrary: s ids)
  case Nil
  then show ?case by (simp add: sx_return_Inr)
next
  case (Cons p ps)
  obtain i c where p: "p = (i, c)" by fastforce
  from Cons.prems obtain lid s1 ids1 where one: "issue_one inp a ev p s = (Inr lid, s1)"
    and rest: "sx_each (issue_one inp a ev) ps s1 = (Inr ids1, t)" and ids0: "ids = lid # ids1"
    by (rule sx_each_ConsE)
  from one p obtain l where
    issue: "broker_issue 300 (fresh_lease_id inp i) (issue_time inp) a ev c ''phase45-action-gateway'' 60 1 s
      = (Inr l, s1)" and "lid = lease_id l"
    unfolding issue_one_def by (auto elim!: sx_bind_InrE simp: sx_return_Inr)
  with ids0 have ids: "ids = lease_id l # ids1" by simp
  from Cons.IH [OF rest] obtain rows where
    rows: "lease_rows t = lease_rows s1 @ rows" "map fst rows = ids1"
      "map (\<lambda>(i, l). lease_capability l) rows = map snd ps" "distinct ids1"
    and each: "\<And>lid l. (lid, l) \<in> set rows \<Longrightarrow> granted_lease inp a l \<and> map_of (lease_rows s1) lid = None"
    by blast
  note b = broker_issue_Inr [OF issue]
  have l: "granted_lease inp a l" "lease_id l = fresh_lease_id inp i" "lease_capability l = c"
    using b(4,9) by (simp_all add: granted_lease_def)
  have fresh: "map_of (lease_rows s1) lid = None \<Longrightarrow> map_of (lease_rows s) lid = None \<and> lid \<noteq> lease_id l" for lid
    using b(8,11) l(2) by (auto simp: map_add_None split: if_splits)
  have new: "lease_id l \<notin> set ids1"
  proof
    assume "lease_id l \<in> set ids1"
    then obtain l' where "(lease_id l, l') \<in> set rows" using rows(2) by auto
    then show False using each fresh by blast
  qed
  have "lease_rows t = lease_rows s @ ((lease_id l, l) # rows)" using rows(1) b(11) l(2) by simp
  moreover have "map fst ((lease_id l, l) # rows) = ids" using rows(2) ids by simp
  moreover have "map (\<lambda>(i, l). lease_capability l) ((lease_id l, l) # rows) = map snd (p # ps)"
    using rows(3) l(3) p by simp
  moreover have "\<forall>(lid, l) \<in> set ((lease_id l, l) # rows).
      granted_lease inp a l \<and> map_of (lease_rows s) lid = None"
    using each fresh l b(8) by auto
  moreover have "distinct ids" using ids new rows(4) by simp
  ultimately show ?case by blast
qed

lemma guard_recorded_InrE:
  assumes "guard_recorded env b inp caps a s = (Inr (a', res, final), t)"
  obtains e s1 s2 aid where
    "append_security_audit env
        (audit_entry (fresh_audit_id inp 0) a ''policy.evaluated'' (Some (decision (evaluate b a)))
          (matched_rule_ids (evaluate b a))
          (PDict [(PStr ''reason_code'', PStr (reason_code (evaluate b a))),
                  (PStr ''risk_level'', PStr (risk_value (risk_level (evaluate b a)))),
                  (PStr ''hard_deny'', PBool (hard_deny (evaluate b a)))])) s = (Inr e, s1)"
    and "(if decision (evaluate b a) = ASK then resolve_ask env b inp a (evaluate b a)
         else sx_return (evaluate b a, None)) s1 = (Inr (final, aid), s2)"
    and "a' = a"
    and "decision final \<noteq> ALLOW \<and> t = s2 \<and> gw_decision res = decision final \<and> gw_lease_ids res = []
      \<or> decision final = ALLOW \<and> gw_decision res = ALLOW
        \<and> issue_all inp a final caps s2 = (Inr (gw_lease_ids res), t)"
proof -
  let ?audit = "append_security_audit env
        (audit_entry (fresh_audit_id inp 0) a ''policy.evaluated'' (Some (decision (evaluate b a)))
          (matched_rule_ids (evaluate b a))
          (PDict [(PStr ''reason_code'', PStr (reason_code (evaluate b a))),
                  (PStr ''risk_level'', PStr (risk_value (risk_level (evaluate b a)))),
                  (PStr ''hard_deny'', PBool (hard_deny (evaluate b a)))]))"
  let ?resolve = "if decision (evaluate b a) = ASK then resolve_ask env b inp a (evaluate b a)
         else sx_return (evaluate b a, None)"
  let ?rest = "\<lambda>final aid. if decision final \<noteq> ALLOW
      then sx_return (a, \<lparr>gw_decision = decision final, gw_reason_code = reason_code final,
             gw_approval_id = aid, gw_lease_ids = []\<rparr>, final)
      else
        sx_bind (issue_all inp a final caps) (\<lambda>ids.
        sx_return (a, \<lparr>gw_decision = ALLOW, gw_reason_code = reason_code final,
             gw_approval_id = None, gw_lease_ids = ids\<rparr>, final))"
  from assms have "sx_bind ?audit (\<lambda>_. sx_bind ?resolve (\<lambda>(final, aid). ?rest final aid)) s
      = (Inr (a', res, final), t)"
    unfolding guard_recorded_def Let_def .
  then obtain e s1 where audit: "?audit s = (Inr e, s1)"
    and "sx_bind ?resolve (\<lambda>(final, aid). ?rest final aid) s1 = (Inr (a', res, final), t)"
    by (rule sx_bind_InrE)
  from this(2) obtain fa s2 where "?resolve s1 = (Inr fa, s2)"
    and "(case fa of (final, aid) \<Rightarrow> ?rest final aid) s2 = (Inr (a', res, final), t)"
    by (rule sx_bind_InrE)
  then obtain final' aid where resolve: "?resolve s1 = (Inr (final', aid), s2)"
    and last: "?rest final' aid s2 = (Inr (a', res, final), t)"
    by (cases fa) auto
  show ?thesis
  proof (cases "decision final' = ALLOW")
    case True
    with last obtain ids where "issue_all inp a final' caps s2 = (Inr ids, t)" "a' = a" "final = final'"
      "gw_decision res = ALLOW" "gw_lease_ids res = ids"
      by (auto elim!: sx_bind_InrE simp: sx_return_Inr)
    with True show ?thesis using that [OF audit] resolve by blast
  next
    case False
    with last have "a' = a" "final = final'" "t = s2" "gw_decision res = decision final'"
      "gw_lease_ids res = []"
      by (auto simp: sx_return_Inr)
    with False show ?thesis using that [OF audit] resolve by blast
  qed
qed

end
