(* ===== verification/Sec_Samples.thy ===== *)
theory Sec_Samples
  imports Sec_Guard
begin

section \<open>Security: concrete inputs\<close>

text \<open>
  Small concrete values at which the properties of the security theories are applied: a host whose
  paths are their components, a redaction that changes nothing, a request, a proposal and stores.
\<close>

definition plain_host :: host_env where
  "plain_host =
     \<lparr>resolve_strict = (\<lambda>w. Some [''ws'']), resolve_under = (\<lambda>base s. base @ split_on (CHR ''/'') s),
      str_of = (\<lambda>v. []), urlsplit = (\<lambda>u. None), urlunsplit = (\<lambda>a b c d. [])\<rparr>"

definition plain_redact :: redact_env where
  "plain_redact =
     \<lparr>redact_text = (\<lambda>n s. s), json_size = (\<lambda>v. Some 100), redact_str_of = (\<lambda>v. [])\<rparr>"

definition tool_digest :: "hash_input \<Rightarrow> string" where
  "tool_digest h = replicate 64 (if hash_tool h = ''read_file'' then CHR ''a'' else CHR ''b'')"

definition sample_proposal :: "string \<Rightarrow> string \<Rightarrow> capability list \<Rightarrow> action_proposal" where
  "sample_proposal t op caps =
     \<lparr>prop_request_id = ''req1'', prop_principal = ''agent'', prop_tool = t, prop_operation = op,
      prop_arguments = [(''path'', PStr ''a.txt'')], prop_capabilities = caps,
      prop_idempotency_key = ''k1'', prop_policy_version = ''1'', prop_workspace = Some ''/ws'',
      prop_workspace_id = Some ''w1'', prop_session_id = None, prop_workflow_run_id = None,
      prop_node_run_id = None, prop_agent_instance_id = None, prop_secret_refs = [],
      prop_data_classification = ''internal'', prop_sandbox_profile = ''isolated'',
      prop_network_profile = ''none'', prop_dry_run = False\<rparr>"

definition sample_target :: normalized_target where
  "sample_target =
     \<lparr>target_type = ''workspace'', target_id = ''w1'', target_workspace_ref = Some ''/ws/a.txt'',
      target_endpoint = None, target_host = None, target_port = None\<rparr>"

definition sample_action :: "string \<Rightarrow> string \<Rightarrow> string \<Rightarrow> capability list \<Rightarrow> py_env \<Rightarrow> action_request" where
  "sample_action h t op caps args =
     \<lparr>request_id = ''req1'', principal = ''agent'', action_session_id = None,
      action_workflow_run_id = None, action_node_run_id = None, action_agent_instance_id = None,
      tool = t, operation = op, action_target = sample_target, normalized_arguments = args,
      action_workspace_id = Some ''w1'', data_classification = ''internal'',
      requested_capabilities = caps, sandbox_profile = ''isolated'', network_profile = ''none'',
      secret_refs = [], dry_run = False, idempotency_key = ''k1'', action_hash = h,
      action_policy_version = ''1'', action_idempotency_level = UNKNOWN\<rparr>"

definition empty_sec_store :: sec_store where
  "empty_sec_store =
     \<lparr>action_rows = [], lease_rows = [], audit_rows = [], denial_rows = [], approval_rows = []\<rparr>"

definition sample_inputs :: guard_inputs where
  "sample_inputs =
     \<lparr>fresh_approval_id = ''ap1'', fresh_audit_id = (\<lambda>n. CHR ''a'' # replicate n (CHR ''x'')),
      fresh_lease_id = (\<lambda>n. CHR ''l'' # replicate n (CHR ''x'')), request_time = 0, consume_time = 10,
      issue_time = \<lparr>ts_wall = 0, ts_offset = 0\<rparr>\<rparr>"

definition sample_lease :: "timestamp \<Rightarrow> int \<Rightarrow> capability_lease" where
  "sample_lease ex n =
     \<lparr>lease_id = ''l1'', lease_action_hash = ''h'', lease_principal = ''agent'',
      lease_capability = WORKSPACE_READ, lease_target = sample_target,
      lease_workspace_id = Some ''w1'', lease_dry_run = False,
      issued_at = \<lparr>ts_wall = 0, ts_offset = 0\<rparr>, expires_at = ex, max_uses = n, uses = 0,
      lease_policy_version = ''1'', issued_by = ''broker'', revoked_at = None\<rparr>"

definition sample_approval :: "approval_status \<Rightarrow> approval_row" where
  "sample_approval st =
     \<lparr>approval_id = ''ap1'', approval_action_hash = ''h'', approval_target = sample_target,
      approval_policy_version = ''1'', approval_status = st, approval_expires_at = 100,
      approval_decided_by = None, approval_reason_code = None\<rparr>"

definition store_with :: "string \<Rightarrow> capability_lease option \<Rightarrow> approval_row option \<Rightarrow> sec_store" where
  "store_with h l ap =
     \<lparr>action_rows = [\<lparr>row_body = sample_action h ''read_file'' ''read'' [WORKSPACE_READ] [],
          row_arguments = PDict []\<rparr>],
      lease_rows = (case l of None \<Rightarrow> [] | Some x \<Rightarrow> [(lease_id x, x)]), audit_rows = [],
      denial_rows = [], approval_rows = (case ap of None \<Rightarrow> [] | Some r \<Rightarrow> [(h, r)])\<rparr>"


text \<open>The size of compact JSON text, for values whose strings need no escape.\<close>

function (sequential) json_len :: "py \<Rightarrow> nat" and json_items :: "(py \<times> py) list \<Rightarrow> nat" and json_elements :: "py list \<Rightarrow> nat" where
  "json_len (PStr s) = length s + 2"
| "json_len (PBool b) = (if b then 4 else 5)"
| "json_len (PList xs) = 1 + max 1 (json_elements xs)"
| "json_len (PDict items) = 1 + max 1 (json_items items)"
| "json_len _ = 4"
| "json_items [] = 0"
| "json_items ((k, v) # items) = json_len k + json_len v + 2 + json_items items"
| "json_elements [] = 0"
| "json_elements (x # xs) = json_len x + 1 + json_elements xs"
  by pat_completeness auto
termination
  by (relation "measure (case_sum size (case_sum (size_list (size_prod size size)) (size_list size)))") auto

definition sizing_redact :: redact_env where
  "sizing_redact =
     \<lparr>redact_text = (\<lambda>n s. s), json_size = (\<lambda>v. Some (json_len v)), redact_str_of = (\<lambda>v. [])\<rparr>"

definition big_argument :: string where
  "big_argument = replicate 12000 (CHR ''x'')"

lemma length_big_argument [simp]: "length big_argument = 12000"
  by (simp add: big_argument_def)

definition long_sudo_argv :: py_env where
  \<comment> \<open>\<open>sudo\<close> with nine arguments of 12000 characters\<close>
  "long_sudo_argv =
     [(''argv'', PList (map PStr [''sudo'', big_argument, big_argument, big_argument, big_argument,
         big_argument, big_argument, big_argument, big_argument, big_argument]))]"

subsection \<open>Evaluation at these inputs\<close>

lemmas sample_defs = sample_proposal_def sample_target_def sample_action_def empty_sec_store_def
  sample_inputs_def sample_lease_def sample_approval_def store_with_def

lemmas normalize_eval = normalize_action_def gateway_proposal_def normalize_arguments_def
  resolve_workspace_def plain_host_def check_argv_def normalize_path_key_def path_within_def
  py_text_def path_str_def normalize_url_def normalize_target_def truthy_arg_def sorted_set_def
  idempotency_level_of_def tool_digest_def build_hash_input_def action_request_valid_def
  len_within_def option_within_def normalized_target_valid_def sha256_hex_def
  validate_secret_capability_def Let_def

lemmas redact_eval = redact_public_data_def plain_redact_def env_to_py_def
  bounded_public_data.simps key_text_def is_sensitive_key_def strip_underscores_def
  key_char_def ascii_lower_def no_underscore_def sensitive_key_names_def
  sensitive_key_suffixes_def ends_with_def starts_with_def py_to_env_def Let_def

lemmas store_eval = record_security_action_def find_bound_action_def insert_action_def
  load_action_def append_security_audit_def known_action_def audit_entry_def Let_def

lemmas policy_eval = evaluate_def policy_result_def first_strict_def capability_decision_def
  min_layer_def default_rule_def rule_matches_def argv_executable_def rule_covers_def
  with_decision_def Let_def

lemmas guard_eval = guard_def guard_recorded_def issue_all_def issue_one_def broker_issue_def
  issue_capability_lease_def resolve_ask_def ensure_approval_def consume_approval_def
  store_approval_def validate_lease_def ts_plus_seconds_def ts_instant_def Let_def

definition read_only_bundle :: policy_bundle where
  "read_only_bundle =
     \<lparr>bundle_id = ''reads'', bundle_version = ''1'', default_decision = DENY,
      rules = [\<lparr>rule_id = ''r'', layer = WORKSPACE, rule_decision = ALLOW,
        capabilities = [WORKSPACE_READ], tools = [], operations = [], target_types = [],
        rule_risk_level = LOW, reason = ''reads'', hard = False\<rparr>]\<rparr>"

lemma sample_guard_run:
  "\<exists>a res final t. guard plain_host tool_digest plain_redact ''agent'' read_only_bundle sample_inputs
      (sample_proposal ''read_file'' ''read'' [WORKSPACE_READ]) empty_sec_store = (Inr (a, res, final), t)
    \<and> gw_decision res = ALLOW \<and> gw_lease_ids res = [''l'']"
  by (simp add: guard_eval normalize_eval redact_eval store_eval policy_eval sx_simps sample_defs
      read_only_bundle_def)

lemma sample_guard_refusal:
  "\<exists>a res final t. guard plain_host tool_digest plain_redact ''agent'' read_only_bundle sample_inputs
      (sample_proposal ''read_file'' ''read'' [SECRET_USE]) empty_sec_store = (Inr (a, res, final), t)
    \<and> gw_decision res = DENY"
  by (simp add: guard_eval normalize_eval redact_eval store_eval policy_eval sx_simps sample_defs
      read_only_bundle_def)

definition verdict_provider :: review_provider where
  "verdict_provider =
     \<lparr>find_profile = (\<lambda>p. Some \<lparr>profile_key = p, profile_enabled = True, profile_model = ''m''\<rparr>),
      list_models = (\<lambda>p. Some [''m'']),
      stream_review = (\<lambda>p i. Some [\<lparr>event_kind = ''model.completed'', event_response = Some (False, ''j'')\<rparr>]),
      dump_review = (\<lambda>st rs f. ''i''),
      parse_json = (\<lambda>t. Some (PDict [(PStr ''decision'', PStr ''allow''),
        (PStr ''reason_code'', PStr ''ok''), (PStr ''summary'', PStr ''fine'')])),
      fingerprint16 = (\<lambda>t. t)\<rparr>"

definition auto_config :: "strictness \<Rightarrow> reviewer_config" where
  "auto_config st = \<lparr>review_mode = RM_AUTO, review_profile = Some ''p'', review_strictness = st, custom_rules = []\<rparr>"

definition asking_bundle :: policy_bundle where
  "asking_bundle =
     \<lparr>bundle_id = ''asks'', bundle_version = ''1'', default_decision = DENY,
      rules = [\<lparr>rule_id = ''r'', layer = WORKSPACE, rule_decision = ASK,
        capabilities = [WORKSPACE_READ], tools = [], operations = [], target_types = [],
        rule_risk_level = MEDIUM, reason = ''asks'', hard = False\<rparr>]\<rparr>"

definition one_key_redact :: redact_env where
  "one_key_redact =
     \<lparr>redact_text = (\<lambda>n s. if n = 500 then ''k'' else s), json_size = (\<lambda>v. Some 10), redact_str_of = (\<lambda>v. [])\<rparr>"

lemmas review_eval = review_def consult_model_def minimal_review_facts_def redact_public_data_def
  bounded_public_data.simps key_text_def one_key_redact_def verdict_provider_def auto_config_def
  parse_verdict_def py_to_env_def wire_decision_def checked_verdict_def validate_reviewer_decision_def
  len_within_def py_strs_def Let_def

lemma one_key_safe: "\<not> is_sensitive_key ''k''"
  by (simp add: redact_eval)

lemma sample_verdict:
  "\<exists>d. attempt_decision (review one_key_redact verdict_provider
       (sample_action ''h'' ''read_file'' ''read'' [WORKSPACE_READ] [])
       (evaluate asking_bundle (sample_action ''h'' ''read_file'' ''read'' [WORKSPACE_READ] []))
       (auto_config BALANCED)) = Some d \<and> verdict d = ALLOW"
  by (simp add: review_eval policy_eval sample_defs asking_bundle_def one_key_safe)

end
