(* ===== verification/Sec_Properties.thy ===== *)
theory Sec_Properties
  imports Sec_Samples "HOL-Library.Multiset"
begin

section \<open>Security: the properties\<close>

text \<open>
  What the security components promise, each with a witness at a concrete input where it has
  hypotheses. The proofs are short because the lemmas of the component theories carry them.
\<close>

subsection \<open>Policy\<close>

text \<open>
  C4: for every valid bundle the policy engine refines its specification: a matching hard rule
  denies; otherwise each requested capability gets the strictest decision among the matching rules
  that cover it (the default when none does) and the action gets the strictest of these. In
  particular the answer depends only on the set of matching rules, not on their order, and the
  reviewer may act exactly on an \<open>ASK\<close>.
\<close>

theorem evaluate_refines:
  assumes "policy_bundle_valid b"
  shows "decision (evaluate b action) =
      required_decision (matching b action) (default_decision b) (set (requested_capabilities action))
    \<and> hard_deny (evaluate b action) = (\<exists>r \<in> matching b action. hard r)
    \<and> reviewer_eligible (evaluate b action) = (decision (evaluate b action) = ASK)"
proof (cases "\<exists>r \<in> matching b action. hard r")
  case True
  with evaluate_hard_rule [OF assms] show ?thesis
    by (auto simp: required_decision_def evaluate_eligible)
next
  case False
  with evaluate_decision_no_hard [OF False] show ?thesis
    by (simp add: required_decision_def evaluate_eligible)
qed

theorem evaluate_refines_witness:
  "decision (evaluate read_only_bundle (sample_action ''h'' ''t'' ''read'' [WORKSPACE_READ, SECRET_USE] [])) =
     required_decision (matching read_only_bundle
         (sample_action ''h'' ''t'' ''read'' [WORKSPACE_READ, SECRET_USE] [])) DENY
       {WORKSPACE_READ, SECRET_USE}"
proof -
  have valid: "policy_bundle_valid read_only_bundle"
    by (simp add: policy_bundle_valid_def read_only_bundle_def validate_hard_rule_def)
  have "default_decision read_only_bundle = DENY" by (simp add: read_only_bundle_def)
  then show ?thesis
    using evaluate_refines [OF valid, of "sample_action ''h'' ''t'' ''read'' [WORKSPACE_READ, SECRET_USE] []"]
    by (simp add: sample_action_def)
qed

text \<open>
  every evaluation can be explained: the rule named as decisive is one of the matching rules or
  the default rule, it carries the decision and its identifier is the reason given, and the rules
  listed are exactly the matching ones in bundle order.
\<close>

theorem evaluate_explained:
  "\<exists>r. (r \<in> matching b action \<or> r = default_rule b)
     \<and> decisive_rule_id (evaluate b action) = Some (rule_id r)
     \<and> decision (evaluate b action) = rule_decision r
     \<and> reason_code (evaluate b action) = rule_id r
     \<and> matched_rule_ids (evaluate b action) = map rule_id (filter (\<lambda>r. rule_matches r action) (rules b))"
proof -
  let ?m = "filter (\<lambda>r. rule_matches r action) (rules b)"
  have cap: "capability_decision b ?m c \<in> set ?m \<or> capability_decision b ?m c = default_rule b" for c
    using first_strict_in [of "filter (\<lambda>r. rule_covers r c) ?m" "default_rule b"]
    by (auto simp: capability_decision_def Let_def)
  let ?ds = "map (capability_decision b ?m) (requested_capabilities action)"
  have final: "first_strict ?ds (default_rule b) \<in> set ?m \<or> first_strict ?ds (default_rule b) = default_rule b"
  proof (cases "?ds = []")
    case True
    then show ?thesis by (simp add: first_strict_def min_layer_def)
  next
    case False
    from first_strict_in [OF this] obtain c where
      "first_strict ?ds (default_rule b) = capability_decision b ?m c" by (force simp del: set_filter)
    with cap [of c] show ?thesis by metis
  qed
  show ?thesis
  proof (cases "list_find hard ?m")
    case None
    with final show ?thesis
      by (intro exI [of _ "first_strict ?ds (default_rule b)"])
        (auto simp: evaluate_def Let_def matching_def policy_result_def)
  next
    case (Some h)
    with list_find_SomeD [OF Some] show ?thesis
      by (intro exI [of _ h]) (auto simp: evaluate_def Let_def matching_def policy_result_def)
  qed
qed

lemma balanced_table:
  assumes "requested_capabilities a \<noteq> []"
  shows "hard_deny (evaluate (balanced_policy_bundle v) a) =
      (escalates a \<or> (\<exists>c \<in> set (requested_capabilities a). c \<in> balanced_hard))
    \<and> decision (evaluate (balanced_policy_bundle v) a) =
      (if escalates a \<or> \<not> set (requested_capabilities a) \<subseteq> balanced_allow \<union> balanced_ask then DENY
       else if set (requested_capabilities a) \<subseteq> balanced_allow then ALLOW else ASK)"
proof (cases "\<exists>r \<in> matching (balanced_policy_bundle v) a. hard r")
  case True
  then obtain r where "r \<in> matching (balanced_policy_bundle v) a" "hard r" by blast
  note hard = evaluate_hard_rule [OF balanced_valid this]
  have "balanced_hard \<inter> (balanced_allow \<union> balanced_ask) = {}"
    by (simp add: balanced_hard_def balanced_allow_def balanced_ask_def)
  with True hard show ?thesis unfolding balanced_hard_match by auto
next
  case False
  let ?caps = "set (requested_capabilities a)"
  from False have no_esc: "\<not> escalates a" "\<not> (\<exists>c \<in> ?caps. c \<in> balanced_hard)"
    unfolding balanced_hard_match by auto
  let ?d = "\<lambda>c. if c \<in> balanced_allow then ALLOW else if c \<in> balanced_ask then ASK else DENY"
  have each: "strictest (covering (matching (balanced_policy_bundle v) a) c) DENY = ?d c" if "c \<in> ?caps" for c
    using balanced_covering [OF that False] by (simp add: strictest_def)
  have "decision (evaluate (balanced_policy_bundle v) a) = strictest (?d ` ?caps) DENY"
    using evaluate_decision_no_hard(1) [OF False] each by simp
  moreover have "?caps \<noteq> {}" using assms by simp
  ultimately show ?thesis
    using evaluate_decision_no_hard(2) [OF False] no_esc
    by (auto simp: strictest_def image_iff)
qed

lemmas balanced_table_hard = balanced_table [THEN conjunct1]
lemmas balanced_table_decision = balanced_table [THEN conjunct2]

text \<open>
  the balanced bundle is the table it is documented to be: privilege escalation, policy
  modification and production mutation are denied by a hard rule; otherwise an action is allowed
  exactly when every capability is on the allow list, it asks exactly when every capability is
  listed and some of them asks, and anything else is denied.
\<close>

theorem balanced_bundle_table:
  assumes "requested_capabilities a \<noteq> []"
  shows "hard_deny (evaluate (balanced_policy_bundle v) a) =
      (escalates a \<or> (\<exists>c \<in> set (requested_capabilities a). c \<in> balanced_hard))
    \<and> decision (evaluate (balanced_policy_bundle v) a) =
      (if escalates a \<or> \<not> set (requested_capabilities a) \<subseteq> balanced_allow \<union> balanced_ask then DENY
       else if set (requested_capabilities a) \<subseteq> balanced_allow then ALLOW else ASK)"
  by (rule balanced_table [OF assms])

theorem balanced_bundle_table_witness:
  "decision (evaluate (balanced_policy_bundle ''1'')
     (sample_action ''h'' ''run_command'' ''exec'' [WORKSPACE_READ, GIT_PUSH] [])) = ASK"
  by (subst balanced_bundle_table [THEN conjunct2])
    (simp_all add: sample_action_def escalates_def argv_executable_def balanced_allow_def balanced_ask_def)

subsection \<open>Normalisation\<close>

text \<open>
  C34: a normalised action is confined and well formed: every path or working directory it names is
  the resolved path of a location inside the resolved workspace, it requests a capability, its secret
  references are environment variable names and are only there when the use of secrets is requested.
\<close>

theorem normalized_action_confined:
  assumes "normalize_action env digest p = Inr a"
  shows "(\<forall>k \<in> {''path'', ''cwd''}. \<forall>v. map_of (normalized_arguments a) k = Some v \<longrightarrow>
        (\<exists>w r c. prop_workspace p = Some w \<and> resolve_strict env w = Some r
           \<and> path_within r c \<and> v = PStr (path_str c)))
    \<and> requested_capabilities a \<noteq> [] \<and> set (requested_capabilities a) = set (prop_capabilities p)
    \<and> (\<forall>ref \<in> set (secret_refs a). secret_ref_ok ref)
    \<and> (secret_refs a \<noteq> [] \<longrightarrow> SECRET_USE \<in> set (requested_capabilities a))
    \<and> sha256_hex (action_hash a)"
  using assms
proof (cases rule: normalize_action_Inr)
  case (1 args target)
  have "\<exists>w r c. prop_workspace p = Some w \<and> resolve_strict env w = Some r
           \<and> path_within r c \<and> v = PStr (path_str c)"
    if "k \<in> {''path'', ''cwd''}" and "map_of (normalized_arguments a) k = Some v" for k v
    using normalize_arguments_paths [OF 1(1) that(1)] that(2) 1(5) by simp
  moreover have "requested_capabilities a \<noteq> []" and "sha256_hex (action_hash a)"
    and "secret_refs a \<noteq> [] \<longrightarrow> SECRET_USE \<in> set (requested_capabilities a)"
    using 1(4) by (auto simp: action_request_valid_def len_within_def validate_secret_capability_def)
  moreover have "\<forall>ref \<in> set (secret_refs a). secret_ref_ok ref" using 1(3,13) by (simp add: list_all_iff)
  moreover have "set (requested_capabilities a) = set (prop_capabilities p)" using 1(12) by simp
  ultimately show ?thesis by blast
qed

theorem normalized_action_confined_witness:
  "\<exists>a. normalize_action plain_host tool_digest (sample_proposal ''read_file'' ''read'' [WORKSPACE_READ]) = Inr a
     \<and> (\<forall>v. map_of (normalized_arguments a) ''path'' = Some v \<longrightarrow> (\<exists>c. path_within [''ws''] c \<and> v = PStr (path_str c)))"
proof -
  obtain a where a: "normalize_action plain_host tool_digest
      (sample_proposal ''read_file'' ''read'' [WORKSPACE_READ]) = Inr a"
    by (simp add: normalize_eval sample_defs)
  from normalized_action_confined [OF a]
  have "\<forall>v. map_of (normalized_arguments a) ''path'' = Some v \<longrightarrow> (\<exists>c. path_within [''ws''] c \<and> v = PStr (path_str c))"
    by (fastforce simp: plain_host_def)
  with a show ?thesis by blast
qed

text \<open>
  C39: the action hash binds the action: when the digest does not collide on the two hash inputs,
  two normalised actions have the same hash exactly when they agree on principal, tool, operation,
  target, arguments, workspace, profiles, secret references, dry run, idempotency key, policy version
  and the multiset of proposed capabilities, and then they request the same capability list.
\<close>

lemma capability_value_inj: "capability_value c = capability_value d \<Longrightarrow> c = d"
  by (cases c; cases d) simp_all

lemma sorted_capabilities_eq:
  assumes "sort (map capability_value xs) = sort (map capability_value ys)"
  shows "mset xs = mset ys"
    and "sort_key capability_value (remdups xs) = sort_key capability_value (remdups ys)"
proof -
  have inj: "inj capability_value" by (rule injI) (rule capability_value_inj)
  have "image_mset capability_value (mset xs) = image_mset capability_value (mset ys)"
    using arg_cong [OF assms, of mset] by simp
  then have "image_mset (inv capability_value) (image_mset capability_value (mset xs)) =
      image_mset (inv capability_value) (image_mset capability_value (mset ys))" by simp
  then show mset: "mset xs = mset ys" using inj by (simp add: multiset.map_comp)
  have "set xs = set ys" using mset by (rule mset_eq_setD)
  then have "mset (remdups xs) = mset (remdups ys)" by (simp add: set_eq_iff_mset_remdups_eq)
  then show "sort_key capability_value (remdups xs) = sort_key capability_value (remdups ys)"
    by (rule sort_key_eq_sort_key) (rule inj_on_subset [OF inj subset_UNIV])
qed

theorem action_hash_binds:
  assumes a: "normalize_action env digest p = Inr a" and b: "normalize_action env digest q = Inr b"
    and no_collision: "inj_on digest
      {build_hash_input p (action_target a) (normalized_arguments a) (action_idempotency_level a),
       build_hash_input q (action_target b) (normalized_arguments b) (action_idempotency_level b)}"
  shows "(action_hash a = action_hash b \<longleftrightarrow>
      principal a = principal b \<and> tool a = tool b \<and> operation a = operation b
      \<and> action_target a = action_target b \<and> normalized_arguments a = normalized_arguments b
      \<and> action_workspace_id a = action_workspace_id b
      \<and> mset (prop_capabilities p) = mset (prop_capabilities q)
      \<and> sandbox_profile a = sandbox_profile b \<and> network_profile a = network_profile b
      \<and> secret_refs a = secret_refs b \<and> dry_run a = dry_run b
      \<and> idempotency_key a = idempotency_key b
      \<and> action_policy_version a = action_policy_version b)
    \<and> (action_hash a = action_hash b \<longrightarrow> requested_capabilities a = requested_capabilities b)"
proof -
  let ?ha = "build_hash_input p (action_target a) (normalized_arguments a) (action_idempotency_level a)"
  let ?hb = "build_hash_input q (action_target b) (normalized_arguments b) (action_idempotency_level b)"
  from a show ?thesis
  proof (cases rule: normalize_action_Inr)
    case A: (1 args target)
    from b show ?thesis
    proof (cases rule: normalize_action_Inr)
      case B: (1 args' target')
      have hash: "action_hash a = action_hash b \<longleftrightarrow> ?ha = ?hb"
        using A B inj_on_eq_iff [OF no_collision, of ?ha ?hb] by simp
      have caps: "sort (map capability_value (prop_capabilities p)) =
          sort (map capability_value (prop_capabilities q))
        \<longleftrightarrow> mset (prop_capabilities p) = mset (prop_capabilities q)"
        using sorted_capabilities_eq(1) by (metis mset_map sorted_list_of_multiset_mset)
      have "?ha = ?hb \<Longrightarrow> requested_capabilities a = requested_capabilities b"
        unfolding A(12) B(12) build_hash_input_def hash_input.ext_inject
        by (elim conjE, rule sorted_capabilities_eq(2))
      moreover have "prop_tool p = prop_tool q \<Longrightarrow> prop_operation p = prop_operation q \<Longrightarrow>
          normalized_arguments a = normalized_arguments b \<Longrightarrow>
          action_idempotency_level a = action_idempotency_level b"
        using A(5,18) B(5,18) by simp
      then have "?ha = ?hb \<longleftrightarrow>
          prop_principal p = prop_principal q \<and> prop_tool p = prop_tool q
          \<and> prop_operation p = prop_operation q \<and> action_target a = action_target b
          \<and> normalized_arguments a = normalized_arguments b
          \<and> prop_workspace_id p = prop_workspace_id q
          \<and> mset (prop_capabilities p) = mset (prop_capabilities q)
          \<and> prop_sandbox_profile p = prop_sandbox_profile q
          \<and> prop_network_profile p = prop_network_profile q
          \<and> sorted_set (prop_secret_refs p) = sorted_set (prop_secret_refs q)
          \<and> prop_dry_run p = prop_dry_run q \<and> prop_idempotency_key p = prop_idempotency_key q
          \<and> prop_policy_version p = prop_policy_version q"
        unfolding build_hash_input_def hash_input.ext_inject caps by blast
      ultimately show ?thesis
        using hash unfolding A(7-11,13-17) B(7-11,13-17) by simp
    qed
  qed
qed

theorem action_hash_binds_witness:
  "\<exists>a b. normalize_action plain_host tool_digest (sample_proposal ''read_file'' ''read'' [WORKSPACE_READ]) = Inr a
     \<and> normalize_action plain_host tool_digest (sample_proposal ''run_command'' ''read'' [WORKSPACE_READ]) = Inr b
     \<and> action_hash a \<noteq> action_hash b"
proof -
  obtain a where a: "normalize_action plain_host tool_digest
      (sample_proposal ''read_file'' ''read'' [WORKSPACE_READ]) = Inr a" and ta: "tool a = ''read_file''"
    by (simp add: normalize_eval sample_defs)
  obtain b where b: "normalize_action plain_host tool_digest
      (sample_proposal ''run_command'' ''read'' [WORKSPACE_READ]) = Inr b" and tb: "tool b = ''run_command''"
    by (simp add: normalize_eval sample_defs)
  have "action_hash a \<noteq> action_hash b"
    using action_hash_binds [OF a b] ta tb
    by (simp add: tool_digest_def build_hash_input_def sample_proposal_def inj_on_def)
  with a b show ?thesis by blast
qed

subsection \<open>Leases and approvals\<close>

text \<open>
  C11: in every sequence of repository operations, by whoever, a lease that exists grants at most the
  uses it has left; its counter ends at exactly the number granted, everything else of the row but the
  revocation time is as issued, and a lease that is already revoked grants nothing and stays revoked.
\<close>

theorem lease_uses_accounted:
  assumes "map_of (lease_rows s) lid = Some l" and "uses l \<le> max_uses l"
  shows "int (granted env (consumes_lease lid) ops s) \<le> max_uses l - uses l
    \<and> (revoked_at l \<noteq> None \<longrightarrow> granted env (consumes_lease lid) ops s = 0)
    \<and> (\<exists>r. map_of (lease_rows (sec_run env ops s)) lid =
          Some (l\<lparr>uses := uses l + int (granted env (consumes_lease lid) ops s), revoked_at := r\<rparr>)
        \<and> (revoked_at l \<noteq> None \<longrightarrow> r = revoked_at l))"
  using lease_run_accounting [OF assms, of env ops] by blast

theorem lease_uses_accounted_witness:
  "\<exists>r. map_of (lease_rows (sec_run plain_redact
       [OpConsumeLease ''l1'' ''h'' ''agent'' WORKSPACE_READ ''w1'' \<lparr>ts_wall = 5, ts_offset = 0\<rparr>,
        OpRevokeLease ''l1'' \<lparr>ts_wall = 6, ts_offset = 0\<rparr>,
        OpConsumeLease ''l1'' ''h'' ''agent'' WORKSPACE_READ ''w1'' \<lparr>ts_wall = 7, ts_offset = 0\<rparr>]
       (store_with ''h'' (Some (sample_lease \<lparr>ts_wall = 60, ts_offset = 0\<rparr> 2)) None))) ''l1'' =
     Some ((sample_lease \<lparr>ts_wall = 60, ts_offset = 0\<rparr> 2)\<lparr>uses := 1, revoked_at := r\<rparr>)"
proof -
  let ?l = "sample_lease \<lparr>ts_wall = 60, ts_offset = 0\<rparr> 2"
  let ?s = "store_with ''h'' (Some ?l) None"
  let ?ops = "[OpConsumeLease ''l1'' ''h'' ''agent'' WORKSPACE_READ ''w1'' \<lparr>ts_wall = 5, ts_offset = 0\<rparr>,
        OpRevokeLease ''l1'' \<lparr>ts_wall = 6, ts_offset = 0\<rparr>,
        OpConsumeLease ''l1'' ''h'' ''agent'' WORKSPACE_READ ''w1'' \<lparr>ts_wall = 7, ts_offset = 0\<rparr>]"
  have row: "map_of (lease_rows ?s) ''l1'' = Some ?l" and "uses ?l \<le> max_uses ?l" and "uses ?l = 0"
    by (simp_all add: sample_defs)
  moreover have "granted plain_redact (consumes_lease ''l1'') ?ops ?s = 1"
    by (simp add: consume_capability_lease_def revoke_capability_lease_def sx_simps outcome_ok_def
        sample_defs lease_usable_def iso_text_less_def Let_def)
  ultimately show ?thesis
    using lease_uses_accounted [of ?s "''l1''" ?l plain_redact ?ops]
    by (auto simp del: granted.simps sec_run.simps)
qed

text \<open>
  C12: an approval moves only forward (pending to approved, denied or expired; approved to consumed)
  under every sequence of repository operations, its identifier, action, target, policy version and
  deadline never change, and over the whole sequence it is consumed at most once.
\<close>

theorem approval_lifecycle:
  assumes "approvals_ok s"
  shows "granted env (consumes_approval h) ops s \<le> 1
    \<and> (\<forall>r. map_of (approval_rows s) h = Some r \<longrightarrow>
        (\<exists>r'. map_of (approval_rows (sec_run env ops s)) h = Some r' \<and> same_binding r r'
          \<and> approval_next\<^sup>*\<^sup>* (approval_status r) (approval_status r')))"
  using granted_approval_le_1 [OF assms, of env h ops] approval_run [of h s env ops] assms
  by (simp add: approval_kept_def approval_forward_def)

theorem approval_lifecycle_witness:
  "granted plain_redact (consumes_approval ''h'')
     [OpDecideApproval ''ap1'' True ''user'' None 5, OpConsumeApproval ''h'' ''1'' 6,
      OpConsumeApproval ''h'' ''1'' 7] (store_with ''h'' None (Some (sample_approval ApPending))) = 1"
proof -
  let ?s = "store_with ''h'' None (Some (sample_approval ApPending))"
  let ?ops = "[OpDecideApproval ''ap1'' True ''user'' None 5, OpConsumeApproval ''h'' ''1'' 6,
      OpConsumeApproval ''h'' ''1'' 7]"
  have "approvals_ok ?s" by (simp add: approvals_ok_def sample_defs)
  from approval_lifecycle [OF this] have "granted plain_redact (consumes_approval ''h'') ?ops ?s \<le> 1" by blast
  moreover have "fst (sec_apply plain_redact (OpConsumeApproval ''h'' ''1'' 6)
      (snd (sec_apply plain_redact (OpDecideApproval ''ap1'' True ''user'' None 5) ?s)))"
    by (simp add: decide_approval_def consume_approval_def find_approval_def store_approval_def
        sx_simps Let_def sample_defs)
  ultimately show ?thesis by simp
qed

text \<open>
  recording an action is idempotent per principal and key: when the pair was already recorded
  the repository is unchanged, and the answer is the stored action when the hashes agree and an
  idempotency conflict otherwise, so one key never stands for two different actions.
\<close>

theorem record_action_idempotent:
  assumes "find_bound_action s (principal a) (idempotency_key a) = Some row"
    and "load_action row = Inr old"
    and "redact_public_data env 12000 100000 12 200 (env_to_py (normalized_arguments a)) \<noteq> None"
  shows "record_security_action env a s =
    ((if action_hash old = action_hash a then Inr old else Inl SecIdempotencyConflict), s)"
  using assms by (auto simp: record_security_action_def sx_simps)

theorem record_action_idempotent_witness:
  "record_security_action plain_redact (sample_action ''h2'' ''run_command'' ''exec'' [GIT_PUSH] [])
     (store_with ''h'' None None) = (Inl SecIdempotencyConflict, store_with ''h'' None None)"
proof -
  let ?a = "sample_action ''h2'' ''run_command'' ''exec'' [GIT_PUSH] []"
  let ?old = "sample_action ''h'' ''read_file'' ''read'' [WORKSPACE_READ] []"
  let ?row = "\<lparr>row_body = ?old, row_arguments = PDict []\<rparr>"
  have f: "find_bound_action (store_with ''h'' None None) (principal ?a) (idempotency_key ?a) = Some ?row"
    by (simp add: find_bound_action_def sample_defs)
  have l: "load_action ?row = Inr ?old"
    by (simp add: load_action_def py_to_env_def sample_defs)
  have r: "redact_public_data plain_redact 12000 100000 12 200 (env_to_py (normalized_arguments ?a)) \<noteq> None"
    by (simp add: redact_eval sample_defs)
  show ?thesis using record_action_idempotent [OF f l r] by (simp add: sample_action_def)
qed

subsection \<open>The gateway\<close>

lemma approvals_same_record: "keeps approvals_same (record_security_action env a)"
  unfolding record_security_action_def insert_action_def
  by (intro same_rows.keeps_rules keeps_modify) (simp_all add: approvals_same_def)

lemma leases_same_record: "keeps leases_same (record_security_action env a)"
  unfolding record_security_action_def insert_action_def
  by (intro same_leases.keeps_rules keeps_modify) (simp_all add: leases_same_def)

lemma guard_InrE:
  assumes "guard henv digest env who b inp call s = (Inr (a, res, final), t)"
  obtains s1 where "approvals_same s s1" "leases_same s s1"
    "guard_recorded env b inp (prop_capabilities call) a s1 = (Inr (a, res, final), t)"
proof -
  from assms obtain x s0 where x: "sx_lift (normalize_action henv digest
       (gateway_proposal who (bundle_version b) call)) s = (Inr x, s0)"
    and next_steps: "sx_bind (record_security_action env x) (\<lambda>recorded.
     guard_recorded env b inp (prop_capabilities call) recorded) s0 = (Inr (a, res, final), t)"
    unfolding guard_def by (rule sx_bind_InrE)
  from x have s0: "s0 = s" by (simp add: sx_apply)
  from next_steps obtain y s1 where rec: "record_security_action env x s = (Inr y, s1)"
    and rest: "guard_recorded env b inp (prop_capabilities call) y s1 = (Inr (a, res, final), t)"
    unfolding s0 by (rule sx_bind_InrE)
  from rest have "y = a" by (rule guard_recorded_InrE) simp
  with rest that keepsD [OF approvals_same_record rec] keepsD [OF leases_same_record rec]
  show ?thesis by blast
qed

text \<open>
  C3: what \<open>guard\<close> grants is permitted. When it answers \<open>ALLOW\<close>, no hard rule matches the recorded
  action, and either the policy allows it or the policy asks and the repository held an approved,
  unexpired approval of exactly this action, target and policy version, which this call consumed. The
  leases it hands out are new, and each is a fresh one-minute single-use lease of one requested
  capability bound to this action.
\<close>

theorem guard_grants_permitted:
  assumes "policy_bundle_valid b"
    and "guard henv digest env who b inp call s = (Inr (a, res, final), t)"
    and "gw_decision res = ALLOW"
  shows "(\<forall>r \<in> matching b a. \<not> hard r)
    \<and> (decision (evaluate b a) = ALLOW
       \<or> decision (evaluate b a) = ASK
         \<and> (\<exists>row. map_of (approval_rows s) (action_hash a) = Some row
              \<and> approval_status row = ApApproved \<and> approval_target row = action_target a
              \<and> approval_policy_version row = bundle_version b
              \<and> consume_time inp < approval_expires_at row
              \<and> map_of (approval_rows t) (action_hash a) = Some (row\<lparr>approval_status := ApConsumed\<rparr>)))
    \<and> (\<forall>lid \<in> set (gw_lease_ids res). map_of (lease_rows s) lid = None
        \<and> (\<exists>l. map_of (lease_rows t) lid = Some l \<and> granted_lease inp a l))"
proof -
  from assms(2) obtain s1 where s1: "approvals_same s s1" "leases_same s s1"
    and run: "guard_recorded env b inp (prop_capabilities call) a s1 = (Inr (a, res, final), t)"
    by (rule guard_InrE)
  from run show ?thesis
  proof (cases rule: guard_recorded_InrE)
    case (1 e s2 s3 aid)
    from 1(4) assms(3) have allow: "decision final = ALLOW"
      and issue: "issue_all inp a final (prop_capabilities call) s3 = (Inr (gw_lease_ids res), t)"
      by auto
    have s2: "approvals_same s1 s2" "leases_same s1 s2"
      using keepsD [OF same_rows_audit 1(1)] keepsD [OF same_leases_audit 1(1)] by simp_all
    have t: "approvals_same s3 t" by (rule keepsD [OF same_rows_issue issue])
    have not_deny: "decision (evaluate b a) \<noteq> DENY"
    proof
      assume "decision (evaluate b a) = DENY"
      with 1(2) allow show False by (auto simp: sx_return_Inr)
    qed
    then have no_hard: "\<forall>r \<in> matching b a. \<not> hard r"
      using evaluate_hard_rule(1) [OF assms(1)] by blast
    have ask: "\<exists>row. map_of (approval_rows s) (action_hash a) = Some row
              \<and> approval_status row = ApApproved \<and> approval_target row = action_target a
              \<and> approval_policy_version row = bundle_version b
              \<and> consume_time inp < approval_expires_at row
              \<and> map_of (approval_rows t) (action_hash a) = Some (row\<lparr>approval_status := ApConsumed\<rparr>)"
      if "decision (evaluate b a) = ASK"
    proof -
      from 1(2) that have "resolve_ask env b inp a (evaluate b a) s2 = (Inr (final, aid), s3)" by simp
      from resolve_ask_allows [OF this allow that] obtain row where
        "map_of (approval_rows s2) (action_hash a) = Some row" "approval_status row = ApApproved"
        "approval_target row = action_target a" "approval_policy_version row = bundle_version b"
        "consume_time inp < approval_expires_at row"
        "map_of (approval_rows s3) (action_hash a) = Some (row\<lparr>approval_status := ApConsumed\<rparr>)" .
      with s1(1) s2(1) t show ?thesis
        by (intro exI [of _ row]) (simp add: approvals_same_def)
    qed
    have s3: "leases_same s2 s3"
      using 1(2) keepsD [OF same_leases_resolve]
      by (cases "decision (evaluate b a) = ASK") (auto simp: sx_return_Inr leases_same_def)
    from issue_each_rows [OF issue [unfolded issue_all_def]] obtain rows where
      rows: "lease_rows t = lease_rows s3 @ rows" "map fst rows = gw_lease_ids res" "distinct (gw_lease_ids res)"
      and each: "\<And>lid l. (lid, l) \<in> set rows \<Longrightarrow> granted_lease inp a l \<and> map_of (lease_rows s3) lid = None"
      by blast
    have same: "lease_rows s3 = lease_rows s" using s1(2) s2(2) s3 by (simp add: leases_same_def)
    have "map_of (lease_rows s) lid = None
        \<and> (\<exists>l. map_of (lease_rows t) lid = Some l \<and> granted_lease inp a l)"
      if lid: "lid \<in> set (gw_lease_ids res)" for lid
    proof -
      from lid rows(2) obtain l where l: "(lid, l) \<in> set rows" by (metis imageE list.set_map prod.collapse)
      with rows(2,3) have "map_of rows lid = Some l" by simp
      moreover have "map_of (lease_rows s) lid = None" and "granted_lease inp a l"
        using each [OF l] by (simp_all add: same)
      ultimately show ?thesis by (simp add: rows(1) same map_add_def)
    qed
    with no_hard ask not_deny show ?thesis by (cases "decision (evaluate b a)") auto
  qed
qed

theorem guard_grants_permitted_witness:
  "\<exists>a res final t. guard plain_host tool_digest plain_redact ''agent'' read_only_bundle sample_inputs
      (sample_proposal ''read_file'' ''read'' [WORKSPACE_READ]) empty_sec_store = (Inr (a, res, final), t)
    \<and> gw_lease_ids res = [''l'']
    \<and> (\<exists>l. map_of (lease_rows t) ''l'' = Some l \<and> granted_lease sample_inputs a l)"
proof -
  have valid: "policy_bundle_valid read_only_bundle"
    by (simp add: policy_bundle_valid_def read_only_bundle_def validate_hard_rule_def)
  obtain a res final t where run: "guard plain_host tool_digest plain_redact ''agent'' read_only_bundle
      sample_inputs (sample_proposal ''read_file'' ''read'' [WORKSPACE_READ]) empty_sec_store
      = (Inr (a, res, final), t)" and "gw_decision res = ALLOW" and ids: "gw_lease_ids res = [''l'']"
    using sample_guard_run by blast
  with guard_grants_permitted [OF valid run] show ?thesis by auto
qed

text \<open>
  what is not allowed gets nothing: when \<open>guard\<close> answers \<open>DENY\<close> or \<open>ASK\<close> it hands out no lease
  and the lease table is as before.
\<close>

theorem guard_refusal_leaves_leases:
  assumes "guard henv digest env who b inp call s = (Inr (a, res, final), t)"
    and "gw_decision res \<noteq> ALLOW"
  shows "gw_lease_ids res = [] \<and> lease_rows t = lease_rows s"
proof -
  from assms(1) obtain s1 where s1: "leases_same s s1"
    and run: "guard_recorded env b inp (prop_capabilities call) a s1 = (Inr (a, res, final), t)"
    by (rule guard_InrE)
  from run show ?thesis
  proof (cases rule: guard_recorded_InrE)
    case (1 e s2 s3 aid)
    with assms(2) have "t = s3" "gw_lease_ids res = []" by auto
    moreover have "leases_same s1 s2" by (rule keepsD [OF same_leases_audit 1(1)])
    moreover have "leases_same s2 s3"
      using 1(2) keepsD [OF same_leases_resolve]
      by (cases "decision (evaluate b a) = ASK") (auto simp: sx_return_Inr leases_same_def)
    ultimately show ?thesis using s1 by (simp add: leases_same_def)
  qed
qed

theorem guard_refusal_leaves_leases_witness:
  "\<exists>a res final t. guard plain_host tool_digest plain_redact ''agent'' read_only_bundle sample_inputs
      (sample_proposal ''read_file'' ''read'' [SECRET_USE]) empty_sec_store = (Inr (a, res, final), t)
    \<and> gw_decision res = DENY \<and> lease_rows t = []"
proof -
  obtain a res final t where run: "guard plain_host tool_digest plain_redact ''agent'' read_only_bundle
      sample_inputs (sample_proposal ''read_file'' ''read'' [SECRET_USE]) empty_sec_store
      = (Inr (a, res, final), t)" and deny: "gw_decision res = DENY"
    using sample_guard_refusal by blast
  with guard_refusal_leaves_leases [OF run] show ?thesis by (auto simp: empty_sec_store_def)
qed

subsection \<open>Review\<close>

text \<open>
  a model verdict exists only when everything holds that the reviewer requires: the evaluation
  is of this very action and policy version, it is an \<open>ASK\<close> without a hard denial and not a dry run,
  automatic review is switched on with an enabled profile whose model was discovered, and the risk is
  within the configured strictness, so a critical action is never decided by a model. The verdict is
  one the model's response contained, and it is allow or deny.
\<close>

theorem model_verdict_sound:
  assumes "attempt_decision (review env prov action evaluation config) = Some d"
  shows "eval_action_hash evaluation = action_hash action
    \<and> policy_version evaluation = action_policy_version action
    \<and> decision evaluation = ASK \<and> \<not> hard_deny evaluation \<and> \<not> dry_run action
    \<and> review_mode config = RM_AUTO
    \<and> risk_level evaluation \<in> auto_approval_risks (review_strictness config)
    \<and> risk_level evaluation \<noteq> CRITICAL
    \<and> (\<exists>profile d'. profile_enabled profile
        \<and> consult_model env prov action evaluation config profile = Some d' \<and> verdict d' = verdict d)
    \<and> verdict d \<in> {ALLOW, DENY}"
proof -
  have "CRITICAL \<notin> auto_approval_risks st" for st by (cases st) simp_all
  with assms show ?thesis
    by (elim review_decided) (cases "verdict d"; auto)
qed

theorem model_verdict_sound_witness:
  "\<exists>d. attempt_decision (review one_key_redact verdict_provider
       (sample_action ''h'' ''read_file'' ''read'' [WORKSPACE_READ] [])
       (evaluate asking_bundle (sample_action ''h'' ''read_file'' ''read'' [WORKSPACE_READ] []))
       (auto_config BALANCED)) = Some d \<and> verdict d = ALLOW
     \<and> decision (evaluate asking_bundle (sample_action ''h'' ''read_file'' ''read'' [WORKSPACE_READ] [])) = ASK"
  using sample_verdict model_verdict_sound by blast

text \<open>
  the reviewer adapter fails closed: for an eligible \<open>ASK\<close> it always answers, it answers
  \<open>ALLOW\<close> only when the reviewer was asked and returned a well-formed allow verdict, and anything
  else (a redaction failure, an exception, a timeout, a malformed or an \<open>ASK\<close> answer) is a denial;
  for any other evaluation it refuses.
\<close>

theorem adapter_fails_closed:
  "adapter_review env reviewer action evaluation =
     (if decision evaluation = ASK \<and> reviewer_eligible evaluation
      then Inr
        (case redact_public_data env 4000 100000 12 200 (adapter_facts action evaluation) of
           None \<Rightarrow> fail_closed
         | Some payload \<Rightarrow>
             (case Option.bind (reviewer payload) parse_verdict of
                None \<Rightarrow> fail_closed | Some d \<Rightarrow> d))
      else Inl SecPolicyDenied)
   \<and> (\<forall>d. adapter_review env reviewer action evaluation = Inr d \<longrightarrow>
        verdict d = DENY
        \<or> verdict d = ALLOW
          \<and> (\<exists>payload candidate. reviewer payload = Some candidate \<and> parse_verdict candidate = Some d))"
proof -
  have "verdict d = DENY \<or> verdict d = ALLOW" if "parse_verdict v = Some d" for v d
    using parse_verdict_not_ask [OF that] by (cases "verdict d") simp_all
  then show ?thesis
    by (auto simp: adapter_review_def fail_closed_def split: option.splits)
qed

theorem adapter_fails_closed_witness:
  "adapter_review plain_redact (\<lambda>payload. None) (sample_action ''h'' ''read_file'' ''read'' [WORKSPACE_READ] [])
     (evaluate asking_bundle (sample_action ''h'' ''read_file'' ''read'' [WORKSPACE_READ] [])) = Inr fail_closed"
proof -
  have "decision (evaluate asking_bundle (sample_action ''h'' ''read_file'' ''read'' [WORKSPACE_READ] [])) = ASK"
    by (simp add: policy_eval sample_defs asking_bundle_def)
  then show ?thesis
    using adapter_fails_closed [THEN conjunct1, of plain_redact "\<lambda>payload. None"
        "sample_action ''h'' ''read_file'' ''read'' [WORKSPACE_READ] []"
        "evaluate asking_bundle (sample_action ''h'' ''read_file'' ''read'' [WORKSPACE_READ] [])"]
    by (simp add: evaluate_eligible split: option.splits)
qed

text \<open>
  C33: a model cannot override the policy or a person. If the part of \<open>automatic_review\<close> after the
  model's answer turns a pending approval into an approved one, whatever happened to the repository
  while the model was thinking, then the model's verdict was allow under the reviewer's settings, the
  policy still asks for this action without a hard denial under the version the approval was made
  for, and the approval has not expired.
\<close>

theorem automatic_approval_sound:
  assumes "approvals_ok s" and "map_of (approval_rows s) h = Some row"
    and "approval_status row = ApPending"
    and "map_of (approval_rows (snd (settle_review env b fresh aid pending action
           (review env prov action (evaluate b action) config) now s))) h = Some row'"
    and "approval_status row' = ApApproved"
  shows "approval_id row = aid \<and> now < approval_expires_at row
    \<and> decision (evaluate b action) = ASK \<and> \<not> hard_deny (evaluate b action)
    \<and> bundle_version b = approval_policy_version pending
    \<and> review_mode config = RM_AUTO \<and> \<not> dry_run action
    \<and> risk_level (evaluate b action) \<in> auto_approval_risks (review_strictness config)
    \<and> (\<exists>d. attempt_decision (review env prov action (evaluate b action) config) = Some d
         \<and> verdict d = ALLOW)"
  using assms by (rule settle_review_rows) (auto elim: review_decided)

theorem automatic_approval_sound_witness:
  "\<exists>d. attempt_decision (review one_key_redact verdict_provider
       (sample_action ''h'' ''read_file'' ''read'' [WORKSPACE_READ] [])
       (evaluate asking_bundle (sample_action ''h'' ''read_file'' ''read'' [WORKSPACE_READ] []))
       (auto_config BALANCED)) = Some d \<and> verdict d = ALLOW"
proof -
  let ?a = "sample_action ''h'' ''read_file'' ''read'' [WORKSPACE_READ] []"
  let ?p = "sample_approval ApPending"
  let ?s = "store_with ''h'' None (Some ?p)"
  let ?att = "review one_key_redact verdict_provider ?a (evaluate asking_bundle ?a) (auto_config BALANCED)"
  let ?t = "snd (settle_review one_key_redact asking_bundle ''f'' ''ap1'' ?p ?a ?att 5 ?s)"
  from sample_verdict obtain d where d: "attempt_decision ?att = Some d" "verdict d = ALLOW" by blast
  have ask: "decision (evaluate asking_bundle ?a) = ASK" "\<not> hard_deny (evaluate asking_bundle ?a)"
    "policy_version (evaluate asking_bundle ?a) = ''1''"
    by (simp_all add: policy_eval sample_defs asking_bundle_def)
  have version: "approval_policy_version ?p = ''1''" by (simp add: sample_approval_def)
  obtain r t where dec: "decide_approval ''ap1'' True ''reviewer'' (Some (verdict_reason d)) 5 ?s = (r, t)"
    by fastforce
  have rt: "\<exists>x. r = Inr x" and t: "\<exists>x. map_of (approval_rows t) ''h'' = Some x \<and> approval_status x = ApApproved"
    using dec by (auto simp: decide_approval_def find_approval_def store_approval_def sx_simps Let_def
        store_with_def sample_approval_def)
  have "approvals_same t ?t"
    using d ask evaluate_eligible [of asking_bundle ?a] rt version
    by (simp add: settle_review_def Let_def)
      (intro same_rows.after_bind same_rows.after_catch;
       auto simp: dec same_rows.kept_refl intro!: same_rows.keeps_rules same_rows_decision
        split: sec_error.splits)
  with t obtain row' where row': "map_of (approval_rows ?t) ''h'' = Some row'" "approval_status row' = ApApproved"
    by (auto simp: approvals_same_def)
  have "approvals_ok ?s" "map_of (approval_rows ?s) ''h'' = Some ?p" "approval_status ?p = ApPending"
    by (simp_all add: approvals_ok_def sample_defs)
  from automatic_approval_sound [OF this row'] show ?thesis by blast
qed

subsection \<open>Time and redaction\<close>

text \<open>
  a lease is consumed only by the action, principal, capability and target it was issued for,
  while it has a use left and is not revoked; and when the clock reading has the UTC offset of the
  deadline, only strictly before the deadline.
\<close>

theorem lease_consumption_bound:
  assumes "consume_capability_lease lid h who cap tid now s = (Inr l', t)"
  shows "\<exists>l. map_of (lease_rows s) lid = Some l \<and> l' = l\<lparr>uses := uses l + 1\<rparr>
    \<and> map_of (lease_rows t) lid = Some l'
    \<and> lease_action_hash l = h \<and> lease_principal l = who \<and> lease_capability l = cap
    \<and> target_id (lease_target l) = tid \<and> revoked_at l = None \<and> uses l < max_uses l
    \<and> (ts_offset now = ts_offset (expires_at l) \<longrightarrow> ts_instant now < ts_instant (expires_at l))"
  using assms
proof (cases rule: lease_consume_cases)
  case (used row)
  then show ?thesis
    using iso_text_less_same_offset [of now "expires_at row"]
    by (intro exI [of _ row]) (auto simp: lease_usable_def map_of_update)
qed simp

theorem lease_consumption_bound_witness:
  "\<exists>l' t. consume_capability_lease ''l1'' ''h'' ''agent'' WORKSPACE_READ ''w1'' \<lparr>ts_wall = 5, ts_offset = 0\<rparr>
      (store_with ''h'' (Some (sample_lease \<lparr>ts_wall = 60, ts_offset = 0\<rparr> 2)) None) = (Inr l', t)
    \<and> uses l' = 1"
proof -
  let ?l = "sample_lease \<lparr>ts_wall = 60, ts_offset = 0\<rparr> 2"
  let ?s = "store_with ''h'' (Some ?l) None"
  obtain l' t where run: "consume_capability_lease ''l1'' ''h'' ''agent'' WORKSPACE_READ ''w1''
      \<lparr>ts_wall = 5, ts_offset = 0\<rparr> ?s = (Inr l', t)"
    by (simp add: consume_capability_lease_def sx_simps sample_defs lease_usable_def iso_text_less_def Let_def)
  from lease_consumption_bound [OF run] have "uses l' = 1" by (auto simp: sample_defs)
  with run show ?thesis by blast
qed

text \<open>
  across a change of the local UTC offset the deadline does not bind. Deadline and clock are
  compared as ISO text of local time, so when the clock is set back a valid lease is still consumed
  almost an hour after it expired (times in microseconds, offsets in minutes).
\<close>

theorem lease_outlives_its_deadline:
  "\<exists>l now t. validate_lease l \<and> lease_id l = ''l1''
     \<and> ts_instant (expires_at l) + 3500 * 1000000 < ts_instant now
     \<and> consume_capability_lease ''l1'' ''h'' ''agent'' WORKSPACE_READ ''w1'' now
         (store_with ''h'' (Some l) None) = (Inr (l\<lparr>uses := 1\<rparr>), t)"
  by (rule exI [of _ "(sample_lease \<lparr>ts_wall = 60000000, ts_offset = 120\<rparr> 1)
        \<lparr>issued_at := \<lparr>ts_wall = 0, ts_offset = 120\<rparr>\<rparr>"],
      rule exI [of _ "\<lparr>ts_wall = 30000000, ts_offset = 60\<rparr>"])
    (simp add: consume_capability_lease_def sx_simps sample_defs lease_usable_def iso_text_less_def
      Let_def validate_lease_def ts_instant_def)

text \<open>
  C40: the policy judges the redacted copy of the arguments. When the arguments exceed the byte
  bound of the redaction, the recorded action that \<open>guard\<close> goes on with has lost its \<open>argv\<close>: the
  balanced bundle hard-denies the action as proposed (an argv that runs \<open>sudo\<close> or \<open>doas\<close>) and allows
  the action as recorded, under the same action hash.
\<close>

theorem oversized_arguments_hide_escalation:
  assumes "escalates a" and "tool a \<notin> {''sudo'', ''doas''}"
    and "requested_capabilities a \<noteq> []" and "set (requested_capabilities a) \<subseteq> balanced_allow"
    and "json_size env (fst (bounded_public_data env 12000 12 0 (env_to_py (normalized_arguments a)) 200)) = Some n"
    and "fst (bounded_public_data env 12000 12 0 (env_to_py (normalized_arguments a)) 200) = PDict items"
    and "100000 < n"
    and "json_size env (PDict [(PStr ''_truncated'', PBool True),
           (PStr ''_reason'', PStr ''public payload exceeded byte limit'')]) = Some m" and "m \<le> 100000"
    and "list_all (\<lambda>q. request_id (row_body q) \<noteq> request_id a \<and> action_hash (row_body q) \<noteq> action_hash a
           \<and> idempotency_key (row_body q) \<noteq> idempotency_key a) (action_rows s)"
  shows "hard_deny (evaluate (balanced_policy_bundle v) a)
    \<and> (\<exists>recorded t. record_security_action env a s = (Inr recorded, t)
        \<and> action_hash recorded = action_hash a
        \<and> decision (evaluate (balanced_policy_bundle v) recorded) = ALLOW)"
proof -
  let ?marker = "[(''_truncated'', PBool True), (''_reason'', PStr ''public payload exceeded byte limit'')]"
  let ?rec = "a\<lparr>normalized_arguments := ?marker\<rparr>"
  have fresh: "find_bound_action s (principal a) (idempotency_key a) = None"
    using assms(10) by (auto simp: find_bound_action_def list_find_None_iff list_all_iff)
  have redacted: "redact_public_data env 12000 100000 12 200 (env_to_py (normalized_arguments a)) =
      Some (env_to_py ?marker)"
    using assms(5-9)
    by (simp add: redact_public_data_def first_fitting_def truncation_markers_def env_to_py_def)
  have "fst (record_security_action env a s) = Inr ?rec"
    using assms(10) fresh redacted
    by (auto simp: record_security_action_def insert_action_def sx_simps load_action_def py_to_env_def
        env_to_py_def list_all_iff list_ex_iff)
  then obtain t where "record_security_action env a s = (Inr ?rec, t)" by (metis prod.collapse)
  moreover have "argv_executable ?marker = None" by (simp add: argv_executable_def)
  then have "\<not> escalates ?rec" using assms(2) by (simp add: escalates_def)
  then have "decision (evaluate (balanced_policy_bundle v) ?rec) = ALLOW"
    using assms(3,4) balanced_table_decision [of ?rec v] by auto
  moreover have "hard_deny (evaluate (balanced_policy_bundle v) a)"
    using assms(1,3) balanced_table_hard [of a v] by simp
  ultimately show ?thesis by auto
qed

theorem oversized_arguments_hide_escalation_witness:
  "hard_deny (evaluate (balanced_policy_bundle ''1'')
      (sample_action ''h'' ''run_command'' ''execute'' [WORKSPACE_WRITE] long_sudo_argv))
    \<and> (\<exists>recorded t. record_security_action sizing_redact
           (sample_action ''h'' ''run_command'' ''execute'' [WORKSPACE_WRITE] long_sudo_argv) empty_sec_store
         = (Inr recorded, t)
        \<and> decision (evaluate (balanced_policy_bundle ''1'') recorded) = ALLOW)"
proof -
  let ?a = "sample_action ''h'' ''run_command'' ''execute'' [WORKSPACE_WRITE] long_sudo_argv"
  let ?arguments = "env_to_py (normalized_arguments ?a)"
  have key: "\<not> is_sensitive_key ''argv''" by (simp add: redact_eval)
  have kept: "fst (bounded_public_data sizing_redact 12000 12 0 ?arguments 200) = ?arguments"
    by (simp add: sizing_redact_def long_sudo_argv_def env_to_py_def bounded_public_data.simps
        key_text_def key sample_action_def)
  have args: "?arguments = PDict [(PStr ''argv'', PList (map PStr [''sudo'', big_argument, big_argument,
      big_argument, big_argument, big_argument, big_argument, big_argument, big_argument, big_argument]))]"
    by (simp add: env_to_py_def long_sudo_argv_def sample_action_def)
  have size: "json_size sizing_redact ?arguments = Some 108044"
    unfolding args by (simp add: sizing_redact_def)
  have esc: "escalates ?a"
    by (simp add: escalates_def argv_executable_def long_sudo_argv_def sample_action_def path_name_def)
  have "tool ?a \<notin> {''sudo'', ''doas''}" and "requested_capabilities ?a \<noteq> []"
    and "set (requested_capabilities ?a) \<subseteq> balanced_allow"
    by (simp_all add: sample_action_def balanced_allow_def)
  note shape = this
  have marker: "json_size sizing_redact (PDict [(PStr ''_truncated'', PBool True),
      (PStr ''_reason'', PStr ''public payload exceeded byte limit'')]) = Some 66"
    by (simp add: sizing_redact_def)
  have "list_all (\<lambda>q. request_id (row_body q) \<noteq> request_id ?a \<and> action_hash (row_body q) \<noteq> action_hash ?a
           \<and> idempotency_key (row_body q) \<noteq> idempotency_key ?a) (action_rows empty_sec_store)"
    by (simp add: empty_sec_store_def)
  moreover have "100000 < (108044::nat)" and "66 \<le> (100000::nat)" by simp_all
  ultimately show ?thesis
    using oversized_arguments_hide_escalation [OF esc shape
      trans [OF arg_cong [OF kept, of "json_size sizing_redact"] size] trans [OF kept args] _ marker]
    by blast
qed

text \<open>
  a secret is handed out only for an allowed evaluation of exactly this action, which asked for
  the use of secrets and named this reference; the reference is a variable name, the environment
  holds a non-empty value for it, and the binding returned is that pair, valid for the lease's bounded
  time only.
\<close>

theorem secret_issue_sound:
  "secret_issue environment max_ttl now action evaluation ref ttl = Inr (l, binding) \<longleftrightarrow>
     decision evaluation = ALLOW \<and> eval_action_hash evaluation = action_hash action
     \<and> SECRET_USE \<in> set (requested_capabilities action) \<and> ref \<in> set (secret_refs action)
     \<and> secret_ref_ok ref \<and> 1 \<le> ttl \<and> ttl \<le> max_ttl
     \<and> (\<exists>value. environment ref = Some value \<and> value \<noteq> [] \<and> binding = (ref, value))
     \<and> l = \<lparr>secret_ref = ref, secret_action_hash = action_hash action,
            secret_principal = principal action, secret_target_id = target_id (action_target action),
            secret_issued_at = now, secret_expires_at = ts_plus_seconds now ttl\<rparr>"
  by (auto simp: secret_issue_def res_bind_Inr_iff split: option.splits)

end
