(* ===== verification/Graph_Expr.thy ===== *)
theory Graph_Expr
  imports Py_Value
begin

section \<open>Workflow graphs: the condition language\<close>

text \<open>
  \<open>_SAFE_EXPRESSION_NODES\<close>, \<open>_is_safe_expression\<close>, \<open>_expression_value\<close> and \<open>_evaluate_condition\<close>
  of \<open>operant/application/graph.py\<close>. An edge condition is a Python expression of a small safe
  subset. The text is parsed by the language's own parser (after \<open>true\<close> and \<open>false\<close> were replaced),
  which is the argument \<open>parse\<close>: \<open>None\<close> is a syntax or token error. \<open>ExOther\<close> is every syntax node
  that the subset excludes (calls, attributes, arithmetic, ...). Literals are those of JSON values.
\<close>

datatype comparison = CmpEq | CmpNotEq | CmpOrd py_ordering | CmpIn | CmpNotIn

datatype expr =
    ExConstant py
  | ExName string
  | ExSubscript expr expr
  | ExNot expr
  | ExAnd "expr list"
  | ExOr "expr list"
  | ExCompare expr "(comparison \<times> expr) list"
  | ExOther "expr list"

fun safe_expr :: "expr \<Rightarrow> bool" where
  \<comment> \<open>\<open>all(isinstance(node, _SAFE_EXPRESSION_NODES) for node in ast.walk(parsed))\<close>\<close>
  "safe_expr (ExConstant v) = True"
| "safe_expr (ExName x) = True"
| "safe_expr (ExSubscript e k) = (safe_expr e \<and> safe_expr k)"
| "safe_expr (ExNot e) = safe_expr e"
| "safe_expr (ExAnd es) = list_all safe_expr es"
| "safe_expr (ExOr es) = list_all safe_expr es"
| "safe_expr (ExCompare e cs) = (safe_expr e \<and> list_all (\<lambda>c. safe_expr (snd c)) cs)"
| "safe_expr (ExOther es) = False"

definition is_safe_expression :: "(string \<Rightarrow> expr option) \<Rightarrow> string \<Rightarrow> bool" where
  "is_safe_expression parse text =
     (case parse text of None \<Rightarrow> False | Some e \<Rightarrow> safe_expr e)"

definition compare_values :: "comparison \<Rightarrow> py \<Rightarrow> py \<Rightarrow> py_error + bool" where
  "compare_values c l r =
     (case c of
        CmpEq \<Rightarrow> Inr (py_eq l r)
      | CmpNotEq \<Rightarrow> Inr (\<not> py_eq l r)
      | CmpOrd ord \<Rightarrow> py_order ord l r
      | CmpIn \<Rightarrow> py_in l r
      | CmpNotIn \<Rightarrow> (case py_in l r of Inl e \<Rightarrow> Inl e | Inr b \<Rightarrow> Inr (\<not> b)))"

text \<open>
  All operands of a boolean operator are evaluated before it is decided; a comparison chain stops at
  the first link that fails.
\<close>

fun expression_value :: "expr \<Rightarrow> py_env \<Rightarrow> py_error + py"
  and expression_values :: "expr list \<Rightarrow> py_env \<Rightarrow> py_error + py list"
  and comparison_chain :: "py \<Rightarrow> (comparison \<times> expr) list \<Rightarrow> py_env \<Rightarrow> py_error + py" where
  "expression_value (ExConstant v) values = Inr v"
| "expression_value (ExName x) values =
     (case map_of values x of None \<Rightarrow> Inl KeyError | Some v \<Rightarrow> Inr v)"
| "expression_value (ExSubscript e k) values =
     (case expression_value e values of
        Inl err \<Rightarrow> Inl err
      | Inr container \<Rightarrow>
          (case expression_value k values of Inl err \<Rightarrow> Inl err | Inr key \<Rightarrow> py_subscript container key))"
| "expression_value (ExNot e) values =
     (case expression_value e values of Inl err \<Rightarrow> Inl err | Inr v \<Rightarrow> Inr (PBool (\<not> py_truthy v)))"
| "expression_value (ExAnd es) values =
     (case expression_values es values of
        Inl err \<Rightarrow> Inl err | Inr vs \<Rightarrow> Inr (PBool (list_all py_truthy vs)))"
| "expression_value (ExOr es) values =
     (case expression_values es values of
        Inl err \<Rightarrow> Inl err | Inr vs \<Rightarrow> Inr (PBool (list_ex py_truthy vs)))"
| "expression_value (ExCompare e cs) values =
     (case expression_value e values of Inl err \<Rightarrow> Inl err | Inr l \<Rightarrow> comparison_chain l cs values)"
| "expression_value (ExOther es) values = Inl ValueError"
| "expression_values [] values = Inr []"
| "expression_values (e # es) values =
     (case expression_value e values of
        Inl err \<Rightarrow> Inl err
      | Inr v \<Rightarrow>
          (case expression_values es values of Inl err \<Rightarrow> Inl err | Inr vs \<Rightarrow> Inr (v # vs)))"
| "comparison_chain l [] values = Inr (PBool True)"
| "comparison_chain l ((c, e) # cs) values =
     (case expression_value e values of
        Inl err \<Rightarrow> Inl err
      | Inr r \<Rightarrow>
          (case compare_values c l r of
             Inl err \<Rightarrow> Inl err
           | Inr b \<Rightarrow> if b then comparison_chain r cs values else Inr (PBool False)))"

text \<open>\<open>KeyError\<close>, \<open>TypeError\<close> and \<open>ValueError\<close> make a condition false; \<open>IndexError\<close> is not caught.\<close>

definition evaluate_condition :: "(string \<Rightarrow> expr option) \<Rightarrow> string \<Rightarrow> py_env \<Rightarrow> py_error + bool" where
  "evaluate_condition parse text values =
     (case parse text of
        None \<Rightarrow> Inr False
      | Some e \<Rightarrow>
          if \<not> safe_expr e then Inr False
          else (case expression_value e values of
                  Inr v \<Rightarrow> Inr (py_truthy v)
                | Inl IndexError \<Rightarrow> Inl IndexError
                | Inl _ \<Rightarrow> Inr False))"

lemma evaluate_condition_error:
  "evaluate_condition parse text vals = Inl err \<Longrightarrow> err = IndexError"
  by (auto simp: evaluate_condition_def split: option.splits sum.splits py_error.splits if_splits)

fun subscripts :: "expr \<Rightarrow> bool" where
  \<comment> \<open>whether a subscript occurs\<close>
  "subscripts (ExConstant v) = False"
| "subscripts (ExName x) = False"
| "subscripts (ExSubscript e k) = True"
| "subscripts (ExNot e) = subscripts e"
| "subscripts (ExAnd es) = list_ex subscripts es"
| "subscripts (ExOr es) = list_ex subscripts es"
| "subscripts (ExCompare e cs) = (subscripts e \<or> list_ex (\<lambda>c. subscripts (snd c)) cs)"
| "subscripts (ExOther es) = list_ex subscripts es"

text \<open>Only a subscript can raise \<open>IndexError\<close>; without one a condition always has a value.\<close>

lemma py_order_numbers_error: "py_order_numbers ord a b \<noteq> Inl IndexError"
  by (simp add: py_order_numbers_def split: option.splits)

lemma py_order_error:
  "py_order ord a b \<noteq> Inl IndexError" "py_order_list ord xs ys \<noteq> Inl IndexError"
  by (induction ord a b and ord xs ys rule: py_order_py_order_list.induct)
    (auto simp: py_order_numbers_error split: py.splits list.splits)

lemma compare_values_error: "compare_values c l r \<noteq> Inl IndexError"
proof -
  have "py_in a b \<noteq> Inl IndexError" for a b
    by (cases b) (auto split: py.splits)
  then show ?thesis
    by (auto simp: compare_values_def py_order_error split: comparison.splits sum.splits)
qed

lemma expression_value_no_index:
  "\<not> subscripts e \<Longrightarrow> expression_value e vals \<noteq> Inl IndexError"
  "\<not> list_ex subscripts es \<Longrightarrow> expression_values es vals \<noteq> Inl IndexError"
  "\<not> list_ex (\<lambda>c. subscripts (snd c)) cs \<Longrightarrow> comparison_chain l cs vals \<noteq> Inl IndexError"
  by (induction e vals and es vals and l cs vals
      rule: expression_value_expression_values_comparison_chain.induct)
    (auto simp: compare_values_error split: option.splits sum.splits)

end
