(* ===== verification/Graph_Domain.thy ===== *)
theory Graph_Domain
  imports Py_Value
begin

section \<open>Workflow graphs: the data model\<close>

text \<open>
  The types of \<open>operant/domain/graph.py\<close>, the node policies of \<open>operant/domain/multiwriter.py\<close> and
  \<open>Budget\<close> of \<open>operant/domain/models.py\<close>: enumerations as datatypes, models as records, validators as
  predicates. The names, descriptions and schemas of a definition are left out: no
  operation modelled here reads them. Field names carry a prefix per record (\<open>nd_\<close> node, \<open>ed_\<close> edge, \<open>wf_\<close> definition, \<open>gr_\<close>
  run, \<open>nr_\<close> node run, \<open>at_\<close> attempt). Money is the rational that a float denotes.
  Times are UTC microseconds.
\<close>

datatype definition_status = DS_DRAFT | DS_PUBLISHED | DS_DEPRECATED

datatype node_kind =
    NK_AGENT | NK_TOOL | NK_SCRIPT | NK_CONDITION | NK_FAN_OUT | NK_JOIN | NK_LOOP
  | NK_HUMAN_INPUT | NK_APPROVAL | NK_WAIT | NK_TIMER | NK_SUBWORKFLOW | NK_ARTIFACT | NK_MERGE

datatype idempotency_class = IC_PURE | IC_IDEMPOTENT | IC_NON_IDEMPOTENT

datatype failure_policy = FP_FAIL_WORKFLOW | FP_SKIP | FP_MANUAL_RECONCILE

datatype join_mode = JM_ALL | JM_ANY

datatype delivery_mode = DM_VALUE | DM_REFERENCE

datatype graph_run_status =
    RS_CREATED | RS_QUEUED | RS_RUNNING | RS_WAITING_INPUT | RS_WAITING_APPROVAL | RS_INTERRUPTED
  | RS_MANUAL_RECONCILE | RS_COMPLETED | RS_FAILED | RS_CANCELLED

datatype node_run_status =
    NS_PENDING | NS_READY | NS_RUNNING | NS_WAITING_APPROVAL | NS_WAITING_INPUT | NS_WAITING
  | NS_RETRY_WAIT | NS_SUCCEEDED | NS_FAILED | NS_CANCELLED | NS_SKIPPED | NS_MANUAL_RECONCILE

datatype side_effect_state = SE_NONE | SE_NOT_STARTED | SE_STARTED | SE_COMMITTED | SE_UNKNOWN

datatype attempt_result = AR_RUNNING | AR_SUCCEEDED | AR_FAILED | AR_CANCELLED | AR_INTERRUPTED

datatype boundary_kind = BK_APPROVAL | BK_HUMAN_INPUT | BK_WAIT | BK_SUBWORKFLOW | BK_MERGE

datatype isolation_kind = WI_WORKTREE | WI_CONTAINER

datatype merge_strategy = MS_THREE_WAY | MS_CHERRY_PICK | MS_APPLY_PATCH

subsection \<open>Policies\<close>

record port_spec =
  port_name :: string
  port_type :: string
  port_required :: bool

record retry_policy =
  max_attempts :: int
  delay_seconds :: rat

record timeout_policy =
  timeout_after_seconds :: int
  on_timeout_node :: "string option"

record loop_policy =
  max_iterations :: int
  max_wall_seconds :: int
  loop_max_output_tokens :: int
  loop_max_cost_usd :: rat
  loop_max_subagents :: int
  loop_max_recursion_depth :: int
  max_no_progress_repeats :: int
  exit_expression :: string
  on_limit_node :: string
  on_manual_reconcile_node :: "string option"

record graph_limits =
  max_nodes :: int
  max_edges :: int
  max_parallel_nodes :: int
  graph_max_subagents :: int
  graph_max_recursion_depth :: int

record budget =
  max_turns :: int
  max_consecutive_test_failures :: int
  budget_timeout_seconds :: int
  max_output_tokens :: "int option"
  max_cost_usd :: "rat option"
  max_tool_calls :: "int option"

record writer_policy =
  writer_key :: string
  writer_isolation_kind :: isolation_kind
  isolation_ref :: string
  ownership_paths :: "string list"

record merge_policy =
  merge_strategy :: merge_strategy
  source_writer_keys :: "string list"
  require_review :: bool
  rollback_on_failure :: bool

subsection \<open>Definitions\<close>

record node_spec =
  nd_id :: string
  nd_kind :: node_kind
  nd_inputs :: "port_spec list"
  nd_outputs :: "port_spec list"
  nd_action_ref :: "string option"
  nd_model_override :: "string option"
  nd_context :: py_env
  nd_capabilities :: "string list"
  nd_retry :: retry_policy
  nd_timeout :: "timeout_policy option"
  nd_budget :: "budget option"
  nd_idempotency :: idempotency_class
  nd_target :: "string option"
  nd_failure :: failure_policy
  nd_writes :: bool
  nd_writer :: "writer_policy option"
  nd_merge :: "merge_policy option"
  nd_loop :: "loop_policy option"
  nd_subworkflow :: "(string option \<times> int option)"
  nd_metadata :: py_env

record edge_spec =
  ed_id :: string
  ed_source :: string
  ed_source_port :: string
  ed_target :: string
  ed_target_port :: string
  ed_condition :: "string option"
  ed_join :: join_mode
  ed_delivery :: delivery_mode
  ed_loop_back :: bool

record workflow_definition =
  wf_id :: string
  wf_version :: int
  wf_nodes :: "node_spec list"
  wf_edges :: "edge_spec list"
  wf_limits :: graph_limits
  wf_budget :: budget
  wf_policy :: py_env
  wf_plugins :: "string list"
  wf_capabilities :: "string list"
  wf_roles :: "(string \<times> int) list"
  wf_providers :: "(string \<times> string) list"
  wf_status :: definition_status

definition node_spec_valid :: "node_spec \<Rightarrow> bool" where
  \<comment> \<open>\<open>validate_kind_specific_fields\<close>\<close>
  "node_spec_valid n \<longleftrightarrow>
     distinct (map port_name (nd_inputs n)) \<and> distinct (map port_name (nd_outputs n))
     \<and> (nd_kind n = NK_LOOP) = (nd_loop n \<noteq> None)
     \<and> (if nd_kind n = NK_SUBWORKFLOW
        then fst (nd_subworkflow n) \<noteq> None \<and> snd (nd_subworkflow n) \<noteq> None
        else nd_subworkflow n = (None, None))
     \<and> (nd_writer n \<noteq> None \<longrightarrow> nd_writes n)
     \<and> (if nd_kind n = NK_MERGE then nd_merge n \<noteq> None \<and> nd_writes n else nd_merge n = None)"

subsection \<open>Runs\<close>

record graph_run =
  gr_id :: string
  gr_definition :: "string \<times> int"
  gr_input :: py_env
  gr_target :: "string option"
  gr_parent :: "string option"
  gr_parent_node :: "string option"
  gr_parent_iteration :: int
  gr_status :: graph_run_status
  gr_budget :: budget
  gr_policy :: py_env
  gr_output_tokens :: int
  gr_cost_usd :: rat
  gr_tool_calls :: int
  gr_revision :: int
  gr_started_at :: "int option"
  gr_completed_at :: "int option"
  gr_updated_at :: int

record node_run =
  nr_id :: string
  nr_run :: string
  nr_node :: string
  nr_status :: node_run_status
  nr_inputs :: py_env
  nr_outputs :: py_env
  nr_attempt :: "string option"
  nr_retries :: int
  nr_iteration :: int
  nr_signature :: "string option"
  nr_repeats :: int
  nr_worker :: "string option"
  nr_lease :: "string option"
  nr_wait_token :: "string option"
  nr_revision :: int
  nr_updated_at :: int

record node_attempt =
  at_id :: string
  at_node_run :: string
  at_number :: int
  at_agent :: "string option"
  at_result :: attempt_result
  at_payload :: py_env
  at_failure :: "string option"
  at_effect :: side_effect_state
  at_key :: "string option"
  at_completed_at :: "int option"

record compiled_workflow =
  cw_definition :: workflow_definition
  cw_entries :: "string list"
  cw_order :: "string list"
  cw_terminals :: "string list"
  cw_incoming :: "(string \<times> string list) list"
  cw_outgoing :: "(string \<times> string list) list"

record compilation_issue =
  issue_code :: string
  issue_node :: "string option"
  issue_edge :: "string option"

definition attempt_valid :: "node_attempt \<Rightarrow> bool" where
  \<comment> \<open>\<open>require_idempotency_key_for_side_effect\<close>\<close>
  "attempt_valid a \<longleftrightarrow>
     (at_effect a \<noteq> SE_NONE \<longrightarrow> (case at_key a of None \<Rightarrow> False | Some k \<Rightarrow> k \<noteq> []))"

text \<open>The status groups of \<open>operant/application/graph.py\<close>.\<close>

definition terminal_run :: "graph_run_status \<Rightarrow> bool" where
  "terminal_run s \<longleftrightarrow> s \<in> {RS_COMPLETED, RS_FAILED, RS_CANCELLED, RS_MANUAL_RECONCILE}"

definition active_node :: "node_run_status \<Rightarrow> bool" where
  "active_node s \<longleftrightarrow> s \<in> {NS_READY, NS_RUNNING, NS_RETRY_WAIT}"

definition nonterminal_node :: "node_run_status \<Rightarrow> bool" where
  "nonterminal_node s \<longleftrightarrow>
     s \<in> {NS_PENDING, NS_READY, NS_RUNNING, NS_WAITING_APPROVAL, NS_WAITING_INPUT, NS_WAITING,
          NS_RETRY_WAIT}"

end
