(* ===== verification/Graph_Ports.thy ===== *)
theory Graph_Ports
  imports Graph_Domain
begin

section \<open>Workflow graphs: port values\<close>

text \<open>
  \<open>_PORT_TYPE_ALIASES\<close>, \<open>_is_json_value\<close>, \<open>_matches_port_type\<close> and \<open>_validate_port_values\<close> of
  \<open>operant/application/graph.py\<close>: what a node may receive and emit. An integer too large for a float
  makes \<open>math.isfinite\<close> raise \<open>OverflowError\<close> where a number is wanted. \<open>GeNoReturn\<close> is no exception of
  the source: it marks a loop or recursion whose fuel ran out, and it is proved not to occur.
\<close>

datatype graph_error =
    GeKeyError
  | GeConflict string
  | GeState string
  | GeValueError string
  | GeIndexError
  | GeOverflow
  | GeTypeError
  | GeStopIteration
  | GeCompilation "compilation_issue list"
  | GeNoReturn

definition port_type_aliases :: "(string \<times> string) list" where
  "port_type_aliases =
     [(''any'', ''any''), (''json'', ''json''), (''string'', ''string''), (''str'', ''string''),
      (''integer'', ''integer''), (''int'', ''integer''), (''number'', ''number''),
      (''float'', ''number''), (''boolean'', ''boolean''), (''bool'', ''boolean''),
      (''object'', ''object''), (''dict'', ''object''), (''array'', ''array''),
      (''list'', ''array''), (''null'', ''null''), (''none'', ''null'')]"

definition canonical_type :: "string \<Rightarrow> string option" where
  "canonical_type t = map_of port_type_aliases (ascii_lower t)"

fun is_json_value :: "nat option \<Rightarrow> py \<Rightarrow> bool" where
  \<comment> \<open>the remaining depth, \<open>None\<close> once it is negative\<close>
  "is_json_value None v = False"
| "is_json_value (Some d) v =
     (let deeper = (if d = 0 then None else Some (d - 1)) in
      case v of
        PFloat f \<Rightarrow> float_finite f
      | PObject t \<Rightarrow> False
      | PList xs \<Rightarrow> list_all (is_json_value deeper) xs
      | PDict items \<Rightarrow>
          list_all (\<lambda>(k, x). (case k of PStr _ \<Rightarrow> True | _ \<Rightarrow> False) \<and> is_json_value deeper x) items
      | _ \<Rightarrow> True)"

definition json_value :: "py \<Rightarrow> bool" where
  "json_value v = is_json_value (Some 64) v"

text \<open>The largest finite double; CPython converts an integer up to it without overflow.\<close>

definition float_convertible :: "int \<Rightarrow> bool" where
  "float_convertible n \<longleftrightarrow> \<bar>n\<bar> < 2 ^ 1024 - 2 ^ 970"

definition matches_port_type :: "py \<Rightarrow> string \<Rightarrow> graph_error + bool" where
  "matches_port_type v value_type =
     (case canonical_type value_type of
        None \<Rightarrow> Inr False
      | Some c \<Rightarrow>
          if c = ''any'' \<or> c = ''json'' then Inr (json_value v)
          else if c = ''string'' then Inr (case v of PStr _ \<Rightarrow> True | _ \<Rightarrow> False)
          else if c = ''integer'' then Inr (is_py_int v)
          else if c = ''number'' then
            (case v of
               PInt n \<Rightarrow> if float_convertible n then Inr True else Inl GeOverflow
             | PFloat f \<Rightarrow> Inr (float_finite f)
             | _ \<Rightarrow> Inr False)
          else if c = ''boolean'' then Inr (case v of PBool _ \<Rightarrow> True | _ \<Rightarrow> False)
          else if c = ''object'' then Inr (case v of PDict _ \<Rightarrow> json_value v | _ \<Rightarrow> False)
          else if c = ''array'' then Inr (case v of PList _ \<Rightarrow> json_value v | _ \<Rightarrow> False)
          else Inr (v = PNone))"

fun check_ports :: "port_spec list \<Rightarrow> py_env \<Rightarrow> graph_error + unit" where
  "check_ports [] values = Inr ()"
| "check_ports (p # ps) values =
     (case map_of values (port_name p) of
        None \<Rightarrow> check_ports ps values
      | Some v \<Rightarrow>
          res_bind (matches_port_type v (port_type p)) (\<lambda>ok.
          if ok then check_ports ps values
          else Inl (GeState ''port does not match its value type'')))"

definition validate_port_values :: "port_spec list \<Rightarrow> py_env \<Rightarrow> bool \<Rightarrow> graph_error + unit" where
  "validate_port_values ports values require_required =
     (if \<not> json_value (env_to_py values)
      then Inl (GeState ''must contain only finite JSON values'')
      else if \<exists>p \<in> set ports. require_required \<and> port_required p \<and> map_of values (port_name p) = None
      then Inl (GeState ''is missing required ports'')
      else check_ports ports values)"

subsection \<open>What accepted values satisfy\<close>

lemma check_ports_Inr:
  "check_ports ps values = Inr u \<Longrightarrow> p \<in> set ps \<Longrightarrow> map_of values (port_name p) = Some v \<Longrightarrow>
   matches_port_type v (port_type p) = Inr True"
  by (induction ps) (auto simp: res_bind_Inr_iff split: option.splits if_splits)

lemma validate_port_values_Inr:
  assumes "validate_port_values ports values req = Inr u"
  shows "json_value (env_to_py values)"
    and "p \<in> set ports \<Longrightarrow> req \<Longrightarrow> port_required p \<Longrightarrow> map_of values (port_name p) \<noteq> None"
    and "p \<in> set ports \<Longrightarrow> map_of values (port_name p) = Some v \<Longrightarrow>
      matches_port_type v (port_type p) = Inr True"
  using assms check_ports_Inr [of ports "values" u p v]
  by (auto simp: validate_port_values_def split: if_splits)

end
