(* ===== verification/Graph_Topo.thy ===== *)
theory Graph_Topo
  imports Graph_Search
begin

section \<open>Workflow graphs: the topological sort\<close>

text \<open>
  The queue of \<open>GraphCompiler.compile\<close> over mutable in-degrees. \<open>relax\<close> is the inner loop over the
  outgoing edges of one node; a node enters the queue when its in-degree reaches zero. The number of
  queued nodes plus the number of positive in-degrees decreases, so the loop ends on every input. On
  the in-degrees of a graph it yields each node after all its predecessors, and all nodes exactly when
  the edges that are not loop-backs are acyclic.
\<close>

type_synonym degrees = "(string \<times> int) list"

fun relax :: "edge_spec list \<Rightarrow> degrees \<Rightarrow> degrees \<times> string list" where
  "relax [] deg = (deg, [])"
| "relax (e # es) deg =
     (if ed_loop_back e then relax es deg
      else
        (case map_of deg (ed_target e) of
           None \<Rightarrow> relax es deg
         | Some d \<Rightarrow>
             (case relax es (AList.update (ed_target e) (d - 1) deg) of
                (deg', ready) \<Rightarrow> (deg', if d - 1 = 0 then ed_target e # ready else ready))))"

definition positives :: "degrees \<Rightarrow> nat" where
  "positives deg = length (filter (\<lambda>p. 0 < snd p) deg)"

lemma positives_update:
  "map_of deg t = Some d \<Longrightarrow>
   positives (AList.update t (d - 1) deg) + (if d - 1 = 0 then 1 else 0) = positives deg"
  by (induction deg) (auto simp: positives_def split: if_splits)

lemma relax_positives: "relax es deg = (deg', ready) \<Longrightarrow> positives deg' + length ready = positives deg"
proof (induction es arbitrary: deg deg' ready)
  case (Cons e es)
  show ?case
  proof (cases "ed_loop_back e \<or> map_of deg (ed_target e) = None")
    case True
    with Cons show ?thesis by (cases "ed_loop_back e") auto
  next
    case False
    then obtain d where d: "map_of deg (ed_target e) = Some d" by blast
    let ?deg = "AList.update (ed_target e) (d - 1) deg"
    obtain deg1 ready1 where r: "relax es ?deg = (deg1, ready1)" by fastforce
    from Cons.IH [OF r] positives_update [OF d] Cons.prems False d r show ?thesis
      by (auto split: if_splits)
  qed
qed simp

function topo :: "edge_spec list \<Rightarrow> degrees \<Rightarrow> string list \<Rightarrow> string list" where
  "topo es deg [] = []"
| "topo es deg (n # queue) =
     n # topo es (fst (relax (filter (\<lambda>e. ed_source e = n) es) deg))
           (queue @ snd (relax (filter (\<lambda>e. ed_source e = n) es) deg))"
  by pat_completeness auto
termination
proof (relation "measure (\<lambda>(es, deg, queue). length queue + positives deg)")
  fix es deg n queue
  show "((es, fst (relax (filter (\<lambda>e. ed_source e = n) es) deg),
      queue @ snd (relax (filter (\<lambda>e. ed_source e = n) es) deg)), es, deg, n # queue)
    \<in> measure (\<lambda>(es, deg, queue). length queue + positives deg)"
    using relax_positives [OF prod.collapse [symmetric], of "filter (\<lambda>e. ed_source e = n) es" deg] by simp
qed simp

subsection \<open>What one step does\<close>

definition hits :: "string \<Rightarrow> edge_spec list \<Rightarrow> nat" where
  \<comment> \<open>how many forward edges of the list enter the node\<close>
  "hits m es = length (filter (\<lambda>e. \<not> ed_loop_back e \<and> ed_target e = m) es)"

lemma hits_simps [simp]:
  "hits m [] = 0"
  "hits m (e # es) = (if \<not> ed_loop_back e \<and> ed_target e = m then Suc (hits m es) else hits m es)"
  by (simp_all add: hits_def)

lemma relax_effect:
  assumes "\<And>m d. map_of deg m = Some d \<Longrightarrow> int (hits m es) \<le> d"
  shows "map_of (fst (relax es deg)) m = map_option (\<lambda>d. d - int (hits m es)) (map_of deg m)"
    and "m \<in> set (snd (relax es deg)) \<longleftrightarrow> (0 < hits m es \<and> map_of deg m = Some (int (hits m es)))"
    and "distinct (snd (relax es deg))"
proof -
  have "map_of (fst (relax es deg)) m = map_option (\<lambda>d. d - int (hits m es)) (map_of deg m)
    \<and> (m \<in> set (snd (relax es deg)) \<longleftrightarrow> (0 < hits m es \<and> map_of deg m = Some (int (hits m es))))
    \<and> distinct (snd (relax es deg))" for m
    using assms
  proof (induction es arbitrary: deg m)
    case Nil
    then show ?case by (simp add: option.map_ident)
  next
    case (Cons e es)
    show ?case
    proof (cases "ed_loop_back e")
      case True
      with Cons show ?thesis by simp
    next
      case forward: False
      let ?t = "ed_target e"
      show ?thesis
      proof (cases "map_of deg ?t")
        case None
        have "int (hits m es) \<le> d" if "map_of deg m = Some d" for m d
          using Cons.prems [OF that] None that by (auto split: if_splits)
        from Cons.IH [where deg = deg and m = m, OF this] None forward show ?thesis by auto
      next
        case (Some d)
        let ?deg = "AList.update ?t (d - 1) deg"
        have bound: "int (hits m es) \<le> d'" if "map_of ?deg m = Some d'" for m d'
          using Cons.prems [of m] Some that forward by (auto simp: map_of_update split: if_splits)
        have d: "int (hits ?t es) + 1 \<le> d" using Cons.prems [OF Some] forward by simp
        have run: "relax (e # es) deg = (fst (relax es ?deg),
            if d - 1 = 0 then ?t # snd (relax es ?deg) else snd (relax es ?deg))"
          using forward Some by (simp add: split_beta)
        have ih: "map_of (fst (relax es ?deg)) k = map_option (\<lambda>d. d - int (hits k es)) (map_of ?deg k)
          \<and> (k \<in> set (snd (relax es ?deg)) \<longleftrightarrow> (0 < hits k es \<and> map_of ?deg k = Some (int (hits k es))))
          \<and> distinct (snd (relax es ?deg))" for k
          by (rule Cons.IH) (rule bound)
        have "?t \<notin> set (snd (relax es ?deg))" if "d = 1"
          using ih [of ?t] d that by (auto simp: map_of_update)
        then show ?thesis
          using ih [of m] ih [of ?t] d forward Some unfolding run by (auto simp: map_of_update)
      qed
    qed
  qed
  then show "map_of (fst (relax es deg)) m = map_option (\<lambda>d. d - int (hits m es)) (map_of deg m)"
    and "m \<in> set (snd (relax es deg)) \<longleftrightarrow> (0 < hits m es \<and> map_of deg m = Some (int (hits m es)))"
    and "distinct (snd (relax es deg))" by blast+
qed

subsection \<open>The whole sort\<close>

definition forward_edges :: "edge_spec list \<Rightarrow> edge_spec list" where
  "forward_edges es = filter (\<lambda>e. \<not> ed_loop_back e) es"

definition ordered :: "edge_spec list \<Rightarrow> string list \<Rightarrow> bool" where
  \<comment> \<open>every node of the list comes after the sources of its forward edges\<close>
  "ordered es L \<longleftrightarrow>
     (\<forall>ys n zs. L = ys @ n # zs \<longrightarrow>
        (\<forall>e \<in> set (forward_edges es). ed_target e = n \<longrightarrow> ed_source e \<in> set ys))"

definition awaited :: "edge_spec list \<Rightarrow> string list \<Rightarrow> string \<Rightarrow> nat" where
  "awaited es don n =
     length (filter (\<lambda>e. \<not> ed_loop_back e \<and> ed_target e = n \<and> ed_source e \<notin> set don) es)"

lemma awaited_step:
  "n \<notin> set don \<Longrightarrow>
   awaited es (don @ [n]) m + hits m (filter (\<lambda>e. ed_source e = n) es) = awaited es don m"
  by (induction es) (auto simp: awaited_def hits_def)

lemma awaited_zero: "awaited es don n = 0 \<longleftrightarrow>
    (\<forall>e \<in> set (forward_edges es). ed_target e = n \<longrightarrow> ed_source e \<in> set don)"
  by (auto simp: awaited_def forward_edges_def filter_empty_conv)

lemma ordered_snoc:
  "ordered es don \<Longrightarrow> awaited es don n = 0 \<Longrightarrow> ordered es (don @ [n])"
  unfolding ordered_def awaited_zero
  by (auto simp: append_eq_append_conv2 append_eq_Cons_conv Cons_eq_append_conv)

definition topo_state ::
  "edge_spec list \<Rightarrow> string set \<Rightarrow> string list \<Rightarrow> degrees \<Rightarrow> string list \<Rightarrow> bool" where
  "topo_state es N don deg queue \<longleftrightarrow>
     distinct (don @ queue) \<and> set (don @ queue) \<subseteq> N \<and> ordered es don
     \<and> dom (map_of deg) = N
     \<and> (\<forall>n \<in> N. map_of deg n = Some (int (awaited es don n)))
     \<and> (\<forall>n \<in> N. n \<in> set (don @ queue) \<longleftrightarrow> awaited es don n = 0)"

lemma topo_state_step:
  assumes st: "topo_state es N don deg (n # queue)"
    and ends: "\<And>e. e \<in> set es \<Longrightarrow> ed_target e \<in> N"
  shows "topo_state es N (don @ [n]) (fst (relax (filter (\<lambda>e. ed_source e = n) es) deg))
    (queue @ snd (relax (filter (\<lambda>e. ed_source e = n) es) deg))"
proof -
  let ?out = "filter (\<lambda>e. ed_source e = n) es"
  from st have n: "n \<notin> set don" "n \<notin> set queue" "n \<in> N" and ord: "ordered es don"
    and dist: "distinct (don @ queue)" "set (don @ queue) \<subseteq> N"
    and dom: "dom (map_of deg) = N"
    and deg: "\<And>m. m \<in> N \<Longrightarrow> map_of deg m = Some (int (awaited es don m))"
    and zero: "\<And>m. m \<in> N \<Longrightarrow> m \<in> set (don @ n # queue) \<longleftrightarrow> awaited es don m = 0"
    by (auto simp: topo_state_def)
  have split: "awaited es (don @ [n]) m + hits m ?out = awaited es don m" for m
    using n(1) by (rule awaited_step)
  have bound: "int (hits m ?out) \<le> d" if "map_of deg m = Some d" for m d
  proof -
    have "m \<in> N" using that dom by blast
    with deg that split [of m] show ?thesis by simp
  qed
  note effect = relax_effect [where deg = deg and es = ?out, OF bound]
  have hit: "m \<in> N" if "0 < hits m ?out" for m
    using that ends by (auto simp: hits_def length_greater_0_conv filter_empty_conv)
  have deg': "map_of (fst (relax ?out deg)) m = Some (int (awaited es (don @ [n]) m))" if "m \<in> N" for m
    using effect(1) [of m] deg [OF that] split [of m] by simp
  have ready: "m \<in> set (snd (relax ?out deg)) \<longleftrightarrow>
      m \<in> N \<and> awaited es don m \<noteq> 0 \<and> awaited es (don @ [n]) m = 0" for m
    using effect(2) [of m] deg [of m] hit [of m] split [of m] by auto
  have dom': "dom (map_of (fst (relax ?out deg))) = N"
    using effect(1) dom by (auto simp: dom_def)
  have "set (don @ n # queue) \<inter> set (snd (relax ?out deg)) = {}"
  proof (rule ccontr)
    assume "\<not> ?thesis"
    then obtain m where m: "m \<in> set (don @ n # queue)" "m \<in> set (snd (relax ?out deg))" by blast
    from m(2) have "m \<in> N" "awaited es don m \<noteq> 0" using ready [of m] by simp_all
    with zero [of m] m(1) show False by simp
  qed
  then have "distinct ((don @ [n]) @ (queue @ snd (relax ?out deg)))"
    using dist n effect(3) by auto
  moreover have "set ((don @ [n]) @ (queue @ snd (relax ?out deg))) \<subseteq> N"
    using dist n ready by auto
  moreover have "ordered es (don @ [n])"
    using ord zero [OF n(3)] by (intro ordered_snoc) simp_all
  moreover have "m \<in> set ((don @ [n]) @ (queue @ snd (relax ?out deg))) \<longleftrightarrow> awaited es (don @ [n]) m = 0"
    if "m \<in> N" for m
    using zero [OF that] ready [of m] split [of m] that by auto
  ultimately show ?thesis unfolding topo_state_def using deg' dom' by blast
qed

lemma topo_result:
  assumes "topo_state es N don deg queue" and "\<And>e. e \<in> set es \<Longrightarrow> ed_target e \<in> N"
  shows "\<exists>deg'. topo_state es N (don @ topo es deg queue) deg' []"
  using assms
proof (induction es deg queue arbitrary: don rule: topo.induct)
  case (1 es deg)
  then show ?case by auto
next
  case (2 es deg n queue)
  from "2.IH" [OF topo_state_step [OF "2.prems"(1)]] "2.prems"(2) show ?case by simp
qed

text \<open>The in-degrees and the entries the compiler starts from.\<close>

definition indegrees :: "edge_spec list \<Rightarrow> string list \<Rightarrow> degrees" where
  "indegrees es ids = map (\<lambda>n. (n, int (hits n es))) ids"

definition entries_of :: "edge_spec list \<Rightarrow> string list \<Rightarrow> string list" where
  "entries_of es ids = sort (filter (\<lambda>n. hits n es = 0) ids)"

lemma topo_start:
  assumes "distinct ids"
  shows "topo_state es (set ids) [] (indegrees es ids) (entries_of es ids)"
proof -
  have "map_of (indegrees es ids) n = (if n \<in> set ids then Some (int (hits n es)) else None)" for n
    unfolding indegrees_def by (induction ids) auto
  moreover have "awaited es [] n = hits n es" for n by (simp add: awaited_def hits_def)
  ultimately show ?thesis
    using assms by (auto simp: topo_state_def ordered_def entries_of_def dom_def)
qed

definition topo_order :: "edge_spec list \<Rightarrow> string list \<Rightarrow> string list" where
  "topo_order es ids = topo es (indegrees es ids) (entries_of es ids)"

lemma topo_order_facts:
  assumes "distinct ids" and "\<And>e. e \<in> set es \<Longrightarrow> ed_target e \<in> set ids"
  shows "distinct (topo_order es ids)" and "set (topo_order es ids) \<subseteq> set ids"
    and "ordered es (topo_order es ids)"
    and "n \<in> set ids \<Longrightarrow> n \<notin> set (topo_order es ids) \<Longrightarrow>
      \<exists>e \<in> set (forward_edges es). ed_target e = n \<and> ed_source e \<notin> set (topo_order es ids)"
  using topo_result [OF topo_start [OF assms(1)], of es] assms(2) awaited_zero [of es "topo_order es ids" n]
  unfolding topo_order_def topo_state_def by fastforce+

lemma takeWhile_before: "n \<notin> set us \<Longrightarrow> takeWhile (\<lambda>m. m \<noteq> n) (us @ n # vs) = us"
  by (induction us) auto

lemma ordered_acyclic:
  assumes "ordered es L" and "distinct L" and "\<And>e. e \<in> set es \<Longrightarrow> ed_target e \<in> set L"
  shows "acyclic (edge_relation (forward_edges es))"
proof -
  let ?idx = "\<lambda>n. length (takeWhile (\<lambda>m. m \<noteq> n) L)"
  have "edge_relation (forward_edges es) \<subseteq> measure ?idx"
  proof
    fix p assume "p \<in> edge_relation (forward_edges es)"
    then obtain e where e: "e \<in> set (forward_edges es)" and p: "p = (ed_source e, ed_target e)"
      by (auto simp: edge_relation_def)
    then have "ed_target e \<in> set L" using assms(3) by (simp add: forward_edges_def)
    then obtain ys zs where L: "L = ys @ ed_target e # zs" and "ed_target e \<notin> set ys"
      by (meson split_list_first)
    moreover from assms(1) L e have "ed_source e \<in> set ys" unfolding ordered_def by blast
    then obtain us vs where "ys = us @ ed_source e # vs" and "ed_source e \<notin> set us"
      by (meson split_list_first)
    ultimately have "?idx (ed_source e) < ?idx (ed_target e)"
      using takeWhile_before [of "ed_target e" ys zs]
        takeWhile_before [of "ed_source e" us "vs @ ed_target e # zs"] by simp
    then show "p \<in> measure ?idx" by (simp add: p)
  qed
  then show ?thesis by (meson wf_acyclic wf_measure wf_subset)
qed

lemma topo_complete_iff:
  assumes "distinct ids" and "\<And>e. e \<in> set es \<Longrightarrow> ed_target e \<in> set ids"
    and "\<And>e. e \<in> set es \<Longrightarrow> ed_source e \<in> set ids"
  shows "length (topo_order es ids) = length ids \<longleftrightarrow> acyclic (edge_relation (forward_edges es))"
proof -
  let ?L = "topo_order es ids"
  note facts = topo_order_facts [OF assms(1,2)]
  have full: "length ?L = length ids \<longleftrightarrow> set ?L = set ids"
    using facts(1,2) assms(1)
    by (metis card_subset_eq distinct_card finite_set)
  show ?thesis
  proof
    assume "length ?L = length ids"
    then have "set ?L = set ids" using full by blast
    with assms(2) show "acyclic (edge_relation (forward_edges es))"
      by (intro ordered_acyclic [OF facts(3,1)]) auto
  next
    assume acyclic: "acyclic (edge_relation (forward_edges es))"
    have "finite (edge_relation (forward_edges es))" by (simp add: edge_relation_def)
    with acyclic have wf: "wf (edge_relation (forward_edges es))" by (simp add: finite_acyclic_wf)
    have "set ids - set ?L = {}"
    proof (rule ccontr)
      assume "set ids - set ?L \<noteq> {}"
      then obtain z where "z \<in> set ids - set ?L" by blast
      then obtain n where n: "n \<in> set ids - set ?L"
        and least: "\<And>m. (m, n) \<in> edge_relation (forward_edges es) \<Longrightarrow> m \<notin> set ids - set ?L"
        by (rule wfE_min [OF wf]) blast
      from n facts(4) obtain e where e: "e \<in> set (forward_edges es)" "ed_target e = n"
        "ed_source e \<notin> set ?L" by blast
      then have "ed_source e \<in> set ids" using assms(3) by (simp add: forward_edges_def)
      moreover have "(ed_source e, n) \<in> edge_relation (forward_edges es)"
        using e by (force simp: edge_relation_def)
      ultimately show False using least e(3) by blast
    qed
    with facts(2) have "set ?L = set ids" by blast
    with full show "length ?L = length ids" by blast
  qed
qed

end
