(* ===== verification/Graph_Compiler.thy ===== *)
theory Graph_Compiler
  imports Graph_Expr Graph_Topo
begin

section \<open>Workflow graphs: the compiler\<close>

text \<open>
  \<open>GraphCompiler.compile\<close> of \<open>operant/application/graph.py\<close> with \<open>_valid_ownership_path\<close>,
  \<open>_ownership_overlap\<close>, \<open>_validate_merge_sources\<close> and \<open>_validate_multi_writer\<close>. The checks collect
  issues in the source's order; an issue keeps its code, node and edge (the message text is left
  out). Any issue is a \<open>GraphCompilationError\<close>. \<open>parse\<close> is the parser of conditions.
\<close>

definition issue :: "string \<Rightarrow> compilation_issue" where
  "issue c = \<lparr>issue_code = c, issue_node = None, issue_edge = None\<rparr>"

definition node_issue :: "string \<Rightarrow> string \<Rightarrow> compilation_issue" where
  "node_issue c n = \<lparr>issue_code = c, issue_node = Some n, issue_edge = None\<rparr>"

definition edge_issue :: "string \<Rightarrow> string \<Rightarrow> compilation_issue" where
  "edge_issue c e = \<lparr>issue_code = c, issue_node = None, issue_edge = Some e\<rparr>"

definition issue_if :: "bool \<Rightarrow> 'a \<Rightarrow> 'a list" where
  "issue_if b x = (if b then [x] else [])"

lemma issue_if_Nil [simp]: "issue_if b x = [] \<longleftrightarrow> \<not> b"
  by (simp add: issue_if_def)

subsection \<open>Dictionaries by identifier\<close>

definition index_by :: "('a \<Rightarrow> string) \<Rightarrow> 'a list \<Rightarrow> (string \<times> 'a) list" where
  "index_by key xs = fold (\<lambda>x d. AList.update (key x) x d) xs []"

fun duplicate_keys :: "string list \<Rightarrow> string list \<Rightarrow> string list" where
  "duplicate_keys seen [] = []"
| "duplicate_keys seen (k # ks) =
     (if k \<in> set seen then k # duplicate_keys seen ks else duplicate_keys (k # seen) ks)"

lemma duplicate_keys_Nil: "duplicate_keys seen ks = [] \<longleftrightarrow> distinct ks \<and> set seen \<inter> set ks = {}"
  by (induction ks arbitrary: seen) auto

lemma index_fold_distinct:
  "distinct (map fst d) \<Longrightarrow> distinct (map fst (fold (\<lambda>x d. AList.update (key x) x d) xs d))"
  by (induction xs arbitrary: d) (auto intro: distinct_update)

lemma index_by_distinct: "distinct (map fst (index_by key xs))"
  unfolding index_by_def by (rule index_fold_distinct) simp

lemma update_append: "k \<notin> fst ` set d \<Longrightarrow> AList.update k v d = d @ [(k, v)]"
  by (induction d) auto

lemma index_by_eq:
  assumes "distinct (map key xs)"
  shows "index_by key xs = map (\<lambda>x. (key x, x)) xs"
proof -
  have "fold (\<lambda>x d. AList.update (key x) x d) xs d = d @ map (\<lambda>x. (key x, x)) xs"
    if "distinct (map key xs)" and "fst ` set d \<inter> key ` set xs = {}" for d
    using that
  proof (induction xs arbitrary: d)
    case (Cons x xs)
    have "fold (\<lambda>x d. AList.update (key x) x d) xs (d @ [(key x, x)]) =
        (d @ [(key x, x)]) @ map (\<lambda>x. (key x, x)) xs"
      by (rule Cons.IH) (use Cons.prems in auto)
    with Cons.prems show ?case by (simp add: update_append)
  qed simp
  with assms show ?thesis by (simp add: index_by_def)
qed

subsection \<open>Ownership paths\<close>

definition valid_ownership_path :: "string \<Rightarrow> bool" where
  "valid_ownership_path path \<longleftrightarrow>
     path \<noteq> [] \<and> path \<noteq> ''.'' \<and> path \<noteq> ''..'' \<and> CHR 0x5C \<notin> set path
     \<and> \<not> starts_with path ''/''
     \<and> list_all (\<lambda>part. part \<noteq> [] \<and> part \<noteq> ''.'' \<and> part \<noteq> ''..'') (split_on (CHR ''/'') path)"

definition paths_overlap :: "string \<Rightarrow> string \<Rightarrow> bool" where
  "paths_overlap l r \<longleftrightarrow> l = r \<or> starts_with l (r @ ''/'') \<or> starts_with r (l @ ''/'')"

definition ownership_overlap :: "string list \<Rightarrow> string list \<Rightarrow> string list" where
  \<comment> \<open>the shorter path of every overlapping pair\<close>
  "ownership_overlap left right =
     concat (map (\<lambda>l. concat (map (\<lambda>r.
        issue_if (paths_overlap l r) (if length r < length l then r else l)) right)) left)"

subsection \<open>Checks of one edge\<close>

definition port_types_compatible :: "string option \<Rightarrow> string option \<Rightarrow> bool" where
  "port_types_compatible s t \<longleftrightarrow>
     s = None \<or> t = None \<or> s = Some ''any'' \<or> t = Some ''any'' \<or> s = t
     \<or> s = Some ''integer'' \<and> t \<in> {Some ''number'', Some ''json''} \<or> t = Some ''json''"

definition edge_issues ::
  "(string \<Rightarrow> expr option) \<Rightarrow> (string \<times> node_spec) list \<Rightarrow> edge_spec \<Rightarrow> compilation_issue list" where
  "edge_issues parse nodes e =
     (case (map_of nodes (ed_source e), map_of nodes (ed_target e)) of
        (Some source, Some tgt) \<Rightarrow>
          (let sp = map_of (index_by port_name (nd_outputs source)) (ed_source_port e);
               tp = map_of (index_by port_name (nd_inputs tgt)) (ed_target_port e) in
           issue_if (sp = None) (edge_issue ''missing_source_port'' (ed_id e))
           @ issue_if (tp = None) (edge_issue ''missing_target_port'' (ed_id e))
           @ (case (sp, tp) of
                (Some s, Some t) \<Rightarrow>
                  issue_if (\<not> port_types_compatible (canonical_type (port_type s)) (canonical_type (port_type t)))
                    (edge_issue ''port_type_mismatch'' (ed_id e))
              | _ \<Rightarrow> [])
           @ issue_if (ed_loop_back e \<and> nd_kind source \<noteq> NK_LOOP) (edge_issue ''invalid_loop_back'' (ed_id e))
           @ issue_if (case ed_condition e of None \<Rightarrow> False | Some c \<Rightarrow> \<not> is_safe_expression parse c)
               (edge_issue ''invalid_condition'' (ed_id e)))
      | (source, tgt) \<Rightarrow>
          issue_if (source = None) (edge_issue ''missing_source'' (ed_id e))
          @ issue_if (tgt = None) (edge_issue ''missing_target'' (ed_id e)))"

definition live_edges :: "(string \<times> node_spec) list \<Rightarrow> edge_spec list \<Rightarrow> edge_spec list" where
  \<comment> \<open>the edges entered into \<open>incoming\<close> and \<open>outgoing\<close>\<close>
  "live_edges nodes es =
     filter (\<lambda>e. map_of nodes (ed_source e) \<noteq> None \<and> map_of nodes (ed_target e) \<noteq> None) es"

definition incoming_of :: "edge_spec list \<Rightarrow> string \<Rightarrow> edge_spec list" where
  "incoming_of es n = filter (\<lambda>e. ed_target e = n) es"

definition outgoing_of :: "edge_spec list \<Rightarrow> string \<Rightarrow> edge_spec list" where
  "outgoing_of es n = filter (\<lambda>e. ed_source e = n) es"

subsection \<open>Checks of one node\<close>

definition timeout_issues ::
  "(string \<times> node_spec) list \<Rightarrow> edge_spec list \<Rightarrow> node_spec \<Rightarrow> compilation_issue list" where
  "timeout_issues nodes live n =
     (if nd_kind n \<in> {NK_APPROVAL, NK_HUMAN_INPUT}
      then
        (case Option.bind (nd_timeout n) on_timeout_node of
           None \<Rightarrow> [node_issue ''missing_timeout_branch'' (nd_id n)]
         | Some t \<Rightarrow>
             if map_of nodes t = None then [node_issue ''missing_timeout_target'' (nd_id n)]
             else issue_if (\<not> list_ex (\<lambda>e. ed_target e = t) (outgoing_of live (nd_id n)))
               (node_issue ''missing_timeout_edge'' (nd_id n)))
      else [])"

definition loop_branch_issues ::
  "(string \<times> node_spec) list \<Rightarrow> edge_spec list \<Rightarrow> node_spec \<Rightarrow> string option \<Rightarrow> compilation_issue list" where
  "loop_branch_issues nodes live n branch =
     (case branch of
        None \<Rightarrow> []
      | Some t \<Rightarrow>
          if map_of nodes t = None then [node_issue ''missing_loop_branch'' (nd_id n)]
          else issue_if (\<not> list_ex (\<lambda>e. ed_target e = t \<and> \<not> ed_loop_back e) (outgoing_of live (nd_id n)))
            (node_issue ''missing_loop_branch_edge'' (nd_id n)))"

definition loop_issues ::
  "(string \<Rightarrow> expr option) \<Rightarrow> graph_limits \<Rightarrow> (string \<times> node_spec) list \<Rightarrow> edge_spec list \<Rightarrow> node_spec \<Rightarrow>
   compilation_issue list" where
  "loop_issues parse limits nodes live n =
     (case nd_loop n of
        Some p \<Rightarrow>
          if nd_kind n = NK_LOOP
          then
            issue_if (\<not> is_safe_expression parse (exit_expression p)) (node_issue ''invalid_loop_exit'' (nd_id n))
            @ loop_branch_issues nodes live n (Some (on_limit_node p))
            @ loop_branch_issues nodes live n (on_manual_reconcile_node p)
            @ issue_if (graph_max_subagents limits < loop_max_subagents p
                  \<or> graph_max_recursion_depth limits < loop_max_recursion_depth p)
                (node_issue ''loop_limit_escalation'' (nd_id n))
          else []
      | None \<Rightarrow> [])"

definition py_set_elements :: "py option \<Rightarrow> graph_error + py list" where
  \<comment> \<open>\<open>set(metadata.get(key, ()))\<close> for JSON metadata\<close>
  "py_set_elements v =
     (case v of
        None \<Rightarrow> Inr []
      | Some (PList xs) \<Rightarrow> if list_all py_hashable xs then Inr xs else Inl GeTypeError
      | Some (PStr s) \<Rightarrow> Inr (map (\<lambda>c. PStr [c]) s)
      | Some (PDict d) \<Rightarrow> Inr (map fst d)
      | Some _ \<Rightarrow> Inl GeTypeError)"

definition subworkflow_issues :: "node_spec \<Rightarrow> graph_error + compilation_issue list" where
  "subworkflow_issues n =
     (if nd_kind n = NK_SUBWORKFLOW
      then
        (case py_set_elements (map_of (nd_metadata n) ''required_capabilities'') of
           Inl e \<Rightarrow> Inl e
         | Inr requested \<Rightarrow>
             Inr (issue_if (\<not> list_all (\<lambda>r. list_ex (\<lambda>g. py_eq r (PStr g)) (nd_capabilities n)) requested)
               (node_issue ''subworkflow_permission_escalation'' (nd_id n))))
      else Inr [])"

definition unbound_inputs :: "edge_spec list \<Rightarrow> node_spec \<Rightarrow> bool" where
  "unbound_inputs live n \<longleftrightarrow>
     incoming_of live (nd_id n) \<noteq> []
     \<and> list_ex (\<lambda>p. port_required p
          \<and> port_name p \<notin> set (map ed_target_port
              (filter (\<lambda>e. \<not> ed_loop_back e) (incoming_of live (nd_id n))))) (nd_inputs n)"

definition node_issues ::
  "(string \<Rightarrow> expr option) \<Rightarrow> workflow_definition \<Rightarrow> (string \<times> node_spec) list \<Rightarrow> edge_spec list \<Rightarrow>
   node_spec \<Rightarrow> graph_error + compilation_issue list" where
  "node_issues parse def nodes live n =
     res_bind (subworkflow_issues n) (\<lambda>sub.
     Inr
       (concat (map (\<lambda>p. issue_if (canonical_type (port_type p) = None)
           (node_issue ''unsupported_port_type'' (nd_id n))) (nd_inputs n @ nd_outputs n))
        @ issue_if (unbound_inputs live n) (node_issue ''missing_required_input'' (nd_id n))
        @ issue_if (nd_writes n \<and> nd_idempotency n = IC_PURE) (node_issue ''writer_marked_pure'' (nd_id n))
        @ issue_if (1 < max_attempts (nd_retry n) \<and> nd_idempotency n = IC_NON_IDEMPOTENT)
            (node_issue ''unsafe_retry'' (nd_id n))
        @ timeout_issues nodes live n
        @ loop_issues parse (wf_limits def) nodes live n
        @ sub
        @ issue_if (case nd_model_override n of None \<Rightarrow> False
                | Some m \<Rightarrow> map_of (wf_providers def) m = None)
            (node_issue ''unlocked_provider_version'' (nd_id n))))"

fun all_node_issues ::
  "(string \<Rightarrow> expr option) \<Rightarrow> workflow_definition \<Rightarrow> (string \<times> node_spec) list \<Rightarrow> edge_spec list \<Rightarrow>
   (string \<times> node_spec) list \<Rightarrow> graph_error + compilation_issue list" where
  "all_node_issues parse def nodes live [] = Inr []"
| "all_node_issues parse def nodes live ((k, n) # rest) =
     res_bind (node_issues parse def nodes live n) (\<lambda>xs.
     res_bind (all_node_issues parse def nodes live rest) (\<lambda>ys. Inr (xs @ ys)))"

subsection \<open>Joins and writers\<close>

definition mixed_join_issues :: "edge_spec list \<Rightarrow> compilation_issue list" where
  "mixed_join_issues live =
     concat (map (\<lambda>t.
       issue_if (1 < length (remdups (map ed_join (filter (\<lambda>e. \<not> ed_loop_back e) (incoming_of live t)))))
         (node_issue ''mixed_join_mode'' t)) (dedup (map ed_target live)))"

definition workspace_writers :: "node_spec list \<Rightarrow> node_spec list" where
  "workspace_writers ns = filter (\<lambda>n. nd_writes n \<and> nd_kind n \<noteq> NK_MERGE) ns"

definition writers_with_key :: "node_spec list \<Rightarrow> string \<Rightarrow> node_spec list" where
  "writers_with_key writers k =
     filter (\<lambda>n. case nd_writer n of None \<Rightarrow> False | Some p \<Rightarrow> writer_key p = k) writers"

definition merge_source_issue ::
  "node_spec list \<Rightarrow> edge_spec list \<Rightarrow> node_spec \<Rightarrow> string \<Rightarrow> compilation_issue list" where
  "merge_source_issue writers live m k =
     (case writers_with_key writers k of
        [] \<Rightarrow> [node_issue ''merge_source_writer_missing'' (nd_id m)]
      | [w] \<Rightarrow> issue_if (\<not> node_reaches live (nd_id w) (nd_id m))
          (node_issue ''writer_not_connected_to_merge'' (nd_id w))
      | _ \<Rightarrow> [node_issue ''merge_source_writer_ambiguous'' (nd_id m)])"

definition validate_merge_sources ::
  "node_spec list \<Rightarrow> node_spec list \<Rightarrow> edge_spec list \<Rightarrow> compilation_issue list" where
  "validate_merge_sources writers ns live =
     concat (map (\<lambda>m.
       case nd_merge m of
         Some p \<Rightarrow>
           if nd_kind m = NK_MERGE
           then
             issue_if (length (source_writer_keys p) < 2 \<or> \<not> distinct (source_writer_keys p))
               (node_issue ''invalid_merge_sources'' (nd_id m))
             @ concat (map (merge_source_issue writers live m) (sort (remdups (source_writer_keys p))))
           else []
       | None \<Rightarrow> []) ns)"

definition typed_writers :: "node_spec list \<Rightarrow> (node_spec \<times> writer_policy) list" where
  "typed_writers writers =
     concat (map (\<lambda>n. case nd_writer n of None \<Rightarrow> [] | Some p \<Rightarrow> [(n, p)]) writers)"

fun overlap_issues :: "(node_spec \<times> writer_policy) list \<Rightarrow> compilation_issue list" where
  "overlap_issues [] = []"
| "overlap_issues ((n, p) # rest) =
     concat (map (\<lambda>(m, q).
       issue_if (ownership_overlap (ownership_paths p) (ownership_paths q) \<noteq> [])
         (issue ''writer_ownership_overlap'')) rest)
     @ overlap_issues rest"

definition validate_multi_writer ::
  "node_spec list \<Rightarrow> node_spec list \<Rightarrow> compilation_issue list" where
  "validate_multi_writer writers ns =
     (let typed = typed_writers writers;
          keys = map (\<lambda>(n, p). writer_key p) typed;
          refs = map (\<lambda>(n, p). isolation_ref p) typed;
          covering_merges = filter (\<lambda>m. nd_kind m = NK_MERGE
              \<and> (case nd_merge m of None \<Rightarrow> False
                 | Some p \<Rightarrow> set (source_writer_keys p) = set keys)) ns in
      concat (map (\<lambda>n.
        case nd_writer n of
          None \<Rightarrow> [node_issue ''writer_policy_required'' (nd_id n)]
        | Some p \<Rightarrow> concat (map (\<lambda>path. issue_if (\<not> valid_ownership_path path)
            (node_issue ''invalid_writer_ownership_path'' (nd_id n))) (ownership_paths p))) writers)
      @ issue_if (\<not> distinct keys) (issue ''duplicate_writer_key'')
      @ issue_if (\<not> distinct refs) (issue ''shared_writer_isolation'')
      @ overlap_issues typed
      @ issue_if (length covering_merges \<noteq> 1 \<or> length (remdups keys) \<noteq> length writers)
          (issue ''explicit_merge_required''))"

definition writer_issues :: "node_spec list \<Rightarrow> edge_spec list \<Rightarrow> compilation_issue list" where
  "writer_issues ns live =
     (let writers = workspace_writers ns in
      validate_merge_sources writers ns live
      @ (if 1 < length writers
         then issue_if (list_ex (\<lambda>n. nd_writer n = None) writers) (issue ''multiple_writers'')
              @ validate_multi_writer writers ns
         else []))"

subsection \<open>The whole compilation\<close>

definition header_issues ::
  "workflow_definition \<Rightarrow> (string \<times> node_spec) list \<Rightarrow> (string \<times> edge_spec) list \<Rightarrow> compilation_issue list" where
  "header_issues def nodes edges =
     issue_if (list_ex (\<lambda>k. starts_with k ''__operant_'') (map fst (wf_policy def)))
       (issue ''reserved_runtime_policy'')
     @ map (node_issue ''duplicate_node'') (duplicate_keys [] (map nd_id (wf_nodes def)))
     @ map (edge_issue ''duplicate_edge'') (duplicate_keys [] (map ed_id (wf_edges def)))
     @ issue_if (nodes = []) (issue ''empty_graph'')
     @ issue_if (max_nodes (wf_limits def) < int (length nodes)) (issue ''node_limit'')
     @ issue_if (max_edges (wf_limits def) < int (length edges)) (issue ''edge_limit'')
     @ issue_if (wf_plugins def \<noteq> []) (issue ''plugins_out_of_scope'')"

definition order_issues :: "edge_spec list \<Rightarrow> string list \<Rightarrow> compilation_issue list" where
  "order_issues live ids =
     (let entries = entries_of live ids in
      issue_if (length (topo_order live ids) \<noteq> length ids) (issue ''illegal_cycle'')
      @ (if entries = [] then []
         else map (node_issue ''unreachable_node'')
           (sort (filter (\<lambda>n. n \<notin> set (reach live entries [])) ids))))"

definition compile :: "(string \<Rightarrow> expr option) \<Rightarrow> workflow_definition \<Rightarrow> graph_error + compiled_workflow" where
  "compile parse def =
     (let nodes = index_by nd_id (wf_nodes def);
          edges = index_by ed_id (wf_edges def);
          ids = map fst nodes;
          ns = map snd nodes;
          es = map snd edges;
          live = live_edges nodes es in
      res_bind (all_node_issues parse def nodes live nodes) (\<lambda>per_node.
      let issues = header_issues def nodes edges
            @ concat (map (edge_issues parse nodes) es)
            @ per_node
            @ mixed_join_issues live
            @ writer_issues ns live
            @ order_issues live ids in
      if issues \<noteq> [] then Inl (GeCompilation issues)
      else Inr \<lparr>cw_definition = def, cw_entries = entries_of live ids,
             cw_order = topo_order live ids,
             cw_terminals = sort (filter (\<lambda>n. outgoing_of live n = []) ids),
             cw_incoming = map (\<lambda>n. (n, map ed_id (incoming_of live n))) ids,
             cw_outgoing = map (\<lambda>n. (n, map ed_id (outgoing_of live n))) ids\<rparr>))"

subsection \<open>What a successful compilation guarantees\<close>

lemma all_node_issues_Inr:
  "all_node_issues parse def nodes live ns = Inr [] \<Longrightarrow> (k, n) \<in> set ns \<Longrightarrow>
   node_issues parse def nodes live n = Inr []"
  by (induction parse def nodes live ns rule: all_node_issues.induct) (auto simp: res_bind_Inr_iff)

lemma compile_Inr:
  assumes "compile parse def = Inr cw"
  defines "nodes \<equiv> map (\<lambda>n. (nd_id n, n)) (wf_nodes def)"
    and "ids \<equiv> map nd_id (wf_nodes def)" and "es \<equiv> wf_edges def"
  shows "distinct ids" "distinct (map ed_id es)" "ids \<noteq> []"
    "\<And>n. n \<in> set (wf_nodes def) \<Longrightarrow> node_issues parse def nodes es n = Inr []"
    "\<And>e. e \<in> set es \<Longrightarrow> edge_issues parse nodes e = []"
    "mixed_join_issues es = []" "writer_issues (wf_nodes def) es = []" "order_issues es ids = []"
    "header_issues def nodes (map (\<lambda>e. (ed_id e, e)) es) = []"
    "live_edges nodes es = es"
    "cw_definition cw = def" "cw_entries cw = entries_of es ids" "cw_order cw = topo_order es ids"
    "cw_terminals cw = sort (filter (\<lambda>n. outgoing_of es n = []) ids)"
proof -
  let ?nodes = "index_by nd_id (wf_nodes def)"
  let ?edges = "index_by ed_id (wf_edges def)"
  let ?live = "live_edges ?nodes (map snd ?edges)"
  from assms(1) have clean: "header_issues def ?nodes ?edges = []"
    and per: "all_node_issues parse def ?nodes ?live ?nodes = Inr []"
    and edge: "concat (map (edge_issues parse ?nodes) (map snd ?edges)) = []"
    and rest: "mixed_join_issues ?live = []" "writer_issues (map snd ?nodes) ?live = []"
      "order_issues ?live (map fst ?nodes) = []"
    and cw: "cw_definition cw = def" "cw_entries cw = entries_of ?live (map fst ?nodes)"
      "cw_order cw = topo_order ?live (map fst ?nodes)"
      "cw_terminals cw = sort (filter (\<lambda>n. outgoing_of ?live n = []) (map fst ?nodes))"
    unfolding compile_def Let_def by (auto simp: res_bind_Inr_iff split: if_splits)
  from clean have d: "distinct (map nd_id (wf_nodes def))" "distinct (map ed_id (wf_edges def))"
    and ne: "?nodes \<noteq> []"
    by (simp_all add: header_issues_def duplicate_keys_Nil)
  have nodes: "?nodes = nodes" and edges: "?edges = map (\<lambda>e. (ed_id e, e)) es"
    using index_by_eq [OF d(1)] index_by_eq [OF d(2)] by (simp_all add: nodes_def es_def)
  have ids: "map fst nodes = ids" "map snd nodes = wf_nodes def"
    by (simp_all add: nodes_def ids_def comp_def)
  have es: "map snd ?edges = es" unfolding edges by (simp add: comp_def)
  show each: "edge_issues parse nodes e = []" if "e \<in> set es" for e
    using edge that unfolding es nodes by simp
  have "map_of nodes (ed_source e) \<noteq> None \<and> map_of nodes (ed_target e) \<noteq> None" if "e \<in> set es" for e
    using each [OF that] by (auto simp: edge_issues_def split: option.splits)
  then show live: "live_edges nodes es = es" by (simp add: live_edges_def filter_id_conv)
  have lv: "?live = es" unfolding nodes es by (rule live)
  show "distinct ids" "distinct (map ed_id es)" using d by (simp_all add: ids_def es_def)
  show "ids \<noteq> []" using ne unfolding nodes by (simp add: nodes_def ids_def)
  show "node_issues parse def nodes es n = Inr []" if "n \<in> set (wf_nodes def)" for n
    using all_node_issues_Inr [OF per [unfolded lv, unfolded nodes], of "nd_id n" n] that
    by (auto simp: nodes_def)
  show "mixed_join_issues es = []" "writer_issues (wf_nodes def) es = []" "order_issues es ids = []"
    using rest [unfolded lv, unfolded nodes] unfolding ids by simp_all
  show "header_issues def nodes (map (\<lambda>e. (ed_id e, e)) es) = []"
    using clean unfolding nodes edges .
  show "cw_definition cw = def" "cw_entries cw = entries_of es ids" "cw_order cw = topo_order es ids"
    "cw_terminals cw = sort (filter (\<lambda>n. outgoing_of es n = []) ids)"
    using cw(1) cw(2-4) [unfolded lv, unfolded nodes] unfolding ids by simp_all
qed

end
