(* ===== verification/Graph_Compiled.thy ===== *)
theory Graph_Compiled
  imports Graph_Compiler
begin

section \<open>Workflow graphs: what compiled graphs are like\<close>

subsection \<open>Order and reachability\<close>

lemma compile_endpoints:
  assumes "compile parse def = Inr cw" and "e \<in> set (wf_edges def)"
  obtains s t sp tp where "s \<in> set (wf_nodes def)" "nd_id s = ed_source e"
    "t \<in> set (wf_nodes def)" "nd_id t = ed_target e"
    "sp \<in> set (nd_outputs s)" "port_name sp = ed_source_port e"
    "tp \<in> set (nd_inputs t)" "port_name tp = ed_target_port e"
    "port_types_compatible (canonical_type (port_type sp)) (canonical_type (port_type tp))"
    "ed_loop_back e \<longrightarrow> nd_kind s = NK_LOOP"
    "\<forall>c. ed_condition e = Some c \<longrightarrow> is_safe_expression parse c"
proof -
  let ?nodes = "map (\<lambda>n. (nd_id n, n)) (wf_nodes def)"
  have clean: "edge_issues parse ?nodes e = []" by (rule compile_Inr(5) [OF assms])
  then obtain s t where s: "map_of ?nodes (ed_source e) = Some s"
    and t: "map_of ?nodes (ed_target e) = Some t"
    by (auto simp: edge_issues_def split: option.splits)
  from clean s t obtain sp tp where sp: "map_of (index_by port_name (nd_outputs s)) (ed_source_port e) = Some sp"
    and tp: "map_of (index_by port_name (nd_inputs t)) (ed_target_port e) = Some tp"
    by (auto simp: edge_issues_def Let_def)
  have port: "p \<in> set ps \<and> port_name p = k" if "map_of (index_by port_name ps) k = Some p"
    for ps :: "port_spec list" and k p
  proof -
    have "set (fold (\<lambda>x d. AList.update (port_name x) x d) ps d) \<subseteq> set d \<union> (\<lambda>x. (port_name x, x)) ` set ps"
      for d :: "(string \<times> port_spec) list"
    proof (induction ps arbitrary: d)
      case (Cons x ps)
      have "set (AList.update (port_name x) x d) \<subseteq> insert (port_name x, x) (set d)"
        by (induction d) auto
      with Cons [of "AList.update (port_name x) x d"] show ?case by auto
    qed simp
    from this [of "[]"] map_of_SomeD [OF that] show ?thesis unfolding index_by_def by auto
  qed
  from s t have "s \<in> set (wf_nodes def)" "nd_id s = ed_source e" "t \<in> set (wf_nodes def)" "nd_id t = ed_target e"
    by (auto dest!: map_of_SomeD)
  with port [OF sp] port [OF tp] clean s t sp tp show ?thesis
    by (intro that [of s t sp tp]) (auto simp: edge_issues_def Let_def split: option.splits)
qed

lemma compile_order:
  assumes "compile parse def = Inr cw"
  shows "distinct (cw_order cw)" and "set (cw_order cw) = set (map nd_id (wf_nodes def))"
    and "ordered (wf_edges def) (cw_order cw)"
    and "acyclic (edge_relation (forward_edges (wf_edges def)))"
proof -
  let ?ids = "map nd_id (wf_nodes def)"
  note facts = compile_Inr [OF assms]
  have ends: "ed_source e \<in> set ?ids" "ed_target e \<in> set ?ids" if "e \<in> set (wf_edges def)" for e
    using compile_endpoints [OF assms that] by (metis image_eqI list.set_map)+
  have len: "length (topo_order (wf_edges def) ?ids) = length ?ids"
    using facts(8) by (simp add: order_issues_def Let_def)
  note topo = topo_order_facts [where es = "wf_edges def", OF facts(1) ends(2)]
  show "distinct (cw_order cw)" and "ordered (wf_edges def) (cw_order cw)"
    using topo facts(13) by simp_all
  show "acyclic (edge_relation (forward_edges (wf_edges def)))"
    using topo_complete_iff [OF facts(1) ends(2,1)] len by blast
  have "card (set (topo_order (wf_edges def) ?ids)) = card (set ?ids)"
    by (simp only: distinct_card [OF topo(1)] distinct_card [OF facts(1)] len)
  then show "set (cw_order cw) = set ?ids"
    using topo(2) facts(13) by (simp add: card_subset_eq)
qed

lemma ordered_before:
  assumes "ordered es L" and "distinct L" and "e \<in> set es" and "\<not> ed_loop_back e"
    and "ed_target e \<in> set L"
  shows "\<exists>xs ys zs. L = xs @ ed_source e # ys @ ed_target e # zs"
proof -
  from assms(5) obtain ys zs where L: "L = ys @ ed_target e # zs" by (meson split_list)
  have "e \<in> set (forward_edges es)" using assms(3,4) by (simp add: forward_edges_def)
  with assms(1) L have "ed_source e \<in> set ys" unfolding ordered_def by blast
  then obtain us vs where "ys = us @ ed_source e # vs" by (meson split_list)
  with L show ?thesis by auto
qed

lemma compile_entries:
  assumes "compile parse def = Inr cw"
  shows "n \<in> set (cw_entries cw) \<longleftrightarrow>
      n \<in> set (map nd_id (wf_nodes def)) \<and> (\<forall>e \<in> set (wf_edges def). ed_target e = n \<longrightarrow> ed_loop_back e)"
    and "cw_entries cw \<noteq> []"
    and "m \<in> set (map nd_id (wf_nodes def)) \<Longrightarrow>
      \<exists>n \<in> set (cw_entries cw). (n, m) \<in> (edge_relation (wf_edges def))\<^sup>*"
proof -
  let ?ids = "map nd_id (wf_nodes def)" and ?es = "wf_edges def"
  note facts = compile_Inr [OF assms]
  show ent: "n \<in> set (cw_entries cw) \<longleftrightarrow>
      n \<in> set ?ids \<and> (\<forall>e \<in> set ?es. ed_target e = n \<longrightarrow> ed_loop_back e)" for n
    using facts(12) by (auto simp: entries_of_def hits_def filter_empty_conv)
  obtain L where L: "cw_order cw = L" by blast
  note ord = compile_order [OF assms, unfolded L]
  show some: "cw_entries cw \<noteq> []"
  proof (cases L)
    case Nil
    with ord(2) facts(3) show ?thesis by simp
  next
    case (Cons n L')
    have "\<forall>e \<in> set (forward_edges ?es). ed_target e = n \<longrightarrow> ed_source e \<in> set []"
      using ord(3) Cons unfolding ordered_def by (metis append_Nil)
    moreover have "n \<in> set ?ids" using ord(2) Cons by auto
    ultimately have "n \<in> set (cw_entries cw)" unfolding ent by (auto simp: forward_edges_def)
    then show ?thesis by auto
  qed
  show "\<exists>n \<in> set (cw_entries cw). (n, m) \<in> (edge_relation ?es)\<^sup>*" if "m \<in> set ?ids" for m
  proof -
    have "sort (filter (\<lambda>n. n \<notin> set (reach ?es (entries_of ?es ?ids) [])) ?ids) = []"
      using facts(8) some facts(12) by (auto simp: order_issues_def Let_def)
    then have "filter (\<lambda>n. n \<notin> set (reach ?es (entries_of ?es ?ids) [])) ?ids = []"
      by (metis set_empty set_sort)
    with that have "m \<in> set (reach ?es (entries_of ?es ?ids) [])"
      by (auto simp: filter_empty_conv)
    then show ?thesis unfolding reach_iff facts(12) .
  qed
qed

text \<open>A cycle of forward edges is always reported.\<close>

lemma all_node_issues_Inl: "all_node_issues parse def nodes live ns = Inl e \<Longrightarrow> e = GeTypeError"
  by (induction parse def nodes live ns rule: all_node_issues.induct)
    (auto simp: res_bind_Inl_iff node_issues_def subworkflow_issues_def py_set_elements_def
      split: if_splits sum.splits option.splits py.splits)

lemma cycle_reported:
  assumes "distinct (map nd_id (wf_nodes def))" and "distinct (map ed_id (wf_edges def))"
    and "\<And>e. e \<in> set (wf_edges def) \<Longrightarrow>
      ed_source e \<in> nd_id ` set (wf_nodes def) \<and> ed_target e \<in> nd_id ` set (wf_nodes def)"
    and "\<not> acyclic (edge_relation (forward_edges (wf_edges def)))"
    and "compile parse def = Inl (GeCompilation issues)"
  shows "issue ''illegal_cycle'' \<in> set issues"
proof -
  let ?nodes = "map (\<lambda>n. (nd_id n, n)) (wf_nodes def)" and ?es = "wf_edges def"
  let ?ids = "map nd_id (wf_nodes def)"
  have nodes: "index_by nd_id (wf_nodes def) = ?nodes" and edges: "map snd (index_by ed_id ?es) = ?es"
    using index_by_eq [OF assms(1)] index_by_eq [OF assms(2)] by (simp_all add: comp_def)
  have "map_of ?nodes k \<noteq> None" if "k \<in> nd_id ` set (wf_nodes def)" for k
    using that unfolding map_of_eq_None_iff by (simp add: image_image)
  then have live: "live_edges ?nodes ?es = ?es"
    using assms(3) by (simp add: live_edges_def filter_id_conv)
  have "length (topo_order ?es ?ids) \<noteq> length ?ids"
    using topo_complete_iff [OF assms(1), of ?es] assms(3,4) by auto
  then have "issue ''illegal_cycle'' \<in> set (order_issues ?es ?ids)"
    by (simp add: order_issues_def Let_def issue_if_def)
  moreover have "map fst ?nodes = ?ids" by (simp add: comp_def)
  ultimately show ?thesis
    using assms(5) unfolding compile_def Let_def nodes edges live
    by (auto simp: res_bind_Inl_iff comp_def split: if_splits dest: all_node_issues_Inl)
qed

subsection \<open>Writers\<close>

definition owns :: "string \<Rightarrow> string \<Rightarrow> bool" where
  \<comment> \<open>the file lies at or under the path\<close>
  "owns path file \<longleftrightarrow>
     take (length (split_on (CHR ''/'') path)) (split_on (CHR ''/'') file) = split_on (CHR ''/'') path"

lemma join_append:
  "xs \<noteq> [] \<Longrightarrow> ys \<noteq> [] \<Longrightarrow> join_on c (xs @ ys) = join_on c xs @ c # join_on c ys"
proof (induction xs rule: join_on.induct)
  case (2 c p)
  then show ?case by (cases ys) simp_all
qed simp_all

lemma prefix_overlaps:
  assumes "split_on (CHR ''/'') q = split_on (CHR ''/'') p @ rest"
  shows "paths_overlap p q"
proof (cases "rest = []")
  case True
  with assms have "join_on (CHR ''/'') (split_on (CHR ''/'') q) = join_on (CHR ''/'') (split_on (CHR ''/'') p)"
    by simp
  then show ?thesis by (simp add: paths_overlap_def)
next
  case False
  have "q = join_on (CHR ''/'') (split_on (CHR ''/'') p @ rest)" by (simp add: assms [symmetric])
  also have "\<dots> = p @ CHR ''/'' # join_on (CHR ''/'') rest" using False by (simp add: join_append)
  finally have "starts_with q (p @ ''/'')" by (simp add: starts_with_iff)
  then show ?thesis by (simp add: paths_overlap_def)
qed

lemma owned_twice:
  assumes "owns p f" and "owns q f"
  shows "paths_overlap p q"
proof -
  let ?f = "split_on (CHR ''/'') f" and ?p = "split_on (CHR ''/'') p" and ?q = "split_on (CHR ''/'') q"
  from assms obtain fp fq where f: "?f = ?p @ fp" "?f = ?q @ fq"
    unfolding owns_def by (metis append_take_drop_id)
  then have "?p @ fp = ?q @ fq" by simp
  then obtain us where "?p = ?q @ us \<or> ?q = ?p @ us"
    unfolding append_eq_append_conv2 by (metis (no_types))
  then show ?thesis
  proof
    assume "?p = ?q @ us"
    from prefix_overlaps [OF this] show ?thesis by (auto simp: paths_overlap_def)
  next
    assume "?q = ?p @ us"
    from prefix_overlaps [OF this] show ?thesis .
  qed
qed

lemma overlap_issues_apart:
  "overlap_issues (xs @ (n, p) # ys @ (m, q) # zs) = [] \<Longrightarrow>
   a \<in> set (ownership_paths p) \<Longrightarrow> b \<in> set (ownership_paths q) \<Longrightarrow> \<not> paths_overlap a b"
proof (induction xs)
  case Nil
  then have "ownership_overlap (ownership_paths p) (ownership_paths q) = []" by simp
  with Nil.prems(2,3) show ?case
    unfolding ownership_overlap_def concat_eq_Nil_conv set_map ball_simps issue_if_Nil by blast
next
  case (Cons x xs)
  then show ?case by (cases x) simp
qed

lemma typed_writers_all:
  "\<not> list_ex (\<lambda>n. nd_writer n = None) writers \<Longrightarrow> typed_writers writers = map (\<lambda>n. (n, the (nd_writer n))) writers"
  by (induction writers) (auto simp: typed_writers_def)

lemma filter_eq_single: "distinct xs \<Longrightarrow> x \<in> set xs \<Longrightarrow> filter (\<lambda>n. n = x) xs = [x]"
  by (induction xs) (auto simp: filter_empty_conv)

lemma compile_writers:
  assumes "compile parse def = Inr cw"
    and u: "u \<in> set (wf_nodes def)" "nd_writes u" "nd_kind u \<noteq> NK_MERGE"
    and v: "v \<in> set (wf_nodes def)" "nd_writes v" "nd_kind v \<noteq> NK_MERGE"
    and "nd_id u \<noteq> nd_id v"
  obtains p q m mp where "nd_writer u = Some p" "nd_writer v = Some q"
    "writer_key p \<noteq> writer_key q" "isolation_ref p \<noteq> isolation_ref q"
    "\<And>a b f. a \<in> set (ownership_paths p) \<Longrightarrow> b \<in> set (ownership_paths q) \<Longrightarrow> \<not> (owns a f \<and> owns b f)"
    "m \<in> set (wf_nodes def)" "nd_kind m = NK_MERGE" "nd_merge m = Some mp"
    "{writer_key p, writer_key q} \<subseteq> set (source_writer_keys mp)"
    "(nd_id u, nd_id m) \<in> (edge_relation (forward_edges (wf_edges def)))\<^sup>*"
    "(nd_id v, nd_id m) \<in> (edge_relation (forward_edges (wf_edges def)))\<^sup>*"
proof -
  let ?ns = "wf_nodes def" and ?es = "wf_edges def"
  let ?ws = "workspace_writers ?ns"
  note facts = compile_Inr [OF assms(1)]
  have uv: "u \<in> set ?ws" "v \<in> set ?ws" "u \<noteq> v" using u v assms(8) by (auto simp: workspace_writers_def)
  have "distinct ?ns" using facts(1) by (simp add: distinct_map)
  then have dws: "distinct ?ws" by (simp add: workspace_writers_def)
  have many: "1 < length ?ws"
  proof (rule ccontr)
    assume "\<not> 1 < length ?ws"
    then have "length ?ws \<le> 1" by simp
    then show False using uv by (cases ?ws) auto
  qed
  with facts(7) have typed: "\<not> list_ex (\<lambda>n. nd_writer n = None) ?ws"
    and multi: "validate_multi_writer ?ws ?ns = []"
    and sources: "validate_merge_sources ?ws ?ns ?es = []"
    by (simp_all add: writer_issues_def Let_def)
  note tw = typed_writers_all [OF typed]
  from typed uv have "nd_writer u \<noteq> None" and "nd_writer v \<noteq> None" by (auto simp: list_ex_iff)
  then obtain p q where p: "nd_writer u = Some p" and q: "nd_writer v = Some q" by blast
  have keys: "distinct (map (\<lambda>n. writer_key (the (nd_writer n))) ?ws)"
    and refs: "distinct (map (\<lambda>n. isolation_ref (the (nd_writer n))) ?ws)"
    and apart: "overlap_issues (map (\<lambda>n. (n, the (nd_writer n))) ?ws) = []"
    using multi unfolding validate_multi_writer_def Let_def tw by (simp_all add: comp_def)
  have ne: "writer_key p \<noteq> writer_key q" "isolation_ref p \<noteq> isolation_ref q"
    using keys refs uv p q by (auto simp: distinct_map inj_on_def)
  have exclusive: "\<not> (owns a f \<and> owns b f)"
    if a: "a \<in> set (ownership_paths p)" and b: "b \<in> set (ownership_paths q)" for a b f
  proof -
    from uv obtain xs ys zs where "?ws = xs @ u # ys @ v # zs \<or> ?ws = xs @ v # ys @ u # zs"
      by (metis append_Cons append_assoc in_set_conv_decomp split_list Un_iff set_ConsD set_append)
    then have "\<not> paths_overlap a b \<or> \<not> paths_overlap b a"
    proof
      assume "?ws = xs @ u # ys @ v # zs"
      with apart p q overlap_issues_apart [of "map (\<lambda>n. (n, the (nd_writer n))) xs" u p
          "map (\<lambda>n. (n, the (nd_writer n))) ys" v q "map (\<lambda>n. (n, the (nd_writer n))) zs" a b] a b
      show ?thesis by simp
    next
      assume "?ws = xs @ v # ys @ u # zs"
      with apart p q overlap_issues_apart [of "map (\<lambda>n. (n, the (nd_writer n))) xs" v q
          "map (\<lambda>n. (n, the (nd_writer n))) ys" u p "map (\<lambda>n. (n, the (nd_writer n))) zs" b a] a b
      show ?thesis by simp
    qed
    then show ?thesis using owned_twice by blast
  qed
  let ?keys = "map (\<lambda>n. writer_key (the (nd_writer n))) ?ws"
  let ?cover = "\<lambda>m. nd_kind m = NK_MERGE \<and> (case nd_merge m of None \<Rightarrow> False
      | Some mp \<Rightarrow> set (source_writer_keys mp) = set ?keys)"
  have keys_typed: "map (\<lambda>(n, p). writer_key p) (map (\<lambda>n. (n, the (nd_writer n))) ?ws) = ?keys" by simp
  have "length (filter ?cover ?ns) = 1"
    using multi unfolding validate_multi_writer_def Let_def tw keys_typed by simp
  then have "0 < length (filter ?cover ?ns)" by linarith
  then have "hd (filter ?cover ?ns) \<in> set (filter ?cover ?ns)" unfolding length_greater_0_conv by (rule hd_in_set)
  then obtain m where "m \<in> set (filter ?cover ?ns)" by (rule that)
  then obtain mp where m: "m \<in> set ?ns" "nd_kind m = NK_MERGE" "nd_merge m = Some mp"
    "set (source_writer_keys mp) = set ?keys" by (auto split: option.splits)
  have reaches: "node_reaches ?es (nd_id w) (nd_id m)"
    if w: "w \<in> set ?ws" "nd_writer w = Some wp" for w wp
  proof -
    have wk: "writer_key wp \<in> set (source_writer_keys mp)" using w m(4) by force
    have "merge_source_issue ?ws ?es m (writer_key wp) = []"
      using sources m wk by (auto simp: validate_merge_sources_def split: option.splits)
    moreover have "writers_with_key ?ws (writer_key wp) = [w]"
    proof -
      have "writers_with_key ?ws (writer_key wp) = filter (\<lambda>n. n = w) ?ws"
        unfolding writers_with_key_def
        using keys w typed by (intro filter_cong refl) (auto simp: distinct_map inj_on_def list_ex_iff split: option.splits)
      then show ?thesis using dws w(1) by (simp add: filter_eq_single)
    qed
    ultimately show ?thesis by (simp add: merge_source_issue_def)
  qed
  have fwd: "forward_edges ?es = filter (\<lambda>e. \<not> ed_loop_back e) ?es" by (simp add: forward_edges_def)
  show ?thesis
    using that [OF p q ne exclusive m(1-3)] reaches [OF uv(1) p] reaches [OF uv(2) q] m(4) uv p q
    by (force simp: node_reaches_iff fwd)
qed

end
