(* ===== verification/Graph_Repository.thy ===== *)
theory Graph_Repository
  imports Graph_Ports
begin

section \<open>Workflow graphs: the repository\<close>

text \<open>
  \<open>InMemoryGraphRepository\<close> of \<open>operant/application/graph.py\<close>, the reference implementation of
  \<open>GraphRepository\<close>: four dictionaries in insertion order. Every write of a run or node run is a
  compare-and-swap on its revision, and an attempt that left \<open>running\<close> is never written again. The
  lock makes each operation one atomic step. A missing key is \<open>GeKeyError\<close>.
\<close>

record graph_store =
  gs_definitions :: "((string \<times> int) \<times> workflow_definition) list"
  gs_runs :: "(string \<times> graph_run) list"
  gs_nodes :: "(string \<times> node_run) list"
  gs_attempts :: "(string \<times> node_attempt) list"

type_synonym 'a gx = "(graph_store, graph_error, 'a) sx"

definition gs_lookup :: "(graph_store \<Rightarrow> ('k \<times> 'v) list) \<Rightarrow> 'k \<Rightarrow> 'v gx" where
  "gs_lookup field k =
     sx_bind sx_get (\<lambda>s.
     case map_of (field s) k of None \<Rightarrow> sx_raise GeKeyError | Some v \<Rightarrow> sx_return v)"

definition put_definition :: "workflow_definition \<Rightarrow> unit gx" where
  "put_definition def =
     sx_bind sx_get (\<lambda>s.
     let key = (wf_id def, wf_version def) in
     case map_of (gs_definitions s) key of
       Some existing \<Rightarrow>
         if existing \<noteq> def then sx_raise (GeConflict ''published definition revisions are immutable'')
         else sx_modify (\<lambda>s. s\<lparr>gs_definitions := AList.update key def (gs_definitions s)\<rparr>)
     | None \<Rightarrow> sx_modify (\<lambda>s. s\<lparr>gs_definitions := AList.update key def (gs_definitions s)\<rparr>))"

definition get_definition :: "string \<times> int \<Rightarrow> workflow_definition gx" where
  "get_definition key = gs_lookup gs_definitions key"

definition repo_create_run :: "graph_run \<Rightarrow> node_run list \<Rightarrow> unit gx" where
  "repo_create_run run nodes =
     sx_bind sx_get (\<lambda>s.
     if map_of (gs_runs s) (gr_id run) \<noteq> None then sx_raise (GeConflict ''run already exists'')
     else if list_ex (\<lambda>n. map_of (gs_nodes s) (nr_id n) \<noteq> None) nodes
     then sx_raise (GeConflict ''node run already exists'')
     else sx_modify (\<lambda>s. s\<lparr>
       gs_runs := AList.update (gr_id run) run (gs_runs s),
       gs_nodes := fold (\<lambda>n. AList.update (nr_id n) n) nodes (gs_nodes s)\<rparr>))"

definition get_run :: "string \<Rightarrow> graph_run gx" where
  "get_run run_id = gs_lookup gs_runs run_id"

definition list_child_runs :: "string \<Rightarrow> graph_run list gx" where
  "list_child_runs parent =
     sx_bind sx_get (\<lambda>s. sx_return (filter (\<lambda>r. gr_parent r = Some parent) (map snd (gs_runs s))))"

definition update_run :: "graph_run \<Rightarrow> int \<Rightarrow> unit gx" where
  "update_run run expected =
     sx_bind (gs_lookup gs_runs (gr_id run)) (\<lambda>current.
     if gr_revision current \<noteq> expected \<or> gr_revision run \<noteq> expected + 1
     then sx_raise (GeConflict ''workflow run revision conflict'')
     else sx_modify (\<lambda>s. s\<lparr>gs_runs := AList.update (gr_id run) run (gs_runs s)\<rparr>))"

definition list_node_runs :: "string \<Rightarrow> node_run list gx" where
  "list_node_runs run_id =
     sx_bind sx_get (\<lambda>s. sx_return (filter (\<lambda>n. nr_run n = run_id) (map snd (gs_nodes s))))"

definition get_node_run :: "string \<Rightarrow> node_run gx" where
  "get_node_run node_run_id = gs_lookup gs_nodes node_run_id"

definition update_node_run :: "node_run \<Rightarrow> int \<Rightarrow> unit gx" where
  "update_node_run node expected =
     sx_bind (gs_lookup gs_nodes (nr_id node)) (\<lambda>current.
     if nr_revision current \<noteq> expected \<or> nr_revision node \<noteq> expected + 1
     then sx_raise (GeConflict ''node run revision conflict'')
     else sx_modify (\<lambda>s. s\<lparr>gs_nodes := AList.update (nr_id node) node (gs_nodes s)\<rparr>))"

definition start_node_attempt :: "node_run \<Rightarrow> node_attempt \<Rightarrow> int \<Rightarrow> unit gx" where
  "start_node_attempt node a expected =
     sx_bind (gs_lookup gs_nodes (nr_id node)) (\<lambda>current.
     sx_bind sx_get (\<lambda>s.
     if map_of (gs_attempts s) (at_id a) \<noteq> None \<or> nr_revision current \<noteq> expected
        \<or> nr_revision node \<noteq> expected + 1
     then sx_raise (GeConflict ''node attempt start conflict'')
     else sx_modify (\<lambda>s. s\<lparr>
       gs_attempts := AList.update (at_id a) a (gs_attempts s),
       gs_nodes := AList.update (nr_id node) node (gs_nodes s)\<rparr>)))"

definition get_attempt :: "string \<Rightarrow> node_attempt gx" where
  "get_attempt attempt_id = gs_lookup gs_attempts attempt_id"

definition update_attempt :: "node_attempt \<Rightarrow> unit gx" where
  "update_attempt a =
     sx_bind (gs_lookup gs_attempts (at_id a)) (\<lambda>current.
     if at_result current \<noteq> AR_RUNNING then sx_raise (GeConflict ''terminal attempts are immutable'')
     else sx_modify (\<lambda>s. s\<lparr>gs_attempts := AList.update (at_id a) a (gs_attempts s)\<rparr>))"

definition finish_node_attempt :: "node_run \<Rightarrow> node_attempt \<Rightarrow> int \<Rightarrow> unit gx" where
  "finish_node_attempt node a expected =
     sx_bind (gs_lookup gs_nodes (nr_id node)) (\<lambda>current_node.
     sx_bind (gs_lookup gs_attempts (at_id a)) (\<lambda>current.
     if nr_revision current_node \<noteq> expected \<or> nr_revision node \<noteq> expected + 1
        \<or> at_result current \<noteq> AR_RUNNING
     then sx_raise (GeConflict ''node attempt finish conflict'')
     else sx_modify (\<lambda>s. s\<lparr>
       gs_attempts := AList.update (at_id a) a (gs_attempts s),
       gs_nodes := AList.update (nr_id node) node (gs_nodes s)\<rparr>)))"

definition list_attempts :: "string \<Rightarrow> node_attempt list gx" where
  "list_attempts node_run_id =
     sx_bind sx_get (\<lambda>s.
     sx_return (sort_key at_number
       (filter (\<lambda>a. at_node_run a = node_run_id) (map snd (gs_attempts s)))))"

subsection \<open>Reads leave the store alone\<close>

lemma gs_lookup_apply: "gs_lookup f k s =
    ((case map_of (f s) k of None \<Rightarrow> Inl GeKeyError | Some v \<Rightarrow> Inr v), s)"
  by (simp add: gs_lookup_def sx_simps split: option.splits)

lemma gs_reads [sx_simps]:
  "get_definition key s = ((case map_of (gs_definitions s) key of None \<Rightarrow> Inl GeKeyError | Some v \<Rightarrow> Inr v), s)"
  "get_run i s = ((case map_of (gs_runs s) i of None \<Rightarrow> Inl GeKeyError | Some v \<Rightarrow> Inr v), s)"
  "get_node_run i s = ((case map_of (gs_nodes s) i of None \<Rightarrow> Inl GeKeyError | Some v \<Rightarrow> Inr v), s)"
  "get_attempt i s = ((case map_of (gs_attempts s) i of None \<Rightarrow> Inl GeKeyError | Some v \<Rightarrow> Inr v), s)"
  "list_child_runs i s = (Inr (filter (\<lambda>r. gr_parent r = Some i) (map snd (gs_runs s))), s)"
  "list_node_runs i s = (Inr (filter (\<lambda>n. nr_run n = i) (map snd (gs_nodes s))), s)"
  "list_attempts i s = (Inr (sort_key at_number (filter (\<lambda>a. at_node_run a = i) (map snd (gs_attempts s)))), s)"
  by (simp_all add: get_definition_def get_run_def get_node_run_def get_attempt_def list_child_runs_def
      list_node_runs_def list_attempts_def gs_lookup_apply sx_simps)

lemma gs_reads_Inr [sx_Inr]:
  "get_definition key s = (Inr d, t) \<longleftrightarrow> map_of (gs_definitions s) key = Some d \<and> t = s"
  "get_run i s = (Inr r, t) \<longleftrightarrow> map_of (gs_runs s) i = Some r \<and> t = s"
  "get_node_run i s = (Inr n, t) \<longleftrightarrow> map_of (gs_nodes s) i = Some n \<and> t = s"
  "get_attempt i s = (Inr a, t) \<longleftrightarrow> map_of (gs_attempts s) i = Some a \<and> t = s"
  "list_node_runs i s = (Inr ns, t) \<longleftrightarrow> ns = filter (\<lambda>n. nr_run n = i) (map snd (gs_nodes s)) \<and> t = s"
  "list_attempts i s = (Inr xs, t) \<longleftrightarrow>
     xs = sort_key at_number (filter (\<lambda>a. at_node_run a = i) (map snd (gs_attempts s))) \<and> t = s"
  by (auto simp: gs_reads split: option.splits)

lemma gs_reads_state [simp]:
  "snd (get_definition key s) = s" "snd (get_run i s) = s" "snd (get_node_run i s) = s"
  "snd (get_attempt i s) = s" "snd (list_node_runs i s) = s" "snd (list_attempts i s) = s"
  "snd (list_child_runs i s) = s"
  by (simp_all add: gs_reads)

subsection \<open>Optimistic concurrency\<close>

text \<open>
  The contract of a store of versioned records: an update that is accepted replaced the record whose
  revision was expected by one of the next revision, and a refused update changes nothing.
\<close>

locale revisioned_store =
  fixes lookup :: "'s \<Rightarrow> string \<Rightarrow> 'v option"
    and update :: "'v \<Rightarrow> int \<Rightarrow> ('s, 'e, unit) sx"
    and key :: "'v \<Rightarrow> string"
    and rev :: "'v \<Rightarrow> int"
  assumes update_Inr: "update v n s = (Inr u, t) \<Longrightarrow>
      (\<exists>c. lookup s (key v) = Some c \<and> rev c = n) \<and> rev v = n + 1 \<and> lookup t = (lookup s)(key v \<mapsto> v)"
    and update_Inl: "update v n s = (Inl e, t) \<Longrightarrow> t = s"
begin

definition newer :: "'s \<Rightarrow> 's \<Rightarrow> bool" where
  \<comment> \<open>every record is still there, unchanged or at a later revision\<close>
  "newer s t \<longleftrightarrow> (\<forall>k c. lookup s k = Some c \<longrightarrow> (\<exists>d. lookup t k = Some d \<and> (d = c \<or> rev c < rev d)))"

lemma newer_refl: "newer s s"
  by (simp add: newer_def)

lemma newer_trans:
  assumes "newer s t" and "newer t u"
  shows "newer s u"
  unfolding newer_def
proof (intro allI impI)
  fix k c
  assume "lookup s k = Some c"
  then obtain d where d: "lookup t k = Some d" "d = c \<or> rev c < rev d"
    using assms(1) by (auto simp: newer_def)
  then obtain e where "lookup u k = Some e" "e = d \<or> rev d < rev e"
    using assms(2) by (auto simp: newer_def)
  with d(2) show "\<exists>e. lookup u k = Some e \<and> (e = c \<or> rev c < rev e)" by auto
qed

lemma keeps_newer: "keeps newer (update v n)"
proof (rule keepsI)
  fix s
  obtain r t where u: "update v n s = (r, t)" by fastforce
  have "newer s t"
  proof (cases r)
    case (Inl e)
    with u update_Inl [of v n s e t] have "t = s" by simp
    then show ?thesis by (simp add: newer_refl)
  next
    case (Inr x)
    with u update_Inr have "\<exists>c. lookup s (key v) = Some c \<and> rev c = n" "rev v = n + 1"
      "lookup t = (lookup s)(key v \<mapsto> v)" by blast+
    then show ?thesis by (auto simp: newer_def)
  qed
  with u show "newer s (snd (update v n s))" by simp
qed

lemma lost_update_refused:
  \<comment> \<open>two writers who read the same revision: the second is refused, however long after\<close>
  assumes "update v n s = (Inr x, t)" and "newer t t'" and "key w = key v"
  shows "\<exists>e. update w n t' = (Inl e, t')"
proof -
  from update_Inr [OF assms(1)] have "lookup t (key v) = Some v" "rev v = n + 1" by auto
  moreover from this(1) assms(2) obtain d where d: "lookup t' (key v) = Some d" "d = v \<or> rev v < rev d"
    unfolding newer_def by blast
  ultimately have later: "n < rev d" by auto
  obtain r t'' where u: "update w n t' = (r, t'')" by fastforce
  show ?thesis
  proof (cases r)
    case (Inl e)
    with u update_Inl show ?thesis by auto
  next
    case (Inr y)
    with u update_Inr have "\<exists>c. lookup t' (key w) = Some c \<and> rev c = n" by blast
    with d later assms(3) show ?thesis by auto
  qed
qed

end

text \<open>Runs, node runs, and the two operations that write a node run with its attempt.\<close>

interpretation run_store: revisioned_store "\<lambda>s. map_of (gs_runs s)" update_run gr_id gr_revision
  by unfold_locales (auto simp: update_run_def gs_lookup_apply sx_simps map_of_update
      split: option.splits if_splits)

interpretation node_store: revisioned_store "\<lambda>s. map_of (gs_nodes s)" update_node_run nr_id nr_revision
  by unfold_locales (auto simp: update_node_run_def gs_lookup_apply sx_simps map_of_update
      split: option.splits if_splits)

interpretation start_store: revisioned_store "\<lambda>s. map_of (gs_nodes s)"
    "\<lambda>n. start_node_attempt n a" nr_id nr_revision
  by unfold_locales (auto simp: start_node_attempt_def gs_lookup_apply sx_simps map_of_update
      split: option.splits if_splits)

interpretation finish_store: revisioned_store "\<lambda>s. map_of (gs_nodes s)"
    "\<lambda>n. finish_node_attempt n a" nr_id nr_revision
  by unfold_locales (auto simp: finish_node_attempt_def gs_lookup_apply sx_simps map_of_update
      split: option.splits if_splits)

subsection \<open>How the store evolves\<close>

definition settled_attempts :: "graph_store \<Rightarrow> graph_store \<Rightarrow> bool" where
  \<comment> \<open>a finished attempt is never written again\<close>
  "settled_attempts s t \<longleftrightarrow> (\<forall>k a. map_of (gs_attempts s) k = Some a \<longrightarrow>
     (\<exists>b. map_of (gs_attempts t) k = Some b \<and> (at_result a \<noteq> AR_RUNNING \<longrightarrow> b = a)))"

definition kept_definitions :: "graph_store \<Rightarrow> graph_store \<Rightarrow> bool" where
  \<comment> \<open>a published revision is immutable\<close>
  "kept_definitions s t \<longleftrightarrow> (\<forall>k d. map_of (gs_definitions s) k = Some d \<longrightarrow> map_of (gs_definitions t) k = Some d)"

definition evolves :: "graph_store \<Rightarrow> graph_store \<Rightarrow> bool" where
  "evolves s t \<longleftrightarrow> kept_definitions s t \<and> run_store.newer s t \<and> node_store.newer s t \<and> settled_attempts s t"

interpretation evo: kept_relation evolves
proof
  show "evolves s s" for s
    by (simp add: evolves_def kept_definitions_def settled_attempts_def run_store.newer_refl node_store.newer_refl)
next
  fix s t u
  assume st: "evolves s t" and tu: "evolves t u"
  have "settled_attempts s u" unfolding settled_attempts_def
  proof (intro allI impI)
    fix k a
    assume "map_of (gs_attempts s) k = Some a"
    with st obtain b where b: "map_of (gs_attempts t) k = Some b" "at_result a \<noteq> AR_RUNNING \<longrightarrow> b = a"
      by (auto simp: evolves_def settled_attempts_def)
    with tu obtain c where "map_of (gs_attempts u) k = Some c" "at_result b \<noteq> AR_RUNNING \<longrightarrow> c = b"
      by (auto simp: evolves_def settled_attempts_def)
    with b(2) show "\<exists>c. map_of (gs_attempts u) k = Some c \<and> (at_result a \<noteq> AR_RUNNING \<longrightarrow> c = a)" by auto
  qed
  with st tu show "evolves s u"
    by (auto simp: evolves_def kept_definitions_def intro: run_store.newer_trans node_store.newer_trans)
qed

lemma keeps_evolves:
  assumes "keeps run_store.newer m" and "keeps node_store.newer m" and "keeps settled_attempts m"
    and "keeps kept_definitions m"
  shows "keeps evolves m"
  using assms by (simp add: keeps_def evolves_def)

lemma update_run_frame:
  "gs_nodes (snd (update_run r n s)) = gs_nodes s" "gs_attempts (snd (update_run r n s)) = gs_attempts s"
  "gs_definitions (snd (update_run r n s)) = gs_definitions s"
  by (simp_all add: update_run_def gs_lookup_apply sx_simps split: option.splits)

lemma update_node_run_frame:
  "gs_runs (snd (update_node_run r n s)) = gs_runs s"
  "gs_attempts (snd (update_node_run r n s)) = gs_attempts s"
  "gs_definitions (snd (update_node_run r n s)) = gs_definitions s"
  by (simp_all add: update_node_run_def gs_lookup_apply sx_simps split: option.splits)

lemma update_attempt_frame:
  "gs_runs (snd (update_attempt a s)) = gs_runs s" "gs_nodes (snd (update_attempt a s)) = gs_nodes s"
  "gs_definitions (snd (update_attempt a s)) = gs_definitions s"
  by (simp_all add: update_attempt_def gs_lookup_apply sx_simps split: option.splits)

lemma node_attempt_frame:
  "gs_runs (snd (start_node_attempt r a n s)) = gs_runs s"
  "gs_definitions (snd (start_node_attempt r a n s)) = gs_definitions s"
  "gs_runs (snd (finish_node_attempt r a n s)) = gs_runs s"
  "gs_definitions (snd (finish_node_attempt r a n s)) = gs_definitions s"
  by (simp_all add: start_node_attempt_def finish_node_attempt_def gs_lookup_apply sx_simps
      split: option.splits)

lemmas repo_frames = update_run_frame update_node_run_frame update_attempt_frame node_attempt_frame

lemma same_field [simp]:
  "gs_runs t = gs_runs s \<Longrightarrow> run_store.newer s t" "gs_nodes t = gs_nodes s \<Longrightarrow> node_store.newer s t"
  "gs_attempts t = gs_attempts s \<Longrightarrow> settled_attempts s t"
  "gs_definitions t = gs_definitions s \<Longrightarrow> kept_definitions s t"
  by (simp_all add: run_store.newer_def node_store.newer_def settled_attempts_def kept_definitions_def)

lemma settled_steps:
  "keeps settled_attempts (update_attempt a)" "keeps settled_attempts (start_node_attempt r a n)"
  "keeps settled_attempts (finish_node_attempt r a n)"
  by (auto simp: keeps_def settled_attempts_def update_attempt_def start_node_attempt_def
      finish_node_attempt_def gs_lookup_apply sx_simps map_of_update split: option.splits)

lemma map_of_fresh_updates:
  "\<not> list_ex (\<lambda>n. map_of d (f n) \<noteq> None) xs \<Longrightarrow> map_of d k = Some c \<Longrightarrow>
   map_of (fold (\<lambda>n. AList.update (f n) n) xs d) k = Some c"
proof -
  assume "\<not> list_ex (\<lambda>n. map_of d (f n) \<noteq> None) xs" and k: "map_of d k = Some c"
  then have "k \<notin> f ` set xs" by (auto simp: list_ex_iff)
  then show ?thesis using k
    by (induction xs arbitrary: d) (auto simp: map_of_update)
qed

lemma repo_evolves:
  "keeps evolves (update_run r n)" "keeps evolves (update_node_run w n)"
  "keeps evolves (update_attempt a)" "keeps evolves (start_node_attempt w a n)"
  "keeps evolves (finish_node_attempt w a n)"
  unfolding atomize_conj
  by (intro conjI keeps_evolves run_store.keeps_newer node_store.keeps_newer start_store.keeps_newer
      finish_store.keeps_newer settled_steps; simp add: keeps_def repo_frames)

lemma create_evolves: "keeps evolves (repo_create_run r ws)"
  unfolding repo_create_run_def
  by (rule keeps_evolves)
    (auto simp: keeps_def sx_simps run_store.newer_def node_store.newer_def settled_attempts_def
      kept_definitions_def map_of_update map_of_fresh_updates)

lemma put_definition_evolves: "keeps evolves (put_definition d)"
  by (rule keeps_evolves)
    (auto simp: put_definition_def keeps_def sx_simps run_store.newer_def node_store.newer_def
      settled_attempts_def kept_definitions_def map_of_update Let_def split: option.splits)

lemma reads_keep [simp]:
  "(\<And>s. R s s) \<Longrightarrow> keeps R (get_definition key)" "(\<And>s. R s s) \<Longrightarrow> keeps R (get_run i)"
  "(\<And>s. R s s) \<Longrightarrow> keeps R (get_node_run i)" "(\<And>s. R s s) \<Longrightarrow> keeps R (get_attempt i)"
  "(\<And>s. R s s) \<Longrightarrow> keeps R (list_node_runs i)" "(\<And>s. R s s) \<Longrightarrow> keeps R (list_attempts i)"
  "(\<And>s. R s s) \<Longrightarrow> keeps R (list_child_runs i)"
  by (simp_all add: keeps_def)

end
