(* ===== verification/Py_Float.thy ===== *)
theory Py_Float
  imports Complex_Main "HOL-Library.Log_Nat"
begin

section \<open>Rounding to a double\<close>

text \<open>
  A finite float is modelled by the rational number it denotes. The arithmetic of floats rounds the exact
  result to the nearest double, to the even one of two: \<open>binary64\<close>, with 53 bits of precision and least
  positive value \<open>2 powi - 1074\<close>. It has no upper bound: it is used for quotients, which do not overflow here.
\<close>

definition floor_log2 :: "rat \<Rightarrow> int" where
  "floor_log2 x =
     (case quotient_of x of (p, q) \<Rightarrow>
        let k = bitlen p - bitlen q in if 2 powi k \<le> x then k else k - 1)"

definition round_half_even :: "rat \<Rightarrow> int" where
  "round_half_even y =
     (let n = \<lfloor>y\<rfloor>; d = y - of_int n in if d < 1 / 2 \<or> (d = 1 / 2 \<and> even n) then n else n + 1)"

definition binary64 :: "rat \<Rightarrow> rat" where
  "binary64 x =
     (if x = 0 then 0
      else let e = max (- 1074) (floor_log2 \<bar>x\<bar> - 52) in of_int (round_half_even (x / 2 powi e)) * 2 powi e)"

lemma bitlen_powi: "0 < p \<Longrightarrow> 2 powi (bitlen p - 1) \<le> (of_int p :: rat) \<and> of_int p < (2 powi bitlen p :: rat)"
proof -
  assume p: "0 < p"
  define n where "n = nat (bitlen p)"
  have n: "bitlen p = int n" "1 \<le> n" using p bitlen_nonneg [of p] bitlen_bounds [of p] bitlen_eq_zero_iff [of p] by (auto simp: n_def)
  have "nat (bitlen p - 1) = n - 1" using n by simp
  then have "2 ^ (n - 1) \<le> p \<and> p < 2 ^ n" using bitlen_bounds [OF p] by (simp add: n_def)
  then have "(of_int (2 ^ (n - 1)) :: rat) \<le> of_int p \<and> (of_int p :: rat) < of_int (2 ^ n)"
    by (simp only: of_int_le_iff of_int_less_iff)
  then have "2 ^ (n - 1) \<le> (of_int p :: rat) \<and> of_int p < (2 :: rat) ^ n" by (simp only: of_int_power of_int_numeral)
  moreover have "bitlen p - 1 = int (n - 1)" using n by (simp add: of_nat_diff)
  ultimately show ?thesis using n(1) by (simp only: power_int_of_nat)
qed

text \<open>The exponent of a positive number, between two powers of two.\<close>

lemma floor_log2_bounds:
  assumes "0 < x"
  shows "2 powi floor_log2 x \<le> x" and "x < 2 powi (floor_log2 x + 1)"
proof -
  obtain p q where pq: "quotient_of x = (p, q)" by fastforce
  have q: "0 < q" and x: "x = of_int p / of_int q" using quotient_of_denom_pos [OF pq] quotient_of_div [OF pq] by auto
  then have p: "0 < p" using assms by (simp add: zero_less_divide_iff)
  let ?k = "bitlen p - bitlen q"
  note bp = bitlen_powi [OF p] and bq = bitlen_powi [OF q]
  have "(2 :: rat) powi (?k - 1) * of_int q \<le> 2 powi (?k - 1) * 2 powi bitlen q" using bq by (intro mult_left_mono) auto
  also have "\<dots> = 2 powi (bitlen p - 1)" by (simp flip: power_int_add)
  finally have low: "2 powi (?k - 1) \<le> x" using bp q by (simp add: x pos_le_divide_eq)
  have "(2 :: rat) powi bitlen p = 2 powi (?k + 1) * 2 powi (bitlen q - 1)" by (simp flip: power_int_add)
  also have "\<dots> \<le> 2 powi (?k + 1) * of_int q" using bq by (intro mult_left_mono) auto
  finally have high: "x < 2 powi (?k + 1)" using bp q by (simp add: x pos_divide_less_eq)
  show "2 powi floor_log2 x \<le> x" "x < 2 powi (floor_log2 x + 1)"
    using low high by (auto simp: floor_log2_def pq Let_def)
qed

lemma round_half_even_near: "\<bar>of_int (round_half_even y) - y\<bar> \<le> 1 / 2"
proof -
  have "0 \<le> y - of_int \<lfloor>y\<rfloor>" "y - of_int \<lfloor>y\<rfloor> < 1" by linarith+
  then show ?thesis by (simp add: round_half_even_def Let_def abs_le_iff)
qed

lemma powi_minus_of_nat: "(2 :: rat) powi (- int n) = 1 / 2 ^ n"
  by (simp add: power_int_minus inverse_eq_divide)

text \<open>The error of rounding: half a unit in the last place.\<close>

lemma binary64_error: "\<bar>binary64 x - x\<bar> \<le> \<bar>x\<bar> / 2 ^ 53 + 1 / 2 ^ 1075"
proof (cases "x = 0")
  case False
  let ?k = "floor_log2 \<bar>x\<bar>"
  define e where "e = max (- 1074) (?k - 52)"
  have pos: "(0 :: rat) < 2 powi e" by simp
  have "binary64 x - x = (of_int (round_half_even (x / 2 powi e)) - x / 2 powi e) * 2 powi e"
    using False by (simp add: binary64_def e_def Let_def left_diff_distrib)
  then have "\<bar>binary64 x - x\<bar> = \<bar>of_int (round_half_even (x / 2 powi e)) - x / 2 powi e\<bar> * 2 powi e"
    by (simp add: abs_mult)
  also have "\<dots> \<le> 1 / 2 * 2 powi e" by (rule mult_right_mono [OF round_half_even_near]) simp
  also have "\<dots> = 2 powi (e - 1)" by (simp add: power_int_diff)
  also have "\<dots> \<le> \<bar>x\<bar> / 2 ^ 53 + 1 / 2 ^ 1075"
  proof (cases "e = - 1074")
    case True
    have "- 1074 - 1 = - int 1075" by simp
    then have "(2 :: rat) powi (e - 1) = 1 / 2 ^ 1075" unfolding True by (simp only: powi_minus_of_nat)
    moreover have "0 \<le> \<bar>x\<bar> / 2 ^ 53" by simp
    ultimately show ?thesis by linarith
  next
    case False
    then have "e - 1 = ?k - 53" by (auto simp: e_def max_def split: if_splits)
    then have "(2 :: rat) powi (e - 1) = 2 powi ?k / 2 powi 53" using power_int_diff [of "2 :: rat" ?k 53] by (simp only:) simp
    also have "\<dots> = 2 powi ?k / 2 ^ 53" by (simp only: power_int_numeral)
    also have "\<dots> \<le> \<bar>x\<bar> / 2 ^ 53" by (rule divide_right_mono) (use floor_log2_bounds(1) [of "\<bar>x\<bar>"] \<open>x \<noteq> 0\<close> in simp_all)
    finally have "(2 :: rat) powi (e - 1) \<le> \<bar>x\<bar> / 2 ^ 53" .
    moreover have "(0 :: rat) \<le> 1 / 2 ^ 1075" by simp
    ultimately show ?thesis by linarith
  qed
  finally show ?thesis .
qed (simp add: binary64_def)

text \<open>One tenth is not a double, and one eleventh of it times eleven exceeds it.\<close>

lemma binary64_tenth: "binary64 (1 / 10) = 3602879701896397 / 36028797018963968"
  by code_simp

lemma binary64_eleventh: "binary64 (1 / 10) < 11 * binary64 (binary64 (1 / 10) / 11)"
  by code_simp

end
