(* ===== verification/Graph_Subworkflow.thy ===== *)
theory Graph_Subworkflow
  imports Graph_Compiled Graph_Repository Py_Float
begin

section \<open>Workflow graphs: subworkflow admission and budget reservations\<close>

text \<open>
  \<open>operant/application/subworkflow.py\<close>: how much of its budget a parent run reserves for each child,
  the walk from a run to its root, the check of the tree of definitions, and the usage summed over a
  family of runs. Money is a float, given by the rational it denotes; the division of a cost limit by
  the number of reservations rounds (\<open>binary64\<close>), as the source does, and a sum of costs is exact. A
  duration in seconds is an exact rational of microseconds: the source subtracts floats, whose error is
  far below the microsecond that keeps a fractional difference off the next integer, so \<open>int()\<close> of
  either is the same.
\<close>

definition loop_multiplier :: "workflow_definition \<Rightarrow> int" where
  "loop_multiplier def =
     fold (\<lambda>n result. case nd_loop n of None \<Rightarrow> result | Some p \<Rightarrow> result * max_iterations p)
       (wf_nodes def) 1"

definition reservation_slots :: "workflow_definition \<Rightarrow> int" where
  "reservation_slots def =
     (let members = sum_list (map (\<lambda>n. max_attempts (nd_retry n))
            (filter (\<lambda>n. nd_kind n = NK_AGENT) (wf_nodes def)));
          children = int (length (filter (\<lambda>n. nd_kind n = NK_SUBWORKFLOW) (wf_nodes def)))
      in max 1 ((members + children) * loop_multiplier def))"

definition action_allowance :: "workflow_definition \<Rightarrow> int" where
  "action_allowance def =
     sum_list (map (\<lambda>n. max_attempts (nd_retry n))
       (filter (\<lambda>n. nd_kind n = NK_TOOL \<or> nd_kind n = NK_SCRIPT) (wf_nodes def))) * loop_multiplier def"

definition budget_valid :: "budget \<Rightarrow> bool" where
  \<comment> \<open>the field bounds of \<open>Budget\<close>\<close>
  "budget_valid b \<longleftrightarrow>
     1 \<le> max_turns b \<and> max_turns b \<le> 100
     \<and> 2 \<le> max_consecutive_test_failures b \<and> max_consecutive_test_failures b \<le> 10
     \<and> 1 \<le> budget_timeout_seconds b \<and> budget_timeout_seconds b \<le> 3600
     \<and> (case max_output_tokens b of None \<Rightarrow> True | Some n \<Rightarrow> 1 \<le> n)
     \<and> (case max_cost_usd b of None \<Rightarrow> True | Some c \<Rightarrow> 0 < c)
     \<and> (case max_tool_calls b of None \<Rightarrow> True | Some n \<Rightarrow> 0 \<le> n)"

definition trunc :: "rat \<Rightarrow> int" where
  \<comment> \<open>\<open>int()\<close> of a float rounds towards zero\<close>
  "trunc q = (if q < 0 then - \<lfloor>- q\<rfloor> else \<lfloor>q\<rfloor>)"

definition cap_option :: "'a::linorder option \<Rightarrow> 'a option \<Rightarrow> 'a option" where
  "cap_option limit v =
     (case v of None \<Rightarrow> limit
      | Some y \<Rightarrow> (case limit of None \<Rightarrow> Some y | Some x \<Rightarrow> Some (min x y)))"

definition cap_budget :: "budget option \<Rightarrow> budget \<Rightarrow> budget" where
  \<comment> \<open>one round of the loop over \<open>(child.default_budget, node.budget)\<close>\<close>
  "cap_budget cap limits =
     (case cap of None \<Rightarrow> limits
      | Some c \<Rightarrow>
          \<lparr>max_turns = min (max_turns limits) (max_turns c),
           max_consecutive_test_failures =
             min (max_consecutive_test_failures limits) (max_consecutive_test_failures c),
           budget_timeout_seconds = min (budget_timeout_seconds limits) (budget_timeout_seconds c),
           max_output_tokens = cap_option (max_output_tokens limits) (max_output_tokens c),
           max_cost_usd = cap_option (max_cost_usd limits) (max_cost_usd c),
           max_tool_calls = cap_option (max_tool_calls limits) (max_tool_calls c)\<rparr>)"

definition child_budget ::
  "int \<Rightarrow> graph_run \<Rightarrow> workflow_definition \<Rightarrow> node_spec \<Rightarrow> workflow_definition \<Rightarrow> graph_error + budget" where
  "child_budget now parent def node child =
     (let slots = reservation_slots def;
          b = gr_budget parent;
          turns = max_turns b div slots;
          elapsed = (case gr_started_at parent of None \<Rightarrow> 0 | Some t \<Rightarrow> of_int (now - t) / 1000000);
          timeout = trunc (of_int (budget_timeout_seconds b) - elapsed);
          tokens = map_option (\<lambda>v. v div slots) (max_output_tokens b);
          calls = map_option (\<lambda>v. (v - action_allowance def) div slots) (max_tool_calls b);
          cost = map_option (\<lambda>v. binary64 (v / of_int slots)) (max_cost_usd b) in
      if turns < 1 then Inl (GeValueError ''Graph budget cannot fund the declared subgraph reservations'')
      else if timeout < 1 then Inl (GeValueError ''parent Graph timeout exhausted before child admission'')
      else if (case tokens of None \<Rightarrow> False | Some v \<Rightarrow> v < 1)
      then Inl (GeValueError ''parent Graph reservation cannot fund the child'')
      else if (case calls of None \<Rightarrow> False | Some v \<Rightarrow> v < 0)
      then Inl (GeValueError ''parent Graph reservation cannot fund the child'')
      else if (case cost of None \<Rightarrow> False | Some v \<Rightarrow> v \<le> 0)
      then Inl (GeValueError ''parent Graph cost reservation is exhausted'')
      else
        let limits = cap_budget (nd_budget node) (cap_budget (Some (wf_budget child))
              \<lparr>max_turns = turns, max_consecutive_test_failures = max_consecutive_test_failures b,
               budget_timeout_seconds = timeout, max_output_tokens = tokens, max_cost_usd = cost,
               max_tool_calls = calls\<rparr>) in
        if budget_valid limits then Inr limits else Inl (GeValueError ''invalid budget''))"

subsection \<open>The run tree\<close>

text \<open>
  \<open>left\<close> is the number of ancestors the walk may still visit, 32 at first. A run met twice would be a
  cycle of parents.
\<close>

fun root_run_from :: "nat \<Rightarrow> string list \<Rightarrow> graph_run \<Rightarrow> graph_run gx" where
  "root_run_from left seen run =
     (case gr_parent run of
        None \<Rightarrow> sx_return run
      | Some parent \<Rightarrow>
          if gr_id run \<in> set seen then sx_raise (GeValueError ''persisted subgraph parent cycle'')
          else (case left of
              0 \<Rightarrow> sx_raise (GeValueError ''persisted subgraph depth exceeds the hard limit'')
            | Suc more_left \<Rightarrow> sx_bind (get_run parent) (root_run_from more_left (gr_id run # seen))))"

definition root_run :: "graph_run \<Rightarrow> graph_run gx" where
  "root_run run = root_run_from 32 [] run"

text \<open>The usage of a run and all its descendants; \<open>pending\<close> is a stack with its top at the end.\<close>

type_synonym usage = "int \<times> rat \<times> int"

definition add_usage :: "usage \<Rightarrow> graph_run \<Rightarrow> usage" where
  "add_usage u r =
     (case u of (tokens, cost, calls) \<Rightarrow>
       (tokens + gr_output_tokens r, cost + gr_cost_usd r, calls + gr_tool_calls r))"

fun collect_usage :: "nat \<Rightarrow> string list \<Rightarrow> graph_run list \<Rightarrow> usage \<Rightarrow> usage gx" where
  \<comment> \<open>\<open>left\<close>: how many more runs the family may have\<close>
  "collect_usage left seen pending u =
     (if pending = [] then sx_return u
      else if gr_id (last pending) \<in> set seen then sx_raise (GeValueError ''persisted child graph cycle'')
      else (case left of
          0 \<Rightarrow> sx_raise (GeValueError ''graph family exceeds the bounded projection limit'')
        | Suc more_left \<Rightarrow>
            sx_bind (list_child_runs (gr_id (last pending))) (\<lambda>children.
            collect_usage more_left (gr_id (last pending) # seen) (butlast pending @ children)
              (add_usage u (last pending)))))"

definition aggregate_usage :: "graph_run \<Rightarrow> usage gx" where
  "aggregate_usage run =
     sx_bind (list_child_runs (gr_id run)) (\<lambda>children.
     collect_usage 9999 [gr_id run] children (gr_output_tokens run, gr_cost_usd run, gr_tool_calls run))"

subsection \<open>The tree of definitions\<close>

definition child_key :: "node_spec \<Rightarrow> string \<times> int" where
  \<comment> \<open>\<open>str(node.subworkflow_id), int(node.subworkflow_version or 0)\<close>\<close>
  "child_key n =
     ((case fst (nd_subworkflow n) of None \<Rightarrow> ''None'' | Some i \<Rightarrow> i),
      (case snd (nd_subworkflow n) of None \<Rightarrow> 0 | Some v \<Rightarrow> v))"

definition required_of :: "workflow_definition \<Rightarrow> string list" where
  "required_of child = wf_capabilities child @ concat (map nd_capabilities (wf_nodes child))"

definition grant_check :: "workflow_definition \<Rightarrow> node_spec \<Rightarrow> workflow_definition \<Rightarrow> graph_error + unit" where
  \<comment> \<open>the four refusals of one subworkflow node, in the source's order\<close>
  "grant_check current node child =
     (if wf_status child \<noteq> DS_PUBLISHED
      then Inl (GeValueError ''Subworkflow must pin a published definition'')
      else if list_ex (\<lambda>(role, version). map_of (wf_roles current) role \<noteq> Some version) (wf_roles child)
      then Inl (GeValueError ''Subworkflow role grant exceeds the parent definition'')
      else if \<not> list_all (\<lambda>c. c \<in> set (nd_capabilities node)) (required_of child)
      then Inl (GeValueError ''Subworkflow capability grant exceeds its parent node'')
      else if \<not> list_all (\<lambda>p. p \<in> set (wf_plugins current)) (wf_plugins child)
      then Inl (GeValueError ''Subworkflow plugin grant exceeds the parent definition'')
      else Inr ())"

text \<open>
  \<open>visit\<close> with its counter of visits passed along. \<open>levels\<close> is the depth still allowed below the
  stack of open definitions: \<open>min(32, max_recursion_depth)\<close> at the root.
\<close>

fun visit_subgraph ::
  "(string \<Rightarrow> expr option) \<Rightarrow> ((string \<times> int) \<times> workflow_definition) list \<Rightarrow> int \<Rightarrow>
   nat \<Rightarrow> (string \<times> int) list \<Rightarrow> nat \<Rightarrow> workflow_definition \<Rightarrow> graph_error + (int \<times> nat)"
and visit_nodes ::
  "(string \<Rightarrow> expr option) \<Rightarrow> ((string \<times> int) \<times> workflow_definition) list \<Rightarrow> int \<Rightarrow>
   nat \<Rightarrow> (string \<times> int) list \<Rightarrow> workflow_definition \<Rightarrow> node_spec list \<Rightarrow> int \<Rightarrow> nat \<Rightarrow>
   graph_error + (int \<times> nat)" where
  "visit_subgraph parse defs limit levels stack visits current =
     (if 10000 < visits + 1
      then Inl (GeValueError ''Subworkflow admission exceeds the bounded definition limit'')
      else res_bind (compile parse current) (\<lambda>cw.
        if (wf_id current, wf_version current) \<in> set stack
        then Inl (GeValueError ''recursive Subworkflow is not allowed'')
        else (case levels of
            0 \<Rightarrow> Inl (GeValueError ''Subworkflow exceeds the root recursion depth'')
          | Suc below \<Rightarrow>
              visit_nodes parse defs limit below (stack @ [(wf_id current, wf_version current)]) current
                (wf_nodes current) 0 (visits + 1))))"
| "visit_nodes parse defs limit below stack current [] descendants visits = Inr (descendants, visits)"
| "visit_nodes parse defs limit below stack current (n # ns) descendants visits =
     (if nd_kind n \<noteq> NK_SUBWORKFLOW
      then visit_nodes parse defs limit below stack current ns descendants visits
      else (case map_of defs (child_key n) of
          None \<Rightarrow> Inl GeKeyError
        | Some child \<Rightarrow>
            res_bind (grant_check current n child) (\<lambda>_.
            res_bind (visit_subgraph parse defs limit below stack visits child) (\<lambda>(d, seen).
            let members = int (length (filter (\<lambda>m. nd_kind m = NK_AGENT) (wf_nodes child)));
                total = descendants + (members + d) * loop_multiplier current in
            if limit < total then Inl (GeValueError ''Subworkflow exceeds the root sub-agent limit'')
            else visit_nodes parse defs limit below stack current ns total seen))))"

definition validate_subgraph_tree ::
  "(string \<Rightarrow> expr option) \<Rightarrow> ((string \<times> int) \<times> workflow_definition) list \<Rightarrow> workflow_definition \<Rightarrow>
   graph_error + unit" where
  "validate_subgraph_tree parse defs def =
     (let limit = graph_max_subagents (wf_limits def) in
      res_bind (visit_subgraph parse defs limit (nat (min 32 (graph_max_recursion_depth (wf_limits def)))) [] 0 def)
        (\<lambda>(d, seen).
        if limit < d then Inl (GeValueError ''Subworkflow exceeds the root sub-agent limit'') else Inr ()))"

text \<open>
  The budget of a tree of definitions. The source relies on the separate check above for termination;
  \<open>depth\<close> is the fuel of the recursion.
\<close>

definition virtual_run :: "workflow_definition \<Rightarrow> budget \<Rightarrow> graph_run" where
  "virtual_run child b =
     \<lparr>gr_id = [], gr_definition = (wf_id child, wf_version child), gr_input = [], gr_target = None,
      gr_parent = None, gr_parent_node = None, gr_parent_iteration = 0, gr_status = RS_CREATED,
      gr_budget = b, gr_policy = [], gr_output_tokens = 0, gr_cost_usd = 0, gr_tool_calls = 0,
      gr_revision = 1, gr_started_at = None, gr_completed_at = None, gr_updated_at = 0\<rparr>"

fun validate_budget_tree ::
  "((string \<times> int) \<times> workflow_definition) list \<Rightarrow> int \<Rightarrow> nat \<Rightarrow> graph_run \<Rightarrow> workflow_definition \<Rightarrow>
   graph_error + unit"
and validate_budget_nodes ::
  "((string \<times> int) \<times> workflow_definition) list \<Rightarrow> int \<Rightarrow> nat \<Rightarrow> graph_run \<Rightarrow> workflow_definition \<Rightarrow>
   node_spec list \<Rightarrow> graph_error + unit" where
  "validate_budget_tree defs now depth run def =
     (if max_turns (gr_budget run) < reservation_slots def
      then Inl (GeValueError ''Graph turn budget cannot fund its declared reservations'')
      else if (case max_tool_calls (gr_budget run) of None \<Rightarrow> False | Some v \<Rightarrow> v < action_allowance def)
      then Inl (GeValueError ''Graph action budget cannot fund the bounded actions'')
      else (case depth of
          0 \<Rightarrow> Inl GeNoReturn
        | Suc below \<Rightarrow> validate_budget_nodes defs now below run def (wf_nodes def)))"
| "validate_budget_nodes defs now below run def [] = Inr ()"
| "validate_budget_nodes defs now below run def (n # ns) =
     (if nd_kind n \<noteq> NK_SUBWORKFLOW then validate_budget_nodes defs now below run def ns
      else (case map_of defs (child_key n) of
          None \<Rightarrow> Inl GeKeyError
        | Some child \<Rightarrow>
            res_bind (child_budget now run def n child) (\<lambda>reserved.
            res_bind (validate_budget_tree defs now below (virtual_run child reserved) child) (\<lambda>_.
            validate_budget_nodes defs now below run def ns))))"

declare root_run_from.simps [simp del] collect_usage.simps [simp del] visit_subgraph.simps [simp del]
  validate_budget_tree.simps [simp del]

subsection \<open>Reservations\<close>

lemma reservation_slots_pos: "1 \<le> reservation_slots def"
  by (simp add: reservation_slots_def Let_def)

lemma times_div_le: "(1::int) \<le> k \<Longrightarrow> x \<le> v div k \<Longrightarrow> k * x \<le> v"
  by (smt (verit) mult_left_mono pos_mod_sign minus_mod_eq_mult_div [symmetric])

lemma cap_option_le: "limit = Some v \<Longrightarrow> \<exists>c. cap_option limit w = Some c \<and> c \<le> v"
  by (cases w) (simp_all add: cap_option_def)

lemma cap_budget_le:
  "max_turns (cap_budget c b) \<le> max_turns b"
  "budget_timeout_seconds (cap_budget c b) \<le> budget_timeout_seconds b"
  "max_output_tokens b = Some v \<Longrightarrow> \<exists>w. max_output_tokens (cap_budget c b) = Some w \<and> w \<le> v"
  "max_tool_calls b = Some v' \<Longrightarrow> \<exists>w. max_tool_calls (cap_budget c b) = Some w \<and> w \<le> v'"
  "max_cost_usd b = Some v'' \<Longrightarrow> \<exists>w. max_cost_usd (cap_budget c b) = Some w \<and> w \<le> v''"
  by (auto simp: cap_budget_def cap_option_le split: option.splits)

lemma cap_twice_le:
  "max_turns (cap_budget c (cap_budget d b)) \<le> max_turns b"
  "budget_timeout_seconds (cap_budget c (cap_budget d b)) \<le> budget_timeout_seconds b"
  "max_output_tokens b = Some v \<Longrightarrow> \<exists>w. max_output_tokens (cap_budget c (cap_budget d b)) = Some w \<and> w \<le> v"
  "max_tool_calls b = Some v' \<Longrightarrow> \<exists>w. max_tool_calls (cap_budget c (cap_budget d b)) = Some w \<and> w \<le> v'"
  "max_cost_usd b = Some v'' \<Longrightarrow> \<exists>w. max_cost_usd (cap_budget c (cap_budget d b)) = Some w \<and> w \<le> v''"
  by (meson cap_budget_le order_trans)+

lemma trunc_le: "0 \<le> e \<Longrightarrow> trunc (of_int n - e) \<le> max n 0"
  by (simp add: trunc_def) linarith

text \<open>The shares of a cost limit may exceed it only by the rounding of the division.\<close>

lemma rounded_shares_fit:
  assumes "1 \<le> k" and "c \<le> binary64 (v / of_int k)"
  shows "of_int k * c \<le> v + \<bar>v\<bar> / 2 ^ 53 + of_int k / 2 ^ 1075"
proof -
  have k: "(0 :: rat) < of_int k" using assms(1) by simp
  have "c \<le> v / of_int k + (\<bar>v / of_int k\<bar> / 2 ^ 53 + 1 / 2 ^ 1075)"
    using assms(2) binary64_error [of "v / of_int k"] by linarith
  then have "of_int k * c \<le> of_int k * (v / of_int k + (\<bar>v / of_int k\<bar> / 2 ^ 53 + 1 / 2 ^ 1075))"
    using k by (intro mult_left_mono) simp_all
  also have "\<dots> = v + \<bar>v\<bar> / 2 ^ 53 + of_int k / 2 ^ 1075"
    using k by (simp only: distrib_left abs_divide) simp
  finally show ?thesis .
qed

lemma child_budget_Inr:
  assumes "child_budget now parent def node child = Inr b"
  defines "slots \<equiv> reservation_slots def" and "pb \<equiv> gr_budget parent"
  shows "budget_valid b" "slots * max_turns b \<le> max_turns pb"
    "\<And>v. max_output_tokens pb = Some v \<Longrightarrow> \<exists>c. max_output_tokens b = Some c \<and> slots * c \<le> v"
    "\<And>v. max_tool_calls pb = Some v \<Longrightarrow>
       \<exists>c. max_tool_calls b = Some c \<and> slots * c + action_allowance def \<le> v"
    "\<And>v. max_cost_usd pb = Some v \<Longrightarrow>
       \<exists>c. max_cost_usd b = Some c \<and> c \<le> binary64 (v / of_int slots) \<and> 0 < binary64 (v / of_int slots)"
    "(\<And>t. gr_started_at parent = Some t \<Longrightarrow> t \<le> now) \<Longrightarrow>
       budget_timeout_seconds b \<le> budget_timeout_seconds pb"
proof -
  let ?slots = "reservation_slots def"
  let ?elapsed = "(case gr_started_at parent of None \<Rightarrow> 0 | Some t \<Rightarrow> of_int (now - t) / 1000000) :: rat"
  let ?raw = "\<lparr>max_turns = max_turns pb div ?slots,
      max_consecutive_test_failures = max_consecutive_test_failures pb,
      budget_timeout_seconds = trunc (of_int (budget_timeout_seconds pb) - ?elapsed),
      max_output_tokens = map_option (\<lambda>v. v div ?slots) (max_output_tokens pb),
      max_cost_usd = map_option (\<lambda>v. binary64 (v / of_int ?slots)) (max_cost_usd pb),
      max_tool_calls = map_option (\<lambda>v. (v - action_allowance def) div ?slots) (max_tool_calls pb)\<rparr>"
  have b: "b = cap_budget (nd_budget node) (cap_budget (Some (wf_budget child)) ?raw)"
    and valid: "budget_valid b" and timeout: "1 \<le> budget_timeout_seconds ?raw"
    and cost: "\<forall>v. max_cost_usd pb = Some v \<longrightarrow> 0 < binary64 (v / of_int ?slots)"
    using assms(1) unfolding child_budget_def Let_def pb_def [symmetric]
    by (auto split: if_splits)
  show "budget_valid b" by (fact valid)
  note pos = reservation_slots_pos [of def]
  note le = cap_twice_le [where c = "nd_budget node" and d = "Some (wf_budget child)" and b = ?raw, folded b, simplified]
  show "slots * max_turns b \<le> max_turns pb"
    unfolding slots_def using times_div_le [OF pos le(1)] .
  show "\<exists>c. max_output_tokens b = Some c \<and> slots * c \<le> v" if "max_output_tokens pb = Some v" for v
    using le(3) [of "v div ?slots"] that times_div_le [OF pos, of _ v] by (auto simp: slots_def)
  show "\<exists>c. max_tool_calls b = Some c \<and> slots * c + action_allowance def \<le> v"
    if "max_tool_calls pb = Some v" for v
    using le(4) [of "(v - action_allowance def) div ?slots"] that
      times_div_le [OF pos, of _ "v - action_allowance def"] by (auto simp: slots_def le_diff_eq)
  show "\<exists>c. max_cost_usd b = Some c \<and> c \<le> binary64 (v / of_int slots) \<and> 0 < binary64 (v / of_int slots)"
    if "max_cost_usd pb = Some v" for v
    using le(5) [of "binary64 (v / of_int ?slots)"] that cost by (auto simp: slots_def)
  show "budget_timeout_seconds b \<le> budget_timeout_seconds pb"
    if "\<And>t. gr_started_at parent = Some t \<Longrightarrow> t \<le> now"
  proof -
    have "0 \<le> ?elapsed" using that by (auto split: option.splits)
    then show ?thesis using le(2) timeout trunc_le [of ?elapsed "budget_timeout_seconds pb"] by simp
  qed
qed

subsection \<open>Admission bounds the depth\<close>

lemma child_budget_error: "child_budget now parent def node child \<noteq> Inl GeNoReturn"
  by (simp add: child_budget_def Let_def)

lemma visited_budget_returns:
  "visit_subgraph parse defs limit levels stack visits current = Inr r \<Longrightarrow>
   validate_budget_tree defs now levels run current \<noteq> Inl GeNoReturn"
  "visit_nodes parse defs limit below stack current ns descendants visits = Inr r \<Longrightarrow>
   validate_budget_nodes defs now below run def ns \<noteq> Inl GeNoReturn"
proof (induction parse defs limit levels stack visits current
    and parse defs limit below stack current ns descendants visits
    arbitrary: r run and r run def rule: visit_subgraph_visit_nodes.induct)
  case (1 parse defs limit levels stack visits current)
  from "1.prems" obtain cw below where cw: "compile parse current = Inr cw"
    and fresh: "\<not> 10000 < visits + 1" "(wf_id current, wf_version current) \<notin> set stack"
    and levels: "levels = Suc below"
    and sub: "visit_nodes parse defs limit below (stack @ [(wf_id current, wf_version current)]) current
        (wf_nodes current) 0 (visits + 1) = Inr r"
    by (subst (asm) visit_subgraph.simps) (auto simp: res_bind_Inr_iff split: if_splits nat.splits)
  have "validate_budget_nodes defs now below run current (wf_nodes current) \<noteq> Inl GeNoReturn"
    by (rule "1.IH" [OF fresh(1) cw fresh(2) levels sub])
  then show ?case unfolding levels by (subst validate_budget_tree.simps) auto
next
  case (3 parse defs limit below stack current n ns descendants visits)
  show ?case
  proof (cases "nd_kind n = NK_SUBWORKFLOW")
    case False
    with 3 show ?thesis by simp
  next
    case True
    with "3.prems" obtain child u d seen where child: "map_of defs (child_key n) = Some child"
      and grant: "grant_check current n child = Inr u"
      and visit: "visit_subgraph parse defs limit below stack visits child = Inr (d, seen)"
      by (auto simp: res_bind_Inr_iff split: option.splits)
    let ?total = "descendants + (int (length (filter (\<lambda>m. nd_kind m = NK_AGENT) (wf_nodes child))) + d)
        * loop_multiplier current"
    from True "3.prems" child grant visit
    have within_limit: "\<not> limit < ?total"
      and rest: "visit_nodes parse defs limit below stack current ns ?total seen = Inr r"
      by (auto simp: Let_def split: if_splits)
    have "validate_budget_tree defs now below (virtual_run child b) child \<noteq> Inl GeNoReturn" for b
      by (rule "3.IH"(2) [OF _ child grant visit]) (simp_all add: True)
    moreover have "validate_budget_nodes defs now below run def ns \<noteq> Inl GeNoReturn"
      by (rule "3.IH"(3) [OF _ child grant visit refl refl refl within_limit rest]) (simp_all add: True)
    ultimately show ?thesis
      using True child by (auto simp: res_bind_Inl_iff child_budget_error)
  qed
qed simp

end
