(* ===== verification/Graph_Propagation.thy ===== *)
theory Graph_Propagation
  imports Graph_Subworkflow
begin

section \<open>Workflow graphs: dependency propagation\<close>

text \<open>
  The part of \<open>GraphRuntime\<close> (\<open>operant/application/graph.py\<close>) that decides which pending nodes become
  ready or are skipped: the state of an edge, the inputs a node receives, the fixpoint loop, and the
  projection of the node statuses onto the run. \<open>parse\<close> is the parser of conditions; \<open>now\<close> is the
  reading of the clock, one per operation.
\<close>

subsection \<open>Saving\<close>

definition save_node :: "int \<Rightarrow> (node_run \<Rightarrow> node_run) \<Rightarrow> node_run \<Rightarrow> node_run gx" where
  \<comment> \<open>\<open>updates\<close> are the keyword arguments of \<open>_save_node\<close>\<close>
  "save_node now updates node =
     (let updated = (updates node)\<lparr>nr_revision := nr_revision node + 1, nr_updated_at := now\<rparr> in
      sx_bind (update_node_run updated (nr_revision node)) (\<lambda>_. sx_return updated))"

definition save_run :: "int \<Rightarrow> (graph_run \<Rightarrow> graph_run) \<Rightarrow> graph_run \<Rightarrow> graph_run gx" where
  "save_run now updates run =
     (let updated = (updates run)\<lparr>gr_revision := gr_revision run + 1, gr_updated_at := now\<rparr> in
      sx_bind (update_run updated (gr_revision run)) (\<lambda>_. sx_return updated))"

definition definition_and_node :: "node_run \<Rightarrow> (workflow_definition \<times> node_spec) gx" where
  "definition_and_node node =
     sx_bind (get_run (nr_run node)) (\<lambda>run.
     sx_bind (get_definition (gr_definition run)) (\<lambda>def.
     case list_find (\<lambda>n. nd_id n = nr_node node) (wf_nodes def) of
       None \<Rightarrow> sx_raise GeStopIteration
     | Some spec \<Rightarrow> sx_return (def, spec)))"

subsection \<open>Edges\<close>

datatype edge_state = EdgeActive | EdgeDisabled | EdgeUnresolved

definition edge_condition ::
  "(string \<Rightarrow> expr option) \<Rightarrow> string option \<Rightarrow> py_env \<Rightarrow> graph_error + bool" where
  \<comment> \<open>no condition holds; the only exception a condition lets through is \<open>IndexError\<close>\<close>
  "edge_condition parse condition values =
     (case condition of
        None \<Rightarrow> Inr True
      | Some text \<Rightarrow> (case evaluate_condition parse text values of Inl _ \<Rightarrow> Inl GeIndexError | Inr b \<Rightarrow> Inr b))"

definition active_if :: "graph_error + bool \<Rightarrow> graph_error + edge_state" where
  "active_if r = res_bind r (\<lambda>b. Inr (if b then EdgeActive else EdgeDisabled))"

definition find_spec :: "workflow_definition \<Rightarrow> string \<Rightarrow> graph_error + node_spec" where
  "find_spec def i =
     (case list_find (\<lambda>n. nd_id n = i) (wf_nodes def) of None \<Rightarrow> Inl GeStopIteration | Some n \<Rightarrow> Inr n)"

definition succeeded_edge ::
  "(string \<Rightarrow> expr option) \<Rightarrow> edge_spec \<Rightarrow> node_run \<Rightarrow> node_spec \<Rightarrow> py_env \<Rightarrow> graph_error + edge_state" where
  "succeeded_edge parse e src spec values =
     (let outputs = nr_outputs src;
          selected = (case map_of outputs ''selected_port'' of Some PNone \<Rightarrow> None | v \<Rightarrow> v) in
      if nd_kind spec = NK_LOOP \<and> (case nd_loop spec of None \<Rightarrow> False | Some p \<Rightarrow> ed_target e = on_limit_node p)
      then Inr EdgeDisabled
      else if nd_kind spec = NK_CONDITION
              \<and> (case selected of None \<Rightarrow> False | Some v \<Rightarrow> \<not> py_eq (PStr (ed_source_port e)) v)
      then Inr EdgeDisabled
      else if map_of outputs (ed_source_port e) = None then Inr EdgeDisabled
      else active_if (edge_condition parse (ed_condition e) values))"

definition skipped_edge ::
  "(string \<Rightarrow> expr option) \<Rightarrow> edge_spec \<Rightarrow> node_run \<Rightarrow> node_spec \<Rightarrow> py_env \<Rightarrow> graph_error + edge_state" where
  "skipped_edge parse e src spec values =
     (let outputs = nr_outputs src;
          timed_out = map_of outputs ''timeout'' = Some (PBool True)
            \<and> (case nd_timeout spec of None \<Rightarrow> False | Some p \<Rightarrow> on_timeout_node p = Some (ed_target e));
          limited = map_of outputs ''limit_reasons'' \<noteq> None
            \<and> (case nd_loop spec of None \<Rightarrow> False | Some p \<Rightarrow> on_limit_node p = ed_target e) in
      res_bind (if timed_out then edge_condition parse (ed_condition e) values else Inr False) (\<lambda>on_timeout.
      if on_timeout then Inr EdgeActive
      else res_bind (if limited then edge_condition parse (ed_condition e) values else Inr False) (\<lambda>on_limit.
      Inr (if on_limit then EdgeActive else EdgeDisabled))))"

definition edge_state ::
  "(string \<Rightarrow> expr option) \<Rightarrow> (string \<times> node_run) list \<Rightarrow> workflow_definition \<Rightarrow> py_env \<Rightarrow> edge_spec \<Rightarrow>
   graph_error + edge_state" where
  "edge_state parse by_spec def run_input e =
     (case map_of by_spec (ed_source e) of
        None \<Rightarrow> Inl GeKeyError
      | Some src \<Rightarrow>
          let condition_values = nr_outputs src @ run_input in
          if nr_status src = NS_SUCCEEDED
          then res_bind (find_spec def (ed_source e)) (\<lambda>spec. succeeded_edge parse e src spec condition_values)
          else if nr_status src = NS_SKIPPED
          then res_bind (find_spec def (ed_source e)) (\<lambda>spec. skipped_edge parse e src spec condition_values)
          else if nr_status src \<in> {NS_FAILED, NS_CANCELLED, NS_MANUAL_RECONCILE} then Inr EdgeDisabled
          else Inr EdgeUnresolved)"

fun edge_states ::
  "(string \<Rightarrow> expr option) \<Rightarrow> (string \<times> node_run) list \<Rightarrow> workflow_definition \<Rightarrow> py_env \<Rightarrow> edge_spec list \<Rightarrow>
   graph_error + edge_state list" where
  "edge_states parse by_spec def run_input [] = Inr []"
| "edge_states parse by_spec def run_input (e # es) =
     res_bind (edge_state parse by_spec def run_input e) (\<lambda>st.
     res_bind (edge_states parse by_spec def run_input es) (\<lambda>sts. Inr (st # sts)))"

text \<open>
  The inputs of a node: one value per port, a list when several active edges meet there. The values
  are trees: that \<open>append\<close> extends the very list object a source node stored is not represented.
\<close>

definition add_input :: "py_env \<Rightarrow> string \<Rightarrow> py \<Rightarrow> py_env" where
  "add_input refs port v =
     (case map_of refs port of
        None \<Rightarrow> AList.update port v refs
      | Some (PList xs) \<Rightarrow> AList.update port (PList (xs @ [v])) refs
      | Some existing \<Rightarrow> AList.update port (PList [existing, v]) refs)"

fun input_refs :: "(string \<times> node_run) list \<Rightarrow> edge_spec list \<Rightarrow> py_env \<Rightarrow> graph_error + py_env" where
  "input_refs by_spec [] refs = Inr refs"
| "input_refs by_spec (e # es) refs =
     (case map_of by_spec (ed_source e) of
        None \<Rightarrow> Inl GeKeyError
      | Some src \<Rightarrow>
          input_refs by_spec es (add_input refs (ed_target_port e)
            (case map_of (nr_outputs src) (ed_source_port e) of None \<Rightarrow> PNone | Some v \<Rightarrow> v)))"

subsection \<open>The decision for one node\<close>

datatype dependency = DepWait | DepReady | DepSkip

definition dependency_decision :: "node_spec \<Rightarrow> join_mode \<Rightarrow> edge_state list \<Rightarrow> dependency" where
  "dependency_decision spec mode states =
     (let active = EdgeActive \<in> set states;
          unresolved = EdgeUnresolved \<in> set states;
          disabled = EdgeDisabled \<in> set states;
          accepts_empty = \<not> list_ex port_required (nd_inputs spec);
          ready =
            (if mode = JM_ANY then active
             else if nd_kind spec = NK_JOIN then \<not> unresolved \<and> (active \<or> accepts_empty)
             else \<not> unresolved \<and> \<not> disabled);
          skipped =
            (if mode = JM_ANY then \<not> active \<and> \<not> unresolved
             else if nd_kind spec = NK_JOIN then \<not> unresolved \<and> \<not> ready
             else disabled) in
      if ready then DepReady else if skipped then DepSkip else DepWait)"

definition dependency_edges :: "bool \<Rightarrow> workflow_definition \<Rightarrow> string \<Rightarrow> edge_spec list" where
  \<comment> \<open>\<open>incoming[spec_id]\<close>\<close>
  "dependency_edges exclude_loop_back def i =
     filter (\<lambda>e. \<not> (exclude_loop_back \<and> ed_loop_back e) \<and> ed_target e = i) (wf_edges def)"

definition active_edges :: "edge_spec list \<Rightarrow> edge_state list \<Rightarrow> edge_spec list" where
  "active_edges es states = map fst (filter (\<lambda>p. snd p = EdgeActive) (zip es states))"

definition decide_node ::
  "(string \<Rightarrow> expr option) \<Rightarrow> bool \<Rightarrow> workflow_definition \<Rightarrow> py_env \<Rightarrow> (string \<times> node_run) list \<Rightarrow>
   string \<Rightarrow> node_run \<Rightarrow> graph_error + (node_run_status \<times> py_env) option" where
  \<comment> \<open>the body of the loop over \<open>by_spec\<close>: the status and inputs to save, if any\<close>
  "decide_node parse excl def run_input by_spec i node =
     (let edges = dependency_edges excl def i in
      if nr_status node \<noteq> NS_PENDING then Inr None
      else (case edges of
          [] \<Rightarrow> Inr None
        | first # _ \<Rightarrow>
            res_bind (edge_states parse by_spec def run_input edges) (\<lambda>states.
            res_bind (find_spec def i) (\<lambda>spec.
            (case dependency_decision spec (ed_join first) states of
               DepWait \<Rightarrow> Inr None
             | DepSkip \<Rightarrow> Inr (Some (NS_SKIPPED, []))
             | DepReady \<Rightarrow>
                 res_bind (input_refs by_spec (active_edges edges states) []) (\<lambda>refs.
                 Inr (Some (NS_READY, refs))))))))"

subsection \<open>The loop\<close>

definition by_spec_of :: "node_run list \<Rightarrow> (string \<times> node_run) list" where
  "by_spec_of nodes = fold (\<lambda>n. AList.update (nr_node n) n) nodes []"

definition propagate_node ::
  "(string \<Rightarrow> expr option) \<Rightarrow> int \<Rightarrow> bool \<Rightarrow> workflow_definition \<Rightarrow> py_env \<Rightarrow> (string \<times> node_run) list \<Rightarrow>
   string \<times> node_run \<Rightarrow> bool gx" where
  "propagate_node parse now excl def run_input by_spec entry =
     sx_bind (sx_lift (decide_node parse excl def run_input by_spec (fst entry) (snd entry))) (\<lambda>decided.
     case decided of
       None \<Rightarrow> sx_return False
     | Some (status, refs) \<Rightarrow>
         sx_bind (save_node now (\<lambda>n. n\<lparr>nr_status := status, nr_inputs := refs\<rparr>) (snd entry)) (\<lambda>_.
         sx_return True))"

definition propagate_pass ::
  "(string \<Rightarrow> expr option) \<Rightarrow> int \<Rightarrow> bool \<Rightarrow> workflow_definition \<Rightarrow> py_env \<Rightarrow> string \<Rightarrow> bool gx" where
  "propagate_pass parse now excl def run_input run_id =
     sx_bind (list_node_runs run_id) (\<lambda>nodes.
     let by_spec = by_spec_of nodes in
     sx_bind (sx_each (propagate_node parse now excl def run_input by_spec) by_spec) (\<lambda>changes.
     sx_return (list_ex id changes)))"

fun propagate_loop ::
  "nat \<Rightarrow> (string \<Rightarrow> expr option) \<Rightarrow> int \<Rightarrow> bool \<Rightarrow> workflow_definition \<Rightarrow> py_env \<Rightarrow> string \<Rightarrow> unit gx" where
  "propagate_loop 0 parse now excl def run_input run_id = sx_raise GeNoReturn"
| "propagate_loop (Suc fuel) parse now excl def run_input run_id =
     sx_bind (propagate_pass parse now excl def run_input run_id) (\<lambda>changed.
     if changed then propagate_loop fuel parse now excl def run_input run_id else sx_return ())"

definition propagate_dependencies ::
  "(string \<Rightarrow> expr option) \<Rightarrow> int \<Rightarrow> bool \<Rightarrow> string \<Rightarrow> unit gx" where
  \<comment> \<open>every pass but the last settles a pending node, so one pass more than there are node runs is enough\<close>
  "propagate_dependencies parse now excl run_id =
     sx_bind (get_run run_id) (\<lambda>run.
     sx_bind (get_definition (gr_definition run)) (\<lambda>def.
     sx_bind (list_node_runs run_id) (\<lambda>nodes.
     propagate_loop (length nodes + 1) parse now excl def (gr_input run) run_id)))"

subsection \<open>The status of the run\<close>

definition finish_if_terminal :: "int \<Rightarrow> string \<Rightarrow> unit gx" where
  "finish_if_terminal now run_id =
     sx_bind (get_run run_id) (\<lambda>run.
     sx_bind (list_node_runs run_id) (\<lambda>nodes.
     if nodes \<noteq> [] \<and> list_all (\<lambda>n. nr_status n \<in> {NS_SUCCEEDED, NS_SKIPPED}) nodes
     then sx_bind (save_run now (\<lambda>r. r\<lparr>gr_status := RS_COMPLETED, gr_completed_at := Some now\<rparr>) run)
       (\<lambda>_. sx_return ())
     else sx_return ()))"

definition desired_status :: "graph_run \<Rightarrow> node_run_status set \<Rightarrow> graph_run_status" where
  "desired_status run statuses =
     (if gr_started_at run = None then RS_CREATED
      else if NS_MANUAL_RECONCILE \<in> statuses then RS_MANUAL_RECONCILE
      else if NS_FAILED \<in> statuses then RS_FAILED
      else if NS_READY \<in> statuses \<or> NS_RUNNING \<in> statuses \<or> NS_RETRY_WAIT \<in> statuses then RS_RUNNING
      else if NS_WAITING_APPROVAL \<in> statuses then RS_WAITING_APPROVAL
      else if NS_WAITING_INPUT \<in> statuses \<or> NS_WAITING \<in> statuses then RS_WAITING_INPUT
      else if statuses \<noteq> {} \<and> statuses \<subseteq> {NS_SUCCEEDED, NS_SKIPPED} then RS_COMPLETED
      else gr_status run)"

definition refresh_run_activity_status :: "int \<Rightarrow> string \<Rightarrow> graph_run gx" where
  "refresh_run_activity_status now run_id =
     sx_bind (get_run run_id) (\<lambda>run.
     if terminal_run (gr_status run) then sx_return run
     else
       sx_bind (list_node_runs run_id) (\<lambda>nodes.
       let desired = desired_status run (set (map nr_status nodes)) in
       if desired = gr_status run then sx_return run
       else save_run now (\<lambda>r. r\<lparr>gr_status := desired,
              gr_completed_at := (if desired \<in> {RS_COMPLETED, RS_FAILED, RS_CANCELLED} then Some now else None)\<rparr>)
              run))"

definition settle_run :: "(string \<Rightarrow> expr option) \<Rightarrow> int \<Rightarrow> string \<Rightarrow> unit gx" where
  \<comment> \<open>the three calls that follow every node completion\<close>
  "settle_run parse now run_id =
     sx_bind (propagate_dependencies parse now True run_id) (\<lambda>_.
     sx_bind (finish_if_terminal now run_id) (\<lambda>_.
     sx_bind (refresh_run_activity_status now run_id) (\<lambda>_. sx_return ())))"

end
