(* ===== verification/Graph_Runtime.thy ===== *)
theory Graph_Runtime
  imports Graph_Propagation
begin

section \<open>Workflow graphs: the runtime\<close>

text \<open>
  The operations of \<open>GraphRuntime\<close> (\<open>operant/application/graph.py\<close>). Identifiers drawn by the source
  (\<open>new_graph_id\<close>, \<open>uuid4\<close>) are arguments, as is the reading \<open>now\<close> of the clock.
\<close>

subsection \<open>Creating and starting a run\<close>

definition check_entries ::
  "workflow_definition \<Rightarrow> py_env \<Rightarrow> string list \<Rightarrow> graph_error + unit" where
  "check_entries def run_input entries =
     fold (\<lambda>i acc. res_bind acc (\<lambda>_.
         case map_of (rev (map (\<lambda>n. (nd_id n, n)) (wf_nodes def))) i of
           None \<Rightarrow> Inl GeKeyError
         | Some spec \<Rightarrow> validate_port_values (nd_inputs spec) run_input True))
       entries (Inr ())"

definition validate_run ::
  "(string \<Rightarrow> expr option) \<Rightarrow> workflow_definition \<Rightarrow> py_env option \<Rightarrow> graph_error + compiled_workflow" where
  "validate_run parse def input =
     res_bind (compile parse def) (\<lambda>compiled.
     if wf_status def \<noteq> DS_PUBLISHED then Inl (GeState ''only published definitions can run'')
     else
       let run_input = (case input of None \<Rightarrow> [] | Some i \<Rightarrow> i) in
       res_bind (check_entries def run_input (cw_entries compiled)) (\<lambda>_. Inr compiled))"

definition exceeds :: "'a::linorder option \<Rightarrow> 'a option \<Rightarrow> bool" where
  \<comment> \<open>\<open>limit is not None and (supplied is None or supplied > limit)\<close>\<close>
  "exceeds supplied limit =
     (case limit of None \<Rightarrow> False | Some l \<Rightarrow> (case supplied of None \<Rightarrow> True | Some v \<Rightarrow> l < v))"

definition budget_exceeds :: "budget \<Rightarrow> budget \<Rightarrow> bool" where
  "budget_exceeds supplied maximum \<longleftrightarrow>
     max_turns maximum < max_turns supplied
     \<or> max_consecutive_test_failures maximum < max_consecutive_test_failures supplied
     \<or> budget_timeout_seconds maximum < budget_timeout_seconds supplied
     \<or> exceeds (max_output_tokens supplied) (max_output_tokens maximum)
     \<or> exceeds (max_cost_usd supplied) (max_cost_usd maximum)
     \<or> exceeds (max_tool_calls supplied) (max_tool_calls maximum)"

definition bind_child ::
  "int \<Rightarrow> workflow_definition \<Rightarrow> py_env \<Rightarrow> string option \<Rightarrow> budget option \<Rightarrow> string \<Rightarrow> string option \<Rightarrow> int \<Rightarrow>
   budget gx" where
  \<comment> \<open>the \<open>else\<close> branch of \<open>create_run\<close>: the budget the child run is admitted with\<close>
  "bind_child now def run_input workspace snapshot parent_id parent_node_id iteration =
     sx_bind (get_run parent_id) (\<lambda>parent.
     sx_bind (get_node_run (case parent_node_id of None \<Rightarrow> [] | Some i \<Rightarrow> i)) (\<lambda>parent_node.
     sx_bind (get_definition (gr_definition parent)) (\<lambda>parent_def.
     case list_find (\<lambda>n. nd_id n = nr_node parent_node) (wf_nodes parent_def) of
       None \<Rightarrow> sx_raise GeStopIteration
     | Some spec \<Rightarrow>
         (case snapshot of
            None \<Rightarrow> sx_raise (GeState ''child Run must bind its waiting pinned parent node'')
          | Some b \<Rightarrow>
              if nr_run parent_node \<noteq> gr_id parent \<or> nr_status parent_node \<noteq> NS_WAITING
                 \<or> nr_iteration parent_node \<noteq> iteration \<or> nd_kind spec \<noteq> NK_SUBWORKFLOW
                 \<or> nd_subworkflow spec \<noteq> (Some (wf_id def), Some (wf_version def))
                 \<or> workspace \<noteq> gr_target parent
                 \<or> \<not> py_eq (env_to_py run_input) (env_to_py (nr_inputs parent_node))
              then sx_raise (GeState ''child Run must bind its waiting pinned parent node'')
              else
                sx_bind (sx_lift (child_budget now (parent\<lparr>gr_started_at := None\<rparr>) parent_def spec def)) (\<lambda>maximum.
                if budget_exceeds b maximum
                then sx_raise (GeState ''child budget exceeds the parent reservation'')
                else
                  sx_bind (sx_lift (child_budget now parent parent_def spec def)) (\<lambda>remaining.
                  sx_return (b\<lparr>budget_timeout_seconds :=
                    min (budget_timeout_seconds b) (budget_timeout_seconds remaining)\<rparr>)))))))"

definition initial_node ::
  "int \<Rightarrow> string \<Rightarrow> py_env \<Rightarrow> string list \<Rightarrow> string \<Rightarrow> node_spec \<Rightarrow> node_run" where
  "initial_node now run_id run_input entries node_run_id spec =
     (let entry = nd_id spec \<in> set entries in
      \<lparr>nr_id = node_run_id, nr_run = run_id, nr_node = nd_id spec,
       nr_status = (if entry then NS_READY else NS_PENDING),
       nr_inputs = (if entry then run_input else []), nr_outputs = [], nr_attempt = None, nr_retries = 0,
       nr_iteration = 0, nr_signature = None, nr_repeats = 0, nr_worker = None, nr_lease = None,
       nr_wait_token = None, nr_revision = 1, nr_updated_at = now\<rparr>)"

definition create_run ::
  "(string \<Rightarrow> expr option) \<Rightarrow> int \<Rightarrow> string \<Rightarrow> string list \<Rightarrow> workflow_definition \<Rightarrow> py_env option \<Rightarrow>
   string option \<Rightarrow> budget option \<Rightarrow> string option \<Rightarrow> string option \<Rightarrow> int \<Rightarrow> graph_run gx" where
  \<comment> \<open>\<open>run_id\<close> and \<open>node_ids\<close> are the identifiers the source draws\<close>
  "create_run parse now run_id node_ids def input workspace snapshot parent parent_node iteration =
     sx_bind (sx_lift (validate_run parse def input)) (\<lambda>compiled.
     let run_input = (case input of None \<Rightarrow> [] | Some i \<Rightarrow> i) in
     sx_bind (case parent of
         None \<Rightarrow>
           if parent_node \<noteq> None \<or> iteration \<noteq> 0
           then sx_raise (GeState ''child binding requires a parent Run'')
           else if snapshot \<noteq> None
           then sx_raise (GeState ''root budget comes from the published definition'')
           else sx_return (wf_budget def)
       | Some parent_id \<Rightarrow> bind_child now def run_input workspace snapshot parent_id parent_node iteration)
       (\<lambda>b.
     let run = \<lparr>gr_id = run_id, gr_definition = (wf_id def, wf_version def), gr_input = run_input,
           gr_target = workspace, gr_parent = parent, gr_parent_node = parent_node,
           gr_parent_iteration = iteration, gr_status = RS_CREATED, gr_budget = b,
           gr_policy = wf_policy def, gr_output_tokens = 0, gr_cost_usd = 0, gr_tool_calls = 0,
           gr_revision = 1, gr_started_at = None, gr_completed_at = None, gr_updated_at = now\<rparr> in
     sx_bind (put_definition def) (\<lambda>_.
     sx_bind (repo_create_run run
         (map (\<lambda>(i, spec). initial_node now run_id run_input (cw_entries compiled) i spec)
           (zip node_ids (wf_nodes def)))) (\<lambda>_.
     sx_return run))))"

definition start_run :: "int \<Rightarrow> string \<Rightarrow> graph_run gx" where
  "start_run now run_id =
     sx_bind (get_run run_id) (\<lambda>run.
     if gr_status run \<notin> {RS_CREATED, RS_QUEUED, RS_INTERRUPTED} then sx_raise (GeState ''cannot start run'')
     else save_run now (\<lambda>r. r\<lparr>gr_status := RS_RUNNING,
            gr_started_at := Some (case gr_started_at run of None \<Rightarrow> now | Some t \<Rightarrow> t)\<rparr>) run)"

definition require_running_run :: "string \<Rightarrow> unit gx" where
  "require_running_run run_id =
     sx_bind (get_run run_id) (\<lambda>run.
     sx_guard (gr_status run = RS_RUNNING) (GeState ''graph run is not running''))"

subsection \<open>Attempts\<close>

definition idempotency_key :: "string \<Rightarrow> string \<Rightarrow> int \<Rightarrow> string" where
  "idempotency_key run_id node_id retries = run_id @ '':'' @ node_id @ '':'' @ show_int retries"

definition attempt_idempotency_key ::
  "node_run \<Rightarrow> node_spec \<Rightarrow> side_effect_state \<Rightarrow> string option \<Rightarrow> node_attempt list \<Rightarrow> string option" where
  \<comment> \<open>the attempts of the node run are the last argument\<close>
  "attempt_idempotency_key node spec effect requested attempts =
     (let previous = (if attempts \<noteq> [] \<and> nd_idempotency spec = IC_IDEMPOTENT then at_key (last attempts) else None) in
      case previous of
        Some (c # cs) \<Rightarrow> Some (c # cs)
      | _ \<Rightarrow>
          if requested \<noteq> None \<or> effect = SE_NONE then requested
          else Some (idempotency_key (nr_run node) (nr_node node) (nr_retries node)))"

definition start_attempt ::
  "int \<Rightarrow> string \<Rightarrow> string \<Rightarrow> string option \<Rightarrow> string option \<Rightarrow> string option \<Rightarrow> string option \<Rightarrow> node_attempt gx" where
  "start_attempt now attempt_id node_run_id worker lease agent requested =
     sx_bind (get_node_run node_run_id) (\<lambda>node.
     sx_bind (require_running_run (nr_run node)) (\<lambda>_.
     if nr_status node \<notin> {NS_READY, NS_RETRY_WAIT} then sx_raise (GeState ''cannot start node'')
     else
     sx_bind (definition_and_node node) (\<lambda>(def, spec).
     sx_bind (sx_lift (validate_port_values (nd_inputs spec) (nr_inputs node) True)) (\<lambda>_.
     sx_bind (list_node_runs (nr_run node)) (\<lambda>nodes.
     if max_parallel_nodes (wf_limits def) \<le> int (length (filter (\<lambda>n. nr_status n = NS_RUNNING) nodes))
     then sx_raise (GeState ''graph max_parallel_nodes limit reached'')
     else
     let effect = (if nd_idempotency spec \<noteq> IC_PURE then SE_NOT_STARTED else SE_NONE) in
     sx_bind (list_attempts (nr_id node)) (\<lambda>attempts.
     let a = \<lparr>at_id = attempt_id, at_node_run = nr_id node, at_number = int (length attempts) + 1,
           at_agent = agent, at_result = AR_RUNNING, at_payload = [], at_failure = None,
           at_effect = effect, at_key = attempt_idempotency_key node spec effect requested attempts,
           at_completed_at = None\<rparr> in
     if \<not> attempt_valid a then sx_raise (GeValueError ''side-effecting attempts require an idempotency_key'')
     else
     sx_bind (start_node_attempt
         (node\<lparr>nr_status := NS_RUNNING, nr_attempt := Some attempt_id, nr_worker := worker, nr_lease := lease,
               nr_revision := nr_revision node + 1, nr_updated_at := now\<rparr>) a (nr_revision node)) (\<lambda>_.
     sx_return a)))))))"

definition finish_node ::
  "int \<Rightarrow> (node_run \<Rightarrow> node_run) \<Rightarrow> node_run \<Rightarrow> node_attempt \<Rightarrow> node_run gx" where
  \<comment> \<open>\<open>_finish_node_attempt\<close>\<close>
  "finish_node now updates node a =
     (let updated = (updates node)\<lparr>nr_revision := nr_revision node + 1, nr_updated_at := now\<rparr> in
      sx_bind (finish_node_attempt updated a (nr_revision node)) (\<lambda>_. sx_return updated))"

definition mark_run_manual_reconcile :: "int \<Rightarrow> string \<Rightarrow> unit gx" where
  "mark_run_manual_reconcile now run_id =
     sx_bind (get_run run_id) (\<lambda>run.
     sx_bind (save_run now (\<lambda>r. r\<lparr>gr_status := RS_MANUAL_RECONCILE\<rparr>) run) (\<lambda>_. sx_return ()))"

definition unknown_non_idempotent_write :: "node_spec \<Rightarrow> node_attempt option \<Rightarrow> bool" where
  "unknown_non_idempotent_write spec a \<longleftrightarrow>
     nd_idempotency spec = IC_NON_IDEMPOTENT
     \<and> (case a of None \<Rightarrow> True | Some a \<Rightarrow> at_effect a \<in> {SE_STARTED, SE_UNKNOWN})"

subsection \<open>Stopping the unfinished nodes\<close>

definition release_node :: "node_run \<Rightarrow> node_run" where
  \<comment> \<open>\<open>active_attempt_id=None, worker_id=None, lease_id=None\<close>\<close>
  "release_node n = n\<lparr>nr_attempt := None, nr_worker := None, nr_lease := None\<rparr>"

definition stop_node :: "int \<Rightarrow> node_run_status \<Rightarrow> bool \<Rightarrow> node_run \<Rightarrow> bool gx" where
  "stop_node now safe unknown node =
     sx_bind (save_node now (\<lambda>n. (release_node n)\<lparr>nr_status := (if unknown then NS_MANUAL_RECONCILE else safe)\<rparr>) node)
       (\<lambda>_. sx_return unknown)"

definition keep_result :: "int \<Rightarrow> node_attempt \<Rightarrow> node_run \<Rightarrow> bool gx" where
  \<comment> \<open>the attempt had succeeded although the node did not record it\<close>
  "keep_result now a node =
     sx_bind (save_node now (\<lambda>n. (release_node n)\<lparr>nr_status := NS_SUCCEEDED, nr_outputs := at_payload a\<rparr>) node)
       (\<lambda>_. sx_return False)"

definition terminalize_node :: "int \<Rightarrow> node_run_status \<Rightarrow> node_run \<Rightarrow> bool gx" where
  \<comment> \<open>the body of the loop: whether the node needs manual reconciliation\<close>
  "terminalize_node now safe node =
     (if \<not> nonterminal_node (nr_status node) then sx_return False
      else (case nr_attempt node of
          Some attempt_id \<Rightarrow>
            sx_bind (get_attempt attempt_id) (\<lambda>a.
            if at_result a = AR_RUNNING then
              sx_bind (definition_and_node node) (\<lambda>(_, spec).
              let unknown = unknown_non_idempotent_write spec (Some a) in
              sx_bind (update_attempt (a\<lparr>at_result := (if unknown then AR_INTERRUPTED else AR_CANCELLED),
                  at_effect := (if unknown then SE_UNKNOWN else at_effect a), at_completed_at := Some now\<rparr>)) (\<lambda>_.
              stop_node now safe unknown node))
            else if at_result a = AR_SUCCEEDED then keep_result now a node
            else stop_node now safe False node)
        | None \<Rightarrow>
            if nr_status node = NS_RUNNING then
              sx_bind (definition_and_node node) (\<lambda>(_, spec).
              stop_node now safe (unknown_non_idempotent_write spec None) node)
            else stop_node now safe False node))"

definition terminalize_active_nodes :: "int \<Rightarrow> string \<Rightarrow> node_run_status \<Rightarrow> bool gx" where
  "terminalize_active_nodes now run_id safe =
     sx_bind (list_node_runs run_id) (\<lambda>nodes.
     sx_bind (sx_each (terminalize_node now safe) nodes) (\<lambda>manual.
     sx_return (list_ex id manual)))"

definition reset_interrupted_node :: "int \<Rightarrow> node_run \<Rightarrow> bool gx" where
  "reset_interrupted_node now node =
     (if nr_status node = NS_MANUAL_RECONCILE then sx_return True
      else if nr_status node \<noteq> NS_RUNNING then sx_return False
      else
        sx_bind (definition_and_node node) (\<lambda>(_, spec).
        sx_bind (list_attempts (nr_id node)) (\<lambda>attempts.
        let latest = (if attempts = [] then None else Some (last attempts));
            unknown = unknown_non_idempotent_write spec latest in
        case latest of
          None \<Rightarrow> stop_node now NS_READY unknown node
        | Some a \<Rightarrow>
            if at_result a = AR_SUCCEEDED then keep_result now a node
            else if at_result a = AR_RUNNING then
              sx_bind (update_attempt (a\<lparr>at_result := AR_INTERRUPTED,
                  at_effect := (if unknown then SE_UNKNOWN else at_effect a), at_completed_at := Some now\<rparr>)) (\<lambda>_.
              stop_node now NS_READY unknown node)
            else stop_node now NS_READY unknown node)))"

definition reset_interrupted_nodes :: "int \<Rightarrow> string \<Rightarrow> bool gx" where
  "reset_interrupted_nodes now run_id =
     sx_bind (list_node_runs run_id) (\<lambda>nodes.
     sx_bind (sx_each (reset_interrupted_node now) nodes) (\<lambda>manual.
     sx_return (list_ex id manual)))"

definition close_run :: "int \<Rightarrow> string \<Rightarrow> graph_run_status \<Rightarrow> (graph_run \<Rightarrow> graph_run) \<Rightarrow> graph_run gx" where
  \<comment> \<open>terminalize, then save the run as \<open>status\<close>, or as awaiting reconciliation\<close>
  "close_run now run_id status updates =
     sx_bind (terminalize_active_nodes now run_id NS_CANCELLED) (\<lambda>manual.
     sx_bind (get_run run_id) (\<lambda>run.
     save_run now (\<lambda>r. (updates r)\<lparr>gr_status := (if manual then RS_MANUAL_RECONCILE else status),
         gr_completed_at := (if manual then None else Some now)\<rparr>) run))"

end
