(* ===== verification/Graph_Operations.thy ===== *)
theory Graph_Operations
  imports Graph_Runtime
begin

section \<open>Workflow graphs: completing nodes, boundaries, budget and recovery\<close>

text \<open>
  The remaining operations of \<open>GraphRuntime\<close> (\<open>operant/application/graph.py\<close>), loops apart. Numbers
  that callers report are Python values, because the source checks their types itself.
\<close>

subsection \<open>Completing an attempt\<close>

definition complete_attempt ::
  "(string \<Rightarrow> expr option) \<Rightarrow> int \<Rightarrow> string \<Rightarrow> bool \<Rightarrow> py_env option \<Rightarrow> string option \<Rightarrow>
   side_effect_state option \<Rightarrow> node_run gx" where
  "complete_attempt parse now attempt_id succeeded outputs failure_class effect_state =
     sx_bind (get_attempt attempt_id) (\<lambda>stored.
     if at_result stored \<noteq> AR_RUNNING then sx_raise (GeState ''attempt is already terminal'')
     else
     sx_bind (get_node_run (at_node_run stored)) (\<lambda>node.
     sx_bind (require_running_run (nr_run node)) (\<lambda>_.
     if nr_attempt node \<noteq> Some (at_id stored) \<or> nr_status node \<noteq> NS_RUNNING
     then sx_raise (GeState ''attempt is not active'')
     else
     sx_bind (definition_and_node node) (\<lambda>(_, spec).
     let effect = (case effect_state of None \<Rightarrow> at_effect stored | Some e \<Rightarrow> e);
         payload = (case outputs of None \<Rightarrow> [] | Some p \<Rightarrow> p) in
     sx_bind (sx_lift (validate_port_values (nd_outputs spec) payload (succeeded \<and> effect \<noteq> SE_UNKNOWN))) (\<lambda>_.
     let a = stored\<lparr>at_result := (if succeeded then AR_SUCCEEDED else AR_FAILED), at_payload := payload,
           at_failure := failure_class, at_effect := effect, at_completed_at := Some now\<rparr> in
     if effect = SE_UNKNOWN \<and> nd_idempotency spec = IC_NON_IDEMPOTENT then
       sx_bind (finish_node now (\<lambda>n. n\<lparr>nr_status := NS_MANUAL_RECONCILE, nr_attempt := None,
           nr_outputs := payload\<rparr>) node a) (\<lambda>updated.
       sx_bind (mark_run_manual_reconcile now (nr_run node)) (\<lambda>_. sx_return updated))
     else if effect = SE_UNKNOWN then
       finish_node now (\<lambda>n. (release_node n)\<lparr>nr_status := NS_READY\<rparr>) node
         (a\<lparr>at_result := AR_INTERRUPTED,
            at_failure := (case failure_class of Some (c # cs) \<Rightarrow> Some (c # cs)
                           | _ \<Rightarrow> Some ''side_effect_outcome_unknown'')\<rparr>)
     else if succeeded then
       sx_bind (finish_node now (\<lambda>n. (release_node n)\<lparr>nr_status := NS_SUCCEEDED, nr_outputs := payload\<rparr>)
           node a) (\<lambda>updated.
       sx_bind (settle_run parse now (nr_run node)) (\<lambda>_. sx_return updated))
     else if at_number stored < max_attempts (nd_retry spec) \<and> nd_idempotency spec \<noteq> IC_NON_IDEMPOTENT then
       finish_node now (\<lambda>n. (release_node n)\<lparr>nr_status := NS_RETRY_WAIT, nr_retries := nr_retries n + 1\<rparr>)
         node a
     else if nd_failure spec = FP_SKIP then
       sx_bind (finish_node now (\<lambda>n. (release_node n)\<lparr>nr_status := NS_SKIPPED, nr_outputs := payload\<rparr>)
           node a) (\<lambda>updated.
       sx_bind (settle_run parse now (nr_run node)) (\<lambda>_. sx_return updated))
     else if nd_failure spec = FP_MANUAL_RECONCILE then
       sx_bind (finish_node now (\<lambda>n. (release_node n)\<lparr>nr_status := NS_MANUAL_RECONCILE, nr_outputs := payload\<rparr>)
           node (a\<lparr>at_effect := SE_UNKNOWN\<rparr>)) (\<lambda>updated.
       sx_bind (mark_run_manual_reconcile now (nr_run node)) (\<lambda>_. sx_return updated))
     else
       sx_bind (finish_node now (\<lambda>n. (release_node n)\<lparr>nr_status := NS_FAILED\<rparr>) node a) (\<lambda>updated.
       sx_bind (close_run now (nr_run node) RS_FAILED (\<lambda>r. r)) (\<lambda>_. sx_return updated)))))))"

definition mark_side_effect_started :: "string \<Rightarrow> node_attempt gx" where
  "mark_side_effect_started attempt_id =
     sx_bind (get_attempt attempt_id) (\<lambda>a.
     if at_result a \<noteq> AR_RUNNING then sx_raise (GeState ''attempt is already terminal'')
     else if at_effect a = SE_NONE then sx_raise (GeState ''pure attempts have no side-effect boundary'')
     else
     sx_bind (get_node_run (at_node_run a)) (\<lambda>node.
     sx_bind (require_running_run (nr_run node)) (\<lambda>_.
     sx_bind (update_attempt (a\<lparr>at_effect := SE_STARTED\<rparr>)) (\<lambda>_.
     sx_return (a\<lparr>at_effect := SE_STARTED\<rparr>)))))"

definition select_condition ::
  "(string \<Rightarrow> expr option) \<Rightarrow> int \<Rightarrow> string \<Rightarrow> string \<Rightarrow> py_env option \<Rightarrow> node_run gx" where
  "select_condition parse now node_run_id selected outputs =
     sx_bind (get_node_run node_run_id) (\<lambda>node.
     sx_bind (require_running_run (nr_run node)) (\<lambda>_.
     sx_bind (definition_and_node node) (\<lambda>(_, spec).
     if nd_kind spec \<noteq> NK_CONDITION \<or> nr_status node \<noteq> NS_READY
     then sx_raise (GeState ''condition node is not ready'')
     else
     sx_bind (sx_lift (validate_port_values (nd_inputs spec) (nr_inputs node) True)) (\<lambda>_.
     if selected \<notin> set (map port_name (nd_outputs spec))
     then sx_raise (GeState ''condition selected an unknown output port'')
     else
     let given = (case outputs of None \<Rightarrow> [] | Some p \<Rightarrow> p);
         chosen = (if map_of given selected = None then AList.update selected (PBool True) given else given) in
     sx_bind (sx_lift (validate_port_values (nd_outputs spec) chosen False)) (\<lambda>_.
     sx_bind (save_node now (\<lambda>n. n\<lparr>nr_status := NS_SUCCEEDED,
         nr_outputs := AList.update ''selected_port'' (PStr selected) chosen\<rparr>) node) (\<lambda>updated.
     sx_bind (settle_run parse now (nr_run node)) (\<lambda>_. sx_return updated)))))))"

subsection \<open>Durable boundaries\<close>

fun boundary_node_kind :: "boundary_kind \<Rightarrow> node_kind" where
  "boundary_node_kind BK_APPROVAL = NK_APPROVAL"
| "boundary_node_kind BK_HUMAN_INPUT = NK_HUMAN_INPUT"
| "boundary_node_kind BK_WAIT = NK_WAIT"
| "boundary_node_kind BK_SUBWORKFLOW = NK_SUBWORKFLOW"
| "boundary_node_kind BK_MERGE = NK_MERGE"

fun boundary_status :: "boundary_kind \<Rightarrow> node_run_status" where
  "boundary_status BK_APPROVAL = NS_WAITING_APPROVAL"
| "boundary_status BK_HUMAN_INPUT = NS_WAITING_INPUT"
| "boundary_status BK_WAIT = NS_WAITING"
| "boundary_status BK_SUBWORKFLOW = NS_WAITING"
| "boundary_status BK_MERGE = NS_WAITING"

definition waiting_node :: "node_run_status \<Rightarrow> bool" where
  "waiting_node s \<longleftrightarrow> s \<in> {NS_WAITING_APPROVAL, NS_WAITING_INPUT, NS_WAITING}"

definition enter_boundary :: "int \<Rightarrow> string \<Rightarrow> string \<Rightarrow> boundary_kind \<Rightarrow> node_run gx" where
  \<comment> \<open>\<open>token_hex\<close> is \<open>uuid4().hex\<close>\<close>
  "enter_boundary now token_hex node_run_id boundary =
     sx_bind (get_node_run node_run_id) (\<lambda>node.
     sx_bind (require_running_run (nr_run node)) (\<lambda>_.
     if nr_status node \<noteq> NS_READY then sx_raise (GeState ''only ready nodes may enter a durable boundary'')
     else
     sx_bind (definition_and_node node) (\<lambda>(_, spec).
     sx_bind (sx_lift (validate_port_values (nd_inputs spec) (nr_inputs node) True)) (\<lambda>_.
     if nd_kind spec \<noteq> boundary_node_kind boundary then sx_raise (GeState ''node is not a boundary of this kind'')
     else
     sx_bind (save_node now (\<lambda>n. n\<lparr>nr_status := boundary_status boundary,
         nr_wait_token := Some (''wait_'' @ token_hex)\<rparr>) node) (\<lambda>updated.
     sx_bind (refresh_run_activity_status now (nr_run node)) (\<lambda>_. sx_return updated))))))"

record boundary_resolution =
  wait_token :: string
  accepted :: bool
  resolution_payload :: py_env

definition resolve_boundary ::
  "(string \<Rightarrow> expr option) \<Rightarrow> int \<Rightarrow> string \<Rightarrow> boundary_resolution \<Rightarrow> node_run gx" where
  "resolve_boundary parse now node_run_id resolution =
     sx_bind (get_node_run node_run_id) (\<lambda>node.
     if nr_status node \<in> {NS_SUCCEEDED, NS_FAILED} then
       (if nr_wait_token node = Some (wait_token resolution) then sx_return node
        else sx_raise (GeConflict ''stale or conflicting boundary resolution''))
     else if \<not> waiting_node (nr_status node) then sx_raise (GeState ''node is not waiting'')
     else
     sx_bind (get_run (nr_run node)) (\<lambda>run.
     if terminal_run (gr_status run) then sx_raise (GeState ''cannot resolve a boundary for terminal run'')
     else if gr_status run \<notin> {RS_RUNNING, RS_WAITING_APPROVAL, RS_WAITING_INPUT}
     then sx_raise (GeState ''cannot resolve a boundary for run'')
     else if nr_wait_token node \<noteq> Some (wait_token resolution)
     then sx_raise (GeConflict ''stale or duplicate boundary resolution'')
     else
     sx_bind (definition_and_node node) (\<lambda>(_, spec).
     sx_bind (sx_lift (validate_port_values (nd_outputs spec) (resolution_payload resolution)
         (accepted resolution))) (\<lambda>_.
     sx_bind (save_node now (\<lambda>n. n\<lparr>nr_status := (if accepted resolution then NS_SUCCEEDED else NS_FAILED),
         nr_outputs := resolution_payload resolution\<rparr>) node) (\<lambda>updated.
     if accepted resolution
     then sx_bind (settle_run parse now (gr_id run)) (\<lambda>_. sx_return updated)
     else sx_bind (close_run now (gr_id run) RS_FAILED (\<lambda>r. r)) (\<lambda>_. sx_return updated))))))"

definition timeout_boundary :: "(string \<Rightarrow> expr option) \<Rightarrow> int \<Rightarrow> string \<Rightarrow> string \<Rightarrow> node_run gx" where
  "timeout_boundary parse now node_run_id token =
     sx_bind (get_node_run node_run_id) (\<lambda>node.
     if \<not> waiting_node (nr_status node) then sx_raise (GeState ''node is not waiting'')
     else
     sx_bind (get_run (nr_run node)) (\<lambda>run.
     if terminal_run (gr_status run) then sx_raise (GeState ''cannot timeout a boundary for terminal run'')
     else if nr_wait_token node \<noteq> Some token then sx_raise (GeConflict ''stale boundary timeout'')
     else
     sx_bind (definition_and_node node) (\<lambda>(_, spec).
     if (case nd_timeout spec of None \<Rightarrow> None | Some p \<Rightarrow> on_timeout_node p) = None
     then sx_raise (GeState ''boundary has no compiled timeout branch'')
     else
     sx_bind (save_node now (\<lambda>n. n\<lparr>nr_status := NS_SKIPPED,
         nr_outputs := [(''timeout'', PBool True)]\<rparr>) node) (\<lambda>updated.
     sx_bind (settle_run parse now (nr_run node)) (\<lambda>_. sx_return updated)))))"

subsection \<open>Budget\<close>

definition number_value :: "py \<Rightarrow> rat" where
  "number_value v = (case v of PInt n \<Rightarrow> of_int n | PFloat (FFin q) \<Rightarrow> q | _ \<Rightarrow> 0)"

definition py_int_value :: "py \<Rightarrow> int" where
  "py_int_value v = (case v of PInt n \<Rightarrow> n | _ \<Rightarrow> 0)"

definition negative_number :: "py \<Rightarrow> bool" where
  \<comment> \<open>\<open>v < 0\<close> for an int or a float\<close>
  "negative_number v = (case v of PInt n \<Rightarrow> n < 0 | PFloat f \<Rightarrow> float_less f (FFin 0) | _ \<Rightarrow> False)"

definition finite_number :: "py \<Rightarrow> graph_error + bool" where
  \<comment> \<open>\<open>math.isfinite\<close>, which converts an int to a float\<close>
  "finite_number v =
     (case v of PInt n \<Rightarrow> if float_convertible n then Inr True else Inl GeOverflow
      | PFloat f \<Rightarrow> Inr (float_finite f) | _ \<Rightarrow> Inr False)"

definition check_usage :: "py \<Rightarrow> py \<Rightarrow> py \<Rightarrow> graph_error + unit" where
  "check_usage tokens cost calls =
     (let bad = GeValueError ''budget usage values must be finite and non-negative'' in
      if \<not> is_py_int tokens \<or> \<not> is_py_int calls \<or> \<not> is_py_number cost then Inl bad
      else if negative_number tokens \<or> negative_number cost \<or> negative_number calls then Inl bad
      else res_bind (finite_number cost) (\<lambda>ok. if ok then Inr () else Inl bad))"

definition over_budget :: "budget \<Rightarrow> int \<Rightarrow> rat \<Rightarrow> int \<Rightarrow> bool" where
  "over_budget b tokens cost calls \<longleftrightarrow>
     (case max_output_tokens b of None \<Rightarrow> False | Some m \<Rightarrow> m < tokens)
     \<or> (case max_cost_usd b of None \<Rightarrow> False | Some m \<Rightarrow> m < cost)
     \<or> (case max_tool_calls b of None \<Rightarrow> False | Some m \<Rightarrow> m < calls)"

definition record_budget :: "int \<Rightarrow> string \<Rightarrow> py \<Rightarrow> py \<Rightarrow> py \<Rightarrow> bool \<Rightarrow> graph_run gx" where
  "record_budget now run_id output_tokens cost_usd tool_calls after_stop =
     sx_bind (sx_lift (check_usage output_tokens cost_usd tool_calls)) (\<lambda>_.
     sx_bind (get_run run_id) (\<lambda>run.
     if gr_output_tokens run < 0 \<or> gr_tool_calls run < 0 \<or> gr_cost_usd run < 0
     then sx_raise (GeState ''persisted budget usage is invalid'')
     else
     let active = gr_status run \<in> {RS_RUNNING, RS_WAITING_APPROVAL, RS_WAITING_INPUT};
         stopped = gr_status run \<in> {RS_FAILED, RS_CANCELLED, RS_INTERRUPTED, RS_MANUAL_RECONCILE} in
     if \<not> active \<and> \<not> (after_stop \<and> stopped) then sx_raise (GeState ''cannot record budget for run'')
     else
     let tokens = gr_output_tokens run + py_int_value output_tokens;
         cost = gr_cost_usd run + number_value cost_usd;
         calls = gr_tool_calls run + py_int_value tool_calls;
         account = (\<lambda>r. r\<lparr>gr_output_tokens := tokens, gr_cost_usd := cost, gr_tool_calls := calls\<rparr>) in
     if \<not> active then save_run now account run
     else if over_budget (gr_budget run) tokens cost calls then close_run now run_id RS_FAILED account
     else save_run now account run))"

subsection \<open>Stopping and recovering a run\<close>

definition cancel_run :: "int \<Rightarrow> string \<Rightarrow> graph_run gx" where
  "cancel_run now run_id =
     sx_bind (get_run run_id) (\<lambda>run.
     if terminal_run (gr_status run) then sx_return run
     else close_run now run_id RS_CANCELLED (\<lambda>r. r))"

definition fail_run :: "int \<Rightarrow> string \<Rightarrow> graph_run gx" where
  "fail_run now run_id =
     sx_bind (get_run run_id) (\<lambda>run.
     if terminal_run (gr_status run) then sx_return run
     else close_run now run_id RS_FAILED (\<lambda>r. r))"

definition interrupt_run :: "int \<Rightarrow> string \<Rightarrow> graph_run gx" where
  "interrupt_run now run_id =
     sx_bind (get_run run_id) (\<lambda>run.
     if terminal_run (gr_status run) then sx_return run
     else
     sx_bind (reset_interrupted_nodes now run_id) (\<lambda>manual.
     sx_bind (get_run run_id) (\<lambda>current.
     save_run now (\<lambda>r. r\<lparr>gr_status := (if manual then RS_MANUAL_RECONCILE else RS_INTERRUPTED)\<rparr>) current)))"

definition persisted_skip :: "node_run \<Rightarrow> node_attempt option \<Rightarrow> bool" where
  "persisted_skip node latest \<longleftrightarrow>
     nr_status node = NS_SKIPPED
     \<and> (map_of (nr_outputs node) ''timeout'' = Some (PBool True)
        \<or> map_of (nr_outputs node) ''limit_reasons'' \<noteq> None
        \<or> (case latest of None \<Rightarrow> False | Some a \<Rightarrow> at_result a = AR_FAILED))"

definition reset_derived_node :: "int \<Rightarrow> workflow_definition \<Rightarrow> node_run \<Rightarrow> unit gx" where
  "reset_derived_node now def node =
     (if nr_node node \<notin> set (map ed_target (filter (\<lambda>e. \<not> ed_loop_back e) (wf_edges def)))
      then sx_return ()
      else
        sx_bind (if nr_status node = NS_READY
            then (case map_of (rev (map (\<lambda>n. (nd_id n, nd_kind n)) (wf_nodes def))) (nr_node node) of
                None \<Rightarrow> sx_raise GeKeyError | Some k \<Rightarrow> sx_return (k = NK_TIMER))
            else sx_return False) (\<lambda>ready_timer.
        if ready_timer then sx_return ()
        else
          sx_bind (list_attempts (nr_id node)) (\<lambda>attempts.
          let latest = (if attempts = [] then None else Some (last attempts)) in
          if nr_status node = NS_READY \<or> (nr_status node = NS_SKIPPED \<and> \<not> persisted_skip node latest)
          then sx_bind (save_node now (\<lambda>n. n\<lparr>nr_status := NS_PENDING, nr_inputs := []\<rparr>) node)
            (\<lambda>_. sx_return ())
          else sx_return ())))"

definition reset_derived_dependency_states :: "int \<Rightarrow> string \<Rightarrow> unit gx" where
  "reset_derived_dependency_states now run_id =
     sx_bind (get_run run_id) (\<lambda>run.
     sx_bind (get_definition (gr_definition run)) (\<lambda>def.
     sx_bind (list_node_runs run_id) (\<lambda>nodes.
     sx_bind (sx_each (reset_derived_node now def) nodes) (\<lambda>_. sx_return ()))))"

definition recover :: "(string \<Rightarrow> expr option) \<Rightarrow> int \<Rightarrow> string \<Rightarrow> graph_run gx" where
  "recover parse now run_id =
     sx_bind (get_run run_id) (\<lambda>run.
     if terminal_run (gr_status run) then sx_return run
     else
     sx_bind (reset_interrupted_nodes now run_id) (\<lambda>manual.
     if manual then
       sx_bind (get_run run_id) (\<lambda>current.
       save_run now (\<lambda>r. r\<lparr>gr_status := RS_MANUAL_RECONCILE\<rparr>) current)
     else
     sx_bind (reset_derived_dependency_states now run_id) (\<lambda>_.
     sx_bind (propagate_dependencies parse now True run_id) (\<lambda>_.
     sx_bind (finish_if_terminal now run_id) (\<lambda>_.
     sx_bind (get_run run_id) (\<lambda>current.
     if gr_status current = RS_COMPLETED then sx_return current
     else refresh_run_activity_status now run_id))))))"

end
