(* ===== verification/Graph_Loops.thy ===== *)
theory Graph_Loops
  imports Graph_Operations
begin

section \<open>Workflow graphs: bounded loops\<close>

text \<open>
  \<open>advance_loop\<close> and the reset of a loop body for its next occurrence (\<open>_unlock_loop_body\<close>,
  \<open>_loop_cycle_nodes\<close>, \<open>_ready_node_by_spec_id\<close>, \<open>_reset_loop_occurrence\<close>) of
  \<open>operant/application/graph.py\<close>. The source walks a set of targets in no particular order; here it is
  the order of the edges, each target once. The two worklists of \<open>_loop_cycle_nodes\<close> only serve as
  sets; they are the closure \<open>reach\<close> of the compiler over the edges and over the reversed edges.
\<close>

definition flip_edge :: "edge_spec \<Rightarrow> edge_spec" where
  "flip_edge e = e\<lparr>ed_source := ed_target e, ed_target := ed_source e\<rparr>"

definition loop_cycle_nodes :: "workflow_definition \<Rightarrow> string \<Rightarrow> string list \<Rightarrow> string list" where
  "loop_cycle_nodes def loop_id targets =
     (let reachable = reach (wf_edges def) targets [];
          reaches_loop = reach (map flip_edge (wf_edges def)) [loop_id] [] in
      filter (\<lambda>n. n \<in> set reaches_loop) reachable)"

definition loop_targets :: "workflow_definition \<Rightarrow> string \<Rightarrow> string list" where
  "loop_targets def loop_id =
     (let back = map ed_target (filter (\<lambda>e. ed_source e = loop_id \<and> ed_loop_back e) (wf_edges def)) in
      if back \<noteq> [] then dedup back
      else dedup (map ed_target (filter (\<lambda>e. ed_source e = loop_id) (wf_edges def))))"

definition reset_loop_occurrence :: "int \<Rightarrow> node_run_status \<Rightarrow> node_run \<Rightarrow> node_run gx" where
  "reset_loop_occurrence now status node =
     save_node now (\<lambda>n. n\<lparr>nr_status := status, nr_iteration := nr_iteration n + 1, nr_retries := 0,
       nr_attempt := None, nr_outputs := [], nr_wait_token := None, nr_worker := None, nr_lease := None\<rparr>) node"

definition repeatable :: "node_run_status \<Rightarrow> bool" where
  "repeatable s \<longleftrightarrow> s \<in> {NS_SUCCEEDED, NS_SKIPPED, NS_FAILED}"

definition find_node_run :: "string \<Rightarrow> string \<Rightarrow> node_run gx" where
  "find_node_run run_id i =
     sx_bind (list_node_runs run_id) (\<lambda>nodes.
     case list_find (\<lambda>n. nr_node n = i) nodes of None \<Rightarrow> sx_raise GeStopIteration | Some n \<Rightarrow> sx_return n)"

definition ready_node_by_spec_id :: "int \<Rightarrow> string \<Rightarrow> bool \<Rightarrow> string \<Rightarrow> unit gx" where
  "ready_node_by_spec_id now run_id allow_reset i =
     sx_bind (find_node_run run_id i) (\<lambda>node.
     if nr_status node = NS_PENDING then
       sx_bind (save_node now (\<lambda>n. n\<lparr>nr_status := NS_READY, nr_attempt := None\<rparr>) node) (\<lambda>_. sx_return ())
     else if allow_reset \<and> repeatable (nr_status node) then
       sx_bind (reset_loop_occurrence now NS_READY node) (\<lambda>_. sx_return ())
     else sx_return ())"

definition reset_body_node :: "int \<Rightarrow> (string \<times> node_run) list \<Rightarrow> string \<Rightarrow> unit gx" where
  "reset_body_node now by_spec i =
     (case map_of by_spec i of
        None \<Rightarrow> sx_return ()
      | Some node \<Rightarrow>
          if repeatable (nr_status node)
          then sx_bind (reset_loop_occurrence now NS_PENDING node) (\<lambda>_. sx_return ())
          else sx_return ())"

fun loop_inputs :: "py_env \<Rightarrow> edge_spec list \<Rightarrow> py_env \<Rightarrow> py_env" where
  "loop_inputs outputs [] refs = refs"
| "loop_inputs outputs (e # es) refs =
     loop_inputs outputs es
       (case map_of outputs (ed_source_port e) of
          None \<Rightarrow> refs | Some v \<Rightarrow> AList.update (ed_target_port e) v refs)"

definition unlock_target ::
  "int \<Rightarrow> string \<Rightarrow> workflow_definition \<Rightarrow> string \<Rightarrow> (string \<times> node_run) list \<Rightarrow> string \<Rightarrow> unit gx" where
  "unlock_target now run_id def loop_id by_spec target =
     sx_bind (ready_node_by_spec_id now run_id True target) (\<lambda>_.
     sx_bind (find_node_run run_id target) (\<lambda>node.
     let edges = filter (\<lambda>e. ed_source e = loop_id \<and> ed_target e = target \<and> ed_loop_back e) (wf_edges def) in
     sx_bind (case edges of
         [] \<Rightarrow> sx_return (nr_inputs node)
       | _ \<Rightarrow> (case map_of by_spec loop_id of
             None \<Rightarrow> sx_raise GeKeyError
           | Some loop_run \<Rightarrow> sx_return (loop_inputs (nr_outputs loop_run) edges (nr_inputs node)))) (\<lambda>refs.
     if \<not> py_eq (env_to_py refs) (env_to_py (nr_inputs node))
     then sx_bind (save_node now (\<lambda>n. n\<lparr>nr_inputs := refs\<rparr>) node) (\<lambda>_. sx_return ())
     else sx_return ())))"

definition unlock_loop_body :: "int \<Rightarrow> string \<Rightarrow> string \<Rightarrow> unit gx" where
  "unlock_loop_body now run_id loop_id =
     sx_bind (get_run run_id) (\<lambda>run.
     sx_bind (get_definition (gr_definition run)) (\<lambda>def.
     let targets = loop_targets def loop_id;
         cycle = loop_cycle_nodes def loop_id targets in
     sx_bind (list_node_runs run_id) (\<lambda>nodes.
     let by_spec = by_spec_of nodes;
         branch_targets = map ed_target
           (filter (\<lambda>e. ed_source e \<in> set cycle \<and> ed_target e \<notin> set cycle) (wf_edges def));
         body = sort (remdups (filter (\<lambda>n. n \<notin> set targets) cycle @ branch_targets)) in
     sx_bind (sx_each (reset_body_node now by_spec) body) (\<lambda>_.
     sx_bind (sx_each (unlock_target now run_id def loop_id by_spec) targets) (\<lambda>_. sx_return ())))))"

subsection \<open>Advancing\<close>

definition usage_number :: "py \<Rightarrow> graph_error + unit" where
  \<comment> \<open>a finite number that is not negative\<close>
  "usage_number v =
     (let bad = GeValueError ''loop time/cost must be finite non-negative numbers'' in
      if \<not> is_py_number v then Inl bad
      else res_bind (finite_number v) (\<lambda>ok. if ok \<and> \<not> negative_number v then Inr () else Inl bad))"

definition usage_int :: "py \<Rightarrow> graph_error + unit" where
  "usage_int v =
     res_guard (is_py_int v \<and> \<not> negative_number v)
       (GeValueError ''loop time/cost must be finite non-negative numbers'')"

record loop_usage =
  elapsed_seconds :: py
  loop_output_tokens :: py
  loop_cost_usd :: py
  loop_subagents :: py
  loop_recursion_depth :: py

definition check_loop_usage :: "loop_usage \<Rightarrow> graph_error + unit" where
  "check_loop_usage u =
     res_bind (usage_number (elapsed_seconds u)) (\<lambda>_.
     res_bind (usage_number (loop_cost_usd u)) (\<lambda>_.
     res_bind (usage_int (loop_output_tokens u)) (\<lambda>_.
     res_bind (usage_int (loop_subagents u)) (\<lambda>_.
     usage_int (loop_recursion_depth u)))))"

definition limit_reasons ::
  "loop_policy \<Rightarrow> bool \<Rightarrow> int \<Rightarrow> int \<Rightarrow> loop_usage \<Rightarrow> string list" where
  "limit_reasons p continue_loop iteration repeats u =
     (if max_iterations p < iteration \<or> (continue_loop \<and> max_iterations p \<le> iteration)
      then [''max_iterations''] else [])
     @ (if max_no_progress_repeats p \<le> repeats then [''no_progress''] else [])
     @ (if of_int (max_wall_seconds p) < number_value (elapsed_seconds u) then [''max_wall_seconds''] else [])
     @ (if loop_max_output_tokens p < py_int_value (loop_output_tokens u) then [''max_output_tokens''] else [])
     @ (if loop_max_cost_usd p < number_value (loop_cost_usd u) then [''max_cost_usd''] else [])
     @ (if loop_max_subagents p < py_int_value (loop_subagents u) then [''max_subagents''] else [])
     @ (if loop_max_recursion_depth p < py_int_value (loop_recursion_depth u)
        then [''max_recursion_depth''] else [])"

definition advance_active ::
  "(string \<Rightarrow> expr option) \<Rightarrow> int \<Rightarrow> node_run \<Rightarrow> node_spec \<Rightarrow> loop_policy \<Rightarrow> bool \<Rightarrow> string \<Rightarrow>
   py_env option \<Rightarrow> loop_usage \<Rightarrow> node_run gx" where
  \<comment> \<open>\<open>advance_loop\<close> from the check of the node's status on\<close>
  "advance_active parse now node spec policy continue_loop signature outputs usage =
     (if nr_status node \<notin> {NS_READY, NS_RUNNING} then sx_raise (GeState ''loop node is not active'')
     else
     sx_bind (sx_lift (validate_port_values (nd_inputs spec) (nr_inputs node) True)) (\<lambda>_.
     let repeats = (if nr_signature node = Some signature then nr_repeats node + 1 else 0);
         iteration = nr_iteration node + 1;
         reasons = limit_reasons policy continue_loop iteration repeats usage;
         payload = (case outputs of None \<Rightarrow> [] | Some p \<Rightarrow> p);
         step = (\<lambda>status out n. n\<lparr>nr_status := status, nr_iteration := iteration,
             nr_signature := Some signature, nr_repeats := repeats, nr_outputs := out\<rparr>) in
     sx_bind (sx_lift (validate_port_values (nd_outputs spec) payload (\<not> continue_loop \<and> reasons = []))) (\<lambda>_.
     if reasons \<noteq> [] then
       sx_bind (save_node now (step NS_SKIPPED
           (AList.update ''limit_reasons'' (PList (map PStr reasons)) payload)) node) (\<lambda>updated.
       sx_bind (settle_run parse now (nr_run node)) (\<lambda>_. sx_return updated))
     else if \<not> continue_loop then
       sx_bind (save_node now (step NS_SUCCEEDED payload) node) (\<lambda>updated.
       sx_bind (settle_run parse now (nr_run node)) (\<lambda>_. sx_return updated))
     else
       sx_bind (get_run (nr_run node)) (\<lambda>run.
       sx_bind (get_definition (gr_definition run)) (\<lambda>again.
       let has_back_edge = list_ex (\<lambda>e. ed_source e = nd_id spec \<and> ed_loop_back e) (wf_edges again) in
       sx_bind (save_node now (step (if has_back_edge then NS_PENDING else NS_READY) payload) node) (\<lambda>updated.
       sx_bind (unlock_loop_body now (nr_run node) (nd_id spec)) (\<lambda>_. sx_return updated)))))))"

definition advance_loop ::
  "(string \<Rightarrow> expr option) \<Rightarrow> int \<Rightarrow> string \<Rightarrow> bool \<Rightarrow> string \<Rightarrow> py_env option \<Rightarrow> loop_usage \<Rightarrow> node_run gx" where
  "advance_loop parse now node_run_id continue_loop signature outputs usage =
     sx_bind (sx_lift (check_loop_usage usage)) (\<lambda>_.
     sx_bind (get_node_run node_run_id) (\<lambda>node.
     sx_bind (require_running_run (nr_run node)) (\<lambda>_.
     sx_bind (definition_and_node node) (\<lambda>(def, spec).
     case (if nd_kind spec = NK_LOOP then nd_loop spec else None) of
       None \<Rightarrow> sx_raise (GeState ''node is not a bounded loop'')
     | Some policy \<Rightarrow> advance_active parse now node spec policy continue_loop signature outputs usage))))"

subsection \<open>The coordinator as a transition system\<close>

text \<open>Every call a client can make of the runtime, with the identifiers and the clock reading it draws.\<close>

datatype graph_op =
    OpCreateRun string "string list" workflow_definition "py_env option" "string option" "budget option"
      "string option" "string option" int
  | OpStartRun string
  | OpStartAttempt string string "string option" "string option" "string option" "string option"
  | OpCompleteAttempt string bool "py_env option" "string option" "side_effect_state option"
  | OpMarkSideEffect string
  | OpSelectCondition string string "py_env option"
  | OpEnterBoundary string string boundary_kind
  | OpResolveBoundary string boundary_resolution
  | OpTimeoutBoundary string string
  | OpAdvanceLoop string bool string "py_env option" loop_usage
  | OpRecordBudget string py py py bool
  | OpCancelRun string
  | OpInterruptRun string
  | OpFailRun string
  | OpRecover string

fun graph_apply :: "(string \<Rightarrow> expr option) \<Rightarrow> int \<Rightarrow> graph_op \<Rightarrow> unit gx" where
  "graph_apply parse now (OpCreateRun i ids def inp ws snap par pn it) =
     sx_void (create_run parse now i ids def inp ws snap par pn it)"
| "graph_apply parse now (OpStartRun i) = sx_void (start_run now i)"
| "graph_apply parse now (OpStartAttempt a n w l g k) = sx_void (start_attempt now a n w l g k)"
| "graph_apply parse now (OpCompleteAttempt a ok out f e) = sx_void (complete_attempt parse now a ok out f e)"
| "graph_apply parse now (OpMarkSideEffect a) = sx_void (mark_side_effect_started a)"
| "graph_apply parse now (OpSelectCondition n p out) = sx_void (select_condition parse now n p out)"
| "graph_apply parse now (OpEnterBoundary tok n b) = sx_void (enter_boundary now tok n b)"
| "graph_apply parse now (OpResolveBoundary n r) = sx_void (resolve_boundary parse now n r)"
| "graph_apply parse now (OpTimeoutBoundary n tok) = sx_void (timeout_boundary parse now n tok)"
| "graph_apply parse now (OpAdvanceLoop n c sig out u) = sx_void (advance_loop parse now n c sig out u)"
| "graph_apply parse now (OpRecordBudget i t c k late) = sx_void (record_budget now i t c k late)"
| "graph_apply parse now (OpCancelRun i) = sx_void (cancel_run now i)"
| "graph_apply parse now (OpInterruptRun i) = sx_void (interrupt_run now i)"
| "graph_apply parse now (OpFailRun i) = sx_void (fail_run now i)"
| "graph_apply parse now (OpRecover i) = sx_void (recover parse now i)"

fun graph_execute :: "(string \<Rightarrow> expr option) \<Rightarrow> (int \<times> graph_op) list \<Rightarrow> graph_store \<Rightarrow> graph_store" where
  \<comment> \<open>a sequence of calls; one that raises leaves what it had stored\<close>
  "graph_execute parse [] s = s"
| "graph_execute parse ((now, c) # cs) s = graph_execute parse cs (snd (graph_apply parse now c s))"

end
