(* ===== verification/Graph_Lifecycle.thy ===== *)
theory Graph_Lifecycle
  imports Graph_Loops
begin

section \<open>Workflow graphs: the life cycle of runs and node runs\<close>

text \<open>
  What may happen to a run and to a node run, as two step relations, and the rules to show that an
  operation only takes such steps. The code reads a record, decides on the copy it read and writes back
  under compare-and-swap; a record that was seen and still has its revision is unchanged, so the
  decision was made on the current record. \<open>follows\<close> carries the records seen so far (\<open>Rs\<close>, \<open>Ns\<close>) and
  the runs known to be current because only nodes were written since (\<open>L\<close>).
\<close>

subsection \<open>Well-formed stores\<close>

definition store_wf :: "graph_store \<Rightarrow> bool" where
  "store_wf s \<longleftrightarrow>
     distinct (map fst (gs_runs s)) \<and> distinct (map fst (gs_nodes s)) \<and> distinct (map fst (gs_attempts s))
     \<and> (\<forall>(k, r) \<in> set (gs_runs s). gr_id r = k) \<and> (\<forall>(k, n) \<in> set (gs_nodes s). nr_id n = k)
     \<and> (\<forall>(k, a) \<in> set (gs_attempts s). at_id a = k)"

lemma wf_lookup:
  assumes "store_wf s"
  shows "map_of (gs_runs s) k = Some r \<Longrightarrow> gr_id r = k"
    and "map_of (gs_nodes s) k = Some n \<Longrightarrow> nr_id n = k"
    and "map_of (gs_attempts s) k = Some a \<Longrightarrow> at_id a = k"
  using assms by (auto simp: store_wf_def dest!: map_of_SomeD)

lemma wf_node_in: "store_wf s \<Longrightarrow> n \<in> snd ` set (gs_nodes s) \<Longrightarrow> map_of (gs_nodes s) (nr_id n) = Some n"
  by (force simp: store_wf_def map_of_eq_Some_iff)

definition keyed :: "('v \<Rightarrow> string) \<Rightarrow> (string \<times> 'v) list \<Rightarrow> bool" where
  "keyed key d \<longleftrightarrow> distinct (map fst d) \<and> (\<forall>(k, v) \<in> set d. key v = k)"

lemma keyed_update: "keyed key d \<Longrightarrow> keyed key (AList.update (key v) v d)"
  by (auto simp: keyed_def set_update_distinct distinct_update)

lemma keyed_fold_update: "keyed key d \<Longrightarrow> keyed key (fold (\<lambda>v. AList.update (key v) v) vs d)"
  by (induction vs arbitrary: d) (auto intro: keyed_update)

lemma store_wf_keyed: "store_wf s \<longleftrightarrow>
    keyed gr_id (gs_runs s) \<and> keyed nr_id (gs_nodes s) \<and> keyed at_id (gs_attempts s)"
  by (auto simp: store_wf_def keyed_def)

subsection \<open>Steps\<close>

definition same_run :: "graph_run \<Rightarrow> graph_run \<Rightarrow> bool" where
  \<comment> \<open>what a run was created with never changes, and each write is the next revision\<close>
  "same_run r q \<longleftrightarrow>
     gr_id q = gr_id r \<and> gr_definition q = gr_definition r \<and> gr_input q = gr_input r
     \<and> gr_target q = gr_target r \<and> gr_parent q = gr_parent r \<and> gr_parent_node q = gr_parent_node r
     \<and> gr_parent_iteration q = gr_parent_iteration r \<and> gr_budget q = gr_budget r \<and> gr_policy q = gr_policy r
     \<and> gr_revision q = gr_revision r + 1"

definition run_step :: "graph_run \<Rightarrow> graph_run \<Rightarrow> bool" where
  \<comment> \<open>a terminal status stays, recorded usage never shrinks, the first start time stays\<close>
  "run_step r q \<longleftrightarrow>
     same_run r q \<and> (terminal_run (gr_status r) \<longrightarrow> gr_status q = gr_status r)
     \<and> gr_output_tokens r \<le> gr_output_tokens q \<and> gr_cost_usd r \<le> gr_cost_usd q
     \<and> gr_tool_calls r \<le> gr_tool_calls q
     \<and> (gr_started_at r \<noteq> None \<longrightarrow> gr_started_at q = gr_started_at r)"

definition same_node :: "node_run \<Rightarrow> node_run \<Rightarrow> bool" where
  "same_node n m \<longleftrightarrow>
     nr_id m = nr_id n \<and> nr_run m = nr_run n \<and> nr_node m = nr_node n \<and> nr_revision m = nr_revision n + 1"

inductive node_move :: "node_run \<Rightarrow> node_run \<Rightarrow> bool" where
  dependency_move: \<comment> \<open>its dependencies are decided\<close>
    "same_node n m \<Longrightarrow> nr_iteration m = nr_iteration n \<Longrightarrow> nr_status n = NS_PENDING \<Longrightarrow>
     nr_status m \<in> {NS_READY, NS_SKIPPED} \<Longrightarrow> node_move n m"
| recovery_move: \<comment> \<open>recovery discards a derived status\<close>
    "same_node n m \<Longrightarrow> nr_iteration m = nr_iteration n \<Longrightarrow> nr_status n \<in> {NS_READY, NS_SKIPPED} \<Longrightarrow>
     nr_status m = NS_PENDING \<Longrightarrow> node_move n m"
| attempt_move: \<comment> \<open>the running attempt ended or was interrupted\<close>
    "same_node n m \<Longrightarrow> nr_iteration m = nr_iteration n \<Longrightarrow> nr_status n = NS_RUNNING \<Longrightarrow>
     nr_attempt m = None \<Longrightarrow>
     nr_status m \<in> {NS_SUCCEEDED, NS_FAILED, NS_SKIPPED, NS_RETRY_WAIT, NS_READY, NS_MANUAL_RECONCILE} \<Longrightarrow>
     node_move n m"
| condition_move: \<comment> \<open>a condition chose its port\<close>
    "same_node n m \<Longrightarrow> nr_iteration m = nr_iteration n \<Longrightarrow> nr_status n = NS_READY \<Longrightarrow>
     nr_status m = NS_SUCCEEDED \<Longrightarrow> node_move n m"
| enter_move: \<comment> \<open>a boundary is entered with a fresh token\<close>
    "same_node n m \<Longrightarrow> nr_iteration m = nr_iteration n \<Longrightarrow> nr_status n = NS_READY \<Longrightarrow>
     waiting_node (nr_status m) \<Longrightarrow> nr_wait_token m \<noteq> None \<Longrightarrow> node_move n m"
| leave_move: \<comment> \<open>a boundary is resolved, rejected or timed out; the token stays\<close>
    "same_node n m \<Longrightarrow> nr_iteration m = nr_iteration n \<Longrightarrow> waiting_node (nr_status n) \<Longrightarrow>
     nr_wait_token m = nr_wait_token n \<Longrightarrow> nr_status m \<in> {NS_SUCCEEDED, NS_FAILED, NS_SKIPPED} \<Longrightarrow>
     node_move n m"
| loop_move: \<comment> \<open>a loop node finishes an iteration\<close>
    "same_node n m \<Longrightarrow> nr_iteration m = nr_iteration n + 1 \<Longrightarrow> nr_status n \<in> {NS_READY, NS_RUNNING} \<Longrightarrow>
     nr_status m \<in> {NS_SUCCEEDED, NS_SKIPPED, NS_PENDING, NS_READY} \<Longrightarrow> node_move n m"
| repeat_move: \<comment> \<open>a settled node starts its next occurrence\<close>
    "same_node n m \<Longrightarrow> nr_iteration m = nr_iteration n + 1 \<Longrightarrow> repeatable (nr_status n) \<Longrightarrow>
     nr_status m \<in> {NS_PENDING, NS_READY} \<Longrightarrow> nr_attempt m = None \<Longrightarrow> nr_wait_token m = None \<Longrightarrow>
     nr_outputs m = [] \<Longrightarrow> node_move n m"
| stop_move: \<comment> \<open>the run is stopped\<close>
    "same_node n m \<Longrightarrow> nr_iteration m = nr_iteration n \<Longrightarrow> nonterminal_node (nr_status n) \<Longrightarrow>
     nr_attempt m = None \<Longrightarrow> nr_status m \<in> {NS_CANCELLED, NS_MANUAL_RECONCILE, NS_SUCCEEDED} \<Longrightarrow>
     node_move n m"
| input_move: \<comment> \<open>only the inputs are replaced\<close>
    "same_node n m \<Longrightarrow> nr_iteration m = nr_iteration n \<Longrightarrow> nr_status m = nr_status n \<Longrightarrow>
     nr_attempt m = nr_attempt n \<Longrightarrow> node_move n m"

definition node_step :: "node_run \<Rightarrow> node_run \<Rightarrow> bool" where
  \<comment> \<open>a move, or the start of an attempt\<close>
  "node_step n m \<longleftrightarrow> node_move n m
     \<or> same_node n m \<and> nr_iteration m = nr_iteration n \<and> nr_status n \<in> {NS_READY, NS_RETRY_WAIT}
       \<and> nr_status m = NS_RUNNING \<and> nr_attempt m \<noteq> None"

definition new_run :: "graph_run \<Rightarrow> bool" where
  "new_run r \<longleftrightarrow> gr_status r = RS_CREATED \<and> gr_revision r = 1 \<and> gr_started_at r = None
     \<and> gr_output_tokens r = 0 \<and> gr_cost_usd r = 0 \<and> gr_tool_calls r = 0"

definition new_node :: "node_run \<Rightarrow> bool" where
  "new_node n \<longleftrightarrow> nr_status n \<in> {NS_READY, NS_PENDING} \<and> nr_revision n = 1 \<and> nr_iteration n = 0
     \<and> nr_attempt n = None \<and> nr_wait_token n = None"

subsection \<open>Histories\<close>

definition lifecycle :: "(node_run \<Rightarrow> node_run \<Rightarrow> bool) \<Rightarrow> graph_store \<Rightarrow> graph_store \<Rightarrow> bool" where
  "lifecycle move s t \<longleftrightarrow> store_wf t
     \<and> (\<forall>k. descends run_step new_run (map_of (gs_runs s) k) (map_of (gs_runs t) k))
     \<and> (\<forall>k. descends move new_node (map_of (gs_nodes s) k) (map_of (gs_nodes t) k))"

lemma lifecycle_refl: "store_wf s \<Longrightarrow> lifecycle move s s"
  by (simp add: lifecycle_def)

lemma lifecycle_trans: "lifecycle move s t \<Longrightarrow> lifecycle move t u \<Longrightarrow> lifecycle move s u"
  unfolding lifecycle_def by (meson descends_trans)

lemma lifecycle_wf: "lifecycle move s t \<Longrightarrow> store_wf t"
  by (simp add: lifecycle_def)

subsection \<open>Snapshots\<close>

definition seen :: "('v \<Rightarrow> int) \<Rightarrow> 'v \<Rightarrow> 'v option \<Rightarrow> bool" where
  \<comment> \<open>the record is current, or the current one is a later revision\<close>
  "seen ver c now \<longleftrightarrow> (\<exists>d. now = Some d \<and> (d = c \<or> ver c < ver d))"

definition snapshot :: "graph_run set \<Rightarrow> node_run set \<Rightarrow> graph_run set \<Rightarrow> graph_store \<Rightarrow> bool" where
  "snapshot Rs Ns L s \<longleftrightarrow> store_wf s
     \<and> (\<forall>r \<in> Rs. seen gr_revision r (map_of (gs_runs s) (gr_id r)))
     \<and> (\<forall>n \<in> Ns. seen nr_revision n (map_of (gs_nodes s) (nr_id n)))
     \<and> (\<forall>r \<in> L. map_of (gs_runs s) (gr_id r) = Some r)"

definition rising :: "('v \<Rightarrow> int) \<Rightarrow> ('v \<Rightarrow> 'v \<Rightarrow> bool) \<Rightarrow> bool" where
  "rising ver step \<longleftrightarrow> (\<forall>c d. step c d \<longrightarrow> ver c < ver d)"

lemma rising_rtrancl: "step\<^sup>*\<^sup>* c d \<Longrightarrow> rising ver step \<Longrightarrow> d = c \<or> ver c < ver d"
  by (induction rule: rtranclp_induct) (auto simp: rising_def intro: less_trans)

lemma seen_descends: "seen ver c x \<Longrightarrow> descends step born x y \<Longrightarrow> rising ver step \<Longrightarrow> seen ver c y"
  by (auto simp: seen_def descends_def dest!: rising_rtrancl)

lemma rising_run_step [simp]: "rising gr_revision run_step"
  by (auto simp: rising_def run_step_def same_run_def)

lemma rising_node_move: "rising nr_revision node_move"
  by (auto simp: rising_def same_node_def elim!: node_move.cases)

lemma rising_node_step: "rising nr_revision node_step"
  using rising_node_move by (auto simp: rising_def node_step_def same_node_def)

lemma snapshot_after:
  assumes "snapshot Rs Ns L s" and "lifecycle move s t" and "rising nr_revision move"
  shows "snapshot Rs Ns {} t" and "gs_runs t = gs_runs s \<Longrightarrow> snapshot Rs Ns L t"
  using assms by (auto simp: snapshot_def lifecycle_def intro: seen_descends)

subsection \<open>Rules\<close>

definition follows ::
  "(node_run \<Rightarrow> node_run \<Rightarrow> bool) \<Rightarrow> graph_run set \<Rightarrow> node_run set \<Rightarrow> graph_run set \<Rightarrow> 'a gx \<Rightarrow> bool" where
  "follows move Rs Ns L m \<longleftrightarrow> (\<forall>s. snapshot Rs Ns L s \<longrightarrow> lifecycle move s (snd (m s)))"

definition same_runs :: "graph_store \<Rightarrow> graph_store \<Rightarrow> bool" where
  "same_runs s t \<longleftrightarrow> gs_runs t = gs_runs s"

interpretation quiet: kept_relation same_runs
  by unfold_locales (simp_all add: same_runs_def)

text \<open>The interface the rules need of a step relation: revisions rise and the identifier stays.\<close>

locale node_steps =
  fixes move :: "node_run \<Rightarrow> node_run \<Rightarrow> bool"
  assumes rising_move: "rising nr_revision move"
    and move_id: "move n m \<Longrightarrow> nr_id m = nr_id n"
begin

lemma follows_pure:
  "follows move Rs Ns L (sx_return x)" "follows move Rs Ns L (sx_raise e)" "follows move Rs Ns L (sx_lift r)"
  "follows move Rs Ns L (sx_guard b e)"
  by (simp_all add: follows_def sx_simps lifecycle_refl snapshot_def)

lemma follows_reads:
  "follows move Rs Ns L (get_definition key)" "follows move Rs Ns L (get_run i)"
  "follows move Rs Ns L (get_node_run i)" "follows move Rs Ns L (get_attempt i)"
  "follows move Rs Ns L (list_node_runs i)" "follows move Rs Ns L (list_attempts i)"
  by (simp_all add: follows_def lifecycle_refl snapshot_def)

lemma follows_weaken:
  "follows move Rs Ns L m \<Longrightarrow> Rs \<subseteq> Rs' \<Longrightarrow> Ns \<subseteq> Ns' \<Longrightarrow> L \<subseteq> L' \<Longrightarrow> follows move Rs' Ns' L' m"
proof -
  assume m: "follows move Rs Ns L m" and sub: "Rs \<subseteq> Rs'" "Ns \<subseteq> Ns'" "L \<subseteq> L'"
  have "snapshot Rs Ns L s" if "snapshot Rs' Ns' L' s" for s
    using that sub unfolding snapshot_def by blast
  with m show ?thesis by (simp add: follows_def)
qed

lemma follows_bind:
  assumes "follows move Rs Ns L m" and "\<And>x. follows move Rs Ns {} (f x)"
  shows "follows move Rs Ns L (sx_bind m f)"
  unfolding follows_def
proof (intro allI impI)
  fix s assume snap: "snapshot Rs Ns L s"
  obtain r t where m: "m s = (r, t)" by fastforce
  with assms(1) snap have st: "lifecycle move s t" by (force simp: follows_def)
  have "lifecycle move t (snd (f x t))" for x
    using assms(2) snapshot_after(1) [OF snap st rising_move] by (simp add: follows_def)
  with m st show "lifecycle move s (snd (sx_bind m f s))"
    by (cases r) (auto simp: sx_bind_def intro: lifecycle_trans)
qed

lemma follows_bind_quiet:
  \<comment> \<open>what leaves the runs alone also leaves them alive\<close>
  assumes "follows move Rs Ns L m" and "keeps same_runs m" and "\<And>x. follows move Rs Ns L (f x)"
  shows "follows move Rs Ns L (sx_bind m f)"
  unfolding follows_def
proof (intro allI impI)
  fix s assume snap: "snapshot Rs Ns L s"
  obtain r t where m: "m s = (r, t)" by fastforce
  with assms(1) snap have st: "lifecycle move s t" by (force simp: follows_def)
  have "gs_runs t = gs_runs s" using keepsD [OF assms(2) m] by (simp add: same_runs_def)
  with assms(3) snapshot_after(2) [OF snap st rising_move] have "lifecycle move t (snd (f x t))" for x
    by (simp add: follows_def)
  with m st show "lifecycle move s (snd (sx_bind m f s))"
    by (cases r) (auto simp: sx_bind_def intro: lifecycle_trans)
qed

lemma follows_get_run:
  assumes "\<And>r. gr_id r = i \<Longrightarrow> (\<And>q. q \<in> H \<Longrightarrow> gr_id q = i \<Longrightarrow> q = r) \<Longrightarrow>
    follows move (insert r Rs) Ns (insert r H) (f r)"
  shows "follows move Rs Ns H (sx_bind (get_run i) f)"
  unfolding follows_def
proof (intro allI impI)
  fix s assume snap: "snapshot Rs Ns H s"
  then have wf: "store_wf s" by (simp add: snapshot_def)
  show "lifecycle move s (snd (sx_bind (get_run i) f s))"
  proof (cases "map_of (gs_runs s) i")
    case None
    then show ?thesis by (simp add: sx_bind_def gs_reads lifecycle_refl wf)
  next
    case (Some r)
    have i: "gr_id r = i" using wf_lookup(1) [OF wf Some] .
    have "q = r" if "q \<in> H" "gr_id q = i" for q using that snap Some by (auto simp: snapshot_def)
    moreover have "snapshot (insert r Rs) Ns (insert r H) s"
      using snap Some i by (auto simp: snapshot_def seen_def)
    ultimately have "lifecycle move s (snd (f r s))" using assms [OF i] by (simp add: follows_def)
    with Some show ?thesis by (simp add: sx_bind_def gs_reads)
  qed
qed

lemma follows_get_node:
  assumes "\<And>n. nr_id n = i \<Longrightarrow> follows move Rs (insert n Ns) L (f n)"
  shows "follows move Rs Ns L (sx_bind (get_node_run i) f)"
  unfolding follows_def
proof (intro allI impI)
  fix s assume snap: "snapshot Rs Ns L s"
  then have wf: "store_wf s" by (simp add: snapshot_def)
  show "lifecycle move s (snd (sx_bind (get_node_run i) f s))"
  proof (cases "map_of (gs_nodes s) i")
    case None
    then show ?thesis by (simp add: sx_bind_def gs_reads lifecycle_refl wf)
  next
    case (Some n)
    have i: "nr_id n = i" using wf_lookup(2) [OF wf Some] .
    then have "snapshot Rs (insert n Ns) L s" using snap Some by (auto simp: snapshot_def seen_def)
    with assms [OF i] have "lifecycle move s (snd (f n s))" by (simp add: follows_def)
    with Some show ?thesis by (simp add: sx_bind_def gs_reads)
  qed
qed

lemma follows_list_nodes:
  assumes "\<And>ns. follows move Rs (set ns \<union> Ns) L (f ns)"
  shows "follows move Rs Ns L (sx_bind (list_node_runs i) f)"
  unfolding follows_def
proof (intro allI impI)
  fix s assume snap: "snapshot Rs Ns L s"
  let ?ns = "filter (\<lambda>n. nr_run n = i) (map snd (gs_nodes s))"
  have "map_of (gs_nodes s) (nr_id n) = Some n" if "n \<in> set ?ns" for n
    using that snap wf_node_in by (auto simp: snapshot_def)
  with snap have "snapshot Rs (set ?ns \<union> Ns) L s" by (auto simp: snapshot_def seen_def)
  with assms have "lifecycle move s (snd (f ?ns s))" by (simp add: follows_def)
  then show "lifecycle move s (snd (sx_bind (list_node_runs i) f s))"
    by (simp add: sx_bind_def gs_reads)
qed

lemma follows_require:
  assumes "\<And>r. gr_id r = i \<Longrightarrow> gr_status r = RS_RUNNING \<Longrightarrow> follows move Rs Ns (insert r H) (f ())"
  shows "follows move Rs Ns H (sx_bind (require_running_run i) f)"
  unfolding follows_def
proof (intro allI impI)
  fix s assume snap: "snapshot Rs Ns H s"
  then have refl: "lifecycle move s s" and wf: "store_wf s" by (simp_all add: snapshot_def lifecycle_refl)
  have "lifecycle move s (snd (f () s))" if r: "map_of (gs_runs s) i = Some r" "gr_status r = RS_RUNNING" for r
  proof -
    have i: "gr_id r = i" using wf_lookup(1) [OF wf r(1)] .
    then have "snapshot Rs Ns (insert r H) s" using r snap by (auto simp: snapshot_def)
    with assms [OF i r(2)] show ?thesis by (simp add: follows_def)
  qed
  with refl show "lifecycle move s (snd (sx_bind (require_running_run i) f s))"
    by (auto simp: require_running_run_def sx_simps gs_reads split: option.splits)
qed

lemma follows_each: "(\<And>x. x \<in> set xs \<Longrightarrow> follows move Rs Ns {} (f x)) \<Longrightarrow> follows move Rs Ns L (sx_each f xs)"
proof (induction xs arbitrary: L)
  case (Cons x xs)
  have "follows move Rs Ns L (f x)" by (rule follows_weaken [OF Cons.prems]) simp_all
  moreover have "follows move Rs Ns {} (sx_each f xs)" by (rule Cons.IH) (simp add: Cons.prems)
  ultimately show ?case by (auto intro!: follows_bind follows_pure)
qed (simp add: follows_pure)

lemma follows_cases:
  "(b \<Longrightarrow> follows move Rs Ns L m) \<Longrightarrow> (\<not> b \<Longrightarrow> follows move Rs Ns L m') \<Longrightarrow>
   follows move Rs Ns L (if b then m else m')"
  "(\<And>x. x = v \<Longrightarrow> follows move Rs Ns L (g x)) \<Longrightarrow> follows move Rs Ns L (let x = v in g x)"
  "(opt = None \<Longrightarrow> follows move Rs Ns L m) \<Longrightarrow> (\<And>y. opt = Some y \<Longrightarrow> follows move Rs Ns L (h y)) \<Longrightarrow>
   follows move Rs Ns L (case opt of None \<Rightarrow> m | Some y \<Rightarrow> h y)"
  "(\<And>a b. p = (a, b) \<Longrightarrow> follows move Rs Ns L (k a b)) \<Longrightarrow> follows move Rs Ns L (case p of (a, b) \<Rightarrow> k a b)"
  "(xs = [] \<Longrightarrow> follows move Rs Ns L m) \<Longrightarrow> (\<And>y ys. xs = y # ys \<Longrightarrow> follows move Rs Ns L (l y ys)) \<Longrightarrow>
   follows move Rs Ns L (case xs of [] \<Rightarrow> m | y # ys \<Rightarrow> l y ys)"
  by (auto split: option.splits prod.splits list.splits)

subsection \<open>Writes\<close>

lemma seen_current:
  "seen ver c (Some d) \<Longrightarrow> ver d = ver c \<Longrightarrow> d = c"
  by (auto simp: seen_def)

lemma follows_update_run:
  assumes "r \<in> Rs" and "run_step r q"
  shows "follows move Rs Ns L (update_run q (gr_revision r))"
  unfolding follows_def
proof (intro allI impI)
  fix s assume snap: "snapshot Rs Ns L s"
  then have wf: "store_wf s" by (simp add: snapshot_def)
  have id: "gr_id q = gr_id r" using assms(2) by (simp add: run_step_def same_run_def)
  have seen: "seen gr_revision r (map_of (gs_runs s) (gr_id r))" using snap assms(1) by (auto simp: snapshot_def)
  obtain x t where u: "update_run q (gr_revision r) s = (x, t)" by fastforce
  show "lifecycle move s (snd (update_run q (gr_revision r) s))"
  proof (cases x)
    case (Inl e)
    with u run_store.update_Inl show ?thesis by (force intro: lifecycle_refl [OF wf])
  next
    case (Inr y)
    with u run_store.update_Inr [of q "gr_revision r" s y t]
    obtain c where c: "map_of (gs_runs s) (gr_id q) = Some c" "gr_revision c = gr_revision r"
      and t: "map_of (gs_runs t) = (map_of (gs_runs s))(gr_id q \<mapsto> q)" by auto
    have cr: "c = r" using seen_current [of gr_revision r c] seen c id by simp
    have frame: "gs_nodes t = gs_nodes s" "gs_attempts t = gs_attempts s"
      using update_run_frame [of q "gr_revision r" s] u by simp_all
    from u Inr have "gs_runs t = AList.update (gr_id q) q (gs_runs s)"
      by (auto simp: update_run_def gs_lookup_apply sx_simps split: option.splits if_splits)
    then have "store_wf t" using wf frame by (simp add: store_wf_keyed keyed_update)
    then show ?thesis using u c t cr frame assms(2) id
      by (auto simp: lifecycle_def descends_step)
  qed
qed

lemma node_write:
  assumes snap: "snapshot Rs Ns L s" and "n \<in> Ns" and "move n m" and "nr_id m = nr_id n"
    and "map_of (gs_nodes s) (nr_id m) = Some c" "nr_revision c = nr_revision n"
    and nodes: "gs_nodes t = AList.update (nr_id m) m (gs_nodes s)" and runs: "gs_runs t = gs_runs s"
    and attempts: "keyed at_id (gs_attempts s) \<Longrightarrow> keyed at_id (gs_attempts t)"
  shows "lifecycle move s t"
proof -
  have wf: "store_wf s" using snap by (simp add: snapshot_def)
  have "seen nr_revision n (map_of (gs_nodes s) (nr_id n))" using snap assms(2) by (auto simp: snapshot_def)
  then have "c = n" using seen_current [of nr_revision n c] assms(4-6) by simp
  moreover have "store_wf t" using wf nodes runs attempts by (simp add: store_wf_keyed keyed_update)
  ultimately show ?thesis using assms(3,5) nodes runs
    by (auto simp: lifecycle_def descends_step map_of_update)
qed

lemma follows_update_node:
  assumes "n \<in> Ns" and "move n m" and "nr_id m = nr_id n"
  shows "follows move Rs Ns L (update_node_run m (nr_revision n))"
  unfolding follows_def
proof (intro allI impI)
  fix s assume snap: "snapshot Rs Ns L s"
  then have refl: "lifecycle move s s" by (simp add: snapshot_def lifecycle_refl)
  show "lifecycle move s (snd (update_node_run m (nr_revision n) s))"
    using refl node_write [OF snap assms]
    by (auto simp: update_node_run_def gs_lookup_apply sx_simps split: option.splits)
qed

lemma follows_finish:
  assumes "n \<in> Ns" and "move n m" and "nr_id m = nr_id n"
  shows "follows move Rs Ns L (finish_node_attempt m a (nr_revision n))"
  unfolding follows_def
proof (intro allI impI)
  fix s assume snap: "snapshot Rs Ns L s"
  then have refl: "lifecycle move s s" by (simp add: snapshot_def lifecycle_refl)
  show "lifecycle move s (snd (finish_node_attempt m a (nr_revision n) s))"
    using refl node_write [OF snap assms]
    by (auto simp: finish_node_attempt_def gs_lookup_apply sx_simps keyed_update split: option.splits)
qed

lemma follows_start:
  assumes "n \<in> Ns" and "move n m" and "nr_id m = nr_id n"
  shows "follows move Rs Ns L (start_node_attempt m a (nr_revision n))"
  unfolding follows_def
proof (intro allI impI)
  fix s assume snap: "snapshot Rs Ns L s"
  then have refl: "lifecycle move s s" by (simp add: snapshot_def lifecycle_refl)
  show "lifecycle move s (snd (start_node_attempt m a (nr_revision n) s))"
    using refl node_write [OF snap assms]
    by (auto simp: start_node_attempt_def gs_lookup_apply sx_simps keyed_update split: option.splits)
qed

lemma follows_update_attempt: "follows move Rs Ns L (update_attempt a)"
  unfolding follows_def
proof (intro allI impI)
  fix s assume "snapshot Rs Ns L s"
  then have wf: "store_wf s" by (simp add: snapshot_def)
  then show "lifecycle move s (snd (update_attempt a s))"
    by (auto simp: update_attempt_def gs_lookup_apply sx_simps store_wf_keyed keyed_update lifecycle_def
        split: option.splits)
qed

lemma follows_save_node:
  assumes "n \<in> Ns" and "move n ((f n)\<lparr>nr_revision := nr_revision n + 1, nr_updated_at := now\<rparr>)"
  shows "follows move Rs Ns L (save_node now f n)"
  unfolding save_node_def Let_def
  using assms move_id [OF assms(2)] by (intro follows_bind follows_pure follows_update_node)

lemma follows_finish_node:
  assumes "n \<in> Ns" and "move n ((f n)\<lparr>nr_revision := nr_revision n + 1, nr_updated_at := now\<rparr>)"
  shows "follows move Rs Ns L (finish_node now f n a)"
  unfolding finish_node_def Let_def
  using assms move_id [OF assms(2)] by (intro follows_bind follows_pure follows_finish)

lemma follows_save_run:
  assumes "r \<in> Rs" and "run_step r ((f r)\<lparr>gr_revision := gr_revision r + 1, gr_updated_at := now\<rparr>)"
  shows "follows move Rs Ns L (save_run now f r)"
  unfolding save_run_def Let_def using assms by (intro follows_bind follows_pure follows_update_run)

end

text \<open>
  A relation that has the steps of the dependency propagation, and one that has all moves.
\<close>

locale dependency_steps = node_steps +
  assumes dependency: "same_node n m \<Longrightarrow> nr_iteration m = nr_iteration n \<Longrightarrow> nr_status n = NS_PENDING \<Longrightarrow>
      nr_status m \<in> {NS_READY, NS_SKIPPED} \<Longrightarrow> move n m"

locale all_steps = node_steps +
  assumes moves: "node_move n m \<Longrightarrow> move n m"

sublocale all_steps \<subseteq> dependency_steps
  by unfold_locales (auto intro: moves dependency_move)

lemma node_move_id: "node_move n m \<Longrightarrow> nr_id m = nr_id n"
  by (auto simp: same_node_def elim!: node_move.cases)

interpretation moving: all_steps node_move
  by unfold_locales (simp_all add: rising_node_move node_move_id)

interpretation stepping: all_steps node_step
  by unfold_locales (auto simp: rising_node_step node_step_def same_node_def node_move_id)

definition dependency_step :: "node_run \<Rightarrow> node_run \<Rightarrow> bool" where
  "dependency_step n m \<longleftrightarrow> same_node n m \<and> nr_iteration m = nr_iteration n \<and> nr_status n = NS_PENDING
     \<and> nr_status m \<in> {NS_READY, NS_SKIPPED}"

interpretation propagating: dependency_steps dependency_step
  by unfold_locales (auto simp: rising_def dependency_step_def same_node_def)

end
