(* ===== verification/Graph_Steps.thy ===== *)
theory Graph_Steps
  imports Graph_Lifecycle
begin

section \<open>Workflow graphs: every operation takes only life cycle steps\<close>

subsection \<open>What leaves the runs alone\<close>

lemma quiet_list:
  "(xs = [] \<Longrightarrow> keeps same_runs m) \<Longrightarrow> (\<And>y ys. xs = y # ys \<Longrightarrow> keeps same_runs (f y ys)) \<Longrightarrow>
   keeps same_runs (case xs of [] \<Rightarrow> m | y # ys \<Rightarrow> f y ys)"
  by (cases xs) simp_all

lemma quiet_repo:
  "keeps same_runs (get_definition key)" "keeps same_runs (get_run i)" "keeps same_runs (get_node_run i)"
  "keeps same_runs (get_attempt i)" "keeps same_runs (list_node_runs i)" "keeps same_runs (list_attempts i)"
  "keeps same_runs (update_node_run w n)" "keeps same_runs (update_attempt a)"
  "keeps same_runs (start_node_attempt w a n)" "keeps same_runs (finish_node_attempt w a n)"
  by (simp_all add: keeps_def same_runs_def repo_frames)

lemmas quiet_rules = quiet.keeps_rules quiet_list quiet_repo

lemma quiet_saves: "keeps same_runs (save_node now f n)" "keeps same_runs (finish_node now f n a)"
  "keeps same_runs (definition_and_node n)" "keeps same_runs (require_running_run i)"
  unfolding atomize_conj save_node_def finish_node_def definition_and_node_def require_running_run_def
  by (intro conjI quiet_rules)

lemma quiet_propagate: "keeps same_runs (propagate_dependencies parse now excl i)"
proof -
  have "keeps same_runs (propagate_loop fuel parse now excl def inp i)" for fuel def inp
    by (induction fuel) (auto simp: propagate_pass_def propagate_node_def intro!: quiet_rules quiet_saves)
  then show ?thesis unfolding propagate_dependencies_def by (intro quiet_rules)
qed

lemma quiet_stop: "keeps same_runs (stop_node now st u n)" "keeps same_runs (keep_result now a n)"
  unfolding atomize_conj stop_node_def keep_result_def by (intro conjI quiet_rules quiet_saves)

lemma quiet_passes:
  "keeps same_runs (terminalize_active_nodes now i st)" "keeps same_runs (reset_interrupted_nodes now i)"
  "keeps same_runs (reset_derived_dependency_states now i)"
  unfolding atomize_conj terminalize_active_nodes_def terminalize_node_def reset_interrupted_nodes_def
    reset_interrupted_node_def reset_derived_dependency_states_def reset_derived_node_def
  by (intro conjI quiet_rules quiet_saves quiet_stop)

lemmas quiet_all = quiet_rules quiet_saves quiet_propagate quiet_passes

subsection \<open>Helpers\<close>

lemma by_spec_in: "(i, n) \<in> set (by_spec_of ns) \<Longrightarrow> n \<in> set ns"
proof -
  have "(i, n) \<in> set (fold (\<lambda>n. AList.update (nr_node n) n) ns d) \<Longrightarrow> n \<in> set ns \<or> (i, n) \<in> set d" for d
  proof (induction ns arbitrary: d)
    case (Cons m ns)
    have "(i, n) \<in> set (AList.update k v d) \<Longrightarrow> n = v \<or> (i, n) \<in> set d" for k and v :: node_run and d
      by (induction d) (auto split: if_splits)
    with Cons show ?case by fastforce
  qed simp
  then show "(i, n) \<in> set (by_spec_of ns) \<Longrightarrow> n \<in> set ns" by (fastforce simp: by_spec_of_def)
qed

lemma by_spec_lookup: "map_of (by_spec_of ns) i = Some n \<Longrightarrow> n \<in> set ns"
  by (rule by_spec_in) (rule map_of_SomeD)

lemma decide_node_Some:
  assumes "decide_node parse excl def inp bs i n = Inr (Some (st, refs))"
  obtains (ready) "nr_status n = NS_PENDING" "st = NS_READY" | (skipped) "nr_status n = NS_PENDING" "st = NS_SKIPPED"
proof -
  from assms obtain e es where edges: "dependency_edges excl def i = e # es" and pending: "nr_status n = NS_PENDING"
    by (auto simp: decide_node_def Let_def split: if_splits list.splits)
  with assms obtain states spec where
    "(case dependency_decision spec (ed_join e) states of
       DepWait \<Rightarrow> Inr None
     | DepSkip \<Rightarrow> Inr (Some (NS_SKIPPED, []))
     | DepReady \<Rightarrow> res_bind (input_refs bs (active_edges (e # es) states) []) (\<lambda>refs.
         Inr (Some (NS_READY, refs)))) = Inr (Some (st, refs))"
    unfolding decide_node_def Let_def edges by (auto simp: res_bind_Inr_iff simp del: edge_states.simps)
  then show thesis using pending ready skipped
    by (cases "dependency_decision spec (ed_join e) states") (auto simp: res_bind_Inr_iff)
qed

lemma decide_node_status:
  assumes "decide_node parse excl def inp bs i n = Inr (Some (st, refs))"
  shows "nr_status n = NS_PENDING" "st \<in> {NS_READY, NS_SKIPPED}"
  using decide_node_Some [OF assms] by blast+

definition current_open :: "string \<Rightarrow> graph_run set \<Rightarrow> bool" where
  \<comment> \<open>the run is known, and it is not terminal\<close>
  "current_open i H \<longleftrightarrow> (\<exists>r \<in> H. gr_id r = i \<and> \<not> terminal_run (gr_status r))"

lemma open_running [simp]: "gr_id r = i \<Longrightarrow> gr_status r = RS_RUNNING \<Longrightarrow> current_open i (insert r H)"
  by (auto simp: current_open_def terminal_run_def)

lemma check_usage_nonneg:
  assumes "check_usage t c k = Inr u"
  shows "0 \<le> py_int_value t" "0 \<le> number_value c" "0 \<le> py_int_value k"
  using assms
  by (auto simp: check_usage_def Let_def negative_number_def py_int_value_def number_value_def res_bind_Inr_iff
      finite_number_def float_finite_def split: if_splits py.splits py_float.splits)

context node_steps
begin

lemma follows_lift:
  "(\<And>x. r = Inr x \<Longrightarrow> follows move Rs Ns L (f x)) \<Longrightarrow> follows move Rs Ns L (sx_bind (sx_lift r) f)"
  by (cases r) (simp_all add: follows_def sx_bind_def sx_simps lifecycle_refl snapshot_def)

lemma follows_definition_and_node: "follows move Rs Ns L (definition_and_node n)"
  unfolding definition_and_node_def
  by (intro follows_bind_quiet follows_reads follows_pure follows_cases quiet_all)

lemma follows_past_reads:
  "(\<And>x. follows move Rs Ns L (f x)) \<Longrightarrow> follows move Rs Ns L (sx_bind (get_definition key) f)"
  "(\<And>x. follows move Rs Ns L (g x)) \<Longrightarrow> follows move Rs Ns L (sx_bind (get_attempt i) g)"
  "(\<And>x. follows move Rs Ns L (h x)) \<Longrightarrow> follows move Rs Ns L (sx_bind (list_attempts i) h)"
  "(\<And>x. follows move Rs Ns L (k x)) \<Longrightarrow> follows move Rs Ns L (sx_bind (definition_and_node n) k)"
  unfolding atomize_conj
  by (auto intro!: follows_bind_quiet follows_reads follows_definition_and_node quiet_all)

lemmas rules = follows_pure follows_cases follows_lift follows_require follows_get_run follows_get_node
  follows_list_nodes follows_past_reads

end

context dependency_steps
begin

lemma follows_propagate_node:
  assumes "snd entry \<in> Ns"
  shows "follows move Rs Ns L (propagate_node parse now excl def inp bs entry)"
  unfolding propagate_node_def using assms
  by (intro rules follows_bind follows_save_node)
    (auto dest: decide_node_status intro!: dependency simp: same_node_def)

lemma follows_pass: "follows move Rs Ns L (propagate_pass parse now excl def inp i)"
  unfolding propagate_pass_def
proof (intro follows_list_nodes follows_cases)
  fix ns bs assume bs: "bs = by_spec_of ns"
  show "follows move Rs (set ns \<union> Ns) L (sx_bind (sx_each (propagate_node parse now excl def inp bs) bs)
      (\<lambda>changes. sx_return (list_ex id changes)))"
    by (intro follows_bind follows_each follows_pure follows_propagate_node)
      (auto simp: bs dest: by_spec_in)
qed

lemma follows_propagate: "follows move Rs Ns L (propagate_dependencies parse now excl i)"
proof -
  have loop: "follows move Rs Ns {} (propagate_loop fuel parse now excl def inp i)" for fuel def inp Ns Rs
    by (induction fuel) (auto intro!: follows_pure follows_bind follows_pass follows_cases(1))
  have "follows move Rs Ns L (propagate_loop fuel parse now excl def inp i)" for fuel def inp Ns Rs L
    by (rule follows_weaken [OF loop [of Rs Ns]]) simp_all
  then show ?thesis unfolding propagate_dependencies_def by (intro rules)
qed

end

context all_steps
begin

lemma follows_stop:
  assumes "n \<in> Ns" and "nr_status n = NS_RUNNING \<and> safe = NS_READY \<or> nonterminal_node (nr_status n) \<and> safe = NS_CANCELLED"
  shows "follows move Rs Ns L (stop_node now safe unknown n)"
  unfolding stop_node_def using assms
  by (intro follows_bind follows_pure follows_save_node)
    (auto intro!: moves intro: attempt_move stop_move simp: same_node_def release_node_def nonterminal_node_def)

lemma follows_keep:
  assumes "n \<in> Ns" and "nr_status n = NS_RUNNING \<or> nonterminal_node (nr_status n)"
  shows "follows move Rs Ns L (keep_result now a n)"
  unfolding keep_result_def using assms
  by (intro follows_bind follows_pure follows_save_node)
    (auto intro!: moves intro: stop_move simp: same_node_def release_node_def nonterminal_node_def)

lemma follows_terminalize: "follows move Rs Ns L (terminalize_active_nodes now i NS_CANCELLED)"
proof -
  have "follows move Rs Ns L (terminalize_node now NS_CANCELLED n)" if "n \<in> Ns" for n Rs Ns L
    unfolding terminalize_node_def using that
    by (intro rules follows_bind [OF follows_update_attempt] follows_stop follows_keep) auto
  then show ?thesis
    unfolding terminalize_active_nodes_def
    by (intro follows_list_nodes follows_bind follows_each follows_pure) auto
qed

lemma follows_reset_node: "n \<in> Ns \<Longrightarrow> follows move Rs Ns L (reset_interrupted_node now n)"
  unfolding reset_interrupted_node_def
  by (intro rules follows_bind [OF follows_update_attempt] follows_stop follows_keep) auto

lemma follows_reset_interrupted: "follows move Rs Ns L (reset_interrupted_nodes now i)"
  unfolding reset_interrupted_nodes_def
  by (intro follows_list_nodes follows_bind follows_each follows_pure follows_reset_node) auto

lemma follows_reset_derived: "follows move Rs Ns L (reset_derived_dependency_states now i)"
proof -
  have "follows move Rs Ns L (reset_derived_node now def n)" if "n \<in> Ns" for n Rs Ns L def
    unfolding reset_derived_node_def using that
    by (intro rules follows_bind_quiet follows_save_node quiet_all)
      (auto intro!: moves recovery_move simp: same_node_def)
  then show ?thesis
    unfolding reset_derived_dependency_states_def
    by (intro rules follows_bind follows_each) auto
qed

subsection \<open>Writing the run\<close>

lemma follows_finish_if_terminal:
  "current_open i H \<Longrightarrow> follows move Rs Ns H (finish_if_terminal now i)"
  unfolding finish_if_terminal_def
  by (intro rules follows_bind follows_save_run)
    (auto simp: run_step_def same_run_def current_open_def)

lemma follows_refresh: "follows move Rs Ns H (refresh_run_activity_status now i)"
  unfolding refresh_run_activity_status_def
  by (intro rules follows_bind follows_save_run) (auto simp: run_step_def same_run_def)

lemma follows_settle_run:
  "current_open i H \<Longrightarrow> follows move Rs Ns H (settle_run parse now i)"
  unfolding settle_run_def
  by (rule follows_bind_quiet [OF follows_propagate quiet_propagate])
    (intro follows_bind follows_finish_if_terminal follows_refresh follows_pure)

lemma follows_close_run:
  assumes "current_open i H"
    and "\<And>r. r \<in> H \<Longrightarrow> gr_id r = i \<Longrightarrow> run_step r ((f r)\<lparr>gr_revision := gr_revision r + 1\<rparr>)"
  shows "follows move Rs Ns H (close_run now i status f)"
  unfolding close_run_def
proof (rule follows_bind_quiet [OF follows_terminalize quiet_passes(1)], intro rules follows_save_run)
  fix manual r
  assume r: "gr_id r = i" "\<And>q. q \<in> H \<Longrightarrow> gr_id q = i \<Longrightarrow> q = r"
  with assms(1) have "r \<in> H" and "\<not> terminal_run (gr_status r)" by (auto simp: current_open_def)
  with assms(2) [OF this(1) r(1)]
  show "run_step r ((f r)\<lparr>gr_status := (if manual then RS_MANUAL_RECONCILE else status),
      gr_completed_at := (if manual then None else Some now), gr_revision := gr_revision r + 1, gr_updated_at := now\<rparr>)"
    by (simp add: run_step_def same_run_def)
qed simp

lemma follows_mark_manual:
  "current_open i H \<Longrightarrow> follows move Rs Ns H (mark_run_manual_reconcile now i)"
  unfolding mark_run_manual_reconcile_def
  by (intro rules follows_bind follows_save_run) (auto simp: run_step_def same_run_def current_open_def)

subsection \<open>Loop bodies\<close>

lemma follows_find_node:
  assumes "\<And>n. follows move Rs (insert n Ns) H (f n)"
  shows "follows move Rs Ns H (sx_bind (find_node_run i k) f)"
proof -
  have "sx_bind (find_node_run i k) f = sx_bind (list_node_runs i) (\<lambda>nodes.
      case list_find (\<lambda>n. nr_node n = k) nodes of None \<Rightarrow> sx_raise GeStopIteration | Some n \<Rightarrow> f n)"
    by (rule ext) (auto simp: find_node_run_def sx_simps gs_reads split: option.splits)
  moreover have "follows move Rs (set ns \<union> Ns) H (f n)" if "list_find P ns = Some n" for P ns n
    using list_find_SomeD [OF that] by (intro follows_weaken [OF assms [of n]]) auto
  ultimately show ?thesis by (simp add: follows_list_nodes follows_cases(3) follows_pure)
qed

lemma follows_reset_occurrence:
  "n \<in> Ns \<Longrightarrow> repeatable (nr_status n) \<Longrightarrow> st \<in> {NS_PENDING, NS_READY} \<Longrightarrow>
   follows move Rs Ns H (reset_loop_occurrence now st n)"
  unfolding reset_loop_occurrence_def
  by (intro follows_save_node) (auto intro!: moves repeat_move simp: same_node_def)

lemma follows_ready_node: "follows move Rs Ns H (ready_node_by_spec_id now i b k)"
  unfolding ready_node_by_spec_id_def
  by (intro follows_find_node rules follows_bind follows_save_node follows_reset_occurrence)
    (auto intro!: dependency simp: same_node_def)

lemma follows_unlock: "follows move Rs Ns H (unlock_loop_body now i l)"
proof -
  have target: "follows move Rs Ns {} (unlock_target now i def l bs k)" for Rs Ns def bs k
    unfolding unlock_target_def
    by (intro follows_find_node rules follows_bind [OF follows_ready_node] follows_bind follows_save_node)
      (auto intro!: moves input_move simp: same_node_def)
  have reset: "follows move Rs (set ns \<union> Ns) {} (reset_body_node now (by_spec_of ns) k)" for Rs Ns ns k
    unfolding reset_body_node_def
    by (intro rules follows_bind follows_reset_occurrence) (auto dest: by_spec_lookup)
  show ?thesis unfolding unlock_loop_body_def
    by (intro rules follows_bind follows_each target) (auto intro: reset)
qed

subsection \<open>Operations\<close>

lemma follows_put_definition: "follows move Rs Ns H (put_definition def)"
  by (auto simp: follows_def put_definition_def sx_simps Let_def lifecycle_def snapshot_def store_wf_def
      split: option.splits)

lemma follows_repo_create:
  assumes "new_run r" and "\<And>n. n \<in> set ns \<Longrightarrow> new_node n"
  shows "follows move Rs Ns H (repo_create_run r ns)"
  unfolding follows_def
proof (intro allI impI)
  fix s assume "snapshot Rs Ns H s"
  then have wf: "store_wf s" by (simp add: snapshot_def)
  let ?nodes = "fold (\<lambda>n. AList.update (nr_id n) n) ns (gs_nodes s)"
  show "lifecycle move s (snd (repo_create_run r ns s))"
  proof (cases "map_of (gs_runs s) (gr_id r) = None \<and> \<not> list_ex (\<lambda>n. map_of (gs_nodes s) (nr_id n) \<noteq> None) ns")
    case True
    have node: "descends move new_node (map_of (gs_nodes s) k) (map_of ?nodes k)" for k
    proof (cases "map_of (gs_nodes s) k")
      case (Some c)
      with map_of_fresh_updates [of "gs_nodes s" nr_id ns k c] True
      have "map_of ?nodes k = Some c" by blast
      with Some show ?thesis by simp
    next
      case None
      have "map_of (fold (\<lambda>n. AList.update (nr_id n) n) xs d) k = Some c \<Longrightarrow>
          c \<in> set xs \<or> map_of d k = Some c" for xs c d
      proof (induction xs arbitrary: d)
        case (Cons a xs)
        from Cons.IH [of "AList.update (nr_id a) a d"] Cons.prems show ?case
          by (auto simp: map_of_update split: if_splits)
      qed simp
      with None assms(2) show ?thesis by (force simp: descends_def split: option.splits)
    qed
    have run: "descends run_step new_run (map_of (gs_runs s) k)
        (map_of (AList.update (gr_id r) r (gs_runs s)) k)" for k
      using True assms(1) by (auto simp: map_of_update descends_born)
    from True wf node run show ?thesis
      by (simp add: repo_create_run_def sx_simps lifecycle_def store_wf_keyed keyed_update keyed_fold_update)
  next
    case False
    then show ?thesis using wf by (auto simp: repo_create_run_def sx_simps lifecycle_refl)
  qed
qed

lemma follows_bind_child:
  "follows move Rs Ns H (bind_child now def inp ws snap par pn it)"
  unfolding bind_child_def by (intro rules)

lemma follows_create_run: "follows move Rs Ns H (create_run parse now i ids def inp ws snap par pn it)"
  unfolding create_run_def
  by (intro rules follows_bind [OF follows_put_definition] follows_bind [OF follows_repo_create]
      follows_bind [OF follows_cases(3)] follows_bind_child)
    (auto simp: new_run_def new_node_def initial_node_def Let_def split: if_splits)

lemma follows_start_run: "follows move Rs Ns H (start_run now i)"
  unfolding start_run_def
  by (intro rules follows_save_run) (auto simp: run_step_def same_run_def terminal_run_def)

lemma follows_complete_attempt: "follows move Rs Ns H (complete_attempt parse now a ok out f e)"
proof -
  note step = follows_bind_quiet [OF follows_finish_node quiet_saves(2)]
  show ?thesis
    unfolding complete_attempt_def
    by (intro rules step follows_bind [OF follows_mark_manual] follows_bind [OF follows_settle_run]
        follows_bind [OF follows_close_run] follows_finish_node)
      (simp_all add: run_step_def same_run_def moves attempt_move same_node_def release_node_def)
qed

lemma follows_mark_started: "follows move Rs Ns H (mark_side_effect_started a)"
  unfolding mark_side_effect_started_def
  by (intro rules follows_bind follows_update_attempt)

lemma follows_select: "follows move Rs Ns H (select_condition parse now n p out)"
  unfolding select_condition_def
  by (intro rules follows_bind_quiet [OF follows_save_node quiet_saves(1)] follows_bind [OF follows_settle_run])
    (simp_all add: moves condition_move same_node_def)

lemma follows_enter: "follows move Rs Ns H (enter_boundary now tok n b)"
  unfolding enter_boundary_def
  by (intro rules follows_bind [OF follows_save_node] follows_bind [OF follows_refresh])
    (cases b; simp add: moves enter_move same_node_def waiting_node_def)+

lemma open_current: "gr_id r = i \<Longrightarrow> \<not> terminal_run (gr_status r) \<Longrightarrow> current_open i (insert r H)"
  by (auto simp: current_open_def)

lemma follows_resolve: "follows move Rs Ns H (resolve_boundary parse now n res)"
  unfolding resolve_boundary_def
  by (intro rules follows_bind_quiet [OF follows_save_node quiet_saves(1)]
      follows_bind [OF follows_settle_run] follows_bind [OF follows_close_run])
    (simp_all add: moves leave_move same_node_def open_current run_step_def same_run_def)

lemma follows_timeout: "follows move Rs Ns H (timeout_boundary parse now n tok)"
  unfolding timeout_boundary_def
  by (intro rules follows_bind_quiet [OF follows_save_node quiet_saves(1)] follows_bind [OF follows_settle_run])
    (simp_all add: moves leave_move same_node_def open_current)

lemma follows_advance: "follows move Rs Ns H (advance_loop parse now n c sig out u)"
  unfolding advance_loop_def advance_active_def
  by (intro rules follows_bind_quiet [OF follows_save_node quiet_saves(1)] follows_bind [OF follows_settle_run]
      follows_bind [OF follows_unlock])
    (simp_all add: moves loop_move same_node_def)

lemma follows_stops:
  "follows move Rs Ns H (cancel_run now i)" "follows move Rs Ns H (fail_run now i)"
  unfolding atomize_conj cancel_run_def fail_run_def
  by (intro conjI rules follows_close_run) (simp_all add: open_current run_step_def same_run_def)

lemma follows_interrupt: "follows move Rs Ns H (interrupt_run now i)"
  unfolding interrupt_run_def
  by (intro rules follows_bind_quiet [OF follows_reset_interrupted quiet_passes(2)] follows_save_run)
    (auto simp: run_step_def same_run_def)

lemma follows_recover: "follows move Rs Ns H (recover parse now i)"
  unfolding recover_def
  by (intro rules follows_bind_quiet [OF follows_reset_interrupted quiet_passes(2)]
      follows_bind_quiet [OF follows_reset_derived quiet_passes(3)]
      follows_bind_quiet [OF follows_propagate quiet_propagate] follows_save_run
      follows_bind [OF follows_finish_if_terminal] follows_refresh)
    (auto simp: run_step_def same_run_def open_current)

lemma account_step:
  assumes "check_usage t c k = Inr u" and "g = (\<lambda>q. q\<lparr>gr_output_tokens := gr_output_tokens r + py_int_value t,
      gr_cost_usd := gr_cost_usd r + number_value c, gr_tool_calls := gr_tool_calls r + py_int_value k\<rparr>)"
  shows "run_step r ((g r)\<lparr>gr_revision := gr_revision r + 1\<rparr>)"
    and "run_step r ((g r)\<lparr>gr_revision := gr_revision r + 1, gr_updated_at := now\<rparr>)"
  using check_usage_nonneg [OF assms(1)] assms(2) by (simp_all add: run_step_def same_run_def)

lemma follows_record_budget: "follows move Rs Ns H (record_budget now i t c k late)"
  unfolding record_budget_def
proof (intro rules, goal_cases)
  case (1 u r active stopped tokens cost calls account)
  then show ?case by (intro follows_save_run account_step(2) [of t c k u]) simp_all
next
  case (2 u r active stopped tokens cost calls account)
  have step: "run_step r ((account r)\<lparr>gr_revision := gr_revision r + 1\<rparr>)"
    using 2 by (intro account_step(1) [of t c k u]) simp_all
  show ?case
  proof (intro follows_close_run open_current)
    show "gr_id r = i" by (fact 2)
    show "\<not> terminal_run (gr_status r)" using 2 by (auto simp: terminal_run_def)
    show "run_step q ((account q)\<lparr>gr_revision := gr_revision q + 1\<rparr>)" if "q \<in> insert r H" "gr_id q = i" for q
      using that step 2 by auto
  qed
next
  case (3 u r active stopped tokens cost calls account)
  then show ?case by (intro follows_save_run account_step(2) [of t c k u]) simp_all
qed

end

subsection \<open>The whole runtime\<close>

lemma follows_void: "node_steps move \<Longrightarrow> follows move Rs Ns H m \<Longrightarrow> follows move Rs Ns H (sx_void m)"
  unfolding sx_void_def by (intro node_steps.follows_bind node_steps.follows_pure) simp_all

lemma start_attempt_follows: "follows node_step Rs Ns H (start_attempt now a n w l g k)"
  unfolding start_attempt_def
  by (intro stepping.rules stepping.follows_bind [OF stepping.follows_start])
    (simp_all add: node_step_def same_node_def)

fun starts_attempt :: "graph_op \<Rightarrow> bool" where
  "starts_attempt (OpStartAttempt a n w l g k) = True"
| "starts_attempt _ = False"

context all_steps
begin

lemma graph_apply_moves:
  "\<not> starts_attempt c \<Longrightarrow> follows move Rs Ns H (graph_apply parse now c)"
  by (cases c) (simp_all add: follows_void [OF node_steps_axioms] follows_create_run follows_start_run
      follows_complete_attempt follows_mark_started follows_select follows_enter follows_resolve
      follows_timeout follows_advance follows_record_budget follows_stops follows_interrupt follows_recover)

end

lemma graph_apply_steps: "follows node_step Rs Ns H (graph_apply parse now c)"
proof (cases "starts_attempt c")
  case True
  then show ?thesis
    by (cases c) (simp_all add: follows_void [OF stepping.node_steps_axioms] start_attempt_follows)
next
  case False
  then show ?thesis by (rule stepping.graph_apply_moves)
qed

lemma graph_execute_lifecycle: "store_wf s \<Longrightarrow> lifecycle node_step s (graph_execute parse cs s)"
proof (induction parse cs s rule: graph_execute.induct)
  case (1 parse s)
  then show ?case by (simp add: lifecycle_refl)
next
  case (2 parse now c cs s)
  have "lifecycle node_step s (snd (graph_apply parse now c s))"
    using graph_apply_steps [of "{}" "{}" "{}"] 2(2) by (simp add: follows_def snapshot_def)
  with 2(1) show ?case by (auto intro: lifecycle_trans dest: lifecycle_wf)
qed

end
