(* ===== verification/Graph_Fixpoint.thy ===== *)
theory Graph_Fixpoint
  imports Graph_Steps
begin

section \<open>Workflow graphs: propagation ends in a fixpoint\<close>

text \<open>
  A pass that changed anything has settled a pending node of the run, and no pass makes one pending
  again; so the loop of \<open>_propagate_dependencies\<close> returns within its fuel, and what it leaves is stable.
\<close>

definition pending_of :: "string \<Rightarrow> graph_store \<Rightarrow> string set" where
  "pending_of i s =
     {k. \<exists>n. map_of (gs_nodes s) k = Some n \<and> nr_run n = i \<and> nr_status n = NS_PENDING}"

lemma finite_pending: "finite (pending_of i s)"
proof (rule finite_subset)
  show "pending_of i s \<subseteq> dom (map_of (gs_nodes s))" by (auto simp: pending_of_def)
qed (rule finite_dom_map_of)

lemma pending_bound:
  assumes "store_wf s"
  shows "card (pending_of i s) \<le> length (filter (\<lambda>n. nr_run n = i) (map snd (gs_nodes s)))"
proof -
  let ?ns = "filter (\<lambda>n. nr_run n = i) (map snd (gs_nodes s))"
  have "pending_of i s \<subseteq> nr_id ` set ?ns"
  proof
    fix k assume "k \<in> pending_of i s"
    then obtain n where n: "map_of (gs_nodes s) k = Some n" "nr_run n = i" by (auto simp: pending_of_def)
    then have "nr_id n = k" using wf_lookup(2) [OF assms] by blast
    with n show "k \<in> nr_id ` set ?ns" by (force dest!: map_of_SomeD)
  qed
  then have "card (pending_of i s) \<le> card (nr_id ` set ?ns)" by (intro card_mono) simp_all
  also have "\<dots> \<le> card (set ?ns)" by (rule card_image_le) simp
  also have "\<dots> \<le> length ?ns" by (rule card_length)
  finally show ?thesis .
qed

lemma dependency_steps_pending:
  "dependency_step\<^sup>*\<^sup>* n m \<Longrightarrow> nr_status m = NS_PENDING \<Longrightarrow> m = n"
  by (induction rule: rtranclp_induct) (auto simp: dependency_step_def)

lemma dependency_steps_run: "dependency_step\<^sup>*\<^sup>* n m \<Longrightarrow> nr_run m = nr_run n"
  by (induction rule: rtranclp_induct) (auto simp: dependency_step_def same_node_def)

text \<open>Propagation creates no node run: the keys stay.\<close>

definition same_keys :: "graph_store \<Rightarrow> graph_store \<Rightarrow> bool" where
  "same_keys s t \<longleftrightarrow> map fst (gs_nodes t) = map fst (gs_nodes s)"

interpretation keys: kept_relation same_keys
  by unfold_locales (simp_all add: same_keys_def)

lemma keys_save_node: "keeps same_keys (save_node now f n)"
  unfolding save_node_def Let_def
  by (intro keys.keeps_bind keys.keeps_pure)
    (auto simp: keeps_def same_keys_def update_node_run_def gs_lookup_apply sx_simps fst_update
      split: option.splits dest!: map_of_SomeD intro: rev_image_eqI)

lemma keys_propagate_node: "keeps same_keys (propagate_node parse now excl def inp bs entry)"
  unfolding propagate_node_def by (intro keys.keeps_rules keys_save_node)

lemma keys_pass: "keeps same_keys (propagate_pass parse now excl def inp i)"
  unfolding propagate_pass_def
  by (intro keys.keeps_rules keys_propagate_node) (simp add: keys.kept_refl)

lemma pending_shrinks:
  assumes "lifecycle dependency_step s t" and "same_keys s t"
  shows "pending_of i t \<subseteq> pending_of i s"
proof
  fix k assume "k \<in> pending_of i t"
  then obtain m where m: "map_of (gs_nodes t) k = Some m" "nr_run m = i" "nr_status m = NS_PENDING"
    by (auto simp: pending_of_def)
  have "k \<in> fst ` set (gs_nodes t)" using m(1) by (force dest: map_of_SomeD)
  then have "k \<in> fst ` set (gs_nodes s)" using assms(2) by (metis same_keys_def set_map)
  then obtain n where n: "map_of (gs_nodes s) k = Some n" by (cases "map_of (gs_nodes s) k") (auto simp: map_of_eq_None_iff)
  have "descends dependency_step new_node (map_of (gs_nodes s) k) (map_of (gs_nodes t) k)"
    using assms(1) by (simp add: lifecycle_def)
  with n m(1) have "dependency_step\<^sup>*\<^sup>* n m" by (simp add: descends_def)
  with m have "m = n" using dependency_steps_pending by blast
  with n m show "k \<in> pending_of i s" by (simp add: pending_of_def)
qed

subsection \<open>A pass that changes something\<close>

lemma propagate_node_True:
  assumes "propagate_node parse now excl def inp bs e s = (Inr True, t)"
  shows "nr_status (snd e) = NS_PENDING"
    and "\<exists>m. map_of (gs_nodes t) (nr_id (snd e)) = Some m \<and> nr_status m \<noteq> NS_PENDING"
proof -
  from assms obtain st refs where d: "decide_node parse excl def inp bs (fst e) (snd e) = Inr (Some (st, refs))"
    and w: "sx_bind (save_node now (\<lambda>n. n\<lparr>nr_status := st, nr_inputs := refs\<rparr>) (snd e)) (\<lambda>_. sx_return True) s
        = (Inr True, t)"
    unfolding propagate_node_def by (auto simp: sx_bind_def sx_simps split: sum.splits option.splits)
  show "nr_status (snd e) = NS_PENDING" using decide_node_status(1) [OF d] .
  from w show "\<exists>m. map_of (gs_nodes t) (nr_id (snd e)) = Some m \<and> nr_status m \<noteq> NS_PENDING"
    using decide_node_status(2) [OF d]
    by (auto simp: save_node_def Let_def update_node_run_def sx_simps gs_lookup_apply map_of_update
        split: option.splits if_splits)
qed

lemma dependency_steps_settled:
  assumes "lifecycle dependency_step s t" and "map_of (gs_nodes s) k = Some m" and "nr_status m \<noteq> NS_PENDING"
  shows "\<exists>m'. map_of (gs_nodes t) k = Some m' \<and> nr_status m' \<noteq> NS_PENDING"
proof -
  have "descends dependency_step new_node (map_of (gs_nodes s) k) (map_of (gs_nodes t) k)"
    using assms(1) by (simp add: lifecycle_def)
  with assms(2) obtain m' where "map_of (gs_nodes t) k = Some m'" "dependency_step\<^sup>*\<^sup>* m m'"
    by (auto simp: descends_def)
  with assms(3) show ?thesis using dependency_steps_pending by blast
qed

lemma each_True:
  assumes "sx_each (propagate_node parse now excl def inp bs) xs s = (Inr ys, t)" and "True \<in> set ys"
    and "snapshot {} N {} s" and "\<And>e. e \<in> set xs \<Longrightarrow> snd e \<in> N"
  shows "\<exists>e \<in> set xs. nr_status (snd e) = NS_PENDING
    \<and> (\<exists>m. map_of (gs_nodes t) (nr_id (snd e)) = Some m \<and> nr_status m \<noteq> NS_PENDING)"
  using assms
proof (induction xs arbitrary: s ys)
  case (Cons x xs)
  from Cons.prems(1) obtain y zs s1 where x: "propagate_node parse now excl def inp bs x s = (Inr y, s1)"
    and rest: "sx_each (propagate_node parse now excl def inp bs) xs s1 = (Inr zs, t)" and ys: "ys = y # zs"
    by (rule sx_each_ConsE)
  have "follows dependency_step {} N {} (propagate_node parse now excl def inp bs x)"
    by (rule propagating.follows_propagate_node) (simp add: Cons.prems(4))
  with Cons.prems(3) x have "lifecycle dependency_step s s1" by (force simp: follows_def)
  with Cons.prems(3) have snap: "snapshot {} N {} s1"
    by (rule snapshot_after(1)) (rule propagating.rising_move)
  have "follows dependency_step {} N {} (sx_each (propagate_node parse now excl def inp bs) xs)"
    by (intro propagating.follows_each propagating.follows_propagate_node) (simp add: Cons.prems(4))
  with snap rest have life: "lifecycle dependency_step s1 t" by (force simp: follows_def)
  show ?case
  proof (cases y)
    case True
    with x propagate_node_True [of parse now excl def inp bs x s s1] dependency_steps_settled [OF life]
    show ?thesis by auto
  next
    case False
    with Cons.prems(2) ys have "True \<in> set zs" by simp
    with Cons.IH [OF rest _ snap] Cons.prems(4) show ?thesis by auto
  qed
qed (simp add: sx_return_Inr)

lemma pass_decreases:
  assumes "store_wf s" and "propagate_pass parse now excl def inp i s = (Inr True, t)"
  shows "pending_of i t \<subset> pending_of i s"
proof -
  let ?ns = "filter (\<lambda>n. nr_run n = i) (map snd (gs_nodes s))"
  let ?bs = "by_spec_of ?ns"
  from assms(2) obtain ys where each: "sx_each (propagate_node parse now excl def inp ?bs) ?bs s = (Inr ys, t)"
    and "True \<in> set ys"
    by (auto simp: propagate_pass_def Let_def sx_bind_def sx_simps gs_reads list_ex_iff
        split: prod.splits sum.splits)
  have current: "map_of (gs_nodes s) (nr_id n) = Some n" if "n \<in> set ?ns" for n
    using that wf_node_in [OF assms(1)] by auto
  then have snap: "snapshot {} (set ?ns) {} s" using assms(1) by (auto simp: snapshot_def seen_def)
  have inside: "snd e \<in> set ?ns" if "e \<in> set ?bs" for e
    using that by_spec_in [of "fst e" "snd e" ?ns] by simp
  from each_True [OF each \<open>True \<in> set ys\<close> snap inside]
  obtain e where e: "e \<in> set ?bs" "nr_status (snd e) = NS_PENDING"
    "\<exists>m. map_of (gs_nodes t) (nr_id (snd e)) = Some m \<and> nr_status m \<noteq> NS_PENDING" by blast
  have n: "snd e \<in> set ?ns" by (rule inside [OF e(1)])
  then have "nr_id (snd e) \<in> pending_of i s" using current e(2) by (auto simp: pending_of_def)
  moreover have "nr_id (snd e) \<notin> pending_of i t" using e(3) by (auto simp: pending_of_def)
  moreover have "lifecycle dependency_step s t"
  proof -
    have "follows dependency_step {} {} {} (propagate_pass parse now excl def inp i)"
      by (rule propagating.follows_pass)
    then show ?thesis using assms by (force simp: follows_def snapshot_def)
  qed
  moreover have "same_keys s t" using keepsD [OF keys_pass assms(2)] .
  ultimately show ?thesis using pending_shrinks [of s t i] by blast
qed

lemma pass_wf:
  assumes "store_wf s" and "propagate_pass parse now excl def inp i s = (r, t)"
  shows "store_wf t"
proof -
  have "follows dependency_step {} {} {} (propagate_pass parse now excl def inp i)"
    by (rule propagating.follows_pass)
  then show ?thesis using assms by (force simp: follows_def snapshot_def dest: lifecycle_wf)
qed

subsection \<open>No other source of \<open>GeNoReturn\<close>\<close>

lemma edge_condition_error: "edge_condition parse c vals \<noteq> Inl GeNoReturn"
  by (auto simp: edge_condition_def split: option.splits sum.splits)

lemma edge_state_error: "edge_state parse bs def inp e \<noteq> Inl GeNoReturn"
  by (auto simp: edge_state_def succeeded_edge_def skipped_edge_def active_if_def find_spec_def Let_def
      edge_condition_error res_bind_Inl_iff split: option.splits)

lemma edge_states_error: "edge_states parse bs def inp es \<noteq> Inl GeNoReturn"
  by (induction es) (auto simp: res_bind_Inl_iff edge_state_error)

lemma input_refs_error: "input_refs bs es refs \<noteq> Inl GeNoReturn"
  by (induction es arbitrary: refs) (auto split: option.splits)

lemma decide_node_error: "decide_node parse excl def inp bs i n \<noteq> Inl GeNoReturn"
  by (auto simp: decide_node_def Let_def res_bind_Inl_iff edge_states_error input_refs_error find_spec_def
      simp del: edge_states.simps split: list.splits dependency.splits option.splits)

definition never :: "graph_error \<Rightarrow> 'a gx \<Rightarrow> bool" where
  "never e m \<longleftrightarrow> (\<forall>s t. m s \<noteq> (Inl e, t))"

lemma never_bind: "never e m \<Longrightarrow> (\<And>x. never e (f x)) \<Longrightarrow> never e (sx_bind m f)"
  by (auto simp: never_def elim!: sx_bind_InlE)

lemma never_base: "never e (sx_return x)" "r \<noteq> Inl e \<Longrightarrow> never e (sx_lift r)" "never e (list_node_runs i)"
  by (simp_all add: never_def sx_simps gs_reads)

lemma never_each: "(\<And>x. never e (f x)) \<Longrightarrow> never e (sx_each f xs)"
  by (induction xs) (auto intro: never_bind never_base)

lemma never_save_node: "never GeNoReturn (save_node now f n)"
  unfolding save_node_def Let_def
  by (intro never_bind never_base)
    (auto simp: never_def update_node_run_def sx_simps gs_lookup_apply split: option.splits)

lemma never_propagate_node: "never GeNoReturn (propagate_node parse now excl def inp bs e)"
  unfolding propagate_node_def
  by (intro never_bind never_base decide_node_error)
    (auto intro: never_bind never_base never_save_node split: option.splits)

lemma never_pass: "never GeNoReturn (propagate_pass parse now excl def inp i)"
  unfolding propagate_pass_def Let_def by (intro never_bind never_base never_each never_propagate_node)

subsection \<open>The loop\<close>

lemma loop_returns:
  "store_wf s \<Longrightarrow> card (pending_of i s) < fuel \<Longrightarrow>
   fst (propagate_loop fuel parse now excl def inp i s) \<noteq> Inl GeNoReturn"
proof (induction fuel arbitrary: s)
  case (Suc fuel)
  obtain r t where p: "propagate_pass parse now excl def inp i s = (r, t)" by fastforce
  show ?case
  proof (cases "r = Inr True")
    case True
    with p pass_decreases [OF Suc.prems(1)] have "pending_of i t \<subset> pending_of i s" by blast
    then have "card (pending_of i t) < card (pending_of i s)" by (rule psubset_card_mono [OF finite_pending])
    with Suc.prems(2) have "card (pending_of i t) < fuel" by simp
    from Suc.IH [OF pass_wf [OF Suc.prems(1) p] this] p True show ?thesis by (simp add: sx_bind_def)
  next
    case False
    with p never_pass [of parse now excl def inp i] show ?thesis
      by (auto simp: never_def sx_bind_def sx_simps split: sum.splits)
  qed
qed simp

lemma propagate_returns:
  assumes "store_wf s"
  shows "fst (propagate_dependencies parse now excl i s) \<noteq> Inl GeNoReturn"
  using loop_returns [OF assms] pending_bound [OF assms, of i]
  by (auto simp: propagate_dependencies_def sx_bind_def gs_reads less_Suc_eq_le simp del: propagate_loop.simps
      split: option.splits)

subsection \<open>Stability\<close>

definition run_nodes :: "string \<Rightarrow> graph_store \<Rightarrow> node_run list" where
  "run_nodes i s = filter (\<lambda>n. nr_run n = i) (map snd (gs_nodes s))"

definition stable ::
  "(string \<Rightarrow> expr option) \<Rightarrow> bool \<Rightarrow> workflow_definition \<Rightarrow> py_env \<Rightarrow> node_run list \<Rightarrow> bool" where
  \<comment> \<open>no node run has a decision outstanding\<close>
  "stable parse excl def inp ns \<longleftrightarrow>
     list_all (\<lambda>(k, n). decide_node parse excl def inp (by_spec_of ns) k n = Inr None) (by_spec_of ns)"

lemma propagate_node_False:
  assumes "propagate_node parse now excl def inp bs e s = (Inr False, t)"
  shows "decide_node parse excl def inp bs (fst e) (snd e) = Inr None" "t = s"
  using assms
  by (auto simp: propagate_node_def sx_bind_def sx_simps split: sum.splits option.splits prod.splits)

lemma each_False:
  assumes "sx_each (propagate_node parse now excl def inp bs) xs s = (Inr ys, t)" and "\<not> list_ex id ys"
  shows "t = s \<and> list_all (\<lambda>(k, n). decide_node parse excl def inp bs k n = Inr None) xs"
  using assms
proof (induction xs arbitrary: s ys)
  case (Cons x xs)
  from Cons.prems(1) obtain y zs s1 where x: "propagate_node parse now excl def inp bs x s = (Inr y, s1)"
    and rest: "sx_each (propagate_node parse now excl def inp bs) xs s1 = (Inr zs, t)" and ys: "ys = y # zs"
    by (rule sx_each_ConsE)
  from Cons.prems(2) ys have "\<not> y" "\<not> list_ex id zs" by (simp_all add: id_def)
  with x propagate_node_False [of parse now excl def inp bs x s s1] Cons.IH [OF rest _]
  show ?case by (cases x) (simp add: id_def)
qed (simp add: sx_return_Inr)

lemma pass_False:
  assumes "propagate_pass parse now excl def inp i s = (Inr False, t)"
  shows "t = s \<and> stable parse excl def inp (run_nodes i s)"
  using assms
  by (auto simp: propagate_pass_def Let_def sx_bind_def sx_simps gs_reads stable_def run_nodes_def
      split: prod.splits sum.splits dest!: each_False)

lemma loop_stable:
  "propagate_loop fuel parse now excl def inp i s = (Inr u, t) \<Longrightarrow> stable parse excl def inp (run_nodes i t)"
proof (induction fuel arbitrary: s)
  case (Suc fuel)
  from Suc.prems obtain b s1 where p: "propagate_pass parse now excl def inp i s = (Inr b, s1)"
    and rest: "(if b then propagate_loop fuel parse now excl def inp i else sx_return ()) s1 = (Inr u, t)"
    unfolding propagate_loop.simps by (rule sx_bind_InrE)
  show ?case
  proof (cases b)
    case True
    with rest Suc.IH show ?thesis by simp
  next
    case False
    with p pass_False [of parse now excl def inp i s s1] rest show ?thesis by (simp add: sx_return_Inr)
  qed
qed (simp add: sx_simps)

lemma propagate_stable:
  assumes "propagate_dependencies parse now excl i s = (Inr u, t)"
  obtains run def where "map_of (gs_runs s) i = Some run" "map_of (gs_definitions s) (gr_definition run) = Some def"
    "stable parse excl def (gr_input run) (run_nodes i t)"
  using assms loop_stable unfolding propagate_dependencies_def
  by (auto elim!: sx_bind_InrE simp: gs_reads_Inr simp del: propagate_loop.simps)

subsection \<open>Progress\<close>

lemma edge_unresolved:
  assumes "edge_state parse bs def inp e = Inr EdgeUnresolved"
  obtains src where "map_of bs (ed_source e) = Some src" "nonterminal_node (nr_status src)"
proof -
  from assms obtain src where src: "map_of bs (ed_source e) = Some src" by (auto simp: edge_state_def split: option.splits)
  have "succeeded_edge parse e src spec vals \<noteq> Inr EdgeUnresolved"
    "skipped_edge parse e src spec vals \<noteq> Inr EdgeUnresolved" for spec vals
    by (auto simp: succeeded_edge_def skipped_edge_def active_if_def Let_def res_bind_Inr_iff split: if_splits)
  with assms src have "nr_status src \<notin> {NS_SUCCEEDED, NS_SKIPPED, NS_FAILED, NS_CANCELLED, NS_MANUAL_RECONCILE}"
    by (auto simp: edge_state_def Let_def res_bind_Inr_iff split: if_splits)
  then have "nonterminal_node (nr_status src)" by (cases "nr_status src") (simp_all add: nonterminal_node_def)
  with src that show thesis by blast
qed

lemma edge_states_in:
  "edge_states parse bs def inp es = Inr sts \<Longrightarrow> st \<in> set sts \<Longrightarrow> \<exists>e \<in> set es. edge_state parse bs def inp e = Inr st"
  by (induction es arbitrary: sts) (auto simp: res_bind_Inr_iff)

lemma waits_unresolved: "dependency_decision spec mode states = DepWait \<Longrightarrow> EdgeUnresolved \<in> set states"
  by (auto simp: dependency_decision_def Let_def split: if_splits)

lemma stable_pending:
  assumes "stable parse excl def inp ns" and "(k, n) \<in> set (by_spec_of ns)" and "nr_status n = NS_PENDING"
    and "dependency_edges excl def k \<noteq> []"
  obtains e src where "e \<in> set (dependency_edges excl def k)"
    "map_of (by_spec_of ns) (ed_source e) = Some src" "nonterminal_node (nr_status src)"
proof -
  let ?bs = "by_spec_of ns"
  have decide: "decide_node parse excl def inp ?bs k n = Inr None"
    using assms(1,2) by (auto simp: stable_def list_all_iff)
  obtain f es where edges: "dependency_edges excl def k = f # es" using assms(4) by (cases "dependency_edges excl def k") auto
  from decide obtain states spec where sts: "edge_states parse ?bs def inp (f # es) = Inr states"
    and d: "(case dependency_decision spec (ed_join f) states of
       DepWait \<Rightarrow> Inr None
     | DepSkip \<Rightarrow> Inr (Some (NS_SKIPPED, []))
     | DepReady \<Rightarrow> res_bind (input_refs ?bs (active_edges (f # es) states) []) (\<lambda>refs.
         Inr (Some (NS_READY, refs)))) = Inr None"
    unfolding decide_node_def Let_def edges using assms(3)
    by (auto simp: res_bind_Inr_iff simp del: edge_states.simps)
  from d have wait: "dependency_decision spec (ed_join f) states = DepWait"
    by (cases "dependency_decision spec (ed_join f) states") (auto simp: res_bind_Inr_iff)
  from edge_states_in [OF sts waits_unresolved [OF wait]]
  obtain e where e: "e \<in> set (f # es)" "edge_state parse ?bs def inp e = Inr EdgeUnresolved" by blast
  from edge_unresolved [OF e(2)] obtain src where "map_of ?bs (ed_source e) = Some src" "nonterminal_node (nr_status src)" .
  with e(1) that [of e src] edges show thesis by simp
qed

definition can_act :: "workflow_definition \<Rightarrow> string \<Rightarrow> node_run \<Rightarrow> bool" where
  \<comment> \<open>active or waiting, or pending although nothing precedes it\<close>
  "can_act def k n \<longleftrightarrow> nonterminal_node (nr_status n)
     \<and> (nr_status n = NS_PENDING \<longrightarrow> dependency_edges True def k = [])"

lemma stable_progress:
  assumes stable: "stable parse True def inp ns"
    and acyclic: "acyclic (edge_relation (forward_edges (wf_edges def)))"
    and "map_of (by_spec_of ns) k = Some n" and "nonterminal_node (nr_status n)"
  shows "\<exists>j m. map_of (by_spec_of ns) j = Some m \<and> (j, k) \<in> (edge_relation (forward_edges (wf_edges def)))\<^sup>* \<and> can_act def j m"
proof -
  let ?E = "edge_relation (forward_edges (wf_edges def))"
  have "finite ?E" by (simp add: edge_relation_def)
  with acyclic have wf: "wf ?E" by (simp add: finite_acyclic_wf)
  have "(k, n) \<in> set (by_spec_of ns) \<Longrightarrow> nonterminal_node (nr_status n) \<Longrightarrow> \<not> can_act def k n \<Longrightarrow>
      \<exists>j m. map_of (by_spec_of ns) j = Some m \<and> (j, k) \<in> ?E\<^sup>* \<and> can_act def j m" for k n
  proof (induction k arbitrary: n rule: wf_induct_rule [OF wf])
    case (1 k)
    then have "nr_status n = NS_PENDING" and deps: "dependency_edges True def k \<noteq> []"
      by (auto simp: can_act_def)
    from stable_pending [OF stable "1.prems"(1) this]
    obtain e src where e: "e \<in> set (dependency_edges True def k)"
      and src: "map_of (by_spec_of ns) (ed_source e) = Some src" "nonterminal_node (nr_status src)" .
    have edge: "(ed_source e, k) \<in> ?E"
      using e by (auto simp: dependency_edges_def edge_relation_def forward_edges_def)
    show ?case
    proof (cases "can_act def (ed_source e) src")
      case True
      with src(1) edge show ?thesis by blast
    next
      case False
      from "1.IH" [OF edge map_of_SomeD [OF src(1)] src(2) False] edge show ?thesis
        by (meson rtrancl.rtrancl_into_rtrancl)
    qed
  qed
  from this [OF map_of_SomeD [OF assms(3)] assms(4)] assms(3) show ?thesis by blast
qed

end
