(* ===== verification/Graph_Evolution.thy ===== *)
theory Graph_Evolution
  imports Graph_Loops
begin

section \<open>Workflow graphs: what every operation preserves\<close>

text \<open>
  Whatever the runtime is asked to do, with whatever outcome, a published definition stays, records are
  only replaced by later revisions and finished attempts stay as they are: each operation is built from
  repository calls that have this property (\<open>evolves\<close>).
\<close>

lemma evo_list:
  "(xs = [] \<Longrightarrow> keeps evolves m) \<Longrightarrow> (\<And>y ys. xs = y # ys \<Longrightarrow> keeps evolves (f y ys)) \<Longrightarrow>
   keeps evolves (case xs of [] \<Rightarrow> m | y # ys \<Rightarrow> f y ys)"
  by (cases xs) simp_all

lemma evo_reads:
  "keeps evolves (get_definition key)" "keeps evolves (get_run i)" "keeps evolves (get_node_run i)"
  "keeps evolves (get_attempt i)" "keeps evolves (list_node_runs i)" "keeps evolves (list_attempts i)"
  by (simp_all add: evo.kept_refl)

lemmas evo_rules = evo.keeps_rules evo_list evo_reads repo_evolves create_evolves put_definition_evolves

lemma evo_saves: "keeps evolves (save_node now f n)" "keeps evolves (save_run now g r)"
  "keeps evolves (finish_node now f n a)" "keeps evolves (definition_and_node n)"
  unfolding atomize_conj save_node_def save_run_def finish_node_def definition_and_node_def
  by (intro conjI evo_rules)

lemma evo_propagate_loop: "keeps evolves (propagate_loop fuel parse now excl def inp i)"
  by (induction fuel)
    (auto simp: propagate_pass_def propagate_node_def intro!: evo_rules evo_saves)

lemma evo_settle:
  "keeps evolves (propagate_dependencies parse now excl i)" "keeps evolves (finish_if_terminal now i)"
  "keeps evolves (refresh_run_activity_status now i)"
  unfolding atomize_conj propagate_dependencies_def finish_if_terminal_def refresh_run_activity_status_def
  by (intro conjI evo_rules evo_saves evo_propagate_loop)

lemma evo_settle_run: "keeps evolves (settle_run parse now i)"
  unfolding settle_run_def by (intro evo_rules evo_settle)

lemma evo_stop:
  "keeps evolves (stop_node now st u n)" "keeps evolves (keep_result now a n)"
  unfolding atomize_conj stop_node_def keep_result_def by (intro conjI evo_rules evo_saves)

lemma evo_terminalize: "keeps evolves (terminalize_active_nodes now i st)"
  unfolding terminalize_active_nodes_def terminalize_node_def by (intro evo_rules evo_stop evo_saves)

lemma evo_reset: "keeps evolves (reset_interrupted_nodes now i)"
  unfolding reset_interrupted_nodes_def reset_interrupted_node_def
  by (intro evo_rules evo_stop evo_saves)

lemma evo_close: "keeps evolves (close_run now i st f)"
  unfolding close_run_def by (intro evo_rules evo_terminalize evo_saves)

lemmas evo_steps = evo_rules evo_saves evo_settle evo_settle_run evo_terminalize evo_reset evo_close

lemma evo_derived: "keeps evolves (reset_derived_dependency_states now i)"
  unfolding reset_derived_dependency_states_def reset_derived_node_def by (intro evo_steps)

lemma evo_unlock: "keeps evolves (unlock_loop_body now i l)"
  unfolding unlock_loop_body_def unlock_target_def reset_body_node_def ready_node_by_spec_id_def
    find_node_run_def reset_loop_occurrence_def
  by (intro evo_steps)

lemma evo_require: "keeps evolves (require_running_run i)"
  unfolding require_running_run_def by (intro evo_steps)

lemma evo_mark: "keeps evolves (mark_run_manual_reconcile now i)"
  unfolding mark_run_manual_reconcile_def by (intro evo_steps)

lemmas evo_all = evo_steps evo_derived evo_unlock evo_require evo_mark

lemma evo_create: "keeps evolves (create_run parse now i ids def inp ws snap par pn it)"
  unfolding create_run_def bind_child_def by (intro evo_all)

lemma evo_start: "keeps evolves (start_run now i)" "keeps evolves (start_attempt now a n w l g k)"
  unfolding atomize_conj start_run_def start_attempt_def by (intro conjI evo_all)

lemma evo_complete: "keeps evolves (complete_attempt parse now a ok out f e)"
  unfolding complete_attempt_def by (intro evo_all)

lemma evo_boundaries:
  "keeps evolves (enter_boundary now tok n b)" "keeps evolves (resolve_boundary parse now n r)"
  "keeps evolves (timeout_boundary parse now n tk)" "keeps evolves (select_condition parse now n p out)"
  "keeps evolves (mark_side_effect_started a)"
  unfolding atomize_conj enter_boundary_def resolve_boundary_def timeout_boundary_def
    select_condition_def mark_side_effect_started_def
  by (intro conjI evo_all)

lemma evo_loop: "keeps evolves (advance_loop parse now n c sig out u)"
  unfolding advance_loop_def advance_active_def by (intro evo_all)

lemma evo_runs:
  "keeps evolves (record_budget now i t c k late)" "keeps evolves (cancel_run now i)"
  "keeps evolves (fail_run now i)" "keeps evolves (interrupt_run now i)" "keeps evolves (recover parse now i)"
  unfolding atomize_conj record_budget_def cancel_run_def fail_run_def interrupt_run_def recover_def
  by (intro conjI evo_all)

lemma graph_apply_evolves: "keeps evolves (graph_apply parse now c)"
  by (cases c) (simp_all add: sx_void_def,
    (intro evo.keeps_bind evo.keeps_pure evo_create evo_start evo_complete evo_boundaries evo_loop evo_runs)+)

lemma graph_execute_evolves: "evolves s (graph_execute parse cs s)"
proof (induction parse cs s rule: graph_execute.induct)
  case (1 parse s)
  show ?case by (simp add: evo.kept_refl)
next
  case (2 parse now c cs s)
  have "evolves s (snd (graph_apply parse now c s))"
    using graph_apply_evolves by (auto simp: keeps_def)
  with "2.IH" show ?case by (auto intro: evo.kept_trans)
qed

end
