(* ===== verification/Graph_Safety.thy ===== *)
theory Graph_Safety
  imports Graph_Fixpoint Graph_Evolution
begin

section \<open>Workflow graphs: safety over whole executions\<close>

text \<open>
  Consequences of the life cycle for any sequence of calls: what is final stays final, finished attempts
  are fenced off, the number of running nodes stays within the limit of the graph, and a write of
  unknown outcome is never replayed.
\<close>

definition empty_store :: graph_store where
  "empty_store = \<lparr>gs_definitions = [], gs_runs = [], gs_nodes = [], gs_attempts = []\<rparr>"

lemma empty_store_wf: "store_wf empty_store"
  by (simp add: empty_store_def store_wf_def)

lemma execute_wf: "store_wf s \<Longrightarrow> store_wf (graph_execute parse cs s)"
  using graph_execute_lifecycle lifecycle_wf by blast

lemma execute_run:
  assumes "store_wf s" and "map_of (gs_runs s) i = Some r"
  obtains q where "map_of (gs_runs (graph_execute parse cs s)) i = Some q" "run_step\<^sup>*\<^sup>* r q"
  using graph_execute_lifecycle [OF assms(1), of parse cs] assms(2)
  by (auto simp: lifecycle_def descends_def dest!: spec [of _ i])

lemma execute_node:
  assumes "store_wf s" and "map_of (gs_nodes s) k = Some n"
  obtains m where "map_of (gs_nodes (graph_execute parse cs s)) k = Some m" "node_step\<^sup>*\<^sup>* n m"
  using graph_execute_lifecycle [OF assms(1), of parse cs] assms(2)
  by (auto simp: lifecycle_def descends_def dest!: spec [of _ k])

subsection \<open>Final states\<close>

lemma run_steps_terminal: "run_step\<^sup>*\<^sup>* r q \<Longrightarrow> terminal_run (gr_status r) \<Longrightarrow> gr_status q = gr_status r"
  by (induction rule: rtranclp_induct) (auto simp: run_step_def)

lemma run_steps_same: "run_step\<^sup>*\<^sup>* r q \<Longrightarrow> gr_definition q = gr_definition r \<and> gr_budget q = gr_budget r"
  by (induction rule: rtranclp_induct) (auto simp: run_step_def same_run_def)

lemma run_steps_usage:
  "run_step\<^sup>*\<^sup>* r q \<Longrightarrow> gr_output_tokens r \<le> gr_output_tokens q \<and> gr_cost_usd r \<le> gr_cost_usd q
     \<and> gr_tool_calls r \<le> gr_tool_calls q"
  by (induction rule: rtranclp_induct) (auto simp: run_step_def)

lemma node_step_final:
  "node_step n m \<Longrightarrow> nr_status n \<in> {NS_MANUAL_RECONCILE, NS_CANCELLED} \<Longrightarrow> nr_status m = nr_status n"
  by (auto simp: node_step_def waiting_node_def repeatable_def nonterminal_node_def elim!: node_move.cases)

lemma node_steps_final:
  "node_step\<^sup>*\<^sup>* n m \<Longrightarrow> nr_status n \<in> {NS_MANUAL_RECONCILE, NS_CANCELLED} \<Longrightarrow> nr_status m = nr_status n"
  by (induction rule: rtranclp_induct) (use node_step_final in auto)

lemma node_step_same: "node_step n m \<Longrightarrow> nr_run m = nr_run n \<and> nr_node m = nr_node n \<and> nr_iteration n \<le> nr_iteration m"
  by (auto simp: node_step_def same_node_def elim!: node_move.cases)

lemma node_steps_same:
  "node_step\<^sup>*\<^sup>* n m \<Longrightarrow> nr_run m = nr_run n \<and> nr_node m = nr_node n \<and> nr_iteration n \<le> nr_iteration m"
  by (induction rule: rtranclp_induct) (auto dest: node_step_same)

lemma node_step_repeat:
  \<comment> \<open>a success or failure is only left for a new occurrence\<close>
  "node_step n m \<Longrightarrow> nr_status n \<in> {NS_SUCCEEDED, NS_FAILED} \<Longrightarrow>
   nr_status m = nr_status n \<or> nr_iteration n < nr_iteration m"
  by (auto simp: node_step_def waiting_node_def nonterminal_node_def elim!: node_move.cases)

lemma node_steps_repeat:
  "node_step\<^sup>*\<^sup>* n m \<Longrightarrow> nr_status n \<in> {NS_SUCCEEDED, NS_FAILED} \<Longrightarrow>
   nr_status m = nr_status n \<or> nr_iteration n < nr_iteration m"
proof (induction rule: rtranclp_induct)
  case (step m q)
  from node_step_same [OF step.hyps(2)] have le: "nr_iteration m \<le> nr_iteration q" by simp
  from step.IH [OF step.prems] show ?case
  proof
    assume "nr_status m = nr_status n"
    with node_step_repeat [OF step.hyps(2)] step.prems node_steps_same [OF step.hyps(1)] show ?thesis
      by fastforce
  next
    assume "nr_iteration n < nr_iteration m"
    with le show ?thesis by simp
  qed
qed simp

subsection \<open>Fenced attempts\<close>

lemma settled_attempt:
  assumes "map_of (gs_attempts s) a = Some x" and "at_result x \<noteq> AR_RUNNING"
  shows "map_of (gs_attempts (graph_execute parse cs s)) a = Some x"
  using graph_execute_evolves [of s parse cs] assms
  by (auto simp: evolves_def settled_attempts_def)

lemma complete_settled:
  assumes "map_of (gs_attempts s) a = Some x" and "at_result x \<noteq> AR_RUNNING"
  shows "complete_attempt parse now a ok out f e s = (Inl (GeState ''attempt is already terminal''), s)"
    and "mark_side_effect_started a s = (Inl (GeState ''attempt is already terminal''), s)"
  using assms by (simp_all add: complete_attempt_def mark_side_effect_started_def sx_bind_def gs_reads sx_simps)

subsection \<open>The number of running nodes\<close>

definition running_nodes :: "string \<Rightarrow> graph_store \<Rightarrow> node_run list" where
  "running_nodes i s = filter (\<lambda>n. nr_status n = NS_RUNNING) (run_nodes i s)"

definition running_keys :: "string \<Rightarrow> graph_store \<Rightarrow> string set" where
  "running_keys i s = {k. \<exists>n. map_of (gs_nodes s) k = Some n \<and> nr_run n = i \<and> nr_status n = NS_RUNNING}"

lemma running_keys_eq: "store_wf s \<Longrightarrow> running_keys i s = nr_id ` set (running_nodes i s)"
proof -
  assume wf: "store_wf s"
  have "k \<in> running_keys i s \<longleftrightarrow> k \<in> nr_id ` set (running_nodes i s)" for k
  proof
    assume "k \<in> running_keys i s"
    then obtain n where n: "map_of (gs_nodes s) k = Some n" "nr_run n = i" "nr_status n = NS_RUNNING"
      by (auto simp: running_keys_def)
    then have "nr_id n = k" using wf_lookup(2) [OF wf] by blast
    with n show "k \<in> nr_id ` set (running_nodes i s)"
      by (force simp: running_nodes_def run_nodes_def dest!: map_of_SomeD)
  next
    assume "k \<in> nr_id ` set (running_nodes i s)"
    then obtain n where "n \<in> snd ` set (gs_nodes s)" "nr_id n = k" "nr_run n = i" "nr_status n = NS_RUNNING"
      by (auto simp: running_nodes_def run_nodes_def)
    with wf_node_in [OF wf] show "k \<in> running_keys i s" by (auto simp: running_keys_def)
  qed
  then show ?thesis by blast
qed

lemma running_count: "store_wf s \<Longrightarrow> length (running_nodes i s) = card (running_keys i s)"
proof -
  assume wf: "store_wf s"
  have ids: "map nr_id (map snd (gs_nodes s)) = map fst (gs_nodes s)"
    using wf by (auto simp: store_wf_def)
  then have "distinct (map nr_id (map snd (gs_nodes s)))" using wf by (simp add: store_wf_def del: map_map)
  then have "distinct (map nr_id (running_nodes i s))"
    unfolding running_nodes_def run_nodes_def by (intro distinct_map_filter)
  then have "card (nr_id ` set (running_nodes i s)) = length (running_nodes i s)"
    by (metis distinct_card length_map list.set_map)
  with running_keys_eq [OF wf] show ?thesis by simp
qed

lemma finite_running: "finite (running_keys i s)"
proof (rule finite_subset)
  show "running_keys i s \<subseteq> dom (map_of (gs_nodes s))" by (auto simp: running_keys_def)
qed (rule finite_dom_map_of)

lemma moves_running: "node_move\<^sup>*\<^sup>* n m \<Longrightarrow> nr_status m = NS_RUNNING \<Longrightarrow> nr_status n = NS_RUNNING \<and> nr_run m = nr_run n"
proof (induction rule: rtranclp_induct)
  case (step m q)
  from step.hyps(2) step.prems have "nr_status m = NS_RUNNING" "nr_run q = nr_run m"
    by (auto simp: waiting_node_def same_node_def elim!: node_move.cases)
  with step.IH show ?case by simp
qed simp

lemma moves_shrink_running:
  assumes "lifecycle node_move s t"
  shows "running_keys i t \<subseteq> running_keys i s"
proof
  fix k assume "k \<in> running_keys i t"
  then obtain m where m: "map_of (gs_nodes t) k = Some m" "nr_run m = i" "nr_status m = NS_RUNNING"
    by (auto simp: running_keys_def)
  have d: "descends node_move new_node (map_of (gs_nodes s) k) (map_of (gs_nodes t) k)"
    using assms by (simp add: lifecycle_def)
  show "k \<in> running_keys i s"
  proof (cases "map_of (gs_nodes s) k")
    case None
    with d m(1) obtain c where "new_node c" "node_move\<^sup>*\<^sup>* c m" by (auto simp: descends_def)
    with moves_running [of c m] m show ?thesis by (auto simp: new_node_def)
  next
    case (Some n)
    with d m(1) have "node_move\<^sup>*\<^sup>* n m" by (auto simp: descends_def)
    with Some moves_running [of n m] m show ?thesis by (auto simp: running_keys_def)
  qed
qed

definition run_limit :: "string \<Rightarrow> graph_store \<Rightarrow> int" where
  "run_limit i s =
     (case map_of (gs_runs s) i of
        None \<Rightarrow> 0
      | Some r \<Rightarrow> (case map_of (gs_definitions s) (gr_definition r) of
            None \<Rightarrow> 0 | Some d \<Rightarrow> max 0 (max_parallel_nodes (wf_limits d))))"

definition parallel_ok :: "graph_store \<Rightarrow> bool" where
  "parallel_ok s \<longleftrightarrow> (\<forall>i. int (card (running_keys i s)) \<le> run_limit i s)"

lemma run_limit_grows:
  assumes "lifecycle move s t" and "kept_definitions s t"
  shows "run_limit i s \<le> run_limit i t"
proof (cases "map_of (gs_runs s) i")
  case None
  then show ?thesis by (simp add: run_limit_def split: option.splits)
next
  case (Some r)
  have "descends run_step new_run (map_of (gs_runs s) i) (map_of (gs_runs t) i)"
    using assms(1) by (simp add: lifecycle_def)
  with Some obtain q where q: "map_of (gs_runs t) i = Some q" "run_step\<^sup>*\<^sup>* r q" by (auto simp: descends_def)
  then have "gr_definition q = gr_definition r" by (simp add: run_steps_same)
  moreover have "map_of (gs_definitions t) key = Some d" if "map_of (gs_definitions s) key = Some d" for key d
    using assms(2) that by (cases key) (simp add: kept_definitions_def)
  ultimately show ?thesis using Some q(1)
    by (cases "map_of (gs_definitions s) (gr_definition r)") (simp_all add: run_limit_def split: option.splits)
qed

lemma sx_bind_read: "m s = (r, s) \<Longrightarrow> sx_bind m f s = (case r of Inl e \<Rightarrow> (Inl e, s) | Inr x \<Rightarrow> f x s)"
  by (simp add: sx_bind_def)

lemma definition_and_node_Inr [sx_Inr]:
  "definition_and_node n s = (Inr (d, spec), t) \<longleftrightarrow>
     t = s \<and> (\<exists>r. map_of (gs_runs s) (nr_run n) = Some r \<and> map_of (gs_definitions s) (gr_definition r) = Some d
       \<and> list_find (\<lambda>m. nd_id m = nr_node n) (wf_nodes d) = Some spec)"
  by (auto simp: definition_and_node_def sx_Inr)

lemma require_running_Inr [sx_Inr]:
  "require_running_run i s = (Inr u, t) \<longleftrightarrow>
     t = s \<and> (\<exists>r. map_of (gs_runs s) i = Some r \<and> gr_status r = RS_RUNNING)"
  by (auto simp: require_running_run_def sx_Inr)

lemma start_node_attempt_Inr [sx_Inr]:
  "start_node_attempt m a n s = (Inr u, t) \<longleftrightarrow>
     (\<exists>c. map_of (gs_nodes s) (nr_id m) = Some c \<and> map_of (gs_attempts s) (at_id a) = None
       \<and> nr_revision c = n \<and> nr_revision m = n + 1
       \<and> t = s\<lparr>gs_attempts := AList.update (at_id a) a (gs_attempts s),
               gs_nodes := AList.update (nr_id m) m (gs_nodes s)\<rparr>)"
  by (auto simp: start_node_attempt_def sx_Inr gs_lookup_apply split: option.splits)

text \<open>Everything a started attempt has passed.\<close>

lemma start_attempt_Inr:
  assumes "start_attempt now a n w l g k s = (Inr x, t)"
  obtains node run def spec where
    "map_of (gs_nodes s) n = Some node" "nr_status node \<in> {NS_READY, NS_RETRY_WAIT}"
    "map_of (gs_runs s) (nr_run node) = Some run" "gr_status run = RS_RUNNING"
    "map_of (gs_definitions s) (gr_definition run) = Some def"
    "list_find (\<lambda>m. nd_id m = nr_node node) (wf_nodes def) = Some spec"
    "validate_port_values (nd_inputs spec) (nr_inputs node) True = Inr ()"
    "int (length (running_nodes (nr_run node) s)) < max_parallel_nodes (wf_limits def)"
    "map_of (gs_attempts s) a = None" "at_id x = a" "at_node_run x = nr_id node" "at_result x = AR_RUNNING"
    "attempt_valid x"
    "at_effect x = (if nd_idempotency spec = IC_PURE then SE_NONE else SE_NOT_STARTED)"
    "at_key x = attempt_idempotency_key node spec (at_effect x) k
       (sort_key at_number (filter (\<lambda>b. at_node_run b = nr_id node) (map snd (gs_attempts s))))"
    "t = s\<lparr>gs_attempts := AList.update a x (gs_attempts s),
       gs_nodes := AList.update (nr_id node) (node\<lparr>nr_status := NS_RUNNING, nr_attempt := Some a, nr_worker := w,
         nr_lease := l, nr_revision := nr_revision node + 1, nr_updated_at := now\<rparr>) (gs_nodes s)\<rparr>"
  using assms unfolding start_attempt_def
  by (auto simp: sx_Inr running_nodes_def run_nodes_def filter_filter conj_commute not_le Let_def
      split: if_splits)

text \<open>Operations that raise before they have written.\<close>

definition fails_clean :: "'a gx \<Rightarrow> bool" where
  "fails_clean m \<longleftrightarrow> (\<forall>s e t. m s = (Inl e, t) \<longrightarrow> t = s)"

interpretation unchanged: kept_relation "(=) :: graph_store \<Rightarrow> graph_store \<Rightarrow> bool"
  by unfold_locales simp_all

lemma clean_bind: "keeps (=) m \<Longrightarrow> (\<And>x. fails_clean (f x)) \<Longrightarrow> fails_clean (sx_bind m f)"
  unfolding fails_clean_def
proof (intro allI impI)
  fix s e t
  assume m: "keeps (=) m" and f: "\<And>x. \<forall>s e t. f x s = (Inl e, t) \<longrightarrow> t = s"
    and "sx_bind m f s = (Inl e, t)"
  from this(3) show "t = s"
  proof (cases rule: sx_bind_InlE)
    case here
    from keepsD [OF m this] show ?thesis by simp
  next
    case (later x s')
    from keepsD [OF m later(1)] f later(2) show ?thesis by blast
  qed
qed

lemma clean_last: "fails_clean m \<Longrightarrow> fails_clean (sx_bind m (\<lambda>_. sx_return x))"
  by (auto simp: fails_clean_def sx_return_def elim!: sx_bind_InlE)

lemma clean_cases:
  "fails_clean m \<Longrightarrow> fails_clean m' \<Longrightarrow> fails_clean (if b then m else m')"
  "(\<And>x. fails_clean (g x)) \<Longrightarrow> fails_clean (let x = v in g x)"
  "(\<And>a b. fails_clean (k a b)) \<Longrightarrow> fails_clean (case p of (a, b) \<Rightarrow> k a b)"
  "fails_clean m \<Longrightarrow> (\<And>y. fails_clean (h y)) \<Longrightarrow> fails_clean (case opt of None \<Rightarrow> m | Some y \<Rightarrow> h y)"
  by (auto split: prod.splits option.splits)

lemma clean_base: "fails_clean (sx_raise e)" "fails_clean (sx_return x)"
  "fails_clean (start_node_attempt m a n)" "fails_clean (update_attempt a)"
  by (auto simp: fails_clean_def start_node_attempt_def update_attempt_def sx_simps gs_lookup_apply
      split: option.splits if_splits)

lemma unchanged_reads:
  "keeps (=) (get_definition key)" "keeps (=) (get_run i)" "keeps (=) (get_node_run i)"
  "keeps (=) (get_attempt i)" "keeps (=) (list_node_runs i)" "keeps (=) (list_attempts i)"
  by (simp_all add: keeps_def)

lemmas unchanged_rules = unchanged.keeps_rules unchanged_reads

lemma unchanged_helpers: "keeps (=) (require_running_run i)" "keeps (=) (definition_and_node n)"
  unfolding atomize_conj require_running_run_def definition_and_node_def by (intro conjI unchanged_rules)

lemma start_attempt_clean: "fails_clean (start_attempt now a n w l g k)"
  unfolding start_attempt_def
  by (intro clean_cases clean_last clean_base clean_bind unchanged_rules unchanged_helpers)

lemma mark_side_effect_clean: "fails_clean (mark_side_effect_started a)"
  unfolding mark_side_effect_started_def
  by (intro clean_cases clean_last clean_base clean_bind unchanged_rules unchanged_helpers)

lemma start_attempt_parallel:
  assumes wf: "store_wf s" and ok: "parallel_ok s"
    and st: "start_attempt now a n w l g k s = (Inr x, t)" and "store_wf t"
  shows "parallel_ok t"
proof -
  from start_attempt_Inr [OF st] obtain node run def spec where
    node: "map_of (gs_nodes s) n = Some node" "nr_status node \<in> {NS_READY, NS_RETRY_WAIT}"
    and run: "map_of (gs_runs s) (nr_run node) = Some run"
    and def: "map_of (gs_definitions s) (gr_definition run) = Some def"
    and room: "int (length (running_nodes (nr_run node) s)) < max_parallel_nodes (wf_limits def)"
    and t: "t = s\<lparr>gs_attempts := AList.update a x (gs_attempts s),
       gs_nodes := AList.update (nr_id node) (node\<lparr>nr_status := NS_RUNNING, nr_attempt := Some a, nr_worker := w,
         nr_lease := l, nr_revision := nr_revision node + 1, nr_updated_at := now\<rparr>) (gs_nodes s)\<rparr>"
    by metis
  have keys: "running_keys i t = (if i = nr_run node then insert (nr_id node) (running_keys i s) else running_keys i s)"
    for i
    using node wf_lookup(2) [OF wf node(1)] unfolding t running_keys_def
    by (auto simp: map_of_update split: if_splits)
  have "gs_runs t = gs_runs s" "gs_definitions t = gs_definitions s" by (simp_all add: t)
  then have limit: "run_limit i t = run_limit i s" for i
    unfolding run_limit_def by (cases "map_of (gs_runs s) i") simp_all
  have "run_limit (nr_run node) s = max 0 (max_parallel_nodes (wf_limits def))"
    by (simp add: run_limit_def run def)
  then have "int (card (running_keys (nr_run node) s)) + 1 \<le> run_limit (nr_run node) s"
    using room running_count [OF wf, of "nr_run node"] by simp
  moreover have "card (insert (nr_id node) (running_keys (nr_run node) s)) \<le> card (running_keys (nr_run node) s) + 1"
    by (simp add: card_insert_if finite_running)
  ultimately show ?thesis using ok by (auto simp: parallel_ok_def keys limit)
qed

lemma apply_parallel:
  assumes wf: "store_wf s" and ok: "parallel_ok s"
  shows "parallel_ok (snd (graph_apply parse now c s))"
proof -
  let ?t = "snd (graph_apply parse now c s)"
  have t: "store_wf ?t"
    using graph_apply_steps [of "{}" "{}" "{}" parse now c] wf
    by (auto simp: follows_def snapshot_def dest: lifecycle_wf)
  show ?thesis
  proof (cases "starts_attempt c")
    case True
    then obtain a n w l g k where c: "c = OpStartAttempt a n w l g k" by (cases c) auto
    obtain r u where st: "start_attempt now a n w l g k s = (r, u)" by fastforce
    then have u: "?t = u" by (cases r) (simp_all add: c sx_void_def sx_bind_def sx_simps)
    show ?thesis
    proof (cases r)
      case (Inl e)
      with st start_attempt_clean [of now a n w l g k] have "u = s" by (simp add: fails_clean_def)
      with u ok show ?thesis by simp
    next
      case (Inr x)
      with start_attempt_parallel [OF wf ok] st t u show ?thesis by simp
    qed
  next
    case False
    have "lifecycle node_move s ?t"
      using moving.graph_apply_moves [OF False, of "{}" "{}" "{}" parse now] wf
      by (simp add: follows_def snapshot_def)
    moreover have "kept_definitions s ?t"
      using graph_apply_evolves [of parse now c] by (auto simp: keeps_def evolves_def)
    ultimately have "run_limit i s \<le> run_limit i ?t" and "running_keys i ?t \<subseteq> running_keys i s" for i
      using run_limit_grows moves_shrink_running by blast+
    then have "int (card (running_keys i ?t)) \<le> run_limit i ?t" for i
      using ok card_mono [OF finite_running, of "running_keys i ?t" i s] unfolding parallel_ok_def
      by (meson order_trans of_nat_le_iff)
    then show ?thesis by (simp add: parallel_ok_def)
  qed
qed

lemma execute_parallel: "store_wf s \<Longrightarrow> parallel_ok s \<Longrightarrow> parallel_ok (graph_execute parse cs s)"
proof (induction parse cs s rule: graph_execute.induct)
  case (2 parse now c cs s)
  have "store_wf (snd (graph_apply parse now c s))"
    using graph_apply_steps [of "{}" "{}" "{}" parse now c] 2(2)
    by (auto simp: follows_def snapshot_def dest: lifecycle_wf)
  with 2 show ?case by (simp add: apply_parallel)
qed simp

end
