(* ===== verification/Graph_Recovery.thy ===== *)
theory Graph_Recovery
  imports Graph_Safety
begin

section \<open>Workflow graphs: writes of unknown outcome are not replayed\<close>

text \<open>
  A running node whose non-idempotent attempt has started its side effect is, when the run is
  interrupted or recovered, put into manual reconciliation together with its run; from then on no
  attempt of that run starts.
\<close>

definition attempts_of :: "string \<Rightarrow> graph_store \<Rightarrow> node_attempt list" where
  "attempts_of k s = sort_key at_number (filter (\<lambda>a. at_node_run a = k) (map snd (gs_attempts s)))"

definition unsafe_node :: "graph_store \<Rightarrow> node_run \<Rightarrow> bool" where
  \<comment> \<open>running, non-idempotent, and its latest attempt may have written\<close>
  "unsafe_node s n \<longleftrightarrow> nr_status n = NS_RUNNING
     \<and> (\<exists>d spec. definition_and_node n s = (Inr (d, spec), s) \<and> nd_idempotency spec = IC_NON_IDEMPOTENT)
     \<and> (attempts_of (nr_id n) s \<noteq> [] \<longrightarrow>
          at_result (last (attempts_of (nr_id n) s)) \<noteq> AR_SUCCEEDED
          \<and> at_effect (last (attempts_of (nr_id n) s)) \<in> {SE_STARTED, SE_UNKNOWN})"

lemma update_node_run_Inr [sx_Inr]:
  "update_node_run m n s = (Inr u, t) \<longleftrightarrow>
     (\<exists>c. map_of (gs_nodes s) (nr_id m) = Some c \<and> nr_revision c = n \<and> nr_revision m = n + 1
       \<and> t = s\<lparr>gs_nodes := AList.update (nr_id m) m (gs_nodes s)\<rparr>)"
  by (auto simp: update_node_run_def sx_Inr gs_lookup_apply split: option.splits)

lemma update_attempt_Inr [sx_Inr]:
  "update_attempt a s = (Inr u, t) \<longleftrightarrow>
     (\<exists>c. map_of (gs_attempts s) (at_id a) = Some c \<and> at_result c = AR_RUNNING
       \<and> t = s\<lparr>gs_attempts := AList.update (at_id a) a (gs_attempts s)\<rparr>)"
  by (auto simp: update_attempt_def sx_Inr gs_lookup_apply split: option.splits)

lemma update_run_Inr [sx_Inr]:
  "update_run q n s = (Inr u, t) \<longleftrightarrow>
     (\<exists>c. map_of (gs_runs s) (gr_id q) = Some c \<and> gr_revision c = n \<and> gr_revision q = n + 1
       \<and> t = s\<lparr>gs_runs := AList.update (gr_id q) q (gs_runs s)\<rparr>)"
  by (auto simp: update_run_def sx_Inr gs_lookup_apply split: option.splits)

lemma stop_node_Inr:
  "stop_node now safe unknown n s = (Inr b, t) \<Longrightarrow>
   b = unknown \<and> gs_attempts t = gs_attempts s \<and> gs_runs t = gs_runs s \<and> gs_definitions t = gs_definitions s"
  by (auto simp: stop_node_def save_node_def Let_def sx_Inr)

lemma keep_result_Inr:
  "keep_result now a n s = (Inr b, t) \<Longrightarrow>
   gs_attempts t = gs_attempts s \<and> gs_runs t = gs_runs s \<and> gs_definitions t = gs_definitions s"
  by (auto simp: keep_result_def save_node_def Let_def sx_Inr)

lemma filter_update:
  "map_of d k = Some w \<Longrightarrow> \<not> P w \<Longrightarrow> \<not> P v \<Longrightarrow>
   filter P (map snd (AList.update k v d)) = filter P (map snd d)"
  by (induction d) auto

lemma reset_node_Inr:
  assumes "reset_interrupted_node now m s = (Inr b, t)" and wf: "store_wf s" and "k \<noteq> nr_id m"
  shows "attempts_of k t = attempts_of k s" "gs_runs t = gs_runs s" "gs_definitions t = gs_definitions s"
proof -
  let ?xs = "attempts_of (nr_id m) s"
  have member: "map_of (gs_attempts s) (at_id a) = Some a \<and> at_node_run a = nr_id m" if "a \<in> set ?xs" for a
    using that wf by (force simp: attempts_of_def store_wf_def map_of_eq_Some_iff)
  have "(attempts_of k t = attempts_of k s \<and> gs_runs t = gs_runs s) \<and> gs_definitions t = gs_definitions s"
  proof (cases "nr_status m = NS_RUNNING \<and> ?xs \<noteq> [] \<and> at_result (last ?xs) = AR_RUNNING")
    case False
    with assms(1) have "gs_attempts t = gs_attempts s \<and> gs_runs t = gs_runs s \<and> gs_definitions t = gs_definitions s"
      by (auto simp: reset_interrupted_node_def sx_Inr Let_def attempts_of_def
          split: if_splits dest!: stop_node_Inr keep_result_Inr)
    then show ?thesis by (simp add: attempts_of_def)
  next
    case True
    let ?a = "last ?xs"
    from True have a: "?a \<in> set ?xs" by simp
    let ?x = "\<lambda>u. ?a\<lparr>at_result := AR_INTERRUPTED, at_effect := (if u then SE_UNKNOWN else at_effect ?a),
        at_completed_at := Some now\<rparr>"
    from assms(1) True have "(\<exists>u. gs_attempts t = AList.update (at_id ?a) (?x u) (gs_attempts s))
        \<and> gs_runs t = gs_runs s \<and> gs_definitions t = gs_definitions s"
      by (auto simp: reset_interrupted_node_def sx_Inr Let_def attempts_of_def ex_bool_eq
          split: if_splits dest!: stop_node_Inr)
    then obtain u where t: "gs_attempts t = AList.update (at_id ?a) (?x u) (gs_attempts s)"
      and frame: "gs_runs t = gs_runs s" "gs_definitions t = gs_definitions s" by blast
    have "filter (\<lambda>a. at_node_run a = k) (map snd (gs_attempts t)) = filter (\<lambda>a. at_node_run a = k) (map snd (gs_attempts s))"
      unfolding t by (rule filter_update [of _ _ ?a]) (use member [OF a] assms(3) in simp_all)
    then show ?thesis using frame by (simp add: attempts_of_def)
  qed
  then show "attempts_of k t = attempts_of k s" "gs_runs t = gs_runs s" "gs_definitions t = gs_definitions s"
    by simp_all
qed

lemma unsafe_same:
  assumes "unsafe_node s n" and "attempts_of (nr_id n) t = attempts_of (nr_id n) s"
    and "gs_runs t = gs_runs s" and "gs_definitions t = gs_definitions s"
  shows "unsafe_node t n"
  using assms by (simp add: unsafe_node_def sx_Inr)

lemma reset_unsafe:
  assumes "reset_interrupted_node now n s = (Inr b, t)" and "unsafe_node s n"
  shows b
  using assms
  by (auto simp: reset_interrupted_node_def unsafe_node_def sx_Inr Let_def attempts_of_def unknown_non_idempotent_write_def
      split: if_splits dest!: stop_node_Inr)

lemma reset_each_unsafe:
  assumes "sx_each (reset_interrupted_node now) ns s = (Inr bs, t)" and "snapshot {} N {} s" and "set ns \<subseteq> N"
    and "distinct (map nr_id ns)" and "n \<in> set ns" and "unsafe_node s n"
  shows "list_ex id bs"
  using assms
proof (induction ns arbitrary: s bs)
  case (Cons m ns)
  from Cons.prems(1) obtain b cs s1 where m: "reset_interrupted_node now m s = (Inr b, s1)"
    and rest: "sx_each (reset_interrupted_node now) ns s1 = (Inr cs, t)" and bs: "bs = b # cs"
    by (rule sx_each_ConsE)
  have wf: "store_wf s" using Cons.prems(2) by (simp add: snapshot_def)
  show ?case
  proof (cases "m = n")
    case True
    with m reset_unsafe [of now n s b s1] Cons.prems(6) show ?thesis by (simp add: bs)
  next
    case False
    then have n: "n \<in> set ns" using Cons.prems(5) by simp
    then have "nr_id n \<noteq> nr_id m" using Cons.prems(4) by (auto simp: image_iff)
    note same = reset_node_Inr [OF m wf this]
    have "follows node_step {} N {} (reset_interrupted_node now m)"
      by (rule stepping.follows_reset_node) (use Cons.prems(3) in simp)
    with Cons.prems(2) m have "lifecycle node_step s s1" by (force simp: follows_def)
    with Cons.prems(2) have "snapshot {} N {} s1"
      by (rule snapshot_after(1)) (rule stepping.rising_move)
    from Cons.IH [OF rest this _ _ n unsafe_same [OF Cons.prems(6) same]] Cons.prems(3,4)
    show ?thesis by (simp add: bs id_def)
  qed
qed simp

lemma reset_unsafe_run:
  assumes "reset_interrupted_nodes now i s = (Inr manual, t)" and wf: "store_wf s"
    and "n \<in> set (run_nodes i s)" and "unsafe_node s n"
  shows manual
proof -
  from assms(1) obtain bs where "sx_each (reset_interrupted_node now) (run_nodes i s) s = (Inr bs, t)"
    and manual: "manual = list_ex id bs"
    by (auto simp: reset_interrupted_nodes_def sx_Inr run_nodes_def)
  moreover have "snapshot {} (set (run_nodes i s)) {} s"
    using wf wf_node_in [OF wf] by (auto simp: snapshot_def seen_def run_nodes_def)
  moreover have "distinct (map nr_id (run_nodes i s))"
  proof -
    have "map nr_id (map snd (gs_nodes s)) = map fst (gs_nodes s)" using wf by (auto simp: store_wf_def)
    then have "distinct (map nr_id (map snd (gs_nodes s)))" using wf by (simp add: store_wf_def del: map_map)
    then show ?thesis unfolding run_nodes_def by (rule distinct_map_filter)
  qed
  ultimately show ?thesis using reset_each_unsafe assms(3,4) by blast
qed

lemma save_run_Inr:
  "save_run now f r s = (Inr q, t) \<Longrightarrow> gr_id (f r) = gr_id r \<Longrightarrow>
   q = (f r)\<lparr>gr_revision := gr_revision r + 1, gr_updated_at := now\<rparr> \<and> map_of (gs_runs t) (gr_id r) = Some q"
  by (auto simp: save_run_def Let_def sx_Inr map_of_update)

lemma interrupted_manual:
  assumes wf: "store_wf s" and run: "map_of (gs_runs s) i = Some run" "\<not> terminal_run (gr_status run)"
    and "n \<in> set (run_nodes i s)" and "unsafe_node s n"
    and "interrupt_run now i s = (Inr r, t) \<or> recover parse now i s = (Inr r, t)"
  shows "gr_status r = RS_MANUAL_RECONCILE" and "map_of (gs_runs t) i = Some r"
proof -
  have "\<exists>s1 cur. reset_interrupted_nodes now i s = (Inr True, s1) \<and> map_of (gs_runs s1) i = Some cur
      \<and> save_run now (\<lambda>r. r\<lparr>gr_status := RS_MANUAL_RECONCILE\<rparr>) cur s1 = (Inr r, t)"
    using assms(6)
  proof
    assume "interrupt_run now i s = (Inr r, t)"
    then obtain manual s1 cur where "reset_interrupted_nodes now i s = (Inr manual, s1)"
      "map_of (gs_runs s1) i = Some cur"
      "save_run now (\<lambda>r. r\<lparr>gr_status := (if manual then RS_MANUAL_RECONCILE else RS_INTERRUPTED)\<rparr>) cur s1 = (Inr r, t)"
      using run by (auto simp: interrupt_run_def sx_Inr)
    with reset_unsafe_run [OF _ wf assms(4,5)] show ?thesis by (metis (full_types))
  next
    assume "recover parse now i s = (Inr r, t)"
    then obtain manual s1 where m: "reset_interrupted_nodes now i s = (Inr manual, s1)"
      and rest: "(if manual then sx_bind (get_run i) (\<lambda>cur. save_run now (\<lambda>r. r\<lparr>gr_status := RS_MANUAL_RECONCILE\<rparr>) cur)
        else sx_bind (reset_derived_dependency_states now i) (\<lambda>_.
          sx_bind (propagate_dependencies parse now True i) (\<lambda>_.
          sx_bind (finish_if_terminal now i) (\<lambda>_.
          sx_bind (get_run i) (\<lambda>current.
          if gr_status current = RS_COMPLETED then sx_return current
          else refresh_run_activity_status now i))))) s1 = (Inr r, t)"
      using run unfolding recover_def by (auto simp: sx_bind_Inr_iff gs_reads_Inr simp del: sx_choice_Inr)
    from reset_unsafe_run [OF m wf assms(4,5)] m rest show ?thesis by (auto simp: sx_bind_Inr_iff gs_reads_Inr)
  qed
  then obtain s1 cur where reset: "reset_interrupted_nodes now i s = (Inr True, s1)"
    and cur: "map_of (gs_runs s1) i = Some cur"
    and save: "save_run now (\<lambda>r. r\<lparr>gr_status := RS_MANUAL_RECONCILE\<rparr>) cur s1 = (Inr r, t)" by blast
  have "lifecycle node_step s s1"
    using stepping.follows_reset_interrupted [of "{}" "{}" "{}" now i] wf reset
    by (force simp: follows_def snapshot_def)
  then have "gr_id cur = i" using cur wf_lookup(1) lifecycle_wf by blast
  with save_run_Inr [OF save] show "gr_status r = RS_MANUAL_RECONCILE" and "map_of (gs_runs t) i = Some r"
    by simp_all
qed

lemma start_attempt_not_running:
  assumes "map_of (gs_nodes u) k = Some m" and "map_of (gs_runs u) (nr_run m) = Some q" and "gr_status q \<noteq> RS_RUNNING"
  shows "start_attempt now a k w l g key u = (Inl (GeState ''graph run is not running''), u)"
  using assms by (simp add: start_attempt_def require_running_run_def sx_bind_def gs_reads sx_simps)

end
