(* ===== verification/Graph_Results.thy ===== *)
theory Graph_Results
  imports Graph_Recovery
begin

section \<open>Workflow graphs: what a call that returns has checked\<close>

text \<open>
  Inversion of \<open>complete_attempt\<close> and \<open>advance_loop\<close>: the checks that passed and the node run that was
  stored, for calls that complete a node or continue a loop.
\<close>

definition typed_values :: "port_spec list \<Rightarrow> py_env \<Rightarrow> bool" where
  \<comment> \<open>every required port has a value, and every value of a port is of its declared type\<close>
  "typed_values ports vals \<longleftrightarrow>
     (\<forall>p \<in> set ports. case map_of vals (port_name p) of
        None \<Rightarrow> \<not> port_required p | Some v \<Rightarrow> matches_port_type v (port_type p) = Inr True)"

lemma validated_typed:
  assumes "validate_port_values ports vals True = Inr u"
  shows "typed_values ports vals"
  unfolding typed_values_def
proof
  fix p assume p: "p \<in> set ports"
  show "case map_of vals (port_name p) of
      None \<Rightarrow> \<not> port_required p | Some v \<Rightarrow> matches_port_type v (port_type p) = Inr True"
    using validate_port_values_Inr(2,3) [OF assms p] by (cases "map_of vals (port_name p)") auto
qed

lemma finish_node_Inr:
  "finish_node now f n a s = (Inr m, t) \<Longrightarrow> nr_status m = nr_status (f n) \<and> nr_outputs m = nr_outputs (f n)"
  by (auto simp: finish_node_def sx_Inr Let_def)
lemma completion_Inr:
  assumes "complete_attempt parse now a ok out f e s = (Inr m, t)" and "nr_status m = NS_SUCCEEDED"
  obtains x n d spec where "ok" "e \<noteq> Some SE_UNKNOWN" "nr_outputs m = (case out of None \<Rightarrow> [] | Some v \<Rightarrow> v)"
    "map_of (gs_attempts s) a = Some x" "map_of (gs_nodes s) (at_node_run x) = Some n"
    "nr_attempt n = Some (at_id x)" "definition_and_node n s = (Inr (d, spec), s)"
    "validate_port_values (nd_outputs spec) (nr_outputs m) True = Inr ()"
  using assms unfolding complete_attempt_def
  by (cases e) (auto simp: sx_Inr Let_def release_node_def split: if_splits dest!: finish_node_Inr)

lemma limit_reasons_Nil:
  "limit_reasons p c i r u = [] \<longleftrightarrow> i \<le> max_iterations p \<and> (c \<longrightarrow> i < max_iterations p)
    \<and> r < max_no_progress_repeats p
    \<and> number_value (elapsed_seconds u) \<le> of_int (max_wall_seconds p) \<and> py_int_value (loop_output_tokens u) \<le> loop_max_output_tokens p
    \<and> number_value (loop_cost_usd u) \<le> loop_max_cost_usd p \<and> py_int_value (loop_subagents u) \<le> loop_max_subagents p
    \<and> py_int_value (loop_recursion_depth u) \<le> loop_max_recursion_depth p"
  by (auto simp: limit_reasons_def)
lemma save_node_Inr:
  "save_node now f n s = (Inr m, t) \<Longrightarrow> nr_status m = nr_status (f n) \<and> nr_iteration m = nr_iteration (f n)"
  by (auto simp: save_node_def sx_Inr Let_def)
lemma advance_active_Inr:
  assumes "advance_active parse now n spec p c sig out u s = (Inr m, t)" and "nr_status m \<noteq> NS_SKIPPED"
  shows "nr_iteration m = nr_iteration n + 1"
    "limit_reasons p c (nr_iteration m) (if nr_signature n = Some sig then nr_repeats n + 1 else 0) u = []"
    "nr_status m = NS_SUCCEEDED \<longleftrightarrow> \<not> c"
  using assms unfolding advance_active_def Let_def
  by (auto elim!: sx_bind_InrE simp: sx_Inr_iff dest!: save_node_Inr split: if_split_asm)

lemma advance_loop_Inr:
  assumes "advance_loop parse now k c sig out u s = (Inr m, t)" and "nr_status m \<noteq> NS_SKIPPED"
  obtains n d spec p where "map_of (gs_nodes s) k = Some n" "definition_and_node n s = (Inr (d, spec), s)"
    "nd_kind spec = NK_LOOP" "nd_loop spec = Some p" "nr_iteration m = nr_iteration n + 1"
    "limit_reasons p c (nr_iteration m) (if nr_signature n = Some sig then nr_repeats n + 1 else 0) u = []"
    "nr_status m = NS_SUCCEEDED \<longleftrightarrow> \<not> c"
proof -
  from assms(1) obtain u0 s0 n s1 u2 s2 ds s3 where
    parts: "sx_lift (check_loop_usage u) s = (Inr u0, s0)" "get_node_run k s0 = (Inr n, s1)"
      "require_running_run (nr_run n) s1 = (Inr u2, s2)" "definition_and_node n s2 = (Inr ds, s3)"
    and rest: "(case ds of (def, spec) \<Rightarrow>
      case (if nd_kind spec = NK_LOOP then nd_loop spec else None) of
       None \<Rightarrow> sx_raise (GeState ''node is not a bounded loop'')
     | Some policy \<Rightarrow> advance_active parse now n spec policy c sig out u) s3 = (Inr m, t)"
    unfolding advance_loop_def by (elim sx_bind_InrE) blast
  obtain d spec where ds: "ds = (d, spec)" by (cases ds)
  with rest obtain p where p: "nd_kind spec = NK_LOOP" "nd_loop spec = Some p"
    and active: "advance_active parse now n spec p c sig out u s3 = (Inr m, t)"
    by (auto simp: sx_Inr split: if_splits)
  note inverted = advance_active_Inr [OF active assms(2)]
  show thesis
    by (rule that [OF _ _ p inverted]) (use parts in \<open>auto simp: sx_Inr ds\<close>)
qed
end
