(* ===== verification/Graph_Samples.thy ===== *)
theory Graph_Samples
  imports Graph_Results
begin

section \<open>Workflow graphs: concrete inputs\<close>

text \<open>
  A workflow of two nodes, \<open>a\<close> before \<open>b\<close>, with its stores, at which the properties of the graph
  theories are applied.
\<close>

definition plain_budget :: budget where
  "plain_budget = \<lparr>max_turns = 12, max_consecutive_test_failures = 2, budget_timeout_seconds = 300,
     max_output_tokens = Some 1000, max_cost_usd = None, max_tool_calls = Some 50\<rparr>"

definition plain_limits :: graph_limits where
  "plain_limits = \<lparr>max_nodes = 256, max_edges = 1024, max_parallel_nodes = 8, graph_max_subagents = 8,
     graph_max_recursion_depth = 4\<rparr>"

definition plain_port :: "string \<Rightarrow> port_spec" where
  "plain_port p = \<lparr>port_name = p, port_type = ''any'', port_required = True\<rparr>"

definition agent_node :: "string \<Rightarrow> string list \<Rightarrow> string list \<Rightarrow> idempotency_class \<Rightarrow> node_spec" where
  "agent_node i ins outs ic =
     \<lparr>nd_id = i, nd_kind = NK_AGENT, nd_inputs = map plain_port ins, nd_outputs = map plain_port outs,
      nd_action_ref = None, nd_model_override = None, nd_context = [], nd_capabilities = [],
      nd_retry = \<lparr>max_attempts = 1, delay_seconds = 0\<rparr>, nd_timeout = None, nd_budget = None,
      nd_idempotency = ic, nd_target = None, nd_failure = FP_FAIL_WORKFLOW, nd_writes = False,
      nd_writer = None, nd_merge = None, nd_loop = None, nd_subworkflow = (None, None), nd_metadata = []\<rparr>"

definition plain_edge :: "string \<Rightarrow> string \<Rightarrow> string \<Rightarrow> string \<Rightarrow> string \<Rightarrow> string option \<Rightarrow> edge_spec" where
  "plain_edge i s sp t tp c =
     \<lparr>ed_id = i, ed_source = s, ed_source_port = sp, ed_target = t, ed_target_port = tp, ed_condition = c,
      ed_join = JM_ALL, ed_delivery = DM_VALUE, ed_loop_back = False\<rparr>"

definition two_nodes :: "string option \<Rightarrow> edge_spec list \<Rightarrow> workflow_definition" where
  "two_nodes c back =
     \<lparr>wf_id = ''w'', wf_version = 1,
      wf_nodes = [agent_node ''a'' [] [''o''] IC_NON_IDEMPOTENT, agent_node ''b'' [''i''] [''o''] IC_PURE],
      wf_edges = plain_edge ''e'' ''a'' ''o'' ''b'' ''i'' c # back, wf_limits = plain_limits,
      wf_budget = plain_budget, wf_policy = [], wf_plugins = [], wf_capabilities = [], wf_roles = [],
      wf_providers = [], wf_status = DS_PUBLISHED\<rparr>"

definition no_parser :: "string \<Rightarrow> expr option" where
  "no_parser s = None"

definition demo_graph :: workflow_definition where
  "demo_graph = two_nodes None []"

lemmas graph_samples = plain_budget_def plain_limits_def plain_port_def agent_node_def plain_edge_def
  two_nodes_def demo_graph_def no_parser_def

definition demo_compiled :: compiled_workflow where
  "demo_compiled =
     \<lparr>cw_definition = demo_graph, cw_entries = [''a''], cw_order = [''a'', ''b''], cw_terminals = [''b''],
      cw_incoming = [(''a'', []), (''b'', [''e''])], cw_outgoing = [(''a'', [''e'']), (''b'', [])]\<rparr>"

lemma demo_compiles: "compile no_parser demo_graph = Inr demo_compiled"
  by code_simp

definition writer_node :: "string \<Rightarrow> string list \<Rightarrow> node_spec" where
  "writer_node k paths = (agent_node k [] [''o''] IC_NON_IDEMPOTENT)\<lparr>nd_writes := True,
     nd_writer := Some \<lparr>writer_key = k, writer_isolation_kind = WI_WORKTREE, isolation_ref = k,
       ownership_paths = paths\<rparr>\<rparr>"

definition merge_node :: "string \<Rightarrow> string list \<Rightarrow> node_spec" where
  "merge_node k sources = (agent_node k sources [''o''] IC_NON_IDEMPOTENT)\<lparr>nd_kind := NK_MERGE,
     nd_merge := Some \<lparr>merge_strategy = MS_THREE_WAY, source_writer_keys = sources, require_review = True,
       rollback_on_failure = True\<rparr>\<rparr>"

definition writers_graph :: workflow_definition where
  \<comment> \<open>two writers and their merge\<close>
  "writers_graph = (two_nodes None [])\<lparr>
     wf_nodes := [writer_node ''a'' [''src/a''], writer_node ''b'' [''src/b''], merge_node ''m'' [''a'', ''b'']],
     wf_edges := [plain_edge ''e'' ''a'' ''o'' ''m'' ''a'' None, plain_edge ''f'' ''b'' ''o'' ''m'' ''b'' None]\<rparr>"

lemma writers_compile: "\<exists>cw. compile no_parser writers_graph = Inr cw"
proof -
  have "case compile no_parser writers_graph of Inl _ \<Rightarrow> False | Inr _ \<Rightarrow> True" by code_simp
  then show ?thesis by (auto split: sum.splits)
qed

definition demo_run :: "graph_run_status \<Rightarrow> graph_run" where
  "demo_run st =
     \<lparr>gr_id = ''r'', gr_definition = (''w'', 1), gr_input = [], gr_target = None, gr_parent = None,
      gr_parent_node = None, gr_parent_iteration = 0, gr_status = st, gr_budget = plain_budget, gr_policy = [],
      gr_output_tokens = 0, gr_cost_usd = 0, gr_tool_calls = 0, gr_revision = 2, gr_started_at = Some 0,
      gr_completed_at = None, gr_updated_at = 0\<rparr>"

definition demo_node :: "string \<Rightarrow> string \<Rightarrow> node_run_status \<Rightarrow> string option \<Rightarrow> node_run" where
  "demo_node k i st a =
     \<lparr>nr_id = k, nr_run = ''r'', nr_node = i, nr_status = st, nr_inputs = [], nr_outputs = [], nr_attempt = a,
      nr_retries = 0, nr_iteration = 0, nr_signature = None, nr_repeats = 0, nr_worker = None, nr_lease = None,
      nr_wait_token = None, nr_revision = 2, nr_updated_at = 0\<rparr>"

definition demo_attempt :: "attempt_result \<Rightarrow> side_effect_state \<Rightarrow> node_attempt" where
  "demo_attempt res eff =
     \<lparr>at_id = ''t'', at_node_run = ''x'', at_number = 1, at_agent = None, at_result = res, at_payload = [],
      at_failure = None, at_effect = eff, at_key = Some ''r:a:0'', at_completed_at = None\<rparr>"

definition demo_store :: "graph_run_status \<Rightarrow> node_run_status \<Rightarrow> attempt_result \<Rightarrow> side_effect_state \<Rightarrow> graph_store" where
  \<comment> \<open>the first node has an attempt, the second waits for it\<close>
  "demo_store rs ns res eff =
     \<lparr>gs_definitions = [((''w'', 1), demo_graph)], gs_runs = [(''r'', demo_run rs)],
      gs_nodes = [(''x'', demo_node ''x'' ''a'' ns (if ns = NS_RUNNING then Some ''t'' else None)),
                  (''y'', demo_node ''y'' ''b'' NS_PENDING None)],
      gs_attempts = [(''t'', demo_attempt res eff)]\<rparr>"

lemmas store_samples = demo_run_def demo_node_def demo_attempt_def demo_store_def

lemma demo_store_wf: "store_wf (demo_store rs ns res eff)"
  by (simp add: store_wf_def store_samples)

lemmas run_eval = Let_def sx_simps propagate_dependencies_def propagate_pass_def propagate_node_def by_spec_of_def
  decide_node_def dependency_edges_def edge_state_def succeeded_edge_def skipped_edge_def active_if_def
  edge_condition_def find_spec_def dependency_decision_def active_edges_def add_input_def save_node_def
  save_run_def definition_and_node_def require_running_run_def finish_node_def update_node_run_def
  update_run_def update_attempt_def start_node_attempt_def finish_node_attempt_def gs_lookup_apply
  finish_if_terminal_def refresh_run_activity_status_def desired_status_def settle_run_def
  validate_port_values_def json_value_def env_to_py_def matches_port_type_def canonical_type_def
  port_type_aliases_def ascii_lower_def terminal_run_def nonterminal_node_def waiting_node_def
  unknown_non_idempotent_write_def release_node_def stop_node_def keep_result_def
  terminalize_active_nodes_def terminalize_node_def reset_interrupted_nodes_def reset_interrupted_node_def
  close_run_def mark_run_manual_reconcile_def

lemma demo_propagate:
  "propagate_dependencies no_parser 5 True ''r'' (demo_store RS_RUNNING NS_RUNNING AR_RUNNING SE_STARTED)
   = (Inr (), demo_store RS_RUNNING NS_RUNNING AR_RUNNING SE_STARTED)"
  by (simp add: run_eval store_samples graph_samples)

lemma demo_interrupt:
  "\<exists>r t. interrupt_run 5 ''r'' (demo_store RS_RUNNING NS_RUNNING AR_RUNNING SE_STARTED) = (Inr r, t)"
  by (simp add: interrupt_run_def run_eval store_samples graph_samples)

lemma demo_complete:
  "\<exists>r t. complete_attempt no_parser 5 ''t'' True (Some [(''o'', PInt 7)]) None None
     (demo_store RS_RUNNING NS_RUNNING AR_RUNNING SE_STARTED) = (Inr r, t)
     \<and> nr_status r = NS_SUCCEEDED \<and> map_option nr_status (map_of (gs_nodes t) ''y'') = Some NS_READY"
  by (simp add: complete_attempt_def run_eval store_samples graph_samples)

lemma demo_start:
  "\<exists>x t. start_attempt 6 ''u'' ''x'' None None None None (demo_store RS_RUNNING NS_READY AR_INTERRUPTED SE_STARTED)
     = (Inr x, t)"
  by (simp add: start_attempt_def run_eval store_samples graph_samples attempt_valid_def attempt_idempotency_key_def
      idempotency_key_def)

text \<open>A loop node on its own, and a condition that subscripts an empty list.\<close>

definition loop_graph :: workflow_definition where
  "loop_graph = (two_nodes None [])\<lparr>wf_nodes := [(agent_node ''a'' [] [] IC_PURE)\<lparr>nd_kind := NK_LOOP,
     nd_loop := Some \<lparr>max_iterations = 3, max_wall_seconds = 60, loop_max_output_tokens = 100, loop_max_cost_usd = 1,
       loop_max_subagents = 2, loop_max_recursion_depth = 1, max_no_progress_repeats = 2,
       exit_expression = ''true'', on_limit_node = ''b'', on_manual_reconcile_node = None\<rparr>\<rparr>], wf_edges := []\<rparr>"

definition with_graph :: "workflow_definition \<Rightarrow> graph_store \<Rightarrow> graph_store" where
  "with_graph d s = s\<lparr>gs_definitions := [((''w'', 1), d)]\<rparr>"

definition small_usage :: loop_usage where
  "small_usage = \<lparr>elapsed_seconds = PInt 1, loop_output_tokens = PInt 10, loop_cost_usd = PInt 0,
     loop_subagents = PInt 0, loop_recursion_depth = PInt 0\<rparr>"

definition index_parser :: "string \<Rightarrow> expr option" where
  "index_parser text = Some (ExSubscript (ExName ''o'') (ExConstant (PInt 0)))"

definition index_graph :: workflow_definition where
  "index_graph = two_nodes (Some ''o[0]'') []"

lemma demo_advance:
  "\<exists>m t. advance_loop no_parser 5 ''x'' True ''p'' None small_usage
     (with_graph loop_graph (demo_store RS_RUNNING NS_READY AR_FAILED SE_NONE)) = (Inr m, t) \<and> nr_status m = NS_READY"
proof -
  have "case advance_loop no_parser 5 ''x'' True ''p'' None small_usage
     (with_graph loop_graph (demo_store RS_RUNNING NS_READY AR_FAILED SE_NONE)) of (Inr m, t) \<Rightarrow> nr_status m = NS_READY | _ \<Rightarrow> False"
    by code_simp
  then show ?thesis by (auto split: sum.splits prod.splits)
qed
end
