(* ===== verification/Graph_Properties.thy ===== *)
theory Graph_Properties
  imports Graph_Samples
begin

section \<open>Workflow graphs: properties\<close>

text \<open>
  The claims about the graph compiler, repository and runtime, each followed by an application of it at
  the concrete inputs of \<open>Graph_Samples\<close>.
\<close>

subsection \<open>The runtime as a whole\<close>

text \<open>
  C1: Whatever sequence of calls is made, with whatever failures, from an empty store: every run and
  every node run was created in its initial state and has since taken only steps of its life cycle
  (\<open>run_step\<close>, \<open>node_step\<close>), and the store stays well-formed.
\<close>
theorem runtime_follows_lifecycle:
  "lifecycle node_step empty_store (graph_execute parse cs empty_store)"
  by (rule graph_execute_lifecycle [OF empty_store_wf])

text \<open>
  C16: A run that is completed, failed, cancelled or awaiting manual reconciliation keeps that status,
  its definition and its budget under every further sequence of calls, and none of the three counters of
  its usage (output tokens, cost, tool calls) ever shrinks.
\<close>
theorem terminal_runs_are_final:
  assumes "store_wf s" and "map_of (gs_runs s) i = Some r" and "terminal_run (gr_status r)"
  shows "\<exists>q. map_of (gs_runs (graph_execute parse cs s)) i = Some q \<and> gr_status q = gr_status r
    \<and> gr_definition q = gr_definition r \<and> gr_budget q = gr_budget r
    \<and> gr_output_tokens r \<le> gr_output_tokens q \<and> gr_cost_usd r \<le> gr_cost_usd q
    \<and> gr_tool_calls r \<le> gr_tool_calls q"
  using execute_run [OF assms(1,2)] run_steps_terminal run_steps_same run_steps_usage assms(3) by metis

theorem terminal_runs_are_final_witness:
  "\<exists>q. map_of (gs_runs (graph_execute no_parser [(9, OpRecover ''r'')]
       (demo_store RS_FAILED NS_FAILED AR_FAILED SE_STARTED))) ''r'' = Some q
    \<and> gr_status q = RS_FAILED \<and> gr_definition q = (''w'', 1) \<and> gr_budget q = plain_budget
    \<and> 0 \<le> gr_output_tokens q \<and> 0 \<le> gr_cost_usd q \<and> 0 \<le> gr_tool_calls q"
  using terminal_runs_are_final [OF demo_store_wf, of RS_FAILED NS_FAILED AR_FAILED SE_STARTED "''r''"
      "demo_run RS_FAILED" no_parser "[(9, OpRecover ''r'')]"]
  by (simp add: demo_store_def demo_run_def terminal_run_def)

text \<open>
  C19: At no time are more node runs of a run in status RUNNING than the graph's \<open>max_parallel_nodes\<close>;
  \<open>run_limit\<close> is that limit, and zero for a run that does not exist. It is node runs that are counted, as
  \<open>start_attempt\<close> counts them: \<open>advance_loop\<close> takes a started loop node out of the count without ending
  its attempt.
\<close>
theorem parallel_nodes_limited:
  "int (length (running_nodes i (graph_execute parse cs empty_store))) \<le> run_limit i (graph_execute parse cs empty_store)"
proof -
  have "parallel_ok empty_store"
    by (simp add: parallel_ok_def running_keys_def empty_store_def run_limit_def)
  then show ?thesis
    using execute_parallel [OF empty_store_wf] running_count [OF execute_wf [OF empty_store_wf]]
    by (auto simp: parallel_ok_def)
qed

text \<open>
  C2: A non-idempotent write of unknown outcome is never replayed: when a run with a running node whose
  latest attempt may have written is interrupted or recovered, the run awaits manual reconciliation,
  and after any further calls no attempt of any of its nodes starts.
\<close>
theorem unknown_write_not_replayed:
  assumes "store_wf s" and "map_of (gs_runs s) i = Some run" and "\<not> terminal_run (gr_status run)"
    and "n \<in> set (run_nodes i s)" and "unsafe_node s n"
    and "interrupt_run now i s = (Inr r, t) \<or> recover parse now i s = (Inr r, t)"
    and "map_of (gs_nodes (graph_execute parse cs t)) k = Some m" and "nr_run m = i"
  shows "gr_status r = RS_MANUAL_RECONCILE
    \<and> start_attempt now' a k w l g key (graph_execute parse cs t)
      = (Inl (GeState ''graph run is not running''), graph_execute parse cs t)"
proof -
  note manual = interrupted_manual [OF assms(1-6)]
  have "lifecycle node_step s t"
    using assms(1,6) stepping.follows_interrupt [of "{}" "{}" "{}" now i]
      stepping.follows_recover [of "{}" "{}" "{}" parse now i]
    by (force simp: follows_def snapshot_def)
  then have "store_wf t" by (rule lifecycle_wf)
  from execute_run [OF this manual(2), of parse cs] obtain q
    where q: "map_of (gs_runs (graph_execute parse cs t)) i = Some q" "run_step\<^sup>*\<^sup>* r q" .
  then have "gr_status q = RS_MANUAL_RECONCILE" using manual(1) run_steps_terminal [OF q(2)] by (simp add: terminal_run_def)
  then have "start_attempt now' a k w l g key (graph_execute parse cs t)
      = (Inl (GeState ''graph run is not running''), graph_execute parse cs t)"
    using q(1) assms(8) by (auto intro!: start_attempt_not_running [OF assms(7), of q])
  with manual(1) show ?thesis by simp
qed

theorem unknown_write_not_replayed_witness:
  "\<exists>r t m. interrupt_run 5 ''r'' (demo_store RS_RUNNING NS_RUNNING AR_RUNNING SE_STARTED) = (Inr r, t)
    \<and> gr_status r = RS_MANUAL_RECONCILE \<and> map_of (gs_nodes (graph_execute no_parser [] t)) ''x'' = Some m
    \<and> start_attempt 6 ''u'' ''x'' None None None None (graph_execute no_parser [] t)
      = (Inl (GeState ''graph run is not running''), graph_execute no_parser [] t)"
proof -
  let ?s = "demo_store RS_RUNNING NS_RUNNING AR_RUNNING SE_STARTED"
  let ?n = "demo_node ''x'' ''a'' NS_RUNNING (Some ''t'')"
  obtain r t where i: "interrupt_run 5 ''r'' ?s = (Inr r, t)" using demo_interrupt by blast
  then obtain m where m: "map_of (gs_nodes t) ''x'' = Some m" "nr_run m = ''r''"
    by (auto simp: interrupt_run_def run_eval store_samples graph_samples)
  have "unsafe_node ?s ?n"
    by (simp add: unsafe_node_def attempts_of_def run_eval store_samples graph_samples)
  moreover have "?n \<in> set (run_nodes ''r'' ?s)" by (simp add: run_nodes_def store_samples)
  moreover have "map_of (gs_runs ?s) ''r'' = Some (demo_run RS_RUNNING)" by (simp add: demo_store_def)
  moreover have "\<not> terminal_run (gr_status (demo_run RS_RUNNING))" by (simp add: demo_run_def terminal_run_def)
  ultimately show ?thesis
    using unknown_write_not_replayed [OF demo_store_wf _ _ _ _ disjI1 [OF i], of "demo_run RS_RUNNING" ?n
        no_parser "[]" "''x''" m 6 "''u''" None None None None] i m
    by auto
qed

text \<open>
  An attempt that is no longer running is fenced off for good: after any further calls, completing
  it or marking its side effect is refused and changes nothing.
\<close>
theorem finished_attempts_are_fenced:
  assumes "map_of (gs_attempts s) a = Some x" and "at_result x \<noteq> AR_RUNNING"
  shows "complete_attempt parse' now a ok out f e (graph_execute parse cs s)
      = (Inl (GeState ''attempt is already terminal''), graph_execute parse cs s)
    \<and> mark_side_effect_started a (graph_execute parse cs s)
      = (Inl (GeState ''attempt is already terminal''), graph_execute parse cs s)"
  using complete_settled [OF settled_attempt [OF assms, of parse cs] assms(2)] by simp_all

theorem finished_attempts_are_fenced_witness:
  "complete_attempt no_parser 9 ''t'' True None None None
     (graph_execute no_parser [(8, OpRecover ''r'')] (demo_store RS_RUNNING NS_READY AR_INTERRUPTED SE_NOT_STARTED))
   = (Inl (GeState ''attempt is already terminal''),
      graph_execute no_parser [(8, OpRecover ''r'')] (demo_store RS_RUNNING NS_READY AR_INTERRUPTED SE_NOT_STARTED))"
  using finished_attempts_are_fenced [of "demo_store RS_RUNNING NS_READY AR_INTERRUPTED SE_NOT_STARTED" "''t''"
      "demo_attempt AR_INTERRUPTED SE_NOT_STARTED" no_parser 9 True None None None no_parser "[(8, OpRecover ''r'')]"]
  by (simp add: demo_store_def demo_attempt_def)

text \<open>
  No update of a run is lost: of two writers that read the same revision of a run, the second is
  refused without effect, whatever calls come between them.
\<close>
theorem lost_run_update_refused:
  assumes "update_run q n s = (Inr u, t)" and "gr_id p = gr_id q"
  shows "\<exists>e. update_run p n (graph_execute parse cs t) = (Inl e, graph_execute parse cs t)"
  using run_store.lost_update_refused [OF assms(1) _ assms(2)] graph_execute_evolves [of t parse cs]
  by (simp add: evolves_def)

theorem lost_run_update_refused_witness:
  "\<exists>e t. update_run (demo_run RS_FAILED\<lparr>gr_revision := 3\<rparr>) 2 (demo_store RS_RUNNING NS_READY AR_FAILED SE_NONE)
      = (Inr (), t)
    \<and> update_run (demo_run RS_CANCELLED\<lparr>gr_revision := 3\<rparr>) 2 (graph_execute no_parser [] t) = (Inl e, t)"
proof -
  let ?q = "demo_run RS_FAILED\<lparr>gr_revision := 3\<rparr>" and ?p = "demo_run RS_CANCELLED\<lparr>gr_revision := 3\<rparr>"
  let ?s = "demo_store RS_RUNNING NS_READY AR_FAILED SE_NONE"
  obtain t where t: "update_run ?q 2 ?s = (Inr (), t)"
    by (simp add: update_run_def gs_lookup_apply sx_simps store_samples)
  from lost_run_update_refused [OF this, of ?p no_parser "[]"] show ?thesis
    using t by (auto simp: demo_run_def)
qed

subsection \<open>Propagation\<close>

text \<open>
  C18: Dependency propagation always comes to rest: on every store the runtime can reach, the repeated
  passes over the pending nodes end within the fuel of the model, one more than the number of node runs.
\<close>
theorem propagation_terminates:
  "fst (propagate_dependencies parse now excl i (graph_execute parse' cs empty_store)) \<noteq> Inl GeNoReturn"
  by (rule propagate_returns [OF execute_wf [OF empty_store_wf]])

text \<open>
  C17: Propagation leaves no deadlock: when it is done and the definition compiles, every node that is not
  finished has, at or before it along the forward edges, a node that is active or waiting, or that
  nothing precedes.
\<close>
theorem propagation_makes_progress:
  assumes "compile parse' def = Inr cw"
    and "map_of (gs_runs s) i = Some run" and "map_of (gs_definitions s) (gr_definition run) = Some def"
    and "propagate_dependencies parse now True i s = (Inr u, t)"
    and "map_of (by_spec_of (run_nodes i t)) k = Some n" and "nonterminal_node (nr_status n)"
  shows "\<exists>j m. map_of (by_spec_of (run_nodes i t)) j = Some m
    \<and> (j, k) \<in> (edge_relation (forward_edges (wf_edges def)))\<^sup>* \<and> can_act def j m"
proof -
  obtain run' def' where "map_of (gs_runs s) i = Some run'" "map_of (gs_definitions s) (gr_definition run') = Some def'"
    "stable parse True def' (gr_input run') (run_nodes i t)" by (rule propagate_stable [OF assms(4)])
  with assms(2,3) have "stable parse True def (gr_input run) (run_nodes i t)" by simp
  from stable_progress [OF this compile_order(4) [OF assms(1)] assms(5,6)] show ?thesis .
qed

theorem propagation_makes_progress_witness:
  "\<exists>j m. map_of (by_spec_of (run_nodes ''r'' (demo_store RS_RUNNING NS_RUNNING AR_RUNNING SE_STARTED))) j = Some m
    \<and> (j, ''b'') \<in> (edge_relation (forward_edges (wf_edges demo_graph)))\<^sup>* \<and> can_act demo_graph j m"
  by (rule propagation_makes_progress [OF demo_compiles _ _ demo_propagate, of "demo_run RS_RUNNING" _
        "demo_node ''y'' ''b'' NS_PENDING None"])
    (simp_all add: by_spec_of_def run_nodes_def store_samples nonterminal_node_def)

subsection \<open>Compilation\<close>

text \<open>
  C28: The order of a compiled graph is a topological order: it lists every node exactly once, and the
  source of every edge that is not a loop-back stands before its target.
\<close>
theorem compiled_order_is_topological:
  assumes "compile parse def = Inr cw"
  shows "distinct (cw_order cw) \<and> set (cw_order cw) = set (map nd_id (wf_nodes def))
    \<and> (\<forall>e \<in> set (wf_edges def). \<not> ed_loop_back e \<longrightarrow>
        (\<exists>xs ys zs. cw_order cw = xs @ ed_source e # ys @ ed_target e # zs))"
proof -
  note order = compile_order [OF assms]
  have "ed_target e \<in> set (cw_order cw)" if "e \<in> set (wf_edges def)" for e
    using compile_endpoints [OF assms that] order(2) by (metis image_eqI list.set_map)
  then show ?thesis using order ordered_before [OF order(3,1)] by blast
qed

theorem compiled_order_is_topological_witness:
  "distinct [''a'', ''b''] \<and> (\<exists>xs ys zs. [''a'', ''b''] = xs @ ''a'' # ys @ ''b'' # zs)"
  using compiled_order_is_topological [OF demo_compiles] by (simp add: demo_compiled_def graph_samples)

text \<open>
  A graph whose forward edges contain a cycle does not compile: the issues name the illegal cycle,
  whatever else is wrong with the graph.
\<close>
theorem cyclic_graph_rejected:
  assumes "distinct (map nd_id (wf_nodes def))" and "distinct (map ed_id (wf_edges def))"
    and "\<And>e. e \<in> set (wf_edges def) \<Longrightarrow>
      ed_source e \<in> nd_id ` set (wf_nodes def) \<and> ed_target e \<in> nd_id ` set (wf_nodes def)"
    and "(n, n) \<in> (edge_relation (forward_edges (wf_edges def)))\<^sup>+"
  shows "(\<exists>e. compile parse def = Inl e)
    \<and> (\<forall>issues. compile parse def = Inl (GeCompilation issues) \<longrightarrow> issue ''illegal_cycle'' \<in> set issues)"
proof -
  have cyclic: "\<not> acyclic (edge_relation (forward_edges (wf_edges def)))" using assms(4) by (auto simp: acyclic_def)
  have "compile parse def \<noteq> Inr cw" for cw using compile_order(4) [of parse def cw] cyclic by blast
  then have "\<exists>e. compile parse def = Inl e" by (cases "compile parse def") auto
  with cycle_reported [OF assms(1-3) cyclic] show ?thesis by blast
qed

theorem cyclic_graph_rejected_witness:
  "\<exists>e. compile no_parser (two_nodes None [plain_edge ''f'' ''b'' ''o'' ''a'' ''i'' None]) = Inl e"
proof -
  let ?def = "two_nodes None [plain_edge ''f'' ''b'' ''o'' ''a'' ''i'' None]"
  have step: "(''a'', ''b'') \<in> edge_relation (forward_edges (wf_edges ?def))"
    "(''b'', ''a'') \<in> edge_relation (forward_edges (wf_edges ?def))"
    by (simp_all add: edge_relation_def forward_edges_def graph_samples)
  then have "(''a'', ''a'') \<in> (edge_relation (forward_edges (wf_edges ?def)))\<^sup>+" by (meson trancl.simps)
  moreover have "ed_source e \<in> nd_id ` set (wf_nodes ?def) \<and> ed_target e \<in> nd_id ` set (wf_nodes ?def)"
    if "e \<in> set (wf_edges ?def)" for e using that by (auto simp: graph_samples)
  moreover have "distinct (map nd_id (wf_nodes ?def))" "distinct (map ed_id (wf_edges ?def))"
    by (simp_all add: graph_samples)
  ultimately show ?thesis using cyclic_graph_rejected by blast
qed

text \<open>
  C29: In a compiled graph two workspace writers never own the same file, have different keys and
  isolated workspaces, and both lie before one merge node that names the two as its sources.
\<close>
theorem writers_are_exclusive:
  assumes "compile parse def = Inr cw"
    and "u \<in> set (wf_nodes def)" "nd_writes u" "nd_kind u \<noteq> NK_MERGE"
    and "v \<in> set (wf_nodes def)" "nd_writes v" "nd_kind v \<noteq> NK_MERGE"
    and "nd_id u \<noteq> nd_id v"
  shows "\<exists>p q m mp. nd_writer u = Some p \<and> nd_writer v = Some q
    \<and> writer_key p \<noteq> writer_key q \<and> isolation_ref p \<noteq> isolation_ref q
    \<and> (\<nexists>a b f. a \<in> set (ownership_paths p) \<and> b \<in> set (ownership_paths q) \<and> owns a f \<and> owns b f)
    \<and> m \<in> set (wf_nodes def) \<and> nd_kind m = NK_MERGE \<and> nd_merge m = Some mp
    \<and> {writer_key p, writer_key q} \<subseteq> set (source_writer_keys mp)
    \<and> (nd_id u, nd_id m) \<in> (edge_relation (forward_edges (wf_edges def)))\<^sup>*
    \<and> (nd_id v, nd_id m) \<in> (edge_relation (forward_edges (wf_edges def)))\<^sup>*"
  by (rule compile_writers [OF assms]) blast

theorem writers_are_exclusive_witness:
  "\<exists>m mp. m \<in> set (wf_nodes writers_graph) \<and> nd_kind m = NK_MERGE \<and> nd_merge m = Some mp
    \<and> {''a'', ''b''} \<subseteq> set (source_writer_keys mp)
    \<and> (''a'', nd_id m) \<in> (edge_relation (forward_edges (wf_edges writers_graph)))\<^sup>*"
proof -
  obtain cw where "compile no_parser writers_graph = Inr cw" using writers_compile by blast
  from writers_are_exclusive [OF this, of "writer_node ''a'' [''src/a'']" "writer_node ''b'' [''src/b'']"]
  show ?thesis by (simp add: writers_graph_def writer_node_def agent_node_def) blast
qed

text \<open>
  The depth-first search that decides whether a writer reaches its merge node computes the reflexive
  transitive closure of the forward edges, also on graphs with cycles.
\<close>
theorem node_reaches_is_closure:
  "node_reaches es source goal \<longleftrightarrow> (source, goal) \<in> (edge_relation (forward_edges es))\<^sup>*"
  by (simp add: node_reaches_iff forward_edges_def)

subsection \<open>Node attempts\<close>

text \<open>
  An attempt only starts on a ready node of a running run with a free slot, on inputs that have
  every required port and match the declared port types, under a fresh identifier, and the node then
  runs that attempt.
\<close>
theorem start_attempt_admits:
  assumes "start_attempt now a k w l g key s = (Inr x, t)"
  shows "\<exists>n run def spec m. map_of (gs_nodes s) k = Some n \<and> nr_status n \<in> {NS_READY, NS_RETRY_WAIT}
    \<and> map_of (gs_runs s) (nr_run n) = Some run \<and> gr_status run = RS_RUNNING
    \<and> map_of (gs_definitions s) (gr_definition run) = Some def
    \<and> int (length (running_nodes (nr_run n) s)) < max_parallel_nodes (wf_limits def)
    \<and> find_spec def (nr_node n) = Inr spec
    \<and> typed_values (nd_inputs spec) (nr_inputs n)
    \<and> map_of (gs_attempts s) a = None \<and> map_of (gs_attempts t) a = Some x
    \<and> map_of (gs_nodes t) (nr_id n) = Some m \<and> nr_status m = NS_RUNNING \<and> nr_attempt m = Some a"
proof -
  from assms obtain n run def spec where
    n: "map_of (gs_nodes s) k = Some n" "nr_status n \<in> {NS_READY, NS_RETRY_WAIT}"
    "map_of (gs_runs s) (nr_run n) = Some run" "gr_status run = RS_RUNNING"
    "map_of (gs_definitions s) (gr_definition run) = Some def"
    "list_find (\<lambda>m. nd_id m = nr_node n) (wf_nodes def) = Some spec"
    and inputs: "validate_port_values (nd_inputs spec) (nr_inputs n) True = Inr ()"
    and rest: "int (length (running_nodes (nr_run n) s)) < max_parallel_nodes (wf_limits def)"
    "map_of (gs_attempts s) a = None"
    and t: "t = s\<lparr>gs_attempts := AList.update a x (gs_attempts s),
       gs_nodes := AList.update (nr_id n) (n\<lparr>nr_status := NS_RUNNING, nr_attempt := Some a, nr_worker := w,
         nr_lease := l, nr_revision := nr_revision n + 1, nr_updated_at := now\<rparr>) (gs_nodes s)\<rparr>"
    by (rule start_attempt_Inr)
  have typed: "typed_values (nd_inputs spec) (nr_inputs n)" by (rule validated_typed [OF inputs])
  have "find_spec def (nr_node n) = Inr spec" using n(6) by (simp add: find_spec_def)
  then show ?thesis using n rest typed unfolding t by (auto simp: map_of_update)
qed

theorem start_attempt_admits_witness:
  "\<exists>x t. start_attempt 6 ''u'' ''x'' None None None None (demo_store RS_RUNNING NS_READY AR_INTERRUPTED SE_STARTED)
      = (Inr x, t)
    \<and> map_of (gs_attempts t) ''u'' = Some x"
proof -
  obtain x t where "start_attempt 6 ''u'' ''x'' None None None None
      (demo_store RS_RUNNING NS_READY AR_INTERRUPTED SE_STARTED) = (Inr x, t)"
    using demo_start by blast
  with start_attempt_admits [OF this] show ?thesis by blast
qed

text \<open>
  C32: A node run succeeds by \<open>complete_attempt\<close> only with outputs that have every required port and match
  the declared port types, and only if the attempt reports success with a known effect.
\<close>
theorem completed_outputs_typed:
  assumes "complete_attempt parse now a ok out f e s = (Inr m, t)" and "nr_status m = NS_SUCCEEDED"
  shows "ok \<and> e \<noteq> Some SE_UNKNOWN \<and> nr_outputs m = (case out of None \<Rightarrow> [] | Some v \<Rightarrow> v)
    \<and> (\<exists>x n d spec. map_of (gs_attempts s) a = Some x \<and> map_of (gs_nodes s) (at_node_run x) = Some n
      \<and> nr_attempt n = Some (at_id x) \<and> definition_and_node n s = (Inr (d, spec), s)
      \<and> typed_values (nd_outputs spec) (nr_outputs m))"
  by (rule completion_Inr [OF assms]) (blast dest: validated_typed)


theorem completed_outputs_typed_witness:
  "\<exists>m t. complete_attempt no_parser 5 ''t'' True (Some [(''o'', PInt 7)]) None None
      (demo_store RS_RUNNING NS_RUNNING AR_RUNNING SE_STARTED) = (Inr m, t)
    \<and> nr_outputs m = [(''o'', PInt 7)]"
proof -
  obtain m t where c: "complete_attempt no_parser 5 ''t'' True (Some [(''o'', PInt 7)]) None None
      (demo_store RS_RUNNING NS_RUNNING AR_RUNNING SE_STARTED) = (Inr m, t)" "nr_status m = NS_SUCCEEDED"
    using demo_complete by blast
  from completed_outputs_typed [OF this] c(1) show ?thesis by auto
qed

text \<open>
  C30: A loop that goes on, or exits as completed, is within every limit of its policy: iterations,
  repeats without progress, time, tokens, cost, sub-agents and recursion depth.
\<close>
theorem loop_continues_within_limits:
  assumes "advance_loop parse now k continue_loop sig out u s = (Inr m, t)" and "nr_status m \<noteq> NS_SKIPPED"
  shows "\<exists>n d spec p. map_of (gs_nodes s) k = Some n \<and> definition_and_node n s = (Inr (d, spec), s)
    \<and> nd_loop spec = Some p \<and> nr_iteration m = nr_iteration n + 1
    \<and> nr_iteration m \<le> max_iterations p \<and> (continue_loop \<longrightarrow> nr_iteration m < max_iterations p)
    \<and> (nr_signature n = Some sig \<longrightarrow> nr_repeats n + 1 < max_no_progress_repeats p)
    \<and> number_value (elapsed_seconds u) \<le> of_int (max_wall_seconds p)
    \<and> py_int_value (loop_output_tokens u) \<le> loop_max_output_tokens p
    \<and> number_value (loop_cost_usd u) \<le> loop_max_cost_usd p
    \<and> py_int_value (loop_subagents u) \<le> loop_max_subagents p
    \<and> py_int_value (loop_recursion_depth u) \<le> loop_max_recursion_depth p
    \<and> (nr_status m = NS_SUCCEEDED \<longleftrightarrow> \<not> continue_loop)"
proof -
  obtain n d spec p where n: "map_of (gs_nodes s) k = Some n" "definition_and_node n s = (Inr (d, spec), s)"
    "nd_loop spec = Some p" "nr_iteration m = nr_iteration n + 1"
    and none: "limit_reasons p continue_loop (nr_iteration m)
      (if nr_signature n = Some sig then nr_repeats n + 1 else 0) u = []"
    and exit: "nr_status m = NS_SUCCEEDED \<longleftrightarrow> \<not> continue_loop"
    by (rule advance_loop_Inr [OF assms])
  have "nr_signature n = Some sig \<longrightarrow> nr_repeats n + 1 < max_no_progress_repeats p"
    using none by (auto simp: limit_reasons_Nil)
  with n none exit show ?thesis unfolding limit_reasons_Nil by blast
qed

theorem loop_continues_within_limits_witness:
  "\<exists>m t. advance_loop no_parser 5 ''x'' True ''p'' None small_usage
      (with_graph loop_graph (demo_store RS_RUNNING NS_READY AR_FAILED SE_NONE)) = (Inr m, t) \<and> nr_iteration m = 1"
proof -
  obtain m t where a: "advance_loop no_parser 5 ''x'' True ''p'' None small_usage
      (with_graph loop_graph (demo_store RS_RUNNING NS_READY AR_FAILED SE_NONE)) = (Inr m, t)" "nr_status m = NS_READY"
    using demo_advance by blast
  then have "nr_status m \<noteq> NS_SKIPPED" by simp
  from loop_continues_within_limits [OF a(1) this] a(1) show ?thesis
    by (auto simp: with_graph_def demo_store_def demo_node_def)
qed

subsection \<open>Sub-workflows\<close>

definition costed_run :: graph_run where
  "costed_run = (demo_run RS_RUNNING)\<lparr>gr_budget := plain_budget\<lparr>max_cost_usd := Some (binary64 (1 / 10))\<rparr>\<rparr>"

text \<open>
  C31: The budget reserved for a sub-workflow fits into what is left of the parent's: times the number of
  reservations of the graph it stays within the parent's turns, tokens and, with the bounded actions,
  tool calls; and it is a valid budget. Its cost is at most the parent's divided by the reservations and
  rounded to a float, so that times the reservations it stays within the parent's cost but for the
  rounding: one part in \<open>2 ^ 53\<close>, and the least float for each reservation.
\<close>
theorem child_reservations_fit:
  assumes "child_budget now parent def node child = Inr b"
  shows "budget_valid b \<and> reservation_slots def * max_turns b \<le> max_turns (gr_budget parent)
    \<and> (case max_output_tokens (gr_budget parent) of None \<Rightarrow> True
       | Some v \<Rightarrow> \<exists>c. max_output_tokens b = Some c \<and> reservation_slots def * c \<le> v)
    \<and> (case max_tool_calls (gr_budget parent) of None \<Rightarrow> True
       | Some v \<Rightarrow> \<exists>c. max_tool_calls b = Some c \<and> reservation_slots def * c + action_allowance def \<le> v)
    \<and> (case max_cost_usd (gr_budget parent) of None \<Rightarrow> True
       | Some v \<Rightarrow> \<exists>c. max_cost_usd b = Some c \<and> c \<le> binary64 (v / of_int (reservation_slots def))
           \<and> of_int (reservation_slots def) * c \<le> v + \<bar>v\<bar> / 2 ^ 53 + of_int (reservation_slots def) / 2 ^ 1075)"
  using child_budget_Inr(1-5) [OF assms] rounded_shares_fit [OF reservation_slots_pos]
  by (auto split: option.splits simp del: power_numeral)

theorem child_reservations_fit_witness:
  "\<exists>b c k. child_budget 60000000 costed_run demo_graph (agent_node ''a'' [] [''o''] IC_PURE) demo_graph = Inr b
    \<and> max_output_tokens b = Some k \<and> reservation_slots demo_graph * k \<le> 1000
    \<and> max_cost_usd b = Some c \<and> c \<le> binary64 (binary64 (1 / 10) / of_int (reservation_slots demo_graph))"
proof -
  have "case child_budget 60000000 costed_run demo_graph (agent_node ''a'' [] [''o''] IC_PURE) demo_graph of
      Inl _ \<Rightarrow> False | Inr _ \<Rightarrow> True" by code_simp
  then obtain b where "child_budget 60000000 costed_run demo_graph (agent_node ''a'' [] [''o''] IC_PURE) demo_graph = Inr b"
    by (auto split: sum.splits)
  with child_reservations_fit [OF this] show ?thesis by (auto simp: costed_run_def demo_run_def plain_budget_def)
qed

text \<open>
  The budget check of a tree of sub-workflows ends on every tree that was admitted: the recursion
  over the definitions never goes deeper than the admission allowed.
\<close>
theorem admitted_budget_check_terminates:
  assumes "validate_subgraph_tree parse defs def = Inr ()"
  shows "validate_budget_tree defs now (nat (min 32 (graph_max_recursion_depth (wf_limits def)))) run def \<noteq> Inl GeNoReturn"
proof -
  from assms obtain r where "visit_subgraph parse defs (graph_max_subagents (wf_limits def))
      (nat (min 32 (graph_max_recursion_depth (wf_limits def)))) [] 0 def = Inr r"
    by (auto simp: validate_subgraph_tree_def Let_def res_bind_Inr_iff)
  then show ?thesis by (rule visited_budget_returns)
qed

theorem admitted_budget_check_terminates_witness:
  "validate_subgraph_tree no_parser [] demo_graph = Inr ()
    \<and> validate_budget_tree [] 5 (nat (min 32 4)) (demo_run RS_CREATED) demo_graph \<noteq> Inl GeNoReturn"
proof -
  have "validate_subgraph_tree no_parser [] demo_graph = Inr ()" by code_simp
  with admitted_budget_check_terminates [OF this] show ?thesis by (simp add: demo_graph_def two_nodes_def plain_limits_def)
qed

subsection \<open>A condition that raises\<close>

text \<open>
  A condition that subscripts past the end of a list raises \<open>IndexError\<close> out of the completion of its
  source node after that node's success was committed; the run stays running, and recovery raises again.
\<close>
theorem index_error_strands_run:
  "case complete_attempt index_parser 5 ''t'' True (Some [(''o'', PList [])]) None None
      (with_graph index_graph (demo_store RS_RUNNING NS_RUNNING AR_RUNNING SE_STARTED)) of
      (Inl e, t) \<Rightarrow> e = GeIndexError \<and> map_option nr_status (map_of (gs_nodes t) ''x'') = Some NS_SUCCEEDED
        \<and> map_option gr_status (map_of (gs_runs t) ''r'') = Some RS_RUNNING
        \<and> fst (recover index_parser 9 ''r'' t) = Inl GeIndexError
    | _ \<Rightarrow> False"
  by code_simp

end
