(* ===== verification/Sched_Time.thy ===== *)
theory Sched_Time
  imports Py_Value
begin

section \<open>Scheduler: dates and timestamps\<close>

text \<open>
  The dates and timestamps of \<open>operant/domain/scheduler.py\<close> and their text in the database
  (\<open>_dt\<close> and \<open>_parse_dt\<close> of \<open>operant/persistence/scheduler.py\<close>). A date is its proleptic Gregorian
  ordinal, 1 for 1 January of year 1, as \<open>date.toordinal\<close> counts. A timestamp is the number of
  microseconds since the start of that day, in UTC. The SQL statements compare the stored texts;
  that this is the order of the instants, and that parsing gives back the instant, is proved here,
  and the store works on instants.
\<close>

subsection \<open>Dates\<close>

definition leap :: "int \<Rightarrow> bool" where
  "leap y \<longleftrightarrow> y mod 4 = 0 \<and> (y mod 100 \<noteq> 0 \<or> y mod 400 = 0)"

definition days_before_year :: "int \<Rightarrow> int" where
  "days_before_year y = (y - 1) * 365 + (y - 1) div 4 - (y - 1) div 100 + (y - 1) div 400"

definition month_lengths :: "int \<Rightarrow> int list" where
  "month_lengths y = [31, if leap y then 29 else 28, 31, 30, 31, 30, 31, 31, 30, 31, 30, 31]"

fun locate_month :: "int \<Rightarrow> int list \<Rightarrow> int \<Rightarrow> int \<times> int" where
  "locate_month m [] k = (m, k)"
| "locate_month m (l # ls) k = (if k \<le> l then (m, k) else locate_month (m + 1) ls (k - l))"

definition year_of :: "int \<Rightarrow> int" where
  \<comment> \<open>an upper estimate, corrected downwards\<close>
  "year_of n =
     (let y = (n * 400) div 146097 + 2 in
      if days_before_year y < n then y
      else if days_before_year (y - 1) < n then y - 1
      else if days_before_year (y - 2) < n then y - 2
      else y - 3)"

definition date_of :: "int \<Rightarrow> int \<times> int \<times> int" where
  "date_of n = (let y = year_of n in (y, locate_month 1 (month_lengths y) (n - days_before_year y)))"

definition ordinal_of :: "int \<Rightarrow> int \<Rightarrow> int \<Rightarrow> int" where
  "ordinal_of y m d = days_before_year y + sum_list (take (nat (m - 1)) (month_lengths y)) + d"

definition weekday_of :: "int \<Rightarrow> int" where
  \<comment> \<open>\<open>date.weekday()\<close>: Monday is 0\<close>
  "weekday_of n = (n + 6) mod 7"

lemma div_pred:
  assumes "0 < k"
  shows "(y::int) div k = (y - 1) div k + (if y mod k = 0 then 1 else 0)"
proof (cases "y mod k = 0")
  case True
  then have "y - 1 = k * (y div k - 1) + (k - 1)"
    using div_mult_mod_eq [of y k] by (simp add: algebra_simps)
  then have "(y - 1) div k = y div k - 1" by (rule int_div_pos_eq) (use assms in auto)
  with True show ?thesis by simp
next
  case False
  then have "y - 1 = k * (y div k) + (y mod k - 1)" "0 \<le> y mod k - 1" "y mod k - 1 < k"
    using div_mult_mod_eq [of y k] pos_mod_sign [OF assms, of y] pos_mod_bound [OF assms, of y]
    by (auto simp: algebra_simps)
  then have "(y - 1) div k = y div k" by (intro int_div_pos_eq) auto
  with False show ?thesis by simp
qed

lemma div_near:
  assumes "0 < k"
  shows "k * ((x::int) div k) \<le> x" "x < k * (x div k) + k"
  using mult_div_mod_eq [of k x] pos_mod_sign [OF assms, of x] pos_mod_bound [OF assms, of x] by linarith+

lemma days_before_near:
  "400 * days_before_year (x + 1) \<le> 146097 * x + 396" "146097 * x - 699 \<le> 400 * days_before_year (x + 1)"
proof -
  obtain a b c where abc: "x div 4 = a" "x div 100 = b" "x div 400 = c" by blast
  show "400 * days_before_year (x + 1) \<le> 146097 * x + 396" and "146097 * x - 699 \<le> 400 * days_before_year (x + 1)"
    using div_near [of 4 x, simplified] div_near [of 100 x, simplified] div_near [of 400 x, simplified]
    unfolding days_before_year_def add_diff_cancel_right' abc by (simp_all add: algebra_simps)
qed

lemma days_before_next: "days_before_year (y + 1) = days_before_year y + (if leap y then 366 else 365)"
proof -
  have step: "y div 4 = (y - 1) div 4 + (if y mod 4 = 0 then 1 else 0)"
    "y div 100 = (y - 1) div 100 + (if y mod 100 = 0 then 1 else 0)"
    "y div 400 = (y - 1) div 400 + (if y mod 400 = 0 then 1 else 0)" by (rule div_pred, simp)+
  have "(4::int) dvd 100" "(100::int) dvd 400" by simp_all
  then have mods: "y mod 100 = 0 \<Longrightarrow> y mod 4 = 0" "y mod 400 = 0 \<Longrightarrow> y mod 100 = 0"
    unfolding mod_eq_0_iff_dvd using dvd_trans by blast+
  have shift: "y * 365 + (a + u) - (b + v) + (c + w) = (y - 1) * 365 + a - b + c + (365 + u - v + w)"
    for a b c u v w by simp
  have "days_before_year (y + 1) = days_before_year y + (365 + (if y mod 4 = 0 then 1 else 0)
      - (if y mod 100 = 0 then 1 else 0) + (if y mod 400 = 0 then 1 else 0))"
    unfolding days_before_year_def add_diff_cancel_right' step by (rule shift)
  moreover have "365 + (if y mod 4 = 0 then 1 else 0) - (if y mod 100 = 0 then 1 else 0)
      + (if y mod 400 = 0 then 1 else 0) = (if leap y then 366 else (365::int))"
    using mods unfolding leap_def by (cases "y mod 4 = 0"; cases "y mod 100 = 0"; cases "y mod 400 = 0"; simp)
  ultimately show ?thesis by simp
qed

lemma days_before_step: "days_before_year y + 365 \<le> days_before_year (y + 1)"
  by (simp add: days_before_next)

lemma days_before_less:
  assumes "x < y"
  shows "days_before_year x + 365 \<le> days_before_year y"
  using assms
proof (induction "nat (y - x - 1)" arbitrary: y)
  case 0
  then have "y = x + 1" by simp
  then show ?case using days_before_step [of x] by simp
next
  case (Suc k)
  then have "k = nat (y - 1 - x - 1)" "x < y - 1" by auto
  from Suc(1) [OF this] days_before_step [of "y - 1"] show ?case by simp
qed

lemma days_before_mono: "x \<le> y \<Longrightarrow> days_before_year x \<le> days_before_year y"
  using days_before_less [of x y] by (cases "x = y") auto

lemma year_unique:
  assumes "days_before_year x < n" "n \<le> days_before_year (x + 1)"
    and "days_before_year y < n" "n \<le> days_before_year (y + 1)"
  shows "x = y"
proof (rule ccontr)
  assume "x \<noteq> y"
  then have "x + 1 \<le> y \<or> y + 1 \<le> x" by linarith
  then have "days_before_year (x + 1) \<le> days_before_year y \<or> days_before_year (y + 1) \<le> days_before_year x"
    using days_before_less [of "x + 1" y] days_before_less [of "y + 1" x] by force
  then show False using assms by linarith
qed

lemma year_of_bounds: "days_before_year (year_of n) < n \<and> n \<le> days_before_year (year_of n + 1)"
proof -
  obtain q where q: "(n * 400) div 146097 = q" by blast
  then have near: "146097 * q \<le> n * 400" "n * 400 < 146097 * q + 146097"
    using div_near [of 146097 "n * 400"] by auto
  have upper: "n \<le> days_before_year (q + 3)" using near days_before_near(2) [of "q + 2"] by (simp add: add.assoc)
  have lower: "days_before_year (q - 1) < n" using near days_before_near(1) [of "q - 2"] by simp
  show ?thesis
    unfolding year_of_def Let_def q using upper lower by (auto simp: algebra_simps)
qed

lemma year_of_eq: "days_before_year y < n \<Longrightarrow> n \<le> days_before_year (y + 1) \<Longrightarrow> year_of n = y"
  using year_unique year_of_bounds by blast

lemma sum_month_lengths: "sum_list (month_lengths y) = (if leap y then 366 else 365)"
  by (simp add: month_lengths_def)

lemma month_lengths_props: "length (month_lengths y) = 12" "\<forall>l \<in> set (month_lengths y). 1 \<le> l \<and> l \<le> 31"
  by (simp_all add: month_lengths_def)

lemma locate_month_facts:
  assumes "0 < k" and "k \<le> sum_list ls"
  obtains j where "j < length ls" "locate_month m ls k = (m + int j, k - sum_list (take j ls))"
    "0 < k - sum_list (take j ls)" "k - sum_list (take j ls) \<le> ls ! j"
  using assms
proof (induction ls arbitrary: m k thesis)
  case (Cons l ls)
  show ?case
  proof (cases "k \<le> l")
    case True
    with Cons.prems show ?thesis by (intro Cons.prems(1) [of 0]) simp_all
  next
    case False
    with Cons.prems have "0 < k - l" "k - l \<le> sum_list ls" by simp_all
    from Cons.IH [OF _ this, of "m + 1"] obtain j where "j < length ls"
      "locate_month (m + 1) ls (k - l) = (m + 1 + int j, k - l - sum_list (take j ls))"
      "0 < k - l - sum_list (take j ls)" "k - l - sum_list (take j ls) \<le> ls ! j" .
    with False show ?thesis by (intro Cons.prems(1) [of "Suc j"]) simp_all
  qed
qed simp

lemma date_of_facts:
  obtains m d where "date_of n = (year_of n, m, d)" "1 \<le> m" "m \<le> 12" "1 \<le> d" "d \<le> 31"
    "d \<le> month_lengths (year_of n) ! nat (m - 1)" "ordinal_of (year_of n) m d = n"
proof -
  let ?y = "year_of n"
  let ?k = "n - days_before_year ?y"
  have k: "0 < ?k" "?k \<le> sum_list (month_lengths ?y)"
    using year_of_bounds [of n] by (simp_all add: days_before_next sum_month_lengths split: if_splits)
  obtain j where j: "j < length (month_lengths ?y)"
    "locate_month 1 (month_lengths ?y) ?k = (1 + int j, ?k - sum_list (take j (month_lengths ?y)))"
    "0 < ?k - sum_list (take j (month_lengths ?y))"
    "?k - sum_list (take j (month_lengths ?y)) \<le> month_lengths ?y ! j"
    by (rule locate_month_facts [OF k])
  have "month_lengths ?y ! j \<le> 31" using j(1) month_lengths_props(2) [of ?y] by auto
  with j month_lengths_props(1) [of ?y] show thesis
    by (intro that [of "1 + int j" "?k - sum_list (take j (month_lengths ?y))"])
      (simp_all add: date_of_def Let_def ordinal_of_def)
qed

lemma date_of_shift: "date_of (n + 146097) = (case date_of n of (y, m, d) \<Rightarrow> (y + 400, m, d))"
proof -
  have cycle: "days_before_year (y + 400) = days_before_year y + 146097" for y
  proof -
    have shift: "y + 400 - 1 = y - 1 + 100 * 4" "y + 400 - 1 = y - 1 + 4 * 100" "y + 400 - 1 = y - 1 + 1 * 400"
      by simp_all
    have four: "(y + 400 - 1) div 4 = 100 + (y - 1) div 4" unfolding shift(1) by (rule div_mult_self1) simp
    have hundred: "(y + 400 - 1) div 100 = 4 + (y - 1) div 100" unfolding shift(2) by (rule div_mult_self1) simp
    have full: "(y + 400 - 1) div 400 = 1 + (y - 1) div 400" unfolding shift(3) by (rule div_mult_self1) simp
    have "(y + 400 - 1) * 365 + (100 + a) - (4 + b) + (1 + c) = (y - 1) * 365 + a - b + c + 146097" for a b c
      by simp
    then show ?thesis unfolding days_before_year_def four hundred full .
  qed
  have "year_of (n + 146097) = year_of n + 400"
    using year_of_bounds [of n] cycle [of "year_of n"] cycle [of "year_of n + 1"]
    by (intro year_of_eq) (simp_all add: algebra_simps)
  moreover have "month_lengths (y + 400) = month_lengths y" for y
    using mod_mult_self1 [of y 100 4] mod_mult_self1 [of y 4 100] by (simp add: month_lengths_def leap_def)
  ultimately show ?thesis by (simp add: date_of_def Let_def cycle)
qed

lemma ordinal_month_less:
  assumes "1 \<le> m" "m < m'" "m' \<le> 12" "d \<le> month_lengths y ! nat (m - 1)" "1 \<le> d'"
  shows "ordinal_of y m d < ordinal_of y m' d'"
proof -
  let ?ls = "month_lengths y" and ?j = "nat (m - 1)"
  obtain e where e: "nat (m' - 1) = Suc ?j + e" using assms(1,2) by (metis Suc_leI le_iff_add nat_less_eq_zless
      diff_strict_right_mono le_add_diff_inverse2 diff_ge_0_iff_ge)
  have "?j < length ?ls" using assms(1-3) by (simp add: month_lengths_props)
  then have "take (Suc ?j) ?ls = take ?j ?ls @ [?ls ! ?j]" by (rule take_Suc_conv_app_nth)
  then have "sum_list (take (Suc ?j + e) ?ls)
      = sum_list (take ?j ?ls) + ?ls ! ?j + sum_list (take e (drop (Suc ?j) ?ls))"
    by (simp only: take_add sum_list_append) simp
  moreover have "0 \<le> sum_list (take e (drop (Suc ?j) ?ls))"
    using month_lengths_props(2) [of y] by (intro sum_list_nonneg) (force dest: in_set_takeD in_set_dropD)
  ultimately show ?thesis using assms e by (simp add: ordinal_of_def)
qed

subsection \<open>Timestamps\<close>

definition day_us :: int where "day_us = 86400000000"

definition ts_ordinal :: "int \<Rightarrow> int" where
  "ts_ordinal t = t div day_us + 1"

definition ts_valid :: "int \<Rightarrow> bool" where
  \<comment> \<open>years 1 to 9999\<close>
  "ts_valid t \<longleftrightarrow> 0 \<le> t \<and> t < 3652059 * day_us"

fun pad :: "nat \<Rightarrow> int \<Rightarrow> string" where
  "pad 0 n = []"
| "pad (Suc w) n = pad w (n div 10) @ [char_of (48 + nat (n mod 10))]"

definition date_text :: "int \<Rightarrow> string" where
  "date_text n = (case date_of n of (y, m, d) \<Rightarrow> pad 4 y @ CHR ''-'' # pad 2 m @ CHR ''-'' # pad 2 d)"

definition clock_text :: "int \<Rightarrow> string" where
  "clock_text s = pad 2 (s div 3600 mod 24) @ CHR '':'' # pad 2 (s div 60 mod 60) @ CHR '':'' # pad 2 (s mod 60)"

definition fraction_text :: "int \<Rightarrow> string" where
  "fraction_text us = (if us = 0 then [] else CHR ''.'' # pad 6 us)"

definition iso_text :: "int \<Rightarrow> string" where
  \<comment> \<open>\<open>isoformat\<close> of a UTC datetime: microseconds only when there are any\<close>
  "iso_text t =
     date_text (ts_ordinal t) @ CHR ''T'' # clock_text (t div 1000000) @ fraction_text (t mod 1000000)
     @ ''+00:00''"

fun read_digits :: "int \<Rightarrow> string \<Rightarrow> int" where
  "read_digits n [] = n"
| "read_digits n (c # cs) = read_digits (n * 10 + (int (of_char c) - 48)) cs"

definition field_at :: "nat \<Rightarrow> nat \<Rightarrow> string \<Rightarrow> int" where
  "field_at i w s = read_digits 0 (take w (drop i s))"

definition read_iso :: "string \<Rightarrow> int" where
  \<comment> \<open>\<open>datetime.fromisoformat\<close> on a text of \<open>isoformat\<close> in UTC\<close>
  "read_iso s =
     (ordinal_of (field_at 0 4 s) (field_at 5 2 s) (field_at 8 2 s) - 1) * day_us
     + (field_at 11 2 s * 3600 + field_at 14 2 s * 60 + field_at 17 2 s) * 1000000
     + (if take 1 (drop 19 s) = ''.'' then field_at 20 6 s else 0)"

lemma length_pad [simp]: "length (pad w n) = w"
  by (induction w arbitrary: n) simp_all

lemma read_digits_append: "read_digits n (xs @ ys) = read_digits (read_digits n xs) ys"
  by (induction xs arbitrary: n) simp_all

lemma digit_value: "int (of_char (char_of (48 + nat (n mod 10)) :: char)) - 48 = n mod 10"
proof -
  have "(48 + nat (n mod 10)) mod 256 = 48 + nat (n mod 10)" using pos_mod_bound [of 10 n] by simp
  then show ?thesis by (simp add: of_char_of)
qed

lemma read_pad: "0 \<le> n \<Longrightarrow> n < 10 ^ w \<Longrightarrow> read_digits 0 (pad w n) = n"
proof (induction w arbitrary: n)
  case (Suc w)
  then have "n div 10 < 10 ^ w" "0 \<le> n div 10" by auto
  with Suc.IH [of "n div 10"] show ?case by (simp add: read_digits_append digit_value)
qed simp

lemma append_less_iff:
  "length xs = length ys \<Longrightarrow> (xs @ us :: string) < ys @ vs \<longleftrightarrow> xs < ys \<or> xs = ys \<and> us < vs"
  by (induction xs ys rule: list_induct2) auto

lemma digit_less:
  "(char_of (48 + nat (a mod 10)) :: char) < char_of (48 + nat (b mod 10)) \<longleftrightarrow> a mod 10 < b mod 10"
proof -
  have "(48 + nat (n mod 10)) mod 256 = 48 + nat (n mod 10)" for n :: int using pos_mod_bound [of 10 n] by simp
  then have "(char_of (48 + nat (a mod 10)) :: char) < char_of (48 + nat (b mod 10)) \<longleftrightarrow> nat (a mod 10) < nat (b mod 10)"
    by (simp add: less_char_def of_char_of del: zless_nat_conj nat_less_iff)
  then show ?thesis using pos_mod_sign [of 10 a] pos_mod_sign [of 10 b] by linarith
qed

lemma split_less:
  assumes "0 < k"
  shows "(a::int) < b \<longleftrightarrow> a div k < b div k \<or> a div k = b div k \<and> a mod k < b mod k"
proof (cases "a div k = b div k")
  case True
  then show ?thesis using mult_div_mod_eq [of k a] mult_div_mod_eq [of k b] by (metis add_less_cancel_left less_irrefl)
next
  case False
  then show ?thesis using zdiv_mono1 [of a b k] zdiv_mono1 [of b a k] assms by linarith
qed

lemma pad_less: "0 \<le> a \<Longrightarrow> a < 10 ^ w \<Longrightarrow> 0 \<le> b \<Longrightarrow> b < 10 ^ w \<Longrightarrow> pad w a < pad w b \<longleftrightarrow> a < b"
  and pad_eq: "0 \<le> a \<Longrightarrow> a < 10 ^ w \<Longrightarrow> 0 \<le> b \<Longrightarrow> b < 10 ^ w \<Longrightarrow> pad w a = pad w b \<longleftrightarrow> a = b"
proof (induction w arbitrary: a b)
  case (Suc w)
  {
    case 1
    have "pad w (a div 10) < pad w (b div 10) \<longleftrightarrow> a div 10 < b div 10"
      "pad w (a div 10) = pad w (b div 10) \<longleftrightarrow> a div 10 = b div 10"
      using Suc.IH [of "a div 10" "b div 10"] 1 by simp_all
    moreover have "a < b \<longleftrightarrow> a div 10 < b div 10 \<or> a div 10 = b div 10 \<and> a mod 10 < b mod 10"
      by (rule split_less) simp
    ultimately show ?case by (simp add: append_less_iff digit_less)
  next
    case 2
    then show ?case using read_pad by metis
  }
qed simp_all

subsection \<open>The text of a timestamp orders and determines it\<close>

lemma ts_ordinal_range: "ts_valid t \<Longrightarrow> 1 \<le> ts_ordinal t \<and> ts_ordinal t \<le> 3652059"
  using zdiv_mono1 [of 0 t day_us] zdiv_mono1 [of t "3652059 * day_us - 1" day_us]
  by (simp add: ts_valid_def ts_ordinal_def day_us_def)

lemma year_range: "1 \<le> n \<Longrightarrow> n \<le> 3652059 \<Longrightarrow> 1 \<le> year_of n \<and> year_of n \<le> 9999"
proof -
  assume n: "1 \<le> n" "n \<le> 3652059"
  have ends: "days_before_year 1 = 0" "days_before_year 10000 = 3652059" by (simp_all add: days_before_year_def)
  have "\<not> year_of n < 1" using days_before_mono [of "year_of n + 1" 1] year_of_bounds [of n] n(1) ends by auto
  moreover have "\<not> 9999 < year_of n"
    using days_before_mono [of 10000 "year_of n"] year_of_bounds [of n] n(2) ends by auto
  ultimately show ?thesis by simp
qed

lemma date_text_less:
  assumes "1 \<le> n" "n < n'" "n' \<le> 3652059"
  shows "date_text n < date_text n'"
proof -
  obtain m d where n: "date_of n = (year_of n, m, d)" "1 \<le> m" "m \<le> 12" "1 \<le> d" "d \<le> 31"
    "d \<le> month_lengths (year_of n) ! nat (m - 1)" "ordinal_of (year_of n) m d = n"
    by (rule date_of_facts)
  obtain m' d' where n': "date_of n' = (year_of n', m', d')" "1 \<le> m'" "m' \<le> 12" "1 \<le> d'" "d' \<le> 31"
    "d' \<le> month_lengths (year_of n') ! nat (m' - 1)" "ordinal_of (year_of n') m' d' = n'"
    by (rule date_of_facts)
  have years: "1 \<le> year_of n" "year_of n \<le> 9999" "1 \<le> year_of n'" "year_of n' \<le> 9999"
    using year_range [of n] year_range [of n'] assms by auto
  have mono: "year_of n \<le> year_of n'"
    using year_of_bounds [of n] year_of_bounds [of n'] assms(2) days_before_mono [of "year_of n' + 1" "year_of n"]
    by linarith
  have "year_of n < year_of n' \<or> year_of n = year_of n' \<and> (m < m' \<or> m = m' \<and> d < d')"
  proof (cases "year_of n = year_of n'")
    case True
    have "\<not> m' < m" using ordinal_month_less [of m' m d' "year_of n'" d] n n' True assms(2) by auto
    moreover have "d < d'" if "m = m'" using n(7) n'(7) assms(2) True that by (simp add: ordinal_of_def)
    ultimately show ?thesis using True by force
  qed (use mono in simp)
  then show ?thesis
    using n n' years by (simp add: date_text_def append_less_iff pad_less pad_eq)
qed

lemma pad_two:
  "0 \<le> a \<Longrightarrow> a < 100 \<Longrightarrow> 0 \<le> b \<Longrightarrow> b < 100 \<Longrightarrow> pad 2 a < pad 2 b \<longleftrightarrow> a < b"
  "0 \<le> a \<Longrightarrow> a < 100 \<Longrightarrow> 0 \<le> b \<Longrightarrow> b < 100 \<Longrightarrow> pad 2 a = pad 2 b \<longleftrightarrow> a = b"
  using pad_less [of a 2 b] pad_eq [of a 2 b] by simp_all

lemma clock_text_less:
  assumes "x div 86400 = y div 86400" "x < y"
  shows "clock_text x < clock_text y"
proof -
  have day: "z div 86400 = z div 60 div 60 div 24" "z div 3600 = z div 60 div 60" for z :: int
    by (simp_all add: zdiv_zmult2_eq [symmetric])
  have sec: "x div 60 < y div 60 \<or> x div 60 = y div 60 \<and> x mod 60 < y mod 60"
    using split_less [of 60 x y] assms(2) by simp
  have min: "x div 60 < y div 60 \<longleftrightarrow> x div 3600 < y div 3600
      \<or> x div 3600 = y div 3600 \<and> x div 60 mod 60 < y div 60 mod 60"
    unfolding day by (rule split_less) simp
  have "x div 3600 < y div 3600 \<longleftrightarrow> x div 3600 div 24 < y div 3600 div 24
      \<or> x div 3600 div 24 = y div 3600 div 24 \<and> x div 3600 mod 24 < y div 3600 mod 24"
    by (rule split_less) simp
  moreover have "x div 3600 div 24 = y div 3600 div 24" using assms(1) by (simp add: zdiv_zmult2_eq [symmetric])
  ultimately have hour: "x div 3600 < y div 3600 \<longleftrightarrow> x div 3600 mod 24 < y div 3600 mod 24"
    by (simp only: less_irrefl simp_thms)
  have "x div 60 = y div 60 \<Longrightarrow> x div 3600 = y div 3600" unfolding day by simp
  with sec min hour have "x div 3600 mod 24 < y div 3600 mod 24 \<or> x div 3600 mod 24 = y div 3600 mod 24
      \<and> (x div 60 mod 60 < y div 60 mod 60 \<or> x div 60 mod 60 = y div 60 mod 60 \<and> x mod 60 < y mod 60)"
    by metis
  moreover have "0 \<le> z mod 24 \<and> z mod 24 < 100" "0 \<le> z mod 60 \<and> z mod 60 < 100" for z :: int
    using pos_mod_bound [of 24 z] pos_mod_bound [of 60 z] by simp_all
  ultimately show ?thesis
    unfolding clock_text_def by (simp add: append_less_iff pad_two)
qed

lemma length_date_text [simp]: "length (date_text n) = 10"
  by (simp add: date_text_def split: prod.splits)

lemma length_clock_text [simp]: "length (clock_text s) = 8"
  by (simp add: clock_text_def)

lemma fraction_text_less:
  "0 \<le> a \<Longrightarrow> a < b \<Longrightarrow> b < 1000000 \<Longrightarrow> fraction_text a @ ''+00:00'' < fraction_text b @ ''+00:00''"
  by (auto simp: fraction_text_def append_less_iff pad_less)

lemma iso_text_less:
  assumes "ts_valid s" "ts_valid t" "s < t"
  shows "iso_text s < iso_text t"
proof -
  let ?S = "s div 1000000" and ?T = "t div 1000000"
  have ord: "ts_ordinal z = z div 1000000 div 86400 + 1" for z
    by (simp add: ts_ordinal_def day_us_def zdiv_zmult2_eq [symmetric])
  note range = ts_ordinal_range [OF assms(1)] ts_ordinal_range [OF assms(2)]
  consider "ts_ordinal s < ts_ordinal t"
    | "ts_ordinal s = ts_ordinal t" "?S < ?T"
    | "ts_ordinal s = ts_ordinal t" "?S = ?T" "s mod 1000000 < t mod 1000000"
  proof -
    have "?S < ?T \<or> ?S = ?T \<and> s mod 1000000 < t mod 1000000" using split_less [of 1000000 s t] assms(3) by simp
    moreover have "?S < ?T \<longleftrightarrow> ?S div 86400 < ?T div 86400
        \<or> ?S div 86400 = ?T div 86400 \<and> ?S mod 86400 < ?T mod 86400"
      by (rule split_less) simp
    ultimately have "ts_ordinal s < ts_ordinal t \<or> ts_ordinal s = ts_ordinal t \<and> ?S < ?T
        \<or> ts_ordinal s = ts_ordinal t \<and> ?S = ?T \<and> s mod 1000000 < t mod 1000000"
      unfolding ord by (metis add_less_cancel_right)
    then show thesis using that by blast
  qed
  then show ?thesis
  proof cases
    case 1
    then show ?thesis using date_text_less [of "ts_ordinal s" "ts_ordinal t"] range
      by (simp add: iso_text_def append_less_iff)
  next
    case 2
    then show ?thesis using clock_text_less [of ?S ?T] unfolding ord by (simp add: iso_text_def ord append_less_iff)
  next
    case 3
    then show ?thesis using fraction_text_less [of "s mod 1000000" "t mod 1000000"]
      by (simp add: iso_text_def append_less_iff)
  qed
qed

lemma iso_text_order:
  assumes "ts_valid s" "ts_valid t"
  shows "iso_text s < iso_text t \<longleftrightarrow> s < t" and "iso_text s = iso_text t \<longleftrightarrow> s = t"
  using iso_text_less [OF assms] iso_text_less [OF assms(2,1)] by (cases s t rule: linorder_cases; fastforce)+

lemma field_at_drop: "length xs = i \<Longrightarrow> length ys = w \<Longrightarrow> field_at i w (xs @ ys @ zs) = read_digits 0 ys"
  by (simp add: field_at_def)

lemma clock_sum:
  fixes t :: int
  assumes "t = 1000000 * s + u" and "s = 60 * p + a" and "p = 60 * q + b" and "q = 24 * r + c" and "w = r"
  shows "w * 86400000000 + (c * 3600 + b * 60 + a) * 1000000 + u = t"
  using assms by simp

lemma read_iso_text:
  assumes "ts_valid t"
  shows "read_iso (iso_text t) = t"
proof -
  obtain m d where date: "date_of (ts_ordinal t) = (year_of (ts_ordinal t), m, d)" "1 \<le> m" "m \<le> 12" "1 \<le> d" "d \<le> 31"
    "ordinal_of (year_of (ts_ordinal t)) m d = ts_ordinal t"
    by (rule date_of_facts)
  obtain y where y: "year_of (ts_ordinal t) = y" by blast
  have year: "1 \<le> y" "y \<le> 9999"
    using year_range [of "ts_ordinal t"] ts_ordinal_range [OF assms] y by auto
  let ?s = "t div 1000000" and ?us = "t mod 1000000"
  let ?tail = "fraction_text ?us @ ''+00:00''"
  have form: "iso_text t = pad 4 y @ CHR ''-'' # pad 2 m @ CHR ''-'' # pad 2 d @ CHR ''T'' # pad 2 (?s div 3600 mod 24)
      @ CHR '':'' # pad 2 (?s div 60 mod 60) @ CHR '':'' # pad 2 (?s mod 60) @ ?tail"
    by (simp add: iso_text_def date_text_def date(1) y clock_text_def)
  have two: "0 \<le> a \<Longrightarrow> a < 100 \<Longrightarrow> read_digits 0 (pad 2 a) = a" for a using read_pad [of a 2] by simp
  have four: "read_digits 0 (pad 4 y) = y" using read_pad [of y 4] year by simp
  have clock: "0 \<le> a mod 24" "a mod 24 < 100" "0 \<le> a mod 60" "a mod 60 < 100" for a :: int
    using pos_mod_bound [of 24 a] pos_mod_bound [of 60 a] by simp_all
  have parts: "field_at 0 4 (iso_text t) = y" "field_at 5 2 (iso_text t) = m" "field_at 8 2 (iso_text t) = d"
    "field_at 11 2 (iso_text t) = ?s div 3600 mod 24" "field_at 14 2 (iso_text t) = ?s div 60 mod 60"
    "field_at 17 2 (iso_text t) = ?s mod 60" "drop 19 (iso_text t) = ?tail"
    using four two [of m] two [of d] two [OF clock(1,2)] two [OF clock(3,4)] date(2-5)
    by (simp_all add: form field_at_def)
  have frac: "(if take 1 ?tail = ''.'' then read_digits 0 (take 6 (drop 1 ?tail)) else 0) = ?us"
    using read_pad [of ?us 6] by (simp add: fraction_text_def)
  have micro: "field_at 20 6 (iso_text t) = read_digits 0 (take 6 (drop 1 ?tail))"
    unfolding field_at_def parts(7) [symmetric] by simp
  have last: "(if take 1 (drop 19 (iso_text t)) = ''.'' then field_at 20 6 (iso_text t) else 0) = ?us"
    unfolding parts(7) micro by (rule frac)
  have "read_iso (iso_text t) = (ts_ordinal t - 1) * day_us
      + ((?s div 3600 mod 24) * 3600 + (?s div 60 mod 60) * 60 + ?s mod 60) * 1000000 + ?us"
    unfolding read_iso_def parts(1-6) last using date(6) y by simp
  also have "\<dots> = t"
  proof -
    have d: "?s div 60 div 60 = ?s div 3600" "?s div 3600 div 24 = ?s div 86400"
      by (simp_all add: zdiv_zmult2_eq [symmetric])
    have s: "?s = 60 * (?s div 60) + ?s mod 60" "t = 1000000 * ?s + ?us" by (rule mult_div_mod_eq [symmetric])+
    have m: "?s div 60 = 60 * (?s div 3600) + ?s div 60 mod 60"
      using mult_div_mod_eq [of 60 "?s div 60"] unfolding d by (rule sym)
    have h: "?s div 3600 = 24 * (?s div 86400) + ?s div 3600 mod 24"
      using mult_div_mod_eq [of 24 "?s div 3600"] unfolding d by (rule sym)
    have "ts_ordinal t - 1 = ?s div 86400" by (simp add: ts_ordinal_def day_us_def zdiv_zmult2_eq [symmetric])
    from clock_sum [OF s(2,1) m h this] show ?thesis unfolding day_us_def .
  qed
  finally show ?thesis .
qed

end
