(* ===== verification/Sched_Cron.thy ===== *)
theory Sched_Cron
  imports Sched_Time
begin

section \<open>Scheduler: cron expressions\<close>

text \<open>
  \<open>CronExpression\<close> of \<open>operant/application/scheduler.py\<close>. Texts are Latin-1, where \<open>str.isdigit\<close> also
  accepts the superscript digits that \<open>int\<close> then refuses. The values of a field are a list without
  order; the source keeps them in a frozen set. A time zone is what \<open>zoneinfo\<close> computes from its data:
  the wall time of an instant, and the instant of a wall time for either value of \<open>fold\<close>. Years
  outside 1 to 9999, where \<open>datetime\<close> raises \<open>OverflowError\<close>, are not represented.
\<close>

datatype sched_error =
    ScValidation string
  | ScConflict string
  | ScValueError string
  | ScKeyError
  | ScIntegrity
  | ScAssertion

subsection \<open>Text\<close>

definition is_space :: "char \<Rightarrow> bool" where
  "is_space c \<longleftrightarrow> (of_char c :: nat) \<in> {9, 10, 11, 12, 13, 28, 29, 30, 31, 32, 133, 160}"

fun split_words :: "string \<Rightarrow> string list" where
  \<comment> \<open>the pieces between white space, empty ones included\<close>
  "split_words [] = [[]]"
| "split_words (x # xs) =
     (if is_space x then [] # split_words xs
      else (case split_words xs of [] \<Rightarrow> [[x]] | p # ps \<Rightarrow> (x # p) # ps))"

definition py_split :: "string \<Rightarrow> string list" where
  \<comment> \<open>\<open>str.split()\<close>\<close>
  "py_split s = filter (\<lambda>w. w \<noteq> []) (split_words s)"

fun partition_on :: "char \<Rightarrow> string \<Rightarrow> string \<times> string option" where
  \<comment> \<open>\<open>str.partition(c)\<close>: the text after the separator when there is one\<close>
  "partition_on c [] = ([], None)"
| "partition_on c (x # xs) =
     (if x = c then ([], Some xs) else (case partition_on c xs of (p, r) \<Rightarrow> (x # p, r)))"

definition ascii_digit :: "char \<Rightarrow> bool" where
  "ascii_digit c \<longleftrightarrow> (of_char c :: nat) \<in> {48..57}"

definition py_isdigit :: "string \<Rightarrow> bool" where
  "py_isdigit s \<longleftrightarrow> s \<noteq> [] \<and> list_all (\<lambda>c. ascii_digit c \<or> (of_char c :: nat) \<in> {178, 179, 185}) s"

definition py_int :: "string \<Rightarrow> sched_error + int" where
  \<comment> \<open>\<open>int(s)\<close> of a text that \<open>isdigit\<close> accepted\<close>
  "py_int s = (if list_all ascii_digit s then Inr (read_digits 0 s) else Inl (ScValueError ''int''))"

subsection \<open>Fields\<close>

record cron_field =
  cron_values :: "int list"
  cron_wildcard :: bool

definition py_range :: "int \<Rightarrow> int \<Rightarrow> int \<Rightarrow> int list" where
  \<comment> \<open>\<open>range(a, b + 1, step)\<close> for a positive step\<close>
  "py_range a b step = (if b < a then [] else map (\<lambda>k. a + int k * step) [0..<nat ((b - a) div step) + 1])"

definition cron_step :: "string option \<Rightarrow> sched_error + int" where
  "cron_step step_text =
     (case step_text of
        None \<Rightarrow> Inr 1
      | Some s \<Rightarrow>
          if \<not> py_isdigit s then Inl (ScValidation ''cron step must be a positive integer'')
          else res_bind (py_int s) (\<lambda>n.
            if n < 1 then Inl (ScValidation ''cron step must be a positive integer'') else Inr n))"

definition cron_base :: "int \<Rightarrow> int \<Rightarrow> string \<Rightarrow> sched_error + (int \<times> int)" where
  "cron_base lo hi base =
     (if base = ''*'' then Inr (lo, hi)
      else (case partition_on (CHR ''-'') base of
          (start_text, Some end_text) \<Rightarrow>
            if \<not> py_isdigit start_text \<or> \<not> py_isdigit end_text
            then Inl (ScValidation ''cron ranges must be numeric'')
            else res_bind (py_int start_text) (\<lambda>a. res_bind (py_int end_text) (\<lambda>b. Inr (a, b)))
        | (_, None) \<Rightarrow>
            if py_isdigit base then res_bind (py_int base) (\<lambda>a. Inr (a, a))
            else Inl (ScValidation ''cron fields support numeric values only'')))"

definition cron_component :: "int \<Rightarrow> int \<Rightarrow> string \<Rightarrow> sched_error + int list" where
  "cron_component lo hi component =
     (if component = [] then Inl (ScValidation ''cron field contains an empty component'')
      else (case partition_on (CHR ''/'') component of
        (base, step_text) \<Rightarrow>
          res_bind (cron_step step_text) (\<lambda>step.
          res_bind (cron_base lo hi base) (\<lambda>(a, b).
          if a < lo \<or> hi < b \<or> b < a then Inl (ScValidation ''cron value is outside its allowed range'')
          else Inr (py_range a b step)))))"

fun cron_components :: "int \<Rightarrow> int \<Rightarrow> string list \<Rightarrow> sched_error + int list" where
  "cron_components lo hi [] = Inr []"
| "cron_components lo hi (c # cs) =
     res_bind (cron_component lo hi c) (\<lambda>xs. res_bind (cron_components lo hi cs) (\<lambda>ys. Inr (xs @ ys)))"

definition parse_field :: "int \<Rightarrow> int \<Rightarrow> bool \<Rightarrow> string \<Rightarrow> sched_error + cron_field" where
  "parse_field lo hi day_of_week text =
     res_bind (cron_components lo hi (split_on (CHR '','') text)) (\<lambda>xs.
     Inr \<lparr>cron_values = remdups (if day_of_week then map (\<lambda>v. if v = 7 then 0 else v) xs else xs),
          cron_wildcard = (text = ''*'')\<rparr>)"

subsection \<open>Expressions\<close>

record cron_expression =
  cron_text :: string
  cron_minute :: cron_field
  cron_hour :: cron_field
  cron_day :: cron_field
  cron_month :: cron_field
  cron_weekday :: cron_field

definition date_matches :: "cron_expression \<Rightarrow> int \<Rightarrow> bool" where
  "date_matches c n =
     (case date_of n of (y, m, d) \<Rightarrow>
        let dom_match = d \<in> set (cron_values (cron_day c));
            dow_match = (weekday_of n + 1) mod 7 \<in> set (cron_values (cron_weekday c)) in
        m \<in> set (cron_values (cron_month c))
        \<and> (if cron_wildcard (cron_day c) \<or> cron_wildcard (cron_weekday c)
            then dom_match \<and> dow_match else dom_match \<or> dow_match))"

definition cron_matches :: "cron_expression \<Rightarrow> int \<Rightarrow> bool" where
  \<comment> \<open>\<open>matches\<close>, of a wall time\<close>
  "cron_matches c local \<longleftrightarrow>
     local div 60000000 mod 60 \<in> set (cron_values (cron_minute c))
     \<and> local div 3600000000 mod 24 \<in> set (cron_values (cron_hour c))
     \<and> date_matches c (ts_ordinal local)"

function scan_days :: "cron_expression \<Rightarrow> int \<Rightarrow> int \<Rightarrow> bool" where
  "scan_days c cursor stop =
     (if stop \<le> cursor then False else if date_matches c cursor then True else scan_days c (cursor + 1) stop)"
  by pat_completeness auto
termination by (relation "measure (\<lambda>(c, cursor, stop). nat (stop - cursor))") auto

declare scan_days.simps [simp del]

definition has_satisfiable_calendar_day :: "cron_expression \<Rightarrow> bool" where
  "has_satisfiable_calendar_day c = scan_days c (ordinal_of 2000 1 1) (ordinal_of 2400 1 1)"

definition parse_cron :: "string \<Rightarrow> sched_error + cron_expression" where
  "parse_cron expression =
     (case py_split expression of
        [p1, p2, p3, p4, p5] \<Rightarrow>
          res_bind (parse_field 0 59 False p1) (\<lambda>minute.
          res_bind (parse_field 0 23 False p2) (\<lambda>hour.
          res_bind (parse_field 1 31 False p3) (\<lambda>day.
          res_bind (parse_field 1 12 False p4) (\<lambda>month.
          res_bind (parse_field 0 7 True p5) (\<lambda>weekday.
          let c = \<lparr>cron_text = join_on (CHR '' '') [p1, p2, p3, p4, p5], cron_minute = minute,
                cron_hour = hour, cron_day = day, cron_month = month, cron_weekday = weekday\<rparr> in
          if has_satisfiable_calendar_day c then Inr c
          else Inl (ScValidation ''cron_expression has no satisfiable calendar date''))))))
      | _ \<Rightarrow> Inl (ScValidation ''cron_expression must contain five fields''))"

subsection \<open>Occurrences\<close>

record zone =
  zone_local :: "int \<Rightarrow> int"
  zone_instant :: "int \<Rightarrow> bool \<Rightarrow> int"

definition wall_time :: "int \<Rightarrow> int \<Rightarrow> int \<Rightarrow> int" where
  \<comment> \<open>\<open>datetime.combine(day, time(hour, minute))\<close>\<close>
  "wall_time day h m = (day - 1) * day_us + (h * 60 + m) * 60000000"

definition day_candidates :: "zone \<Rightarrow> cron_expression \<Rightarrow> int \<Rightarrow> int \<Rightarrow> int \<Rightarrow> int list" where
  "day_candidates z c start stop day =
     (if date_matches c day
      then sort (remdups (concat (map (\<lambda>h. concat (map (\<lambda>m. concat (map (\<lambda>fold.
          let naive = wall_time day h m;
              candidate = zone_instant z naive fold in
          if zone_local z candidate \<noteq> naive then []
          else if start < candidate \<and> candidate \<le> stop then [candidate] else [])
          [False, True])) (cron_values (cron_minute c)))) (cron_values (cron_hour c)))))
      else [])"

function collect_days ::
  "zone \<Rightarrow> cron_expression \<Rightarrow> int \<Rightarrow> int \<Rightarrow> nat \<Rightarrow> int \<Rightarrow> int \<Rightarrow> int list \<Rightarrow> int list" where
  \<comment> \<open>the loop over the local days, the last one first\<close>
  "collect_days z c start stop limit first day found =
     (if day < first \<or> limit \<le> length found then found
      else collect_days z c start stop limit first (day - 1)
        (found @ take (limit - length found) (rev (day_candidates z c start stop day))))"
  by pat_completeness auto
termination by (relation "measure (\<lambda>(z, c, start, stop, limit, first, day, found). nat (day + 1 - first))") auto

declare collect_days.simps [simp del]

definition occurrences_between ::
  "zone \<Rightarrow> cron_expression \<Rightarrow> int \<Rightarrow> int \<Rightarrow> int \<Rightarrow> sched_error + int list" where
  "occurrences_between z c start stop limit =
     (if stop \<le> start \<or> limit < 1 then Inr []
      else
        let first = ts_ordinal (zone_local z start); last = ts_ordinal (zone_local z stop) in
        if 146097 < last - first + 1
        then Inl (ScValidation ''cron lookback exceeds the bounded 400-year window'')
        else Inr (rev (collect_days z c start stop (nat limit) first last [])))"

end
