(* ===== verification/Sched_Domain.thy ===== *)
theory Sched_Domain
  imports Sched_Cron
begin

section \<open>Scheduler: domain values\<close>

text \<open>
  \<open>operant/domain/scheduler.py\<close>. Every timestamp is an aware UTC instant, an integer number of
  microseconds since 0001-01-01 (\<open>Sched_Time\<close>): \<open>require_aware_utc\<close> changes nothing on those. A
  workflow input is a JSON object in insertion order, its numbers finite. Which names \<open>ZoneInfo\<close>
  knows is a parameter.
\<close>

datatype trigger_kind = TkCron | TkTimer | TkHook
datatype misfire_policy = MpSkip | MpFireOnce | MpCatchUp
datatype schedule_status = SsEnabled | SsPaused | SsCancelled
datatype request_status =
  RqQueued | RqLeased | RqRetryWait | RqSucceeded | RqCancelled | RqDeadLetter | RqManual
datatype job_attempt_status = JaRunning | JaSucceeded | JaFailed | JaUnknown
datatype dispatch_idempotency = DiIdempotent | DiNonIdempotent
datatype hook_event = HkSignal | HkFile | HkGit
datatype lease_kind = LkLeader | LkWriter

record schedule_definition =
  sd_id :: string
  sd_version :: int
  sd_name :: string
  sd_kind :: trigger_kind
  sd_cron :: "string option"
  sd_timer :: "int option"
  sd_hook :: "hook_event option"
  sd_watch_path :: "string option"
  sd_timezone :: string
  sd_misfire :: misfire_policy
  sd_max_catch_up :: int
  sd_workflow :: string
  sd_workflow_version :: int
  sd_input :: py_env
  sd_concurrency :: int
  sd_max_attempts :: int
  sd_retry_base :: int
  sd_retry_max :: int
  sd_dispatch :: dispatch_idempotency
  sd_status :: schedule_status
  sd_created :: int

definition text_between :: "nat \<Rightarrow> nat \<Rightarrow> string \<Rightarrow> bool" where
  "text_between lo hi s \<longleftrightarrow> lo \<le> length s \<and> length s \<le> hi"

definition schedule_fields_ok :: "schedule_definition \<Rightarrow> bool" where
  \<comment> \<open>the bounds declared on the fields\<close>
  "schedule_fields_ok d \<longleftrightarrow>
     text_between 1 200 (sd_id d) \<and> 1 \<le> sd_version d \<and> text_between 1 200 (sd_name d)
     \<and> (case sd_cron d of None \<Rightarrow> True | Some e \<Rightarrow> text_between 1 200 e)
     \<and> (case sd_watch_path d of None \<Rightarrow> True | Some p \<Rightarrow> text_between 0 4096 p)
     \<and> text_between 1 100 (sd_timezone d)
     \<and> 1 \<le> sd_max_catch_up d \<and> sd_max_catch_up d \<le> 1000
     \<and> text_between 1 200 (sd_workflow d) \<and> 1 \<le> sd_workflow_version d
     \<and> 1 \<le> sd_concurrency d \<and> sd_concurrency d \<le> 256
     \<and> 1 \<le> sd_max_attempts d \<and> sd_max_attempts d \<le> 20
     \<and> 1 \<le> sd_retry_base d \<and> sd_retry_base d \<le> 86400
     \<and> 1 \<le> sd_retry_max d \<and> sd_retry_max d \<le> 604800"

definition set_text :: "string option \<Rightarrow> bool" where
  \<comment> \<open>a text that is present and not empty, as \<open>if value:\<close> tests it\<close>
  "set_text t = (case t of Some (c # cs) \<Rightarrow> True | _ \<Rightarrow> False)"

definition validate_trigger :: "schedule_definition \<Rightarrow> sched_error + unit" where
  "validate_trigger d =
     res_bind
       (if sd_kind d = TkCron then
          (if sd_cron d = None \<or> sd_timer d \<noteq> None \<or> sd_hook d \<noteq> None \<or> set_text (sd_watch_path d)
           then Inl (ScValueError ''cron schedules require cron_expression only'') else Inr ())
        else if sd_kind d = TkTimer then
          (if sd_timer d = None \<or> sd_cron d \<noteq> None \<or> sd_hook d \<noteq> None \<or> set_text (sd_watch_path d)
           then Inl (ScValueError ''timer schedules require timer_at only'') else Inr ())
        else if set_text (sd_cron d) \<or> sd_timer d \<noteq> None
        then Inl (ScValueError ''hook schedules cannot include cron or timer fields'')
        else (case sd_hook d of
            Some HkSignal \<Rightarrow>
              if sd_watch_path d \<noteq> None
              then Inl (ScValueError ''application.signal cannot include watch_path'') else Inr ()
          | None \<Rightarrow> Inl (ScValueError ''hook schedules require a supported hook_event_type'')
          | _ \<Rightarrow>
              if \<not> set_text (sd_watch_path d)
              then Inl (ScValueError ''file and Git hooks require watch_path'') else Inr ()))
       (\<lambda>_. if sd_retry_max d < sd_retry_base d
            then Inl (ScValueError ''retry_base_seconds cannot exceed retry_max_seconds'') else Inr ())"

definition make_schedule :: "(string \<Rightarrow> bool) \<Rightarrow> schedule_definition \<Rightarrow> sched_error + schedule_definition" where
  \<comment> \<open>what pydantic runs when a definition is constructed\<close>
  "make_schedule zone_known d =
     (if \<not> schedule_fields_ok d then Inl (ScValueError ''ScheduleDefinition'')
      else if \<not> zone_known (sd_timezone d)
      then Inl (ScValueError ''timezone_name must be an installed IANA timezone'')
      else res_bind (validate_trigger d) (\<lambda>_. Inr d))"

record run_request =
  rr_id :: string
  rr_schedule :: string
  rr_version :: int
  rr_occurrence :: int
  rr_available :: int
  rr_key :: string
  rr_workflow :: string
  rr_workflow_version :: int
  rr_input :: py_env
  rr_replay_of :: "string option"
  rr_dispatch :: dispatch_idempotency
  rr_max_attempts :: int
  rr_attempts :: int
  rr_status :: request_status
  rr_run :: "string option"
  rr_cancel :: bool
  rr_error :: "string option"
  rr_created :: int
  rr_updated :: int

definition request_fields_ok :: "run_request \<Rightarrow> bool" where
  "request_fields_ok r \<longleftrightarrow>
     text_between 1 200 (rr_schedule r) \<and> 1 \<le> rr_version r \<and> text_between 1 300 (rr_key r)
     \<and> text_between 1 200 (rr_workflow r) \<and> 1 \<le> rr_workflow_version r
     \<and> 1 \<le> rr_max_attempts r \<and> rr_max_attempts r \<le> 20 \<and> 0 \<le> rr_attempts r \<and> rr_attempts r \<le> 20"

definition make_request :: "run_request \<Rightarrow> sched_error + run_request" where
  "make_request r = (if request_fields_ok r then Inr r else Inl (ScValueError ''RunRequest''))"

record scheduler_lease =
  sl_kind :: lease_kind
  sl_owner :: string
  sl_token :: string
  sl_fencing :: int
  sl_expires :: int

record job_lease =
  jl_request :: string
  jl_owner :: string
  jl_token :: string
  jl_fencing :: int
  jl_expires :: int
  jl_attempt :: int

record job_attempt =
  ja_request :: string
  ja_number :: int
  ja_owner :: string
  ja_token :: string
  ja_fencing :: int
  ja_status :: job_attempt_status
  ja_side_effect :: bool
  ja_run :: "string option"
  ja_error :: "string option"
  ja_started :: int
  ja_finished :: "int option"

definition schedule_wf :: "schedule_definition \<Rightarrow> bool" where
  \<comment> \<open>what a constructed definition satisfies\<close>
  "schedule_wf d \<longleftrightarrow> schedule_fields_ok d \<and> validate_trigger d = Inr ()"

lemma make_schedule_wf: "make_schedule zone_known d = Inr e \<Longrightarrow> e = d \<and> schedule_wf d \<and> zone_known (sd_timezone d)"
  by (auto simp: make_schedule_def schedule_wf_def res_bind_Inr_iff split: if_splits)

lemma schedule_wf_trigger:
  assumes "schedule_wf d"
  shows "sd_kind d = TkCron \<Longrightarrow> sd_cron d \<noteq> None"
    and "sd_kind d = TkTimer \<Longrightarrow> sd_timer d \<noteq> None"
    and "sd_kind d = TkHook \<Longrightarrow> sd_hook d \<noteq> None"
  using assms by (cases "sd_hook d"; auto simp: schedule_wf_def validate_trigger_def split: if_splits)+

text \<open>What binds a request to the work it stands for, and never changes.\<close>

definition request_binding ::
  "run_request \<Rightarrow> string \<times> int \<times> string \<times> int \<times> py_env \<times> dispatch_idempotency \<times> int" where
  "request_binding r =
     (rr_schedule r, rr_version r, rr_workflow r, rr_workflow_version r, rr_input r, rr_dispatch r, rr_max_attempts r)"

definition claimable :: "request_status \<Rightarrow> bool" where
  "claimable st \<longleftrightarrow> st \<in> {RqQueued, RqRetryWait}"

definition terminal_request :: "request_status \<Rightarrow> bool" where
  "terminal_request st \<longleftrightarrow> st \<in> {RqSucceeded, RqCancelled, RqDeadLetter, RqManual}"

end
