(* ===== verification/Sql_Tables.thy ===== *)
theory Sql_Tables
  imports Op_Prelude
begin

section \<open>Tables of a relational store\<close>

text \<open>
  A table is an association list from the primary key to the row. An \<open>UPDATE ... WHERE\<close> is \<open>sql_update\<close>,
  and its \<open>rowcount\<close> is \<open>sql_rows\<close>. A table of stores whose records sit behind a field is read by \<open>map_of\<close>.
\<close>

definition sql_update :: "('k \<Rightarrow> 'v \<Rightarrow> bool) \<Rightarrow> ('v \<Rightarrow> 'v) \<Rightarrow> ('k \<times> 'v) list \<Rightarrow> ('k \<times> 'v) list" where
  "sql_update P f d = map (\<lambda>(k, v). (k, if P k v then f v else v)) d"

definition sql_rows :: "('k \<Rightarrow> 'v \<Rightarrow> bool) \<Rightarrow> ('k \<times> 'v) list \<Rightarrow> nat" where
  "sql_rows P d = length (filter (\<lambda>(k, v). P k v) d)"

lemma map_of_sql_update: "map_of (sql_update P f d) k = map_option (\<lambda>v. if P k v then f v else v) (map_of d k)"
  by (induction d) (auto simp: sql_update_def)

lemma keys_sql_update [simp]: "map fst (sql_update P f d) = map fst d"
  by (simp add: sql_update_def comp_def case_prod_beta)

lemma sql_rows_key:
  assumes "distinct (map fst d)"
  shows "sql_rows (\<lambda>k v. k = i \<and> P v) d = (case map_of d i of Some v \<Rightarrow> if P v then 1 else 0 | None \<Rightarrow> 0)"
  using assms
proof (induction d)
  case (Cons p d)
  have "sql_rows (\<lambda>k v. k = i \<and> P v) d = 0" if "i \<notin> fst ` set d"
    using that by (force simp: sql_rows_def filter_empty_conv)
  with Cons show ?case by (cases p) (auto simp: sql_rows_def split: if_splits)
qed (simp add: sql_rows_def)

lemma set_sql_update: "set (sql_update P f d) = (\<lambda>(k, v). (k, if P k v then f v else v)) ` set d"
  by (simp add: sql_update_def)

lemma sql_rows_one_iff:
  assumes "distinct (map fst d)"
  shows "sql_rows (\<lambda>k v. k = i \<and> P v) d = 1 \<longleftrightarrow> (\<exists>v. map_of d i = Some v \<and> P v)"
  using sql_rows_key [OF assms, of i P] by (auto split: option.splits if_splits)

text \<open>The history of a row under an insertion and under an update.\<close>

lemma descends_update:
  assumes "map_of d k = None" and "born v"
  shows "descends step born (map_of d i) (map_of (AList.update k v d) i)"
  using assms by (auto simp: map_of_update descends_born)

lemma descends_sql_update:
  assumes "\<And>k v. map_of d k = Some v \<Longrightarrow> P k v \<Longrightarrow> step v (f v)"
  shows "descends step born (map_of d i) (map_of (sql_update P f d) i)"
  using assms by (cases "map_of d i") (auto simp: map_of_sql_update descends_step)

subsection \<open>Atomic methods\<close>

text \<open>A method that raises leaves the store as it was.\<close>

definition atomic :: "('s, 'e, 'a) sx \<Rightarrow> bool" where
  "atomic m \<longleftrightarrow> (\<forall>s e t. m s = (Inl e, t) \<longrightarrow> t = s)"

lemma atomicD: "atomic m \<Longrightarrow> m s = (Inl e, t) \<Longrightarrow> t = s"
  by (simp add: atomic_def)

lemma atomic_transaction: "atomic (sx_transaction m)"
  by (auto simp: atomic_def dest: sx_transaction_Inl)

lemma atomic_guard_bind: "(\<And>u. atomic (f u)) \<Longrightarrow> atomic (sx_bind (sx_guard b e) f)"
  by (auto simp: atomic_def sx_simps split: if_splits)

lemmas atomic_rules = atomic_transaction atomic_guard_bind

context kept_relation
begin

lemma keeps_atomic:
  assumes "atomic m" and "\<And>s x t. m s = (Inr x, t) \<Longrightarrow> R s t"
  shows "keeps R m"
proof (rule keepsI)
  fix s
  obtain r t where m: "m s = (r, t)" by fastforce
  show "R s (snd (m s))"
    using m assms(2) [of s] atomicD [OF assms(1), of s] by (cases r) (auto simp: kept_refl)
qed

end

end
