(* ===== verification/Sched_Store.thy ===== *)
theory Sched_Store
  imports Sched_Domain Sql_Tables "HOL-Library.Product_Lexorder"
begin

section \<open>Scheduler: the store\<close>

text \<open>
  \<open>SQLiteSchedulerStore\<close> of \<open>operant/persistence/scheduler.py\<close>. One record holds the tables; a row is
  found by its primary key. Each method is one immediate transaction, rolled back when it raises. An
  \<open>UPDATE ... WHERE\<close> is \<open>sql_update\<close>, and its \<open>rowcount\<close> is \<open>sql_rows\<close>. A constraint of the schema that an
  insertion could violate is a guard that raises \<open>ScIntegrity\<close>. The stored timestamps compare as texts,
  which is the order of the instants (\<open>iso_text_order\<close>), so a row holds instants. Fresh identifiers,
  tokens and readings of the clock are arguments.
\<close>

subsection \<open>Tables\<close>

record schedule_head =
  hd_version :: int
  hd_status :: schedule_status
  hd_cursor :: int
  hd_updated :: int

record watch_baseline =
  wb_fingerprint :: string
  wb_generation :: int
  wb_observed :: int
  wb_error :: "string option"

record sched_store =
  ss_definitions :: "((string \<times> int) \<times> schedule_definition) list"
  ss_heads :: "(string \<times> schedule_head) list"
  ss_requests :: "(string \<times> run_request) list"
  ss_authority :: "(lease_kind \<times> scheduler_lease) list"
  ss_leases :: "(string \<times> job_lease) list"
  ss_attempts :: "((string \<times> int) \<times> job_attempt) list"
  ss_watches :: "((string \<times> int) \<times> watch_baseline) list"

type_synonym 'a sched = "(sched_store, sched_error, 'a) sx"

definition seconds :: "int \<Rightarrow> int" where
  \<comment> \<open>\<open>timedelta(seconds=n)\<close>\<close>
  "seconds n = n * 1000000"

subsection \<open>Schedules\<close>

definition put_schedule :: "schedule_definition \<Rightarrow> unit sched" where
  "put_schedule d =
     sx_transaction
       (sx_bind sx_get (\<lambda>s.
        case map_of (ss_definitions s) (sd_id d, sd_version d) of
          Some existing \<Rightarrow>
            if existing \<noteq> d then sx_raise (ScConflict ''schedule revisions are immutable'') else sx_return ()
        | None \<Rightarrow>
            (case map_of (ss_heads s) (sd_id d) of
               Some h \<Rightarrow>
                 if sd_version d \<noteq> hd_version h + 1
                 then sx_raise (ScConflict ''schedule version must advance by one'')
                 else sx_modify (\<lambda>s. s\<lparr>
                   ss_definitions := AList.update (sd_id d, sd_version d) d (ss_definitions s),
                   ss_heads := sql_update (\<lambda>k h. k = sd_id d)
                     (\<lambda>h. h\<lparr>hd_version := sd_version d, hd_status := sd_status d, hd_updated := sd_created d\<rparr>)
                     (ss_heads s)\<rparr>)
             | None \<Rightarrow>
                 if sd_version d \<noteq> 1
                 then sx_raise (ScConflict ''new schedules must start at version one'')
                 else sx_modify (\<lambda>s. s\<lparr>
                   ss_definitions := AList.update (sd_id d, sd_version d) d (ss_definitions s),
                   ss_heads := AList.update (sd_id d)
                     \<lparr>hd_version = sd_version d, hd_status = sd_status d, hd_cursor = sd_created d,
                      hd_updated = sd_created d\<rparr> (ss_heads s)\<rparr>))))"

definition schedule_of_head :: "sched_store \<Rightarrow> string \<Rightarrow> schedule_head \<Rightarrow> schedule_definition option" where
  \<comment> \<open>the join of a head with its current revision, under the status of the head\<close>
  "schedule_of_head s i h =
     map_option (\<lambda>d. d\<lparr>sd_status := hd_status h\<rparr>) (map_of (ss_definitions s) (i, hd_version h))"

definition get_schedule :: "string \<Rightarrow> schedule_definition sched" where
  "get_schedule i =
     sx_bind sx_get (\<lambda>s.
     case Option.bind (map_of (ss_heads s) i) (schedule_of_head s i) of
       None \<Rightarrow> sx_raise ScKeyError
     | Some d \<Rightarrow> sx_return d)"

definition get_schedule_revision :: "string \<Rightarrow> int \<Rightarrow> schedule_definition sched" where
  "get_schedule_revision i version =
     sx_bind sx_get (\<lambda>s.
     case map_of (ss_definitions s) (i, version) of None \<Rightarrow> sx_raise ScKeyError | Some d \<Rightarrow> sx_return d)"

definition get_schedule_cursor :: "string \<Rightarrow> int sched" where
  "get_schedule_cursor i =
     sx_bind sx_get (\<lambda>s.
     case map_of (ss_heads s) i of None \<Rightarrow> sx_raise ScKeyError | Some h \<Rightarrow> sx_return (hd_cursor h))"

definition list_enabled_schedule_ids :: "string list sched" where
  "list_enabled_schedule_ids =
     sx_bind sx_get (\<lambda>s.
     sx_return (sort (map fst (filter (\<lambda>(i, h). hd_status h = SsEnabled) (ss_heads s)))))"

definition list_schedules :: "int \<Rightarrow> schedule_definition list sched" where
  "list_schedules limit =
     sx_bind (sx_guard (1 \<le> limit \<and> limit \<le> 500) (ScValueError ''schedule limit is invalid'')) (\<lambda>_.
     sx_bind sx_get (\<lambda>s.
     sx_return (take (nat limit)
       (List.map_filter (\<lambda>(i, h). schedule_of_head s i h) (sort_key fst (ss_heads s))))))"

definition cancel_schedule_requests :: "string \<Rightarrow> int \<Rightarrow> sched_store \<Rightarrow> sched_store" where
  "cancel_schedule_requests i now s = s\<lparr>ss_requests :=
     sql_update (\<lambda>k r. rr_schedule r = i \<and> rr_status r = RqLeased) (\<lambda>r. r\<lparr>rr_cancel := True, rr_updated := now\<rparr>)
       (sql_update (\<lambda>k r. rr_schedule r = i \<and> claimable (rr_status r))
         (\<lambda>r. r\<lparr>rr_status := RqCancelled, rr_updated := now\<rparr>) (ss_requests s))\<rparr>"

definition update_schedule_status :: "string \<Rightarrow> schedule_status \<Rightarrow> int \<Rightarrow> int \<Rightarrow> schedule_definition sched" where
  "update_schedule_status i status expected now =
     sx_bind (sx_transaction
       (sx_bind sx_get (\<lambda>s.
        let P = (\<lambda>k h. k = i \<and> hd_version h = expected \<and> hd_status h \<noteq> SsCancelled) in
        sx_bind (sx_modify (\<lambda>s. s\<lparr>ss_heads :=
          sql_update P (\<lambda>h. h\<lparr>hd_status := status, hd_updated := now\<rparr>) (ss_heads s)\<rparr>)) (\<lambda>_.
        sx_bind (sx_guard (sql_rows P (ss_heads s) = 1) (ScConflict ''schedule status/version conflict'')) (\<lambda>_.
        if status = SsCancelled then sx_modify (cancel_schedule_requests i now) else sx_return ())))))
     (\<lambda>_. get_schedule i)"

subsection \<open>Requests\<close>

text \<open>What \<open>RunRequest\<close> takes from its default factories.\<close>

record stamp =
  st_id :: string
  st_created :: int
  st_updated :: int

definition request_for ::
  "schedule_definition \<Rightarrow> int \<Rightarrow> int \<Rightarrow> string option \<Rightarrow> stamp \<Rightarrow> sched_error + run_request" where
  "request_for d occurrence_at available_at idempotency_key st =
     (let key = (case idempotency_key of
          Some (c # cs) \<Rightarrow> c # cs
        | _ \<Rightarrow> ''schedule:'' @ sd_id d @ '':v'' @ show_int (sd_version d) @ '':'' @ iso_text occurrence_at) in
      make_request \<lparr>rr_id = st_id st, rr_schedule = sd_id d, rr_version = sd_version d,
        rr_occurrence = occurrence_at, rr_available = available_at, rr_key = key,
        rr_workflow = sd_workflow d, rr_workflow_version = sd_workflow_version d, rr_input = sd_input d,
        rr_replay_of = None, rr_dispatch = sd_dispatch d, rr_max_attempts = sd_max_attempts d,
        rr_attempts = 0, rr_status = RqQueued, rr_run = None, rr_cancel = False, rr_error = None,
        rr_created = st_created st, rr_updated = st_updated st\<rparr>)"

fun requests_for ::
  "schedule_definition \<Rightarrow> int list \<Rightarrow> int \<Rightarrow> (nat \<Rightarrow> stamp) \<Rightarrow> nat \<Rightarrow> sched_error + run_request list" where
  "requests_for d [] available_at fresh n = Inr []"
| "requests_for d (v # vs) available_at fresh n =
     res_bind (request_for d v available_at None (fresh n)) (\<lambda>r.
     res_bind (requests_for d vs available_at fresh (Suc n)) (\<lambda>rs. Inr (r # rs)))"

definition same_binding :: "run_request \<Rightarrow> run_request \<Rightarrow> bool" where
  \<comment> \<open>equality of the two \<open>binding\<close> tuples; the inputs compare as dictionaries\<close>
  "same_binding r q \<longleftrightarrow>
     rr_schedule r = rr_schedule q \<and> rr_version r = rr_version q \<and> rr_workflow r = rr_workflow q
     \<and> rr_workflow_version r = rr_workflow_version q \<and> py_eq (env_to_py (rr_input r)) (env_to_py (rr_input q))
     \<and> rr_dispatch r = rr_dispatch q \<and> rr_max_attempts r = rr_max_attempts q"

definition find_key :: "string \<Rightarrow> sched_store \<Rightarrow> run_request option" where
  "find_key key s = list_find (\<lambda>r. rr_key r = key) (map snd (ss_requests s))"

definition insertable :: "run_request \<Rightarrow> sched_store \<Rightarrow> bool" where
  \<comment> \<open>primary key, unique key and foreign keys of \<open>run_requests\<close>\<close>
  "insertable r s \<longleftrightarrow>
     map_of (ss_requests s) (rr_id r) = None \<and> find_key (rr_key r) s = None
     \<and> (case rr_replay_of r of None \<Rightarrow> True
        | Some q \<Rightarrow> q = rr_id r \<or> map_of (ss_requests s) q \<noteq> None)
     \<and> map_of (ss_definitions s) (rr_schedule r, rr_version r) \<noteq> None"

definition insert_request :: "run_request \<Rightarrow> sched_store \<Rightarrow> sched_store" where
  "insert_request r s = s\<lparr>ss_requests := AList.update (rr_id r) r (ss_requests s)\<rparr>"

definition insert_or_get_request :: "run_request \<Rightarrow> run_request sched" where
  "insert_or_get_request r =
     sx_bind sx_get (\<lambda>s.
     if insertable r s then sx_bind (sx_modify (insert_request r)) (\<lambda>_. sx_return r)
     else (case find_key (rr_key r) s of
         None \<Rightarrow> sx_raise ScIntegrity
       | Some existing \<Rightarrow>
           if \<not> same_binding r existing
           then sx_raise (ScConflict ''idempotency key is bound to another request'')
           else sx_return existing))"

subsection \<open>Leases\<close>

definition authority_ok :: "sched_store \<Rightarrow> scheduler_lease \<Rightarrow> int \<Rightarrow> bool" where
  "authority_ok s lease now =
     (case map_of (ss_authority s) (sl_kind lease) of
        None \<Rightarrow> False
      | Some row \<Rightarrow> sl_owner row = sl_owner lease \<and> sl_token row = sl_token lease
          \<and> sl_fencing row = sl_fencing lease \<and> now < sl_expires row)"

definition assert_authority :: "scheduler_lease \<Rightarrow> int \<Rightarrow> unit sched" where
  "assert_authority lease now =
     sx_bind sx_get (\<lambda>s. sx_guard (authority_ok s lease now) (ScConflict ''authority lease was lost or expired''))"

definition job_lease_ok :: "sched_store \<Rightarrow> job_lease \<Rightarrow> int \<Rightarrow> bool" where
  "job_lease_ok s lease now =
     (case map_of (ss_leases s) (jl_request lease) of
        None \<Rightarrow> False
      | Some row \<Rightarrow> jl_owner row = jl_owner lease \<and> jl_token row = jl_token lease
          \<and> jl_fencing row = jl_fencing lease \<and> jl_attempt row = jl_attempt lease \<and> now < jl_expires row)"

definition assert_job_lease :: "job_lease \<Rightarrow> int \<Rightarrow> unit sched" where
  "assert_job_lease lease now =
     sx_bind sx_get (\<lambda>s. sx_guard (job_lease_ok s lease now) (ScConflict ''job lease was lost or expired''))"

definition kind_text :: "lease_kind \<Rightarrow> string" where
  "kind_text k = (case k of LkLeader \<Rightarrow> ''scheduler_leader'' | LkWriter \<Rightarrow> ''runtime_writer'')"

definition acquire_authority :: "lease_kind \<Rightarrow> string \<Rightarrow> int \<Rightarrow> int \<Rightarrow> string \<Rightarrow> scheduler_lease sched" where
  "acquire_authority kind who ttl now token =
     sx_bind (sx_guard (text_between 1 200 who)
       (ScValueError ''owner must contain between 1 and 200 characters'')) (\<lambda>_.
     sx_bind (sx_guard (1 \<le> ttl) (ScValueError ''ttl_seconds must be positive'')) (\<lambda>_.
     sx_transaction
       (sx_bind sx_get (\<lambda>s.
        let row = map_of (ss_authority s) kind in
        sx_bind (sx_guard (case row of None \<Rightarrow> True | Some l \<Rightarrow> sl_expires l \<le> now)
          (ScConflict (kind_text kind @ '' already has a live owner''))) (\<lambda>_.
        let lease = \<lparr>sl_kind = kind, sl_owner = who, sl_token = token,
              sl_fencing = (case row of None \<Rightarrow> 1 | Some l \<Rightarrow> sl_fencing l + 1),
              sl_expires = now + seconds ttl\<rparr> in
        sx_bind (sx_modify (\<lambda>s. s\<lparr>ss_authority := AList.update kind lease (ss_authority s)\<rparr>)) (\<lambda>_.
        sx_return lease))))))"

definition renew_authority :: "scheduler_lease \<Rightarrow> int \<Rightarrow> int \<Rightarrow> scheduler_lease sched" where
  "renew_authority lease ttl now =
     sx_bind (sx_guard (1 \<le> ttl) (ScValueError ''ttl_seconds must be positive'')) (\<lambda>_.
     sx_transaction
       (sx_bind sx_get (\<lambda>s.
        let P = (\<lambda>k row. k = sl_kind lease \<and> sl_owner row = sl_owner lease \<and> sl_token row = sl_token lease
              \<and> sl_fencing row = sl_fencing lease \<and> now < sl_expires row) in
        sx_bind (sx_modify (\<lambda>s. s\<lparr>ss_authority :=
          sql_update P (\<lambda>row. row\<lparr>sl_expires := now + seconds ttl\<rparr>) (ss_authority s)\<rparr>)) (\<lambda>_.
        sx_bind (sx_guard (sql_rows P (ss_authority s) = 1)
          (ScConflict ''authority lease was lost or expired'')) (\<lambda>_.
        sx_return (lease\<lparr>sl_expires := now + seconds ttl\<rparr>))))))"

subsection \<open>Materialisation\<close>

definition enqueue_occurrences ::
  "schedule_definition \<Rightarrow> int list \<Rightarrow> scheduler_lease \<Rightarrow> int \<Rightarrow> int \<Rightarrow> (nat \<Rightarrow> stamp) \<Rightarrow> run_request list sched" where
  "enqueue_occurrences d occurrences leader advance_to available_at fresh =
     sx_bind (sx_guard (sl_kind leader = LkLeader) (ScConflict ''a scheduler leader lease is required'')) (\<lambda>_.
     sx_bind (sx_lift (requests_for d occurrences available_at fresh 0)) (\<lambda>requests.
     sx_transaction
       (sx_bind (assert_authority leader available_at) (\<lambda>_.
        sx_bind sx_get (\<lambda>s.
        sx_bind (sx_guard
          (case map_of (ss_heads s) (sd_id d) of None \<Rightarrow> False
           | Some h \<Rightarrow> hd_version h = sd_version d \<and> hd_status h = SsEnabled)
          (ScConflict ''schedule changed while materializing'')) (\<lambda>_.
        sx_bind (sx_each insert_or_get_request requests) (\<lambda>stored.
        sx_bind (sx_modify (\<lambda>s. s\<lparr>ss_heads :=
          sql_update (\<lambda>k h. k = sd_id d) (\<lambda>h. h\<lparr>hd_cursor := advance_to, hd_updated := advance_to\<rparr>)
            (ss_heads s)\<rparr>)) (\<lambda>_.
        sx_return stored))))))))"

definition enqueue_manual :: "schedule_definition \<Rightarrow> string \<Rightarrow> int \<Rightarrow> stamp \<Rightarrow> run_request sched" where
  "enqueue_manual d idempotency_key requested_at st =
     sx_bind (sx_guard (idempotency_key \<noteq> []) (ScValueError ''idempotency_key must not be empty'')) (\<lambda>_.
     sx_bind (sx_lift (request_for d requested_at requested_at
       (Some (''manual:'' @ sd_id d @ '':'' @ idempotency_key)) st)) (\<lambda>request.
     sx_transaction
       (sx_bind sx_get (\<lambda>s.
        sx_bind (sx_guard
          (case map_of (ss_heads s) (sd_id d) of None \<Rightarrow> False
           | Some h \<Rightarrow> hd_version h = sd_version d \<and> hd_status h \<noteq> SsCancelled)
          (ScConflict ''schedule changed while triggering manually'')) (\<lambda>_.
        insert_or_get_request request)))))"

definition enqueue_hook :: "schedule_definition \<Rightarrow> string \<Rightarrow> int \<Rightarrow> stamp \<Rightarrow> run_request sched" where
  "enqueue_hook d idempotency_key requested_at st =
     sx_bind (sx_lift (request_for d requested_at requested_at (Some idempotency_key) st)) (\<lambda>request.
     sx_transaction
       (sx_bind sx_get (\<lambda>s.
        sx_bind (sx_guard
          (case map_of (ss_heads s) (sd_id d) of None \<Rightarrow> False
           | Some h \<Rightarrow> hd_version h = sd_version d \<and> hd_status h = SsEnabled)
          (ScConflict ''hook schedule changed or is not enabled'')) (\<lambda>_.
        insert_or_get_request request))))"

definition observe_watch ::
  "schedule_definition \<Rightarrow> string option \<Rightarrow> string option \<Rightarrow> scheduler_lease \<Rightarrow> int \<Rightarrow> stamp
     \<Rightarrow> run_request option sched" where
  "observe_watch d fingerprint error_code leader now st =
     sx_transaction
       (sx_bind (assert_authority leader now) (\<lambda>_.
        sx_bind sx_get (\<lambda>s.
        let key = (sd_id d, sd_version d);
            put = (\<lambda>row. sx_modify (\<lambda>s. s\<lparr>ss_watches := AList.update key row (ss_watches s)\<rparr>)) in
        sx_bind (sx_guard
          (case map_of (ss_heads s) (sd_id d) of None \<Rightarrow> False
           | Some h \<Rightarrow> hd_version h = sd_version d \<and> hd_status h = SsEnabled)
          (ScConflict ''watch schedule changed or is not enabled'')) (\<lambda>_.
        case error_code of
          Some e \<Rightarrow>
            sx_bind (case map_of (ss_watches s) key of
                None \<Rightarrow> put \<lparr>wb_fingerprint = [], wb_generation = 0, wb_observed = now, wb_error = Some e\<rparr>
              | Some row \<Rightarrow> put (row\<lparr>wb_observed := now, wb_error := Some e\<rparr>)) (\<lambda>_. sx_return None)
        | None \<Rightarrow>
            (case fingerprint of
               None \<Rightarrow> sx_raise ScAssertion
             | Some fp \<Rightarrow>
                 (case map_of (ss_watches s) key of
                    None \<Rightarrow>
                      sx_bind (put \<lparr>wb_fingerprint = fp, wb_generation = 0, wb_observed = now, wb_error = None\<rparr>)
                        (\<lambda>_. sx_return None)
                  | Some row \<Rightarrow>
                      if wb_fingerprint row = fp \<or> wb_fingerprint row = [] then
                        sx_bind (put (row\<lparr>wb_fingerprint := fp, wb_observed := now, wb_error := None\<rparr>))
                          (\<lambda>_. sx_return None)
                      else
                        let generation = wb_generation row + 1 in
                        sx_bind (sx_lift (request_for d now now (Some
                          (''watch:'' @ sd_id d @ '':v'' @ show_int (sd_version d) @ '':g'' @ show_int generation
                            @ '':'' @ fp)) st)) (\<lambda>request.
                        sx_bind (insert_or_get_request request) (\<lambda>queued.
                        sx_bind (put (row\<lparr>wb_fingerprint := fp, wb_generation := generation,
                          wb_observed := now, wb_error := None\<rparr>)) (\<lambda>_.
                        sx_return (Some queued))))))))))"

definition get_watch_status :: "string \<Rightarrow> int \<Rightarrow> (bool \<times> int \<times> int option \<times> string option) sched" where
  \<comment> \<open>\<open>initialized\<close>, \<open>generation\<close>, \<open>observed_at\<close> and \<open>error_code\<close>\<close>
  "get_watch_status i version =
     sx_bind sx_get (\<lambda>s.
     sx_return (case map_of (ss_watches s) (i, version) of
         None \<Rightarrow> (False, 0, None, None)
       | Some row \<Rightarrow> (wb_fingerprint row \<noteq> [], wb_generation row, Some (wb_observed row), wb_error row)))"

definition store_replay_dead_letter :: "string \<Rightarrow> string \<Rightarrow> int \<Rightarrow> stamp \<Rightarrow> run_request sched" where
  "store_replay_dead_letter i idempotency_key now st =
     sx_bind (sx_guard (idempotency_key \<noteq> []) (ScValueError ''idempotency_key must not be empty'')) (\<lambda>_.
     sx_transaction
       (sx_bind sx_get (\<lambda>s.
        case map_of (ss_requests s) i of
          None \<Rightarrow> sx_raise ScKeyError
        | Some source \<Rightarrow>
            if rr_status source \<noteq> RqDeadLetter
            then sx_raise (ScConflict ''only dead-letter requests can be replayed'')
            else
              sx_bind (sx_lift (make_request
                \<lparr>rr_id = st_id st, rr_schedule = rr_schedule source, rr_version = rr_version source,
                 rr_occurrence = now, rr_available = now, rr_key = ''replay:'' @ rr_id source @ '':'' @ idempotency_key,
                 rr_workflow = rr_workflow source, rr_workflow_version = rr_workflow_version source,
                 rr_input = rr_input source, rr_replay_of = Some (rr_id source),
                 rr_dispatch = rr_dispatch source, rr_max_attempts = rr_max_attempts source,
                 rr_attempts = 0, rr_status = RqQueued, rr_run = None, rr_cancel = False, rr_error = None,
                 rr_created = st_created st, rr_updated = st_updated st\<rparr>)) (\<lambda>request.
              insert_or_get_request request))))"

end
