(* ===== verification/Sched_Jobs.thy ===== *)
theory Sched_Jobs
  imports Sched_Store
begin

section \<open>Scheduler: claims and attempts\<close>

text \<open>
  The rest of \<open>SQLiteSchedulerStore\<close>: how a request is claimed, renewed, bound to its workflow run and
  settled. A job lease and a running attempt exist together while a request is leased; every operation
  of a worker presents its lease, and the attempt number and fencing number refuse a superseded one.
  Loops over fetched rows work on the rows as they were fetched.
\<close>

subsection \<open>Expired leases\<close>

definition expired_rows :: "int \<Rightarrow> sched_store \<Rightarrow> (run_request \<times> int \<times> bool) list" where
  \<comment> \<open>request, attempt number and \<open>side_effect_started\<close> of every lease that has run out\<close>
  "expired_rows now s =
     List.map_filter (\<lambda>(i, l).
       if now < jl_expires l then None
       else (case (map_of (ss_requests s) i, map_of (ss_attempts s) (i, jl_attempt l)) of
           (Some r, Some a) \<Rightarrow> Some (r, jl_attempt l, ja_side_effect a)
         | _ \<Rightarrow> None)) (ss_leases s)"

definition end_attempt :: "string \<Rightarrow> int \<Rightarrow> (job_attempt \<Rightarrow> job_attempt) \<Rightarrow> sched_store \<Rightarrow> sched_store" where
  \<comment> \<open>\<open>UPDATE job_attempts ... AND status='running'\<close>\<close>
  "end_attempt i n f s = s\<lparr>ss_attempts :=
     sql_update (\<lambda>k a. k = (i, n) \<and> ja_status a = JaRunning) f (ss_attempts s)\<rparr>"

definition end_request :: "string \<Rightarrow> (run_request \<Rightarrow> run_request) \<Rightarrow> sched_store \<Rightarrow> sched_store" where
  \<comment> \<open>\<open>UPDATE run_requests ... AND status='leased'\<close>\<close>
  "end_request i f s = s\<lparr>ss_requests :=
     sql_update (\<lambda>k r. k = i \<and> rr_status r = RqLeased) f (ss_requests s)\<rparr>"

definition drop_lease :: "string \<Rightarrow> sched_store \<Rightarrow> sched_store" where
  "drop_lease i s = s\<lparr>ss_leases := AList.delete i (ss_leases s)\<rparr>"

definition recovered_status :: "run_request \<Rightarrow> bool \<Rightarrow> request_status" where
  "recovered_status r side_effect =
     (if rr_dispatch r = DiNonIdempotent \<and> side_effect \<and> rr_run r = None then RqManual
      else if rr_max_attempts r \<le> rr_attempts r then RqDeadLetter else RqRetryWait)"

definition recover_job :: "int \<Rightarrow> run_request \<times> int \<times> bool \<Rightarrow> sched_store \<Rightarrow> sched_store" where
  "recover_job now row s =
     (case row of (r, n, side_effect) \<Rightarrow>
        if rr_run r \<noteq> None then s
        else
          let status = recovered_status r side_effect;
              attempt = (if status = RqManual then JaUnknown else JaFailed) in
          drop_lease (rr_id r)
            (end_request (rr_id r)
              (\<lambda>q. q\<lparr>rr_status := status, rr_available := now, rr_error := Some ''lease_expired'', rr_updated := now\<rparr>)
            (end_attempt (rr_id r) n
              (\<lambda>a. a\<lparr>ja_status := attempt, ja_error := Some ''lease_expired'', ja_finished := Some now\<rparr>) s)))"

definition recover_expired_jobs :: "int \<Rightarrow> sched_store \<Rightarrow> sched_store" where
  "recover_expired_jobs now s = fold (recover_job now) (expired_rows now s) s"

subsection \<open>Claiming\<close>

definition claim_candidates :: "int \<Rightarrow> sched_store \<Rightarrow> (run_request \<times> schedule_definition) list" where
  "claim_candidates now s =
     take 100 (sort_key (\<lambda>(r, d). (rr_available r, rr_created r, rr_id r))
       (List.map_filter (\<lambda>(i, r).
         case (map_of (ss_heads s) (rr_schedule r), map_of (ss_definitions s) (rr_schedule r, rr_version r)) of
           (Some h, Some d) \<Rightarrow>
             if claimable (rr_status r) \<and> rr_available r \<le> now \<and> \<not> rr_cancel r \<and> hd_status h = SsEnabled
             then Some (r, d) else None
         | _ \<Rightarrow> None) (ss_requests s)))"

definition active_jobs :: "string \<Rightarrow> sched_store \<Rightarrow> nat" where
  "active_jobs schedule s = sql_rows (\<lambda>k r. rr_schedule r = schedule \<and> rr_status r = RqLeased) (ss_requests s)"

definition next_claim :: "int \<Rightarrow> sched_store \<Rightarrow> run_request option" where
  "next_claim now s =
     map_option fst
       (list_find (\<lambda>(r, d). int (active_jobs (rr_schedule r) s) < sd_concurrency d) (claim_candidates now s))"

definition next_fencing :: "string \<Rightarrow> sched_store \<Rightarrow> int" where
  \<comment> \<open>\<open>1 + MAX(lease_fencing)\<close> over the attempts of the request\<close>
  "next_fencing i s =
     (let used = map (\<lambda>(k, a). ja_fencing a) (filter (\<lambda>(k, a). fst k = i) (ss_attempts s))
      in if used = [] then 1 else fold max used (hd used) + 1)"

definition start_job :: "run_request \<Rightarrow> job_lease \<Rightarrow> int \<Rightarrow> sched_store \<Rightarrow> sched_store" where
  \<comment> \<open>the writes of a claim\<close>
  "start_job r l now s = s\<lparr>
     ss_requests := sql_update (\<lambda>k q. k = rr_id r \<and> claimable (rr_status q))
       (\<lambda>q. q\<lparr>rr_status := RqLeased, rr_attempts := jl_attempt l, rr_updated := now\<rparr>) (ss_requests s),
     ss_leases := AList.update (rr_id r) l (ss_leases s),
     ss_attempts := AList.update (rr_id r, jl_attempt l)
       \<lparr>ja_request = rr_id r, ja_number = jl_attempt l, ja_owner = jl_owner l, ja_token = jl_token l,
        ja_fencing = jl_fencing l, ja_status = JaRunning, ja_side_effect = False, ja_run = None,
        ja_error = None, ja_started = now, ja_finished = None\<rparr> (ss_attempts s)\<rparr>"

definition claim_due ::
  "scheduler_lease \<Rightarrow> string \<Rightarrow> int \<Rightarrow> int \<Rightarrow> string \<Rightarrow> (run_request \<times> job_lease) option sched" where
  "claim_due writer who ttl now token =
     sx_bind (sx_guard (text_between 1 200 who)
       (ScValueError ''owner must contain between 1 and 200 characters'')) (\<lambda>_.
     sx_bind (sx_guard (1 \<le> ttl) (ScValueError ''ttl_seconds must be positive'')) (\<lambda>_.
     sx_bind (sx_guard (sl_kind writer = LkWriter \<and> sl_owner writer = who)
       (ScConflict ''a matching runtime writer lease is required'')) (\<lambda>_.
     sx_transaction
       (sx_bind (assert_authority writer now) (\<lambda>_.
        sx_bind (sx_modify (recover_expired_jobs now)) (\<lambda>_.
        sx_bind sx_get (\<lambda>s.
        case next_claim now s of
          None \<Rightarrow> sx_return None
        | Some r \<Rightarrow>
            let n = rr_attempts r + 1;
                lease = \<lparr>jl_request = rr_id r, jl_owner = who, jl_token = token,
                  jl_fencing = next_fencing (rr_id r) s,
                  jl_expires = min (now + seconds ttl) (sl_expires writer), jl_attempt = n\<rparr> in
            sx_bind (sx_guard (sql_rows (\<lambda>k q. k = rr_id r \<and> claimable (rr_status q)) (ss_requests s) = 1)
              (ScConflict ''request claim conflict'')) (\<lambda>_.
            sx_bind (sx_guard (n \<le> 20 \<and> map_of (ss_leases s) (rr_id r) = None
                \<and> map_of (ss_attempts s) (rr_id r, n) = None) ScIntegrity) (\<lambda>_.
            sx_bind (sx_modify (start_job r lease now)) (\<lambda>_.
            sx_return (Some (r\<lparr>rr_status := RqLeased, rr_attempts := n, rr_updated := now\<rparr>, lease))))))))))))"

subsection \<open>Renewal\<close>

definition renew_job :: "job_lease \<Rightarrow> scheduler_lease \<Rightarrow> int \<Rightarrow> int \<Rightarrow> job_lease sched" where
  "renew_job lease writer ttl now =
     sx_bind (sx_guard (1 \<le> ttl) (ScValueError ''ttl_seconds must be positive'')) (\<lambda>_.
     sx_bind (sx_guard (sl_kind writer = LkWriter \<and> sl_owner writer = jl_owner lease)
       (ScConflict ''a matching runtime writer lease is required'')) (\<lambda>_.
     sx_transaction
       (sx_bind (assert_authority writer now) (\<lambda>_.
        sx_bind sx_get (\<lambda>s.
        let expires = min (now + seconds ttl) (sl_expires writer);
            P = (\<lambda>k l. k = jl_request lease \<and> jl_owner l = jl_owner lease \<and> jl_token l = jl_token lease
              \<and> jl_fencing l = jl_fencing lease \<and> now < jl_expires l) in
        sx_bind (sx_modify (\<lambda>s. s\<lparr>ss_leases :=
          sql_update P (\<lambda>l. l\<lparr>jl_expires := expires\<rparr>) (ss_leases s)\<rparr>)) (\<lambda>_.
        sx_bind (sx_guard (sql_rows P (ss_leases s) = 1) (ScConflict ''job lease was lost or expired'')) (\<lambda>_.
        sx_return (lease\<lparr>jl_expires := expires\<rparr>))))))))"

definition lost_runs :: "int \<Rightarrow> sched_store \<Rightarrow> (string \<times> int) list" where
  \<comment> \<open>leased requests with a workflow run whose lease has run out, and its fencing number\<close>
  "lost_runs now s =
     List.map_filter (\<lambda>(i, l).
       case map_of (ss_requests s) i of
         None \<Rightarrow> None
       | Some r \<Rightarrow>
           if rr_status r = RqLeased \<and> rr_run r \<noteq> None \<and> jl_expires l \<le> now
           then Some (i, jl_fencing l) else None) (ss_leases s)"

definition take_over :: "string \<Rightarrow> int \<Rightarrow> int \<Rightarrow> (string \<times> int) \<times> string \<Rightarrow> sched_store \<Rightarrow> sched_store" where
  "take_over who expires now row s =
     (case row of ((i, fencing), token) \<Rightarrow> s\<lparr>ss_leases :=
        sql_update (\<lambda>k l. k = i \<and> jl_expires l \<le> now)
          (\<lambda>l. l\<lparr>jl_owner := who, jl_token := token, jl_fencing := fencing + 1, jl_expires := expires\<rparr>)
          (ss_leases s)\<rparr>)"

definition dispatched_rows :: "string \<Rightarrow> int \<Rightarrow> sched_store \<Rightarrow> (run_request \<times> job_lease) list" where
  "dispatched_rows who now s =
     sort_key (\<lambda>(r, l). (rr_created r, rr_id r))
       (List.map_filter (\<lambda>(i, r).
         case map_of (ss_leases s) i of
           None \<Rightarrow> None
         | Some l \<Rightarrow>
             if rr_status r = RqLeased \<and> rr_run r \<noteq> None \<and> jl_owner l = who \<and> now < jl_expires l
             then Some (r, l) else None) (ss_requests s))"

definition extend_lease :: "string \<Rightarrow> int \<Rightarrow> run_request \<times> job_lease \<Rightarrow> sched_store \<Rightarrow> sched_store" where
  "extend_lease who expires row s =
     (case row of (r, l) \<Rightarrow> s\<lparr>ss_leases :=
        sql_update (\<lambda>k m. k = rr_id r \<and> jl_owner m = who \<and> jl_token m = jl_token l
            \<and> jl_fencing m = jl_fencing l \<and> jl_attempt m = jl_attempt l)
          (\<lambda>m. m\<lparr>jl_expires := expires\<rparr>) (ss_leases s)\<rparr>)"

definition renew_dispatched_jobs ::
  "scheduler_lease \<Rightarrow> string \<Rightarrow> int \<Rightarrow> int \<Rightarrow> (nat \<Rightarrow> string) \<Rightarrow> (run_request \<times> job_lease) list sched" where
  "renew_dispatched_jobs writer who ttl now tokens =
     sx_bind (sx_guard (1 \<le> ttl) (ScValueError ''ttl_seconds must be positive'')) (\<lambda>_.
     sx_bind (sx_guard (sl_kind writer = LkWriter \<and> sl_owner writer = who)
       (ScConflict ''a matching runtime writer lease is required'')) (\<lambda>_.
     let expires = min (now + seconds ttl) (sl_expires writer) in
     sx_transaction
       (sx_bind (assert_authority writer now) (\<lambda>_.
        sx_bind (sx_modify (recover_expired_jobs now)) (\<lambda>_.
        sx_bind (sx_modify (\<lambda>s.
          let lost = lost_runs now s in
          fold (take_over who expires now) (zip lost (map tokens [0..<length lost])) s)) (\<lambda>_.
        sx_bind sx_get (\<lambda>s.
        let rows = dispatched_rows who now s in
        sx_bind (sx_modify (fold (extend_lease who expires) rows)) (\<lambda>_.
        sx_return (map (\<lambda>(r, l). (r, \<lparr>jl_request = rr_id r, jl_owner = who, jl_token = jl_token l,
          jl_fencing = jl_fencing l, jl_expires = expires, jl_attempt = jl_attempt l\<rparr>)) rows)))))))))"

subsection \<open>Dispatch\<close>

definition mark_job_side_effect :: "job_lease \<Rightarrow> int \<Rightarrow> unit sched" where
  \<comment> \<open>\<open>mark_side_effect_started\<close>\<close>
  "mark_job_side_effect lease now =
     sx_transaction
       (sx_bind (assert_job_lease lease now) (\<lambda>_.
        sx_bind sx_get (\<lambda>s.
        let P = (\<lambda>k a. k = (jl_request lease, jl_attempt lease) \<and> ja_status a = JaRunning
              \<and> (case map_of (ss_requests s) (jl_request lease) of None \<Rightarrow> False
                 | Some r \<Rightarrow> rr_status r = RqLeased \<and> \<not> rr_cancel r)) in
        sx_bind (sx_modify (\<lambda>s. s\<lparr>ss_attempts :=
          sql_update P (\<lambda>a. a\<lparr>ja_side_effect := True\<rparr>) (ss_attempts s)\<rparr>)) (\<lambda>_.
        sx_guard (sql_rows P (ss_attempts s) = 1)
          (ScConflict ''attempt is cancelled or no longer running'')))))"

definition current_request :: "string \<Rightarrow> run_request sched" where
  \<comment> \<open>the row a method reads back before it commits\<close>
  "current_request i =
     sx_bind sx_get (\<lambda>s.
     case map_of (ss_requests s) i of None \<Rightarrow> sx_raise ScAssertion | Some r \<Rightarrow> sx_return r)"

definition mark_workflow_dispatched :: "job_lease \<Rightarrow> string \<Rightarrow> int \<Rightarrow> run_request sched" where
  "mark_workflow_dispatched lease run_id now =
     sx_bind (sx_guard (run_id \<noteq> []) (ScValueError ''workflow_run_id must not be empty'')) (\<lambda>_.
     sx_transaction
       (sx_bind (assert_job_lease lease now) (\<lambda>_.
        sx_bind sx_get (\<lambda>s.
        let i = jl_request lease;
            P = (\<lambda>k a. k = (i, jl_attempt lease) \<and> ja_status a = JaRunning \<and> ja_side_effect a
              \<and> (ja_run a = None \<or> ja_run a = Some run_id));
            Q = (\<lambda>k r. k = i \<and> rr_status r = RqLeased \<and> (rr_run r = None \<or> rr_run r = Some run_id)) in
        sx_bind (sx_modify (\<lambda>s. s\<lparr>ss_attempts :=
          sql_update P (\<lambda>a. a\<lparr>ja_run := Some run_id\<rparr>) (ss_attempts s)\<rparr>)) (\<lambda>_.
        sx_bind (sx_guard (sql_rows P (ss_attempts s) = 1)
          (ScConflict ''workflow dispatch binding conflict'')) (\<lambda>_.
        sx_bind (sx_modify (\<lambda>s. s\<lparr>ss_requests :=
          sql_update Q (\<lambda>r. r\<lparr>rr_run := Some run_id, rr_updated := now\<rparr>) (ss_requests s)\<rparr>)) (\<lambda>_.
        sx_bind (sx_guard (sql_rows Q (ss_requests s) = 1)
          (ScConflict ''run request dispatch binding conflict'')) (\<lambda>_.
        current_request i))))))))"

subsection \<open>Settling\<close>

definition cancel_claimed_job :: "job_lease \<Rightarrow> int \<Rightarrow> run_request sched" where
  "cancel_claimed_job lease now =
     sx_transaction
       (sx_bind (assert_job_lease lease now) (\<lambda>_.
        sx_bind sx_get (\<lambda>s.
        let i = jl_request lease; n = jl_attempt lease in
        sx_bind (sx_guard
          (case map_of (ss_attempts s) (i, n) of None \<Rightarrow> False
           | Some a \<Rightarrow> ja_status a = JaRunning \<and> \<not> ja_side_effect a)
          (ScConflict ''a started side effect cannot be reported as cancelled'')) (\<lambda>_.
        sx_bind (sx_modify (\<lambda>s. s\<lparr>ss_attempts := sql_update (\<lambda>k a. k = (i, n))
          (\<lambda>a. a\<lparr>ja_status := JaFailed, ja_error := Some ''cancelled'', ja_finished := Some now\<rparr>)
          (ss_attempts s)\<rparr>)) (\<lambda>_.
        sx_bind (sx_modify (end_request i (\<lambda>r. r\<lparr>rr_status := RqCancelled, rr_cancel := True,
          rr_error := Some ''cancelled'', rr_updated := now\<rparr>))) (\<lambda>_.
        sx_bind (sx_modify (drop_lease i)) (\<lambda>_.
        current_request i)))))))"

definition complete_job :: "job_lease \<Rightarrow> string \<Rightarrow> int \<Rightarrow> run_request sched" where
  "complete_job lease run_id now =
     sx_transaction
       (sx_bind (assert_job_lease lease now) (\<lambda>_.
        let i = jl_request lease; n = jl_attempt lease in
        sx_bind (sx_modify (end_attempt i n
          (\<lambda>a. a\<lparr>ja_status := JaSucceeded, ja_run := Some run_id, ja_finished := Some now\<rparr>))) (\<lambda>_.
        sx_bind (sx_modify (end_request i
          (\<lambda>r. r\<lparr>rr_status := RqSucceeded, rr_run := Some run_id, rr_updated := now\<rparr>))) (\<lambda>_.
        sx_bind (sx_modify (drop_lease i)) (\<lambda>_.
        current_request i)))))"

definition finish_dispatched_job :: "job_lease \<Rightarrow> request_status \<Rightarrow> string \<Rightarrow> int \<Rightarrow> run_request sched" where
  "finish_dispatched_job lease status error_code now =
     sx_bind (sx_guard (status \<in> {RqCancelled, RqDeadLetter, RqManual})
       (ScValueError ''invalid dispatched terminal status'')) (\<lambda>_.
     sx_transaction
       (sx_bind (assert_job_lease lease now) (\<lambda>_.
        let i = jl_request lease; n = jl_attempt lease;
            attempt = (if status = RqManual then JaUnknown else JaFailed) in
        sx_bind (sx_modify (end_attempt i n
          (\<lambda>a. a\<lparr>ja_status := attempt, ja_error := Some error_code, ja_finished := Some now\<rparr>))) (\<lambda>_.
        sx_bind (sx_modify (end_request i
          (\<lambda>r. r\<lparr>rr_status := status, rr_error := Some error_code, rr_updated := now\<rparr>))) (\<lambda>_.
        sx_bind (sx_modify (drop_lease i)) (\<lambda>_.
        current_request i))))))"

definition retry_delay :: "int \<Rightarrow> int \<Rightarrow> int \<Rightarrow> int" where
  "retry_delay retry_base retry_max attempts = min retry_max (retry_base * 2 ^ nat (attempts - 1))"

definition failed_status :: "run_request \<Rightarrow> bool \<Rightarrow> request_status" where
  "failed_status r outcome_unknown =
     (if rr_dispatch r = DiNonIdempotent \<and> outcome_unknown then RqManual
      else if rr_max_attempts r \<le> rr_attempts r then RqDeadLetter else RqRetryWait)"

definition fail_job :: "job_lease \<Rightarrow> string \<Rightarrow> bool \<Rightarrow> int \<Rightarrow> int \<Rightarrow> int \<Rightarrow> run_request sched" where
  "fail_job lease error_code outcome_unknown retry_base retry_max now =
     sx_transaction
       (sx_bind (assert_job_lease lease now) (\<lambda>_.
        sx_bind sx_get (\<lambda>s.
        let i = jl_request lease; n = jl_attempt lease in
        case (map_of (ss_requests s) i, map_of (ss_attempts s) (i, n)) of
          (Some r, Some _) \<Rightarrow>
            let status = failed_status r outcome_unknown;
                attempt = (if status = RqManual then JaUnknown else JaFailed);
                available = (if status = RqRetryWait
                  then now + seconds (retry_delay retry_base retry_max (rr_attempts r)) else now) in
            sx_bind (sx_modify (end_attempt i n
              (\<lambda>a. a\<lparr>ja_status := attempt, ja_error := Some error_code, ja_finished := Some now\<rparr>))) (\<lambda>_.
            sx_bind (sx_modify (end_request i (\<lambda>r. r\<lparr>rr_status := status, rr_available := available,
              rr_error := Some error_code, rr_updated := now\<rparr>))) (\<lambda>_.
            sx_bind (sx_modify (drop_lease i)) (\<lambda>_.
            current_request i)))
        | _ \<Rightarrow> sx_raise (ScConflict ''request attempt is missing''))))"

definition request_cancel :: "string \<Rightarrow> int \<Rightarrow> run_request sched" where
  "request_cancel i now =
     sx_transaction
       (sx_bind sx_get (\<lambda>s.
        case map_of (ss_requests s) i of
          None \<Rightarrow> sx_raise ScKeyError
        | Some r \<Rightarrow>
            sx_bind
              (if claimable (rr_status r) then
                 sx_modify (\<lambda>s. s\<lparr>ss_requests := sql_update (\<lambda>k r. k = i)
                   (\<lambda>r. r\<lparr>rr_status := RqCancelled, rr_cancel := True, rr_updated := now\<rparr>) (ss_requests s)\<rparr>)
               else if rr_status r = RqLeased then
                 sx_modify (\<lambda>s. s\<lparr>ss_requests := sql_update (\<lambda>k r. k = i)
                   (\<lambda>r. r\<lparr>rr_cancel := True, rr_updated := now\<rparr>) (ss_requests s)\<rparr>)
               else sx_return ()) (\<lambda>_.
            current_request i)))"

subsection \<open>Reads\<close>

definition get_request :: "string \<Rightarrow> run_request sched" where
  "get_request i =
     sx_bind sx_get (\<lambda>s.
     case map_of (ss_requests s) i of None \<Rightarrow> sx_raise ScKeyError | Some r \<Rightarrow> sx_return r)"

definition list_requests :: "request_status option \<Rightarrow> int \<Rightarrow> run_request list sched" where
  "list_requests status limit =
     sx_bind (sx_guard (1 \<le> limit \<and> limit \<le> 500) (ScValueError ''run request limit is invalid'')) (\<lambda>_.
     sx_bind sx_get (\<lambda>s.
     sx_return (take (nat limit)
       (sort_key (\<lambda>r. (- rr_created r, rr_id r))
         (filter (\<lambda>r. case status of None \<Rightarrow> True | Some st \<Rightarrow> rr_status r = st) (map snd (ss_requests s)))))))"

definition list_job_attempts :: "string \<Rightarrow> job_attempt list sched" where
  "list_job_attempts i =
     sx_bind sx_get (\<lambda>s.
     sx_return (map snd (sort_key (\<lambda>(k, a). snd k) (filter (\<lambda>(k, a). fst k = i) (ss_attempts s)))))"

end
