(* ===== verification/Sched_Machine.thy ===== *)
theory Sched_Machine
  imports Sched_Jobs
begin

section \<open>Scheduler: the life of one request\<close>

text \<open>
  The abstract specification that the store implements. What the tables hold about one request is its
  row, its lease and its attempts (\<open>job_view\<close>); \<open>job_step\<close> says how the three move together. The labels
  name the steps that some results exclude: creation, claims, and the report of a failure whose outcome
  is known. \<open>Sched_Simulation\<close> proves that every operation of the store takes only such steps, on every
  request at once.
\<close>

record job_view =
  jv_request :: "run_request option"
  jv_lease :: "job_lease option"
  jv_attempts :: "int \<Rightarrow> job_attempt option"

datatype job_label = JlBorn | JlClaim | JlKnown

definition request_identity :: "run_request \<Rightarrow> string \<times> string \<times> int \<times> string option \<times> int" where
  "request_identity r = (rr_id r, rr_key r, rr_occurrence r, rr_replay_of r, rr_created r)"

definition same_request :: "run_request \<Rightarrow> run_request \<Rightarrow> bool" where
  "same_request r q \<longleftrightarrow> request_identity q = request_identity r \<and> request_binding q = request_binding r"

definition same_attempt :: "job_attempt \<Rightarrow> job_attempt \<Rightarrow> bool" where
  "same_attempt a b \<longleftrightarrow>
     ja_request b = ja_request a \<and> ja_number b = ja_number a \<and> ja_owner b = ja_owner a
     \<and> ja_token b = ja_token a \<and> ja_fencing b = ja_fencing a \<and> ja_started b = ja_started a"

definition new_request :: "run_request \<Rightarrow> bool" where
  "new_request r \<longleftrightarrow> request_fields_ok r \<and> rr_attempts r = 0 \<and> rr_status r = RqQueued \<and> rr_run r = None
     \<and> \<not> rr_cancel r \<and> rr_error r = None"

definition started_attempt :: "job_lease \<Rightarrow> int \<Rightarrow> job_attempt" where
  "started_attempt l now =
     \<lparr>ja_request = jl_request l, ja_number = jl_attempt l, ja_owner = jl_owner l, ja_token = jl_token l,
      ja_fencing = jl_fencing l, ja_status = JaRunning, ja_side_effect = False, ja_run = None,
      ja_error = None, ja_started = now, ja_finished = None\<rparr>"

definition retryable :: "job_label set \<Rightarrow> run_request \<Rightarrow> job_attempt \<Rightarrow> bool" where
  \<comment> \<open>a request may be tried again: attempts are left, and no side effect of unknown outcome is repeated\<close>
  "retryable L r a \<longleftrightarrow>
     rr_attempts r < rr_max_attempts r
     \<and> (rr_dispatch r = DiIdempotent \<or> \<not> ja_side_effect a \<or> JlKnown \<in> L)"

definition settles :: "job_label set \<Rightarrow> run_request \<Rightarrow> job_attempt \<Rightarrow> run_request \<Rightarrow> job_attempt \<Rightarrow> bool" where
  \<comment> \<open>how the row and the running attempt end together\<close>
  "settles L r a q b \<longleftrightarrow>
     same_request r q \<and> rr_attempts q = rr_attempts r \<and> same_attempt a b
     \<and> ja_side_effect b = ja_side_effect a \<and> ja_finished b \<noteq> None
     \<and> (case rr_status q of
          RqSucceeded \<Rightarrow> ja_status b = JaSucceeded \<and> rr_run q \<noteq> None \<and> ja_run b = rr_run q
        | RqManual \<Rightarrow> ja_status b = JaUnknown
        | RqCancelled \<Rightarrow> ja_status b = JaFailed
        | RqDeadLetter \<Rightarrow> ja_status b = JaFailed
        | RqRetryWait \<Rightarrow> ja_status b = JaFailed \<and> retryable L r a
        | _ \<Rightarrow> False)"

inductive job_step :: "job_label set \<Rightarrow> string \<Rightarrow> job_view \<Rightarrow> job_view \<Rightarrow> bool" for L i where
  born:
    "JlBorn \<in> L \<Longrightarrow> jv_request v = None \<Longrightarrow> new_request r \<Longrightarrow> rr_id r = i \<Longrightarrow>
     job_step L i v (v\<lparr>jv_request := Some r\<rparr>)"
| claimed:
    "JlClaim \<in> L \<Longrightarrow> jv_request v = Some r \<Longrightarrow> claimable (rr_status r) \<Longrightarrow> \<not> rr_cancel r \<Longrightarrow>
     jl_request l = i \<Longrightarrow> jl_attempt l = rr_attempts r + 1 \<Longrightarrow>
     (\<And>n a. jv_attempts v n = Some a \<Longrightarrow> ja_fencing a < jl_fencing l) \<Longrightarrow>
     job_step L i v \<lparr>jv_request = Some (r\<lparr>rr_status := RqLeased, rr_attempts := jl_attempt l, rr_updated := now\<rparr>),
       jv_lease = Some l, jv_attempts = (jv_attempts v)(jl_attempt l \<mapsto> started_attempt l now)\<rparr>"
| withdrawn:
    "jv_request v = Some r \<Longrightarrow> claimable (rr_status r) \<Longrightarrow> (rr_cancel r \<Longrightarrow> c) \<Longrightarrow>
     job_step L i v (v\<lparr>jv_request := Some (r\<lparr>rr_status := RqCancelled, rr_cancel := c, rr_updated := now\<rparr>)\<rparr>)"
| flagged:
    "jv_request v = Some r \<Longrightarrow> rr_status r = RqLeased \<Longrightarrow>
     job_step L i v (v\<lparr>jv_request := Some (r\<lparr>rr_cancel := True, rr_updated := now\<rparr>)\<rparr>)"
| leased_on:
    "jv_lease v = Some l \<Longrightarrow> jl_request m = jl_request l \<Longrightarrow> jl_attempt m = jl_attempt l \<Longrightarrow>
     jl_fencing l < jl_fencing m \<or> jl_fencing m = jl_fencing l \<and> jl_owner m = jl_owner l \<and> jl_token m = jl_token l \<Longrightarrow>
     job_step L i v (v\<lparr>jv_lease := Some m\<rparr>)"
| side_effect:
    "jv_request v = Some r \<Longrightarrow> jv_lease v = Some l \<Longrightarrow> rr_status r = RqLeased \<Longrightarrow> \<not> rr_cancel r \<Longrightarrow>
     jv_attempts v (jl_attempt l) = Some a \<Longrightarrow> ja_status a = JaRunning \<Longrightarrow>
     job_step L i v (v\<lparr>jv_attempts := (jv_attempts v)(jl_attempt l \<mapsto> a\<lparr>ja_side_effect := True\<rparr>)\<rparr>)"
| bound:
    "jv_request v = Some r \<Longrightarrow> jv_lease v = Some l \<Longrightarrow> rr_status r = RqLeased \<Longrightarrow>
     jv_attempts v (jl_attempt l) = Some a \<Longrightarrow> ja_status a = JaRunning \<Longrightarrow> ja_side_effect a \<Longrightarrow>
     ja_run a = None \<or> ja_run a = Some w \<Longrightarrow> rr_run r = None \<or> rr_run r = Some w \<Longrightarrow>
     job_step L i v (v\<lparr>jv_request := Some (r\<lparr>rr_run := Some w, rr_updated := now\<rparr>),
       jv_attempts := (jv_attempts v)(jl_attempt l \<mapsto> a\<lparr>ja_run := Some w\<rparr>)\<rparr>)"
| settled:
    "jv_request v = Some r \<Longrightarrow> jv_lease v = Some l \<Longrightarrow> rr_status r = RqLeased \<Longrightarrow>
     jv_attempts v (jl_attempt l) = Some a \<Longrightarrow> ja_status a = JaRunning \<Longrightarrow> settles L r a q b \<Longrightarrow>
     job_step L i v \<lparr>jv_request = Some q, jv_lease = None, jv_attempts = (jv_attempts v)(jl_attempt l \<mapsto> b)\<rparr>"

inductive_cases job_stepE: "job_step L i v w"

lemma job_step_mono: "job_step L i v w \<Longrightarrow> L \<subseteq> M \<Longrightarrow> job_step M i v w"
proof (induction rule: job_step.induct)
  case (settled v r l a q b)
  then have "settles M r a q b" by (auto simp: settles_def retryable_def split: request_status.splits)
  with settled show ?case by (intro job_step.settled)
next
  case (claimed v r l now)
  then show ?case by (intro job_step.claimed) auto
qed (auto intro: job_step.intros)

lemma job_steps_mono: "(job_step L i)\<^sup>*\<^sup>* v w \<Longrightarrow> L \<subseteq> M \<Longrightarrow> (job_step M i)\<^sup>*\<^sup>* v w"
  by (induction rule: rtranclp_induct) (auto dest: job_step_mono intro: rtranclp.rtrancl_into_rtrancl)

subsection \<open>What every reachable view satisfies\<close>

definition attempts_ok :: "string \<Rightarrow> run_request \<Rightarrow> (int \<Rightarrow> job_attempt option) \<Rightarrow> bool" where
  \<comment> \<open>attempts are numbered within the count; a running one is the last, of a leased request\<close>
  "attempts_ok i r attempts \<longleftrightarrow>
     (\<forall>n a. attempts n = Some a \<longrightarrow>
        1 \<le> n \<and> n \<le> rr_attempts r \<and> ja_request a = i \<and> ja_number a = n
        \<and> (ja_status a = JaRunning \<longrightarrow> n = rr_attempts r \<and> rr_status r = RqLeased)
        \<and> (ja_status a = JaRunning \<longleftrightarrow> ja_finished a = None)
        \<and> (ja_run a \<noteq> None \<longrightarrow> ja_status a = JaRunning \<longrightarrow> ja_side_effect a))"

definition lease_ok :: "string \<Rightarrow> run_request \<Rightarrow> job_lease option \<Rightarrow> (int \<Rightarrow> job_attempt option) \<Rightarrow> bool" where
  \<comment> \<open>a leased request has one lease, for its last attempt, which is running\<close>
  "lease_ok i r lease attempts \<longleftrightarrow>
     (case lease of
        None \<Rightarrow> rr_status r \<noteq> RqLeased
      | Some l \<Rightarrow> rr_status r = RqLeased \<and> jl_request l = i \<and> jl_attempt l = rr_attempts r
          \<and> (\<exists>a. attempts (rr_attempts r) = Some a \<and> ja_status a = JaRunning \<and> ja_fencing a \<le> jl_fencing l))"

definition job_ok :: "string \<Rightarrow> job_view \<Rightarrow> bool" where
  "job_ok i v \<longleftrightarrow>
     (case jv_request v of
        None \<Rightarrow> jv_lease v = None \<and> jv_attempts v = (\<lambda>n. None)
      | Some r \<Rightarrow>
          rr_id r = i \<and> request_fields_ok r \<and> rr_attempts r \<le> rr_max_attempts r
          \<and> (claimable (rr_status r) \<longrightarrow> rr_attempts r < rr_max_attempts r)
          \<and> attempts_ok i r (jv_attempts v) \<and> lease_ok i r (jv_lease v) (jv_attempts v))"

lemma claimable_simps [simp]:
  "claimable RqQueued" "claimable RqRetryWait" "\<not> claimable RqLeased" "\<not> claimable RqSucceeded"
  "\<not> claimable RqCancelled" "\<not> claimable RqDeadLetter" "\<not> claimable RqManual"
  by (simp_all add: claimable_def)

lemma claimable_not_leased: "claimable st \<Longrightarrow> st \<noteq> RqLeased"
  by auto

lemma fields_same: "same_request r q \<Longrightarrow> rr_attempts q = rr_attempts r \<Longrightarrow> request_fields_ok q = request_fields_ok r"
  by (simp add: same_request_def request_identity_def request_binding_def request_fields_ok_def)

lemma settles_status:
  assumes "settles L r a q b"
  shows "rr_status q \<in> {RqSucceeded, RqManual, RqCancelled, RqDeadLetter, RqRetryWait}" "ja_status b \<noteq> JaRunning"
    "claimable (rr_status q) \<Longrightarrow> retryable L r a"
  using assms by (auto simp: settles_def split: request_status.splits)

lemma job_step_ok:
  assumes "job_step L i v w" and "job_ok i v"
  shows "job_ok i w"
  using assms
proof (induction rule: job_step.induct)
  case (born v r)
  then show ?case by (auto simp: job_ok_def new_request_def request_fields_ok_def attempts_ok_def lease_ok_def)
next
  case (claimed v r l now)
  have ok: "rr_attempts r < rr_max_attempts r" "request_fields_ok r" "rr_id r = i"
    "attempts_ok i r (jv_attempts v)" "rr_status r \<noteq> RqLeased"
    using claimed(2,3) claimed.prems claimable_not_leased by (auto simp: job_ok_def)
  have "attempts_ok i (r\<lparr>rr_status := RqLeased, rr_attempts := jl_attempt l, rr_updated := now\<rparr>)
      ((jv_attempts v)(jl_attempt l \<mapsto> started_attempt l now))"
    using ok(2,4,5) claimed(5,6) by (fastforce simp: attempts_ok_def started_attempt_def request_fields_ok_def)
  with ok claimed(5,6) show ?case
    by (simp add: job_ok_def lease_ok_def started_attempt_def request_fields_ok_def)
next
  case (withdrawn v r c now)
  then show ?case
    by (auto simp: job_ok_def request_fields_ok_def attempts_ok_def lease_ok_def dest: claimable_not_leased split: option.splits)
next
  case (flagged v r now)
  then show ?case
    by (auto simp: job_ok_def request_fields_ok_def attempts_ok_def lease_ok_def split: option.splits)
next
  case (leased_on v l m)
  then show ?case by (force simp: job_ok_def lease_ok_def split: option.splits)
next
  case (side_effect v r l a)
  let ?as = "(jv_attempts v)(jl_attempt l \<mapsto> a\<lparr>ja_side_effect := True\<rparr>)"
  have old: "attempts_ok i r (jv_attempts v)" "lease_ok i r (Some l) (jv_attempts v)"
    using side_effect.prems side_effect(1,2) by (simp_all add: job_ok_def)
  have "attempts_ok i r ?as" using old(1) side_effect(5) by (fastforce simp: attempts_ok_def)
  moreover have "lease_ok i r (Some l) ?as" using old(2) side_effect(5) by (simp add: lease_ok_def)
  ultimately show ?case using side_effect.prems side_effect(1,2) by (simp add: job_ok_def)
next
  case (bound v r l a w now)
  let ?r = "r\<lparr>rr_run := Some w, rr_updated := now\<rparr>"
  let ?as = "(jv_attempts v)(jl_attempt l \<mapsto> a\<lparr>ja_run := Some w\<rparr>)"
  have old: "attempts_ok i r (jv_attempts v)" "lease_ok i r (Some l) (jv_attempts v)"
    using bound.prems bound(1,2) by (simp_all add: job_ok_def)
  have "attempts_ok i ?r ?as" using old(1) bound(4,6) by (fastforce simp: attempts_ok_def)
  moreover have "lease_ok i ?r (Some l) ?as" using old(2) bound(4) by (simp add: lease_ok_def)
  ultimately show ?case using bound.prems bound(1,2) by (simp add: job_ok_def request_fields_ok_def)
next
  case (settled v r l a q b)
  note st = settles_status [OF settled(6)]
  have same: "same_request r q" "rr_attempts q = rr_attempts r" "same_attempt a b" "ja_finished b \<noteq> None"
    using settled(6) by (simp_all add: settles_def)
  have old: "rr_id r = i" "request_fields_ok r" "rr_attempts r \<le> rr_max_attempts r" "attempts_ok i r (jv_attempts v)"
    "jl_attempt l = rr_attempts r"
    using settled.prems settled(1,2) by (auto simp: job_ok_def lease_ok_def)
  have ids: "rr_id q = i" "rr_max_attempts q = rr_max_attempts r"
    using same(1) old(1) by (simp_all add: same_request_def request_identity_def request_binding_def)
  have "attempts_ok i q ((jv_attempts v)(jl_attempt l \<mapsto> b))"
    using old(4,5) settled(4) same st(2) unfolding attempts_ok_def by (auto simp: same_attempt_def)
  moreover have "claimable (rr_status q) \<Longrightarrow> rr_attempts r < rr_max_attempts r"
    using st(3) by (simp add: retryable_def)
  moreover have "rr_status q \<noteq> RqLeased" using st(1) by auto
  ultimately show ?case
    using old same ids fields_same [OF same(1,2)] by (simp add: job_ok_def lease_ok_def)
qed

lemma job_steps_ok: "(job_step L i)\<^sup>*\<^sup>* v w \<Longrightarrow> job_ok i v \<Longrightarrow> job_ok i w"
  by (induction rule: rtranclp_induct) (auto intro: job_step_ok)

end
