(* ===== verification/Sched_Simulation.thy ===== *)
theory Sched_Simulation
  imports Sched_Machine
begin

section \<open>Scheduler: the store implements the life of its requests\<close>

text \<open>
  \<open>view_of s i\<close> is what the tables of the store hold about the request \<open>i\<close>, and \<open>jobs_move L\<close> that a
  store changes by steps of \<open>job_step L\<close>, for every request. Each operation is shown to keep it.
\<close>

subsection \<open>Updated tables\<close>

lemma set_map_filter: "set (List.map_filter f xs) = {y. \<exists>x \<in> set xs. f x = Some y}"
  by (induction xs) (auto simp: map_filter_simps split: option.splits)

lemma distinct_fetched:
  assumes "distinct (map fst xs)" and "\<And>x y. x \<in> set xs \<Longrightarrow> f x = Some y \<Longrightarrow> key y = fst x"
  shows "distinct (map key (List.map_filter f xs))"
  using assms
proof (induction xs)
  case (Cons x xs)
  then have IH: "distinct (map key (List.map_filter f xs))" by simp
  have "key y \<in> fst ` set xs" if "y \<in> set (List.map_filter f xs)" for y
    using that Cons.prems(2) by (force simp: set_map_filter)
  then have "key y \<notin> key ` set (List.map_filter f xs)" if "f x = Some y" for y
    using Cons.prems(1) Cons.prems(2) [of x y] that by auto
  with IH show ?case by (auto simp: map_filter_simps split: option.splits)
qed (simp add: map_filter_simps)

context kept_relation
begin

lemma keeps_rows:
  \<comment> \<open>a loop over fetched rows of distinct keys: each row is still as fetched when its turn comes\<close>
  assumes "\<And>row s. live row s \<Longrightarrow> R s (f row s)"
    and "\<And>row row' s. live row s \<Longrightarrow> live row' s \<Longrightarrow> key row' \<noteq> key row \<Longrightarrow> live row' (f row s)"
    and "distinct (map key rows)" and "\<And>row. row \<in> set rows \<Longrightarrow> live row s"
  shows "R s (fold f rows s)"
  using assms(3,4)
proof (induction rows arbitrary: s)
  case (Cons row rows)
  have row: "live row s" using Cons.prems by simp
  have "live row' (f row s)" if "row' \<in> set rows" for row'
  proof (rule assms(2) [OF row])
    show "live row' s" using Cons.prems(2) that by simp
    show "key row' \<noteq> key row" using Cons.prems(1) that by (metis distinct.simps(2) imageI image_set list.simps(9))
  qed
  then have "R (f row s) (fold f rows (f row s))" using Cons by simp
  then show ?case using kept_trans [OF assms(1) [OF row]] by simp
qed (simp add: kept_refl)

end

subsection \<open>Views\<close>

definition view_of :: "sched_store \<Rightarrow> string \<Rightarrow> job_view" where
  "view_of s i = \<lparr>jv_request = map_of (ss_requests s) i, jv_lease = map_of (ss_leases s) i,
     jv_attempts = (\<lambda>n. map_of (ss_attempts s) (i, n))\<rparr>"

definition jobs_wf :: "sched_store \<Rightarrow> bool" where
  "jobs_wf s \<longleftrightarrow>
     distinct (map fst (ss_requests s)) \<and> distinct (map fst (ss_leases s)) \<and> distinct (map fst (ss_attempts s))
     \<and> (\<forall>i. job_ok i (view_of s i))"

definition jobs_move :: "job_label set \<Rightarrow> sched_store \<Rightarrow> sched_store \<Rightarrow> bool" where
  "jobs_move L s t \<longleftrightarrow> (jobs_wf s \<longrightarrow> jobs_wf t \<and> (\<forall>i. (job_step L i)\<^sup>*\<^sup>* (view_of s i) (view_of t i)))"

interpretation moves: kept_relation "jobs_move L"
  by unfold_locales (auto simp: jobs_move_def intro: rtranclp_trans)

lemma jobs_moveI:
  assumes "jobs_wf s \<Longrightarrow> distinct (map fst (ss_requests t)) \<and> distinct (map fst (ss_leases t))
      \<and> distinct (map fst (ss_attempts t))"
    and "\<And>i. jobs_wf s \<Longrightarrow> (job_step L i)\<^sup>*\<^sup>* (view_of s i) (view_of t i)"
  shows "jobs_move L s t"
  using assms job_steps_ok unfolding jobs_move_def jobs_wf_def by blast

lemma jobs_move_one:
  \<comment> \<open>only the request \<open>i\<close> moves, by one step\<close>
  assumes "jobs_wf s \<Longrightarrow> distinct (map fst (ss_requests t)) \<and> distinct (map fst (ss_leases t))
      \<and> distinct (map fst (ss_attempts t))"
    and "\<And>j. j \<noteq> i \<Longrightarrow> view_of t j = view_of s j"
    and "jobs_wf s \<Longrightarrow> job_step L i (view_of s i) (view_of t i)"
  shows "jobs_move L s t"
proof (rule jobs_moveI [OF assms(1)])
  fix j assume "jobs_wf s"
  then show "(job_step L j)\<^sup>*\<^sup>* (view_of s j) (view_of t j)"
    using assms(2,3) by (cases "j = i") auto
qed

lemma jobs_move_same:
  "ss_requests t = ss_requests s \<Longrightarrow> ss_leases t = ss_leases s \<Longrightarrow> ss_attempts t = ss_attempts s \<Longrightarrow> jobs_move L s t"
  by (simp add: jobs_move_def jobs_wf_def view_of_def)

lemma jobs_move_mono: "jobs_move L s t \<Longrightarrow> L \<subseteq> M \<Longrightarrow> jobs_move M s t"
  by (auto simp: jobs_move_def intro: job_steps_mono)

lemma wf_view: "jobs_wf s \<Longrightarrow> job_ok i (view_of s i)"
  by (simp add: jobs_wf_def)

lemma wf_request: "jobs_wf s \<Longrightarrow> map_of (ss_requests s) i = Some r \<Longrightarrow> rr_id r = i"
  using wf_view [of s i] by (simp add: job_ok_def view_of_def)

lemma wf_lease:
  assumes "jobs_wf s" and "map_of (ss_leases s) i = Some l"
  obtains r a where "map_of (ss_requests s) i = Some r" "rr_status r = RqLeased" "jl_request l = i"
    "jl_attempt l = rr_attempts r" "map_of (ss_attempts s) (i, jl_attempt l) = Some a" "ja_status a = JaRunning"
    "ja_fencing a \<le> jl_fencing l"
  using wf_view [OF assms(1), of i] assms(2)
  by (auto simp: job_ok_def view_of_def lease_ok_def split: option.splits)

subsection \<open>Creation\<close>

lemma request_for_new: "request_for d occurrence available key st = Inr r \<Longrightarrow> new_request r"
  by (auto simp: request_for_def make_request_def new_request_def Let_def split: if_splits)

lemma requests_for_new: "requests_for d vs available fresh n = Inr rs \<Longrightarrow> \<forall>r \<in> set rs. new_request r"
  by (induction d vs available fresh n arbitrary: rs rule: requests_for.induct)
    (auto simp: res_bind_Inr_iff dest: request_for_new)

lemma insert_request_moves:
  assumes "map_of (ss_requests s) (rr_id r) = None" and "new_request r" and "JlBorn \<in> L"
  shows "jobs_move L s (insert_request r s)"
proof (rule jobs_move_one [where i = "rr_id r"])
  have "view_of (insert_request r s) (rr_id r) = (view_of s (rr_id r))\<lparr>jv_request := Some r\<rparr>"
    by (simp add: view_of_def insert_request_def map_of_update)
  then show "job_step L (rr_id r) (view_of s (rr_id r)) (view_of (insert_request r s) (rr_id r))"
    using job_step.born [OF assms(3), of "view_of s (rr_id r)" r "rr_id r"] assms(1,2) by (simp add: view_of_def)
qed (simp_all add: insert_request_def view_of_def map_of_update jobs_wf_def distinct_update)

lemma insert_or_get_moves: "new_request r \<Longrightarrow> JlBorn \<in> L \<Longrightarrow> keeps (jobs_move L) (insert_or_get_request r)"
  unfolding insert_or_get_request_def
  by (auto simp: keeps_def sx_simps insertable_def jobs_move_same intro!: insert_request_moves split: option.splits)

lemma insert_each_moves:
  "\<forall>r \<in> set rs. new_request r \<Longrightarrow> JlBorn \<in> L \<Longrightarrow> keeps (jobs_move L) (sx_each insert_or_get_request rs)"
  by (induction rs) (auto intro!: moves.keeps_bind moves.keeps_pure insert_or_get_moves)

subsection \<open>Cancellation of waiting requests\<close>

lemma cancel_schedule_moves: "jobs_move L s (cancel_schedule_requests i now s)"
proof (rule jobs_moveI)
  fix j
  assume wf: "jobs_wf s"
  show "(job_step L j)\<^sup>*\<^sup>* (view_of s j) (view_of (cancel_schedule_requests i now s) j)"
  proof (cases "map_of (ss_requests s) j")
    case None
    then have "view_of (cancel_schedule_requests i now s) j = view_of s j"
      by (simp add: view_of_def cancel_schedule_requests_def map_of_sql_update)
    then show ?thesis by simp
  next
    case (Some r)
    then have r: "jv_request (view_of s j) = Some r" by (simp add: view_of_def)
    consider "rr_schedule r = i" "claimable (rr_status r)" | "rr_schedule r = i" "rr_status r = RqLeased"
      | "rr_schedule r \<noteq> i \<or> \<not> claimable (rr_status r) \<and> rr_status r \<noteq> RqLeased" by blast
    then show ?thesis
    proof cases
      case 1
      then have "view_of (cancel_schedule_requests i now s) j =
          (view_of s j)\<lparr>jv_request := Some (r\<lparr>rr_status := RqCancelled, rr_cancel := rr_cancel r, rr_updated := now\<rparr>)\<rparr>"
        using Some by (simp add: view_of_def cancel_schedule_requests_def map_of_sql_update)
      then show ?thesis using job_step.withdrawn [OF r, of "rr_cancel r" L j now] 1 by auto
    next
      case 2
      then have "view_of (cancel_schedule_requests i now s) j =
          (view_of s j)\<lparr>jv_request := Some (r\<lparr>rr_cancel := True, rr_updated := now\<rparr>)\<rparr>"
        using Some by (simp add: view_of_def cancel_schedule_requests_def map_of_sql_update)
      then show ?thesis using job_step.flagged [OF r 2(2), of L j now] by auto
    next
      case 3
      then have "map_of (ss_requests (cancel_schedule_requests i now s)) j = Some r"
        using Some by (cases "rr_schedule r = i") (simp_all add: cancel_schedule_requests_def map_of_sql_update)
      then have "view_of (cancel_schedule_requests i now s) j = view_of s j"
        using Some by (simp add: view_of_def cancel_schedule_requests_def)
      then show ?thesis by simp
    qed
  qed
qed (simp add: jobs_wf_def cancel_schedule_requests_def)

subsection \<open>Settling\<close>

lemma settle_tables:
  "ss_requests (drop_lease i s) = ss_requests s" "ss_attempts (drop_lease i s) = ss_attempts s"
  "ss_leases (drop_lease i s) = AList.delete i (ss_leases s)"
  "ss_requests (end_request i f s) = sql_update (\<lambda>k r. k = i \<and> rr_status r = RqLeased) f (ss_requests s)"
  "ss_attempts (end_request i f s) = ss_attempts s" "ss_leases (end_request i f s) = ss_leases s"
  "ss_attempts (end_attempt i n g s) = sql_update (\<lambda>k a. k = (i, n) \<and> ja_status a = JaRunning) g (ss_attempts s)"
  "ss_requests (end_attempt i n g s) = ss_requests s" "ss_leases (end_attempt i n g s) = ss_leases s"
  by (simp_all add: drop_lease_def end_request_def end_attempt_def)

lemma settle_other: "j \<noteq> i \<Longrightarrow> view_of (drop_lease i (end_request i f (end_attempt i n g s))) j = view_of s j"
  by (simp add: view_of_def settle_tables map_of_sql_update delete_conv' option.map_ident)

lemma settle_view:
  assumes "map_of (ss_requests s) i = Some r" and "rr_status r = RqLeased"
    and "map_of (ss_attempts s) (i, n) = Some a" and "ja_status a = JaRunning"
  shows "view_of (drop_lease i (end_request i f (end_attempt i n g s))) i =
    \<lparr>jv_request = Some (f r), jv_lease = None, jv_attempts = (jv_attempts (view_of s i))(n \<mapsto> g a)\<rparr>"
proof (rule job_view.equality)
  let ?t = "drop_lease i (end_request i f (end_attempt i n g s))"
  show "jv_attempts (view_of ?t i) = jv_attempts \<lparr>jv_request = Some (f r), jv_lease = None,
      jv_attempts = (jv_attempts (view_of s i))(n \<mapsto> g a)\<rparr>"
  proof
    fix m
    show "jv_attempts (view_of ?t i) m = jv_attempts \<lparr>jv_request = Some (f r), jv_lease = None,
        jv_attempts = (jv_attempts (view_of s i))(n \<mapsto> g a)\<rparr> m"
      by (cases "m = n") (simp_all add: assms settle_tables view_of_def map_of_sql_update option.map_ident)
  qed
qed (simp_all add: view_of_def assms settle_tables map_of_sql_update delete_conv')

lemma settle_moves:
  assumes "map_of (ss_leases s) i = Some l" and "jl_attempt l = n"
    and "\<And>r a. map_of (ss_requests s) i = Some r \<Longrightarrow> map_of (ss_attempts s) (i, n) = Some a \<Longrightarrow>
        rr_attempts r = n \<Longrightarrow> settles L r a (f r) (g a)"
  shows "jobs_move L s (drop_lease i (end_request i f (end_attempt i n g s)))"
proof (rule jobs_move_one [where i = i])
  assume wf: "jobs_wf s"
  obtain r a where ra: "map_of (ss_requests s) i = Some r" "rr_status r = RqLeased" "jl_request l = i"
    "jl_attempt l = rr_attempts r" "map_of (ss_attempts s) (i, jl_attempt l) = Some a" "ja_status a = JaRunning"
    "ja_fencing a \<le> jl_fencing l"
    by (rule wf_lease [OF wf assms(1)])
  note a = ra(5) [unfolded assms(2)]
  have "settles L r a (f r) (g a)" using assms(2) ra(4) by (intro assms(3) ra(1) a) simp
  then show "job_step L i (view_of s i) (view_of (drop_lease i (end_request i f (end_attempt i n g s))) i)"
    unfolding settle_view [OF ra(1,2) a ra(6)] unfolding assms(2) [symmetric]
    by (intro job_step.settled) (use ra assms(1,2) in \<open>simp_all add: view_of_def\<close>)
next
  assume "jobs_wf s"
  then show "distinct (map fst (ss_requests (drop_lease i (end_request i f (end_attempt i n g s))))) \<and>
      distinct (map fst (ss_leases (drop_lease i (end_request i f (end_attempt i n g s))))) \<and>
      distinct (map fst (ss_attempts (drop_lease i (end_request i f (end_attempt i n g s)))))"
    by (simp add: settle_tables jobs_wf_def distinct_delete)
qed (rule settle_other)

subsection \<open>Expired leases\<close>

definition live_expired :: "run_request \<times> int \<times> bool \<Rightarrow> sched_store \<Rightarrow> bool" where
  "live_expired row s =
     (case row of (r, n, side_effect) \<Rightarrow>
        map_of (ss_requests s) (rr_id r) = Some r
        \<and> (\<exists>l a. map_of (ss_leases s) (rr_id r) = Some l \<and> jl_attempt l = n
            \<and> map_of (ss_attempts s) (rr_id r, n) = Some a \<and> ja_side_effect a = side_effect))"

lemma recover_job_moves:
  assumes "live_expired row s"
  shows "jobs_move L s (recover_job now row s)"
proof -
  obtain r n side_effect where row: "row = (r, n, side_effect)" by (cases row)
  from assms obtain l a where la: "map_of (ss_requests s) (rr_id r) = Some r"
    "map_of (ss_leases s) (rr_id r) = Some l" "jl_attempt l = n"
    "map_of (ss_attempts s) (rr_id r, n) = Some a" "ja_side_effect a = side_effect"
    by (auto simp: live_expired_def row)
  let ?st = "recovered_status r side_effect"
  have "settles L r a
      (r\<lparr>rr_status := ?st, rr_available := now, rr_error := Some ''lease_expired'', rr_updated := now\<rparr>)
      (a\<lparr>ja_status := if ?st = RqManual then JaUnknown else JaFailed, ja_error := Some ''lease_expired'',
        ja_finished := Some now\<rparr>)" if "rr_run r = None"
    using that la(5) by (auto simp: settles_def retryable_def recovered_status_def same_request_def
        request_identity_def request_binding_def same_attempt_def intro: dispatch_idempotency.exhaust)
  then show ?thesis
    using la by (auto simp: recover_job_def row Let_def jobs_move_same intro!: settle_moves)
qed

lemma recover_job_live:
  "live_expired row' s \<Longrightarrow> rr_id (fst row') \<noteq> rr_id (fst row) \<Longrightarrow> live_expired row' (recover_job now row s)"
  by (auto simp: live_expired_def recover_job_def Let_def drop_lease_def end_request_def end_attempt_def
      map_of_sql_update delete_conv' split: prod.splits)

lemma recover_moves: "jobs_move L s (recover_expired_jobs now s)"
proof -
  have "jobs_move L s (recover_expired_jobs now s)" if wf: "jobs_wf s"
    unfolding recover_expired_jobs_def
  proof (rule moves.keeps_rows [where live = live_expired and key = "\<lambda>row. rr_id (fst row)"])
    have key: "rr_id (fst row) = fst p"
      if "(case p of (i, l) \<Rightarrow> if now < jl_expires l then None
          else (case (map_of (ss_requests s) i, map_of (ss_attempts s) (i, jl_attempt l)) of
             (Some r, Some a) \<Rightarrow> Some (r, jl_attempt l, ja_side_effect a) | _ \<Rightarrow> None)) = Some row" for p row
      using that wf_request [OF wf] by (auto split: prod.splits if_splits option.splits)
    show "distinct (map (\<lambda>row. rr_id (fst row)) (expired_rows now s))"
      unfolding expired_rows_def
      by (rule distinct_fetched) (use wf key in \<open>auto simp: jobs_wf_def\<close>)
    fix row assume "row \<in> set (expired_rows now s)"
    then obtain i l r a where "(i, l) \<in> set (ss_leases s)" "map_of (ss_requests s) i = Some r"
      "map_of (ss_attempts s) (i, jl_attempt l) = Some a" "row = (r, jl_attempt l, ja_side_effect a)"
      by (fastforce simp: expired_rows_def set_map_filter split: if_splits option.splits)
    moreover from this have "map_of (ss_leases s) i = Some l" "rr_id r = i"
      using wf wf_request [OF wf] by (auto simp: jobs_wf_def)
    ultimately show "live_expired row s" by (auto simp: live_expired_def)
  qed (auto intro: recover_job_moves recover_job_live)
  then show ?thesis by (auto simp: jobs_move_def)
qed

end
