(* ===== verification/Sched_Operations.thy ===== *)
theory Sched_Operations
  imports Sched_Simulation
begin

section \<open>Scheduler: every operation follows the life of a request\<close>

text \<open>
  The simulation for each method of the store: which labels its steps need. \<open>sched_op\<close> lists the methods
  with their arguments, \<open>sched_execute\<close> runs a sequence of calls, whatever their outcomes.
\<close>

subsection \<open>Claims\<close>

lemma fold_max_ge: "x \<in> set xs \<or> x \<le> m \<Longrightarrow> x \<le> fold max xs (m :: 'a :: linorder)"
proof (induction xs arbitrary: m)
  case (Cons y ys)
  then have "x \<in> set ys \<or> x \<le> max y m" by (auto simp: le_max_iff_disj)
  then have "x \<le> fold max ys (max y m)" by (rule Cons.IH)
  then show ?case by simp
qed simp

lemma next_fencing_above: "map_of (ss_attempts s) (i, n) = Some a \<Longrightarrow> ja_fencing a < next_fencing i s"
proof -
  let ?used = "map (\<lambda>(k, a). ja_fencing a) (filter (\<lambda>(k, a). fst k = i) (ss_attempts s))"
  assume "map_of (ss_attempts s) (i, n) = Some a"
  then have used: "ja_fencing a \<in> set ?used" by (force dest: map_of_SomeD)
  then have "?used \<noteq> []" by (metis empty_iff list.set(1))
  then show ?thesis using fold_max_ge [of "ja_fencing a" ?used "hd ?used"] used by (simp add: next_fencing_def Let_def)
qed

lemma next_claim_props:
  assumes "next_claim now s = Some r" and "distinct (map fst (ss_requests s))"
  obtains i h d where "map_of (ss_requests s) i = Some r" "claimable (rr_status r)" "rr_available r \<le> now"
    "\<not> rr_cancel r" "map_of (ss_heads s) (rr_schedule r) = Some h" "hd_status h = SsEnabled"
    "map_of (ss_definitions s) (rr_schedule r, rr_version r) = Some d"
    "int (active_jobs (rr_schedule r) s) < sd_concurrency d"
proof -
  from assms(1) obtain d where d: "(r, d) \<in> set (claim_candidates now s)"
    "int (active_jobs (rr_schedule r) s) < sd_concurrency d"
    by (auto simp: next_claim_def dest!: list_find_SomeD)
  from d(1) obtain i h where "(i, r) \<in> set (ss_requests s)" "claimable (rr_status r)" "rr_available r \<le> now"
    "\<not> rr_cancel r" "map_of (ss_heads s) (rr_schedule r) = Some h" "hd_status h = SsEnabled"
    "map_of (ss_definitions s) (rr_schedule r, rr_version r) = Some d"
    unfolding claim_candidates_def
    by (auto dest!: in_set_takeD simp: set_map_filter split: option.splits if_splits)
  then show thesis using d(2) assms(2) that by auto
qed

lemma start_job_moves:
  assumes "map_of (ss_requests s) (rr_id r) = Some r" and "claimable (rr_status r)" and "\<not> rr_cancel r"
    and "jl_request l = rr_id r" and "jl_attempt l = rr_attempts r + 1" and "jl_fencing l = next_fencing (rr_id r) s"
    and "JlClaim \<in> L"
  shows "jobs_move L s (start_job r l now s)"
proof (rule jobs_move_one [where i = "rr_id r"])
  have "view_of (start_job r l now s) (rr_id r) =
      \<lparr>jv_request = Some (r\<lparr>rr_status := RqLeased, rr_attempts := jl_attempt l, rr_updated := now\<rparr>),
       jv_lease = Some l, jv_attempts = (jv_attempts (view_of s (rr_id r)))(jl_attempt l \<mapsto> started_attempt l now)\<rparr>"
    using assms(1,2,4) by (simp add: view_of_def start_job_def map_of_sql_update map_of_update started_attempt_def fun_eq_iff)
  then show "job_step L (rr_id r) (view_of s (rr_id r)) (view_of (start_job r l now s) (rr_id r))"
    using job_step.claimed [OF assms(7), of "view_of s (rr_id r)" r l "rr_id r" now] assms next_fencing_above
    by (simp add: view_of_def)
qed (simp_all add: start_job_def view_of_def map_of_sql_update map_of_update jobs_wf_def distinct_update option.map_ident)

lemma claim_due_moves: "JlClaim \<in> L \<Longrightarrow> keeps (jobs_move L) (claim_due writer who ttl now token)"
  unfolding claim_due_def
proof (intro moves.keeps_bind moves.keeps_pure moves.keeps_commit, goal_cases)
  case (1 _ _ _ s x t)
  let ?s = "recover_expired_jobs now s"
  have "t = ?s \<or> (\<exists>r. next_claim now ?s = Some r \<and> t = start_job r
      \<lparr>jl_request = rr_id r, jl_owner = who, jl_token = token, jl_fencing = next_fencing (rr_id r) ?s,
       jl_expires = min (now + seconds ttl) (sl_expires writer), jl_attempt = rr_attempts r + 1\<rparr> now ?s)"
    using 1(2) by (auto simp: assert_authority_def sx_Inr Let_def)
  moreover have "jobs_move L ?s t" if wf: "jobs_wf ?s" and r: "next_claim now ?s = Some r"
    and t: "t = start_job r
      \<lparr>jl_request = rr_id r, jl_owner = who, jl_token = token, jl_fencing = next_fencing (rr_id r) ?s,
       jl_expires = min (now + seconds ttl) (sl_expires writer), jl_attempt = rr_attempts r + 1\<rparr> now ?s" for r
  proof -
    obtain i where i: "map_of (ss_requests ?s) i = Some r" "claimable (rr_status r)" "\<not> rr_cancel r"
      using next_claim_props [OF r] wf by (auto simp: jobs_wf_def)
    then show ?thesis unfolding t using 1(1) wf_request [OF wf i(1)] by (intro start_job_moves) simp_all
  qed
  ultimately have "jobs_move L ?s t" by (auto simp: jobs_move_def)
  then show ?case by (rule moves.kept_trans [OF recover_moves])
qed

subsection \<open>Renewals\<close>

lemma lease_update_moves:
  \<comment> \<open>leases keep their request and attempt, and their fencing number never falls\<close>
  assumes "\<And>i l. map_of (ss_leases s) i = Some l \<Longrightarrow> P i l \<Longrightarrow>
      jl_request (f l) = jl_request l \<and> jl_attempt (f l) = jl_attempt l
      \<and> (jl_fencing l < jl_fencing (f l)
         \<or> jl_fencing (f l) = jl_fencing l \<and> jl_owner (f l) = jl_owner l \<and> jl_token (f l) = jl_token l)"
  shows "jobs_move L s (s\<lparr>ss_leases := sql_update P f (ss_leases s)\<rparr>)"
proof (rule jobs_moveI)
  fix i
  show "(job_step L i)\<^sup>*\<^sup>* (view_of s i) (view_of (s\<lparr>ss_leases := sql_update P f (ss_leases s)\<rparr>) i)"
  proof (cases "\<exists>l. map_of (ss_leases s) i = Some l \<and> P i l")
    case True
    then obtain l where l: "map_of (ss_leases s) i = Some l" "P i l" by blast
    then have "view_of (s\<lparr>ss_leases := sql_update P f (ss_leases s)\<rparr>) i = (view_of s i)\<lparr>jv_lease := Some (f l)\<rparr>"
      by (simp add: view_of_def map_of_sql_update)
    then show ?thesis using job_step.leased_on [of "view_of s i" l "f l" L i] assms [OF l] l(1)
      by (auto simp: view_of_def)
  next
    case False
    then have "map_option (\<lambda>v. if P i v then f v else v) (map_of (ss_leases s) i) = map_of (ss_leases s) i"
      by (cases "map_of (ss_leases s) i") auto
    then have "view_of (s\<lparr>ss_leases := sql_update P f (ss_leases s)\<rparr>) i = view_of s i"
      by (simp add: view_of_def map_of_sql_update)
    then show ?thesis by simp
  qed
qed (simp add: jobs_wf_def)

lemma renew_job_moves: "keeps (jobs_move L) (renew_job lease writer ttl now)"
  unfolding renew_job_def
  by (intro moves.keeps_bind moves.keeps_pure moves.keeps_commit)
    (auto simp: assert_authority_def sx_Inr Let_def intro!: lease_update_moves)

lemma distinct_zip_key: "distinct (map f xs) \<Longrightarrow> distinct (map (\<lambda>p. f (fst p)) (zip xs ys))"
  by (induction xs ys rule: list_induct2') (auto dest: set_zip_leftD)

definition live_lost :: "(string \<times> int) \<times> string \<Rightarrow> sched_store \<Rightarrow> bool" where
  "live_lost row s = (\<exists>l. map_of (ss_leases s) (fst (fst row)) = Some l \<and> jl_fencing l = snd (fst row))"

lemma lost_runs_take_over:
  "jobs_move L s (fold (take_over who expires now) (zip (lost_runs now s) tokens) s)"
proof -
  have "jobs_move L s (fold (take_over who expires now) (zip (lost_runs now s) tokens) s)" if wf: "jobs_wf s"
  proof (rule moves.keeps_rows [where live = live_lost and key = "\<lambda>row. fst (fst row)"])
    have lost: "distinct (map fst (lost_runs now s))"
      unfolding lost_runs_def
      by (rule distinct_fetched) (use wf in \<open>auto simp: jobs_wf_def split: option.splits if_splits\<close>)
    then show "distinct (map (\<lambda>row. fst (fst row)) (zip (lost_runs now s) tokens))" by (rule distinct_zip_key)
    fix row assume "row \<in> set (zip (lost_runs now s) tokens)"
    moreover obtain i fencing token where row: "row = ((i, fencing), token)" by (metis prod.exhaust)
    ultimately have "(i, fencing) \<in> set (lost_runs now s)" by (auto dest: set_zip_leftD)
    then show "live_lost row s" unfolding row
      using wf by (auto simp: lost_runs_def set_map_filter live_lost_def jobs_wf_def split: option.splits if_splits)
  next
    fix row s assume "live_lost row s"
    then show "jobs_move L s (take_over who expires now row s)"
      by (auto simp: take_over_def live_lost_def split: prod.splits intro!: lease_update_moves)
  qed (auto simp: take_over_def live_lost_def map_of_sql_update split: prod.splits)
  then show ?thesis by (auto simp: jobs_move_def)
qed

lemma extend_leases_move: "jobs_move L s (fold (extend_lease who expires) rows s)"
proof (induction rows arbitrary: s)
  case (Cons row rows)
  have "jobs_move L s (extend_lease who expires row s)"
    by (auto simp: extend_lease_def split: prod.splits intro!: lease_update_moves)
  then show ?case using Cons moves.kept_trans by fastforce
qed (simp add: moves.kept_refl)

lemma renew_dispatched_moves: "keeps (jobs_move L) (renew_dispatched_jobs writer who ttl now tokens)"
  unfolding renew_dispatched_jobs_def Let_def
  by (intro moves.keeps_bind moves.keeps_pure moves.keeps_transaction keeps_modify recover_moves
      lost_runs_take_over extend_leases_move) (simp add: assert_authority_def moves.keeps_bind moves.keeps_pure)

subsection \<open>Dispatch and settling\<close>

lemma job_lease_ok_row:
  assumes "job_lease_ok s lease now"
  obtains l where "map_of (ss_leases s) (jl_request lease) = Some l" "jl_attempt l = jl_attempt lease"
    "jl_fencing l = jl_fencing lease" "jl_owner l = jl_owner lease" "jl_token l = jl_token lease" "now < jl_expires l"
  using assms by (auto simp: job_lease_ok_def split: option.splits)

lemma attempt_update_view:
  assumes "map_of (ss_attempts s) (i, n) = Some a" and "P a"
  shows "view_of (s\<lparr>ss_attempts := sql_update (\<lambda>k a. k = (i, n) \<and> P a) f (ss_attempts s)\<rparr>) j =
    (if j = i then (view_of s i)\<lparr>jv_attempts := (jv_attempts (view_of s i))(n \<mapsto> f a)\<rparr> else view_of s j)"
  using assms by (auto simp: view_of_def map_of_sql_update option.map_ident fun_eq_iff)

lemma sql_rows_one:
  assumes "distinct (map fst d)" and "sql_rows (\<lambda>k v. k = i \<and> P v) d = 1"
  obtains v where "map_of d i = Some v" "P v"
  using assms by (auto simp: sql_rows_key split: option.splits if_splits)

lemma mark_moves: "keeps (jobs_move L) (mark_job_side_effect lease now)"
  unfolding mark_job_side_effect_def
proof (rule moves.keeps_commit, goal_cases)
  case (1 s u t)
  let ?i = "jl_request lease" and ?n = "jl_attempt lease"
  let ?P = "\<lambda>a. ja_status a = JaRunning \<and> (case map_of (ss_requests s) ?i of None \<Rightarrow> False
      | Some r \<Rightarrow> rr_status r = RqLeased \<and> \<not> rr_cancel r)"
  have t: "t = s\<lparr>ss_attempts := sql_update (\<lambda>k a. k = (?i, ?n) \<and> ?P a) (\<lambda>a. a\<lparr>ja_side_effect := True\<rparr>) (ss_attempts s)\<rparr>"
    and ok: "job_lease_ok s lease now" and one: "sql_rows (\<lambda>k a. k = (?i, ?n) \<and> ?P a) (ss_attempts s) = 1"
    using 1 by (simp_all add: assert_job_lease_def sx_Inr Let_def)
  obtain l where l: "map_of (ss_leases s) ?i = Some l" "jl_attempt l = ?n" using ok by (rule job_lease_ok_row)
  show "jobs_move L s t"
  proof (rule jobs_move_one [where i = ?i])
    assume wf: "jobs_wf s"
    then have "distinct (map fst (ss_attempts s))" by (simp add: jobs_wf_def)
    then obtain a where a: "map_of (ss_attempts s) (?i, ?n) = Some a" "?P a"
      by (rule sql_rows_one [where P = ?P, OF _ one])
    then obtain r where r: "map_of (ss_requests s) ?i = Some r" "rr_status r = RqLeased" "\<not> rr_cancel r" "ja_status a = JaRunning"
      by (auto split: option.splits)
    have v: "view_of t ?i = (view_of s ?i)\<lparr>jv_attempts := (jv_attempts (view_of s ?i))(?n \<mapsto> a\<lparr>ja_side_effect := True\<rparr>)\<rparr>"
      unfolding t using attempt_update_view [OF a(1), where P = ?P, OF a(2)] by simp
    show "job_step L ?i (view_of s ?i) (view_of t ?i)"
      unfolding v l(2) [symmetric]
      by (rule job_step.side_effect) (use r a l in \<open>simp_all add: view_of_def\<close>)
  next
    fix j assume "j \<noteq> ?i"
    then show "view_of t j = view_of s j" by (simp add: t view_of_def map_of_sql_update option.map_ident)
  qed (simp add: t jobs_wf_def)
qed

lemma dispatched_moves: "keeps (jobs_move L) (mark_workflow_dispatched lease run_id now)"
  unfolding mark_workflow_dispatched_def
proof (intro moves.keeps_bind moves.keeps_pure moves.keeps_commit, goal_cases)
  case (1 _ s u t)
  let ?i = "jl_request lease" and ?n = "jl_attempt lease"
  let ?P = "\<lambda>a. ja_status a = JaRunning \<and> ja_side_effect a \<and> (ja_run a = None \<or> ja_run a = Some run_id)"
  let ?Q = "\<lambda>r. rr_status r = RqLeased \<and> (rr_run r = None \<or> rr_run r = Some run_id)"
  have t: "t = s\<lparr>ss_attempts := sql_update (\<lambda>k a. k = (?i, ?n) \<and> ?P a) (\<lambda>a. a\<lparr>ja_run := Some run_id\<rparr>) (ss_attempts s),
      ss_requests := sql_update (\<lambda>k r. k = ?i \<and> ?Q r) (\<lambda>r. r\<lparr>rr_run := Some run_id, rr_updated := now\<rparr>) (ss_requests s)\<rparr>"
    and ok: "job_lease_ok s lease now" and one: "sql_rows (\<lambda>k a. k = (?i, ?n) \<and> ?P a) (ss_attempts s) = 1"
    "sql_rows (\<lambda>k r. k = ?i \<and> ?Q r) (ss_requests s) = 1"
    using 1 by (simp_all add: assert_job_lease_def current_request_def sx_Inr Let_def)
  obtain l where l: "map_of (ss_leases s) ?i = Some l" "jl_attempt l = ?n" using ok by (rule job_lease_ok_row)
  show "jobs_move L s t"
  proof (rule jobs_move_one [where i = ?i])
    assume wf: "jobs_wf s"
    then have keys: "distinct (map fst (ss_attempts s))" "distinct (map fst (ss_requests s))" by (simp_all add: jobs_wf_def)
    obtain a where a: "map_of (ss_attempts s) (?i, ?n) = Some a" "?P a"
      by (rule sql_rows_one [where P = ?P, OF keys(1) one(1)])
    obtain r where r: "map_of (ss_requests s) ?i = Some r" "?Q r"
      by (rule sql_rows_one [where P = ?Q, OF keys(2) one(2)])
    have v: "view_of t ?i = (view_of s ?i)\<lparr>jv_request := Some (r\<lparr>rr_run := Some run_id, rr_updated := now\<rparr>),
        jv_attempts := (jv_attempts (view_of s ?i))(?n \<mapsto> a\<lparr>ja_run := Some run_id\<rparr>)\<rparr>"
      unfolding t using a r by (auto simp: view_of_def map_of_sql_update option.map_ident fun_eq_iff)
    show "job_step L ?i (view_of s ?i) (view_of t ?i)"
      unfolding v l(2) [symmetric]
      by (rule job_step.bound) (use r a l in \<open>simp_all add: view_of_def\<close>)
  next
    fix j assume "j \<noteq> ?i"
    then show "view_of t j = view_of s j" by (simp add: t view_of_def map_of_sql_update option.map_ident)
  qed (simp add: t jobs_wf_def)
qed

lemma settles_simps [simp]:
  "same_request r (r\<lparr>rr_status := st, rr_run := w, rr_cancel := c, rr_available := v, rr_error := e, rr_updated := now\<rparr>)"
  "same_attempt a (a\<lparr>ja_status := ast, ja_run := aw, ja_error := ae, ja_finished := af\<rparr>)"
  by (simp_all add: same_request_def same_attempt_def request_identity_def request_binding_def)

lemma complete_job_moves: "keeps (jobs_move L) (complete_job lease run_id now)"
  unfolding complete_job_def
proof (rule moves.keeps_commit, goal_cases)
  case (1 s u t)
  then have ok: "job_lease_ok s lease now"
    and t: "t = drop_lease (jl_request lease) (end_request (jl_request lease)
        (\<lambda>r. r\<lparr>rr_status := RqSucceeded, rr_run := Some run_id, rr_updated := now\<rparr>)
        (end_attempt (jl_request lease) (jl_attempt lease)
          (\<lambda>a. a\<lparr>ja_status := JaSucceeded, ja_run := Some run_id, ja_finished := Some now\<rparr>) s))"
    by (simp_all add: assert_job_lease_def current_request_def sx_Inr Let_def)
  obtain l where "map_of (ss_leases s) (jl_request lease) = Some l" "jl_attempt l = jl_attempt lease"
    using ok by (rule job_lease_ok_row)
  then show ?case unfolding t
    by (rule settle_moves)
      (simp add: settles_def same_request_def same_attempt_def request_identity_def request_binding_def)
qed

lemma finish_dispatched_moves: "keeps (jobs_move L) (finish_dispatched_job lease status code now)"
proof (cases "status \<in> {RqCancelled, RqDeadLetter, RqManual}")
  case False
  then show ?thesis
    by (simp add: finish_dispatched_job_def keeps_def sx_bind_def sx_guard_def sx_raise_def moves.kept_refl)
next
  case st: True
  show ?thesis unfolding finish_dispatched_job_def
  proof (intro moves.keeps_bind moves.keeps_pure moves.keeps_commit, goal_cases)
    case (1 _ s u t)
    let ?st = "if status = RqManual then JaUnknown else JaFailed"
    have ok: "job_lease_ok s lease now"
      and t: "t = drop_lease (jl_request lease) (end_request (jl_request lease)
          (\<lambda>r. r\<lparr>rr_status := status, rr_error := Some code, rr_updated := now\<rparr>)
          (end_attempt (jl_request lease) (jl_attempt lease)
            (\<lambda>a. a\<lparr>ja_status := ?st, ja_error := Some code, ja_finished := Some now\<rparr>) s))"
      using 1 by (simp_all add: assert_job_lease_def current_request_def sx_Inr Let_def)
    obtain l where "map_of (ss_leases s) (jl_request lease) = Some l" "jl_attempt l = jl_attempt lease"
      using ok by (rule job_lease_ok_row)
    then show ?case unfolding t
      by (rule settle_moves)
        (use st in \<open>auto simp: settles_def same_request_def same_attempt_def request_identity_def request_binding_def\<close>)
  qed
qed

lemma fail_job_moves:
  assumes "unknown \<or> JlKnown \<in> L"
  shows "keeps (jobs_move L) (fail_job lease code unknown retry_base retry_max now)"
  unfolding fail_job_def
proof (rule moves.keeps_commit, goal_cases)
  case (1 s u t)
  let ?i = "jl_request lease" and ?n = "jl_attempt lease"
  obtain r a where ra: "map_of (ss_requests s) ?i = Some r" "map_of (ss_attempts s) (?i, ?n) = Some a"
    and ok: "job_lease_ok s lease now"
    and t: "t = drop_lease ?i (end_request ?i
        (\<lambda>q. q\<lparr>rr_status := failed_status r unknown,
          rr_available := (if failed_status r unknown = RqRetryWait
            then now + seconds (retry_delay retry_base retry_max (rr_attempts r)) else now),
          rr_error := Some code, rr_updated := now\<rparr>)
        (end_attempt ?i ?n (\<lambda>a. a\<lparr>ja_status := if failed_status r unknown = RqManual then JaUnknown else JaFailed,
          ja_error := Some code, ja_finished := Some now\<rparr>) s))"
    using 1 by (auto simp: assert_job_lease_def current_request_def sx_Inr Let_def split: option.splits)
  obtain l where "map_of (ss_leases s) ?i = Some l" "jl_attempt l = ?n"
    using ok by (rule job_lease_ok_row)
  then show ?case unfolding t
  proof (rule settle_moves)
    fix r' a' assume "map_of (ss_requests s) ?i = Some r'"
    with ra have r': "r' = r" by simp
    have "rr_dispatch r = DiIdempotent \<or> rr_dispatch r = DiNonIdempotent" by (cases "rr_dispatch r") auto
    then show "settles L r' a'
      (r'\<lparr>rr_status := failed_status r unknown, rr_available := (if failed_status r unknown = RqRetryWait
            then now + seconds (retry_delay retry_base retry_max (rr_attempts r)) else now),
          rr_error := Some code, rr_updated := now\<rparr>)
      (a'\<lparr>ja_status := if failed_status r unknown = RqManual then JaUnknown else JaFailed,
          ja_error := Some code, ja_finished := Some now\<rparr>)"
      unfolding r' using assms
      by (auto simp: settles_def retryable_def failed_status_def same_request_def same_attempt_def
          request_identity_def request_binding_def)
  qed
qed

lemma cancel_claimed_moves: "keeps (jobs_move L) (cancel_claimed_job lease now)"
  unfolding cancel_claimed_job_def
proof (rule moves.keeps_commit, goal_cases)
  case (1 s u t)
  let ?i = "jl_request lease" and ?n = "jl_attempt lease"
  let ?g = "\<lambda>a. a\<lparr>ja_status := JaFailed, ja_error := Some ''cancelled'', ja_finished := Some now\<rparr>"
  let ?f = "\<lambda>r. r\<lparr>rr_status := RqCancelled, rr_cancel := True, rr_error := Some ''cancelled'', rr_updated := now\<rparr>"
  obtain a where a: "map_of (ss_attempts s) (?i, ?n) = Some a" "ja_status a = JaRunning"
    and ok: "job_lease_ok s lease now"
    and t: "t = drop_lease ?i (end_request ?i ?f (s\<lparr>ss_attempts := sql_update (\<lambda>k a. k = (?i, ?n)) ?g (ss_attempts s)\<rparr>))"
    using 1 by (auto simp: assert_job_lease_def current_request_def sx_Inr Let_def split: option.splits)
  have "jobs_move L s t" if wf: "jobs_wf s"
  proof -
    have only: "b = a" if "((?i, ?n), b) \<in> set (ss_attempts s)" for b
      using map_of_is_SomeI [OF _ that] wf a(1) by (simp add: jobs_wf_def)
    have "sql_update (\<lambda>k a. k = (?i, ?n)) ?g (ss_attempts s) =
        sql_update (\<lambda>k a. k = (?i, ?n) \<and> ja_status a = JaRunning) ?g (ss_attempts s)"
      using a(2) by (auto simp: sql_update_def dest!: only)
    then have t': "t = drop_lease ?i (end_request ?i ?f (end_attempt ?i ?n ?g s))"
      by (simp add: t end_attempt_def)
    obtain l where "map_of (ss_leases s) ?i = Some l" "jl_attempt l = ?n"
      using ok by (rule job_lease_ok_row)
    then show ?thesis unfolding t'
      by (rule settle_moves)
        (simp add: settles_def same_request_def same_attempt_def request_identity_def request_binding_def)
  qed
  then show ?case by (auto simp: jobs_move_def)
qed

lemma request_update_moves:
  assumes "map_of (ss_requests s) i = Some r"
    and "claimable (rr_status r) \<and> f r = r\<lparr>rr_status := RqCancelled, rr_cancel := True, rr_updated := now\<rparr>
      \<or> rr_status r = RqLeased \<and> f r = r\<lparr>rr_cancel := True, rr_updated := now\<rparr>"
  shows "jobs_move L s (s\<lparr>ss_requests := sql_update (\<lambda>k r. k = i) f (ss_requests s)\<rparr>)"
proof (rule jobs_move_one [where i = i])
  have v: "view_of (s\<lparr>ss_requests := sql_update (\<lambda>k r. k = i) f (ss_requests s)\<rparr>) i = (view_of s i)\<lparr>jv_request := Some (f r)\<rparr>"
    using assms(1) by (simp add: view_of_def map_of_sql_update)
  have r: "jv_request (view_of s i) = Some r" using assms(1) by (simp add: view_of_def)
  show "job_step L i (view_of s i) (view_of (s\<lparr>ss_requests := sql_update (\<lambda>k r. k = i) f (ss_requests s)\<rparr>) i)"
    using assms(2) job_step.withdrawn [OF r, of True L i now] job_step.flagged [OF r, of L i now] unfolding v
    by auto
qed (simp_all add: view_of_def map_of_sql_update jobs_wf_def option.map_ident)

lemma request_cancel_moves: "keeps (jobs_move L) (request_cancel i now)"
  unfolding request_cancel_def
proof (rule moves.keeps_commit, goal_cases)
  case (1 s u t)
  then obtain r where r: "map_of (ss_requests s) i = Some r"
    and t: "(if claimable (rr_status r) then t = s\<lparr>ss_requests := sql_update (\<lambda>k r. k = i)
                 (\<lambda>r. r\<lparr>rr_status := RqCancelled, rr_cancel := True, rr_updated := now\<rparr>) (ss_requests s)\<rparr>
             else if rr_status r = RqLeased then t = s\<lparr>ss_requests := sql_update (\<lambda>k r. k = i)
                 (\<lambda>r. r\<lparr>rr_cancel := True, rr_updated := now\<rparr>) (ss_requests s)\<rparr>
             else t = s)"
    by (auto simp: current_request_def sx_Inr split: if_splits)
  show ?case
    using t r by (auto simp: moves.kept_refl split: if_splits intro!: request_update_moves [where now = now])
qed

subsection \<open>Schedules and creation\<close>

lemma put_schedule_moves: "keeps (jobs_move L) (put_schedule d)"
  unfolding put_schedule_def
  by (intro moves.keeps_transaction keepsI)
    (auto simp: sx_simps moves.kept_refl intro!: jobs_move_same split: option.splits)

lemma get_schedule_moves: "keeps (jobs_move L) (get_schedule i)"
  by (simp add: get_schedule_def moves.keeps_rules)

lemma update_status_moves: "keeps (jobs_move L) (update_schedule_status i status expected now)"
  unfolding update_schedule_status_def Let_def
  by (intro moves.keeps_bind moves.keeps_transaction moves.keeps_pure moves.keeps_if get_schedule_moves keeps_modify
      cancel_schedule_moves jobs_move_same) simp_all

lemma authority_moves:
  "keeps (jobs_move L) (assert_authority lease now)"
  "keeps (jobs_move L) (acquire_authority kind who ttl now token)"
  "keeps (jobs_move L) (renew_authority lease ttl now)"
  unfolding assert_authority_def acquire_authority_def renew_authority_def Let_def
  by (intro moves.keeps_bind moves.keeps_transaction moves.keeps_pure keeps_modify jobs_move_same; simp)+

lemma requests_for_lift: "sx_lift (requests_for d vs available fresh n) s = (Inr rs, t) \<Longrightarrow> \<forall>r \<in> set rs. new_request r"
  by (auto simp: sx_Inr dest: requests_for_new)

lemma keeps_lift_bind: "(\<And>x. r = Inr x \<Longrightarrow> keeps (jobs_move L) (f x)) \<Longrightarrow> keeps (jobs_move L) (sx_bind (sx_lift r) f)"
  by (cases r) (auto simp: keeps_def sx_simps moves.kept_refl)

lemma enqueue_moves:
  assumes "JlBorn \<in> L"
  shows "keeps (jobs_move L) (enqueue_occurrences d vs leader advance_to available fresh)"
    and "keeps (jobs_move L) (enqueue_manual d key now st)"
    and "keeps (jobs_move L) (enqueue_hook d key now st)"
    and "keeps (jobs_move L) (store_replay_dead_letter i key now st)"
  unfolding enqueue_occurrences_def enqueue_manual_def enqueue_hook_def store_replay_dead_letter_def
  by (intro moves.keeps_bind moves.keeps_pure moves.keeps_transaction moves.keeps_option moves.keeps_if keeps_lift_bind
      keeps_modify insert_each_moves insert_or_get_moves authority_moves assms jobs_move_same;
      (erule requests_for_new request_for_new)?;
      (fastforce simp: make_request_def new_request_def split: if_splits)?)+

lemma observe_watch_moves:
  assumes "JlBorn \<in> L"
  shows "keeps (jobs_move L) (observe_watch d fingerprint code leader now st)"
  unfolding observe_watch_def Let_def
  by (intro moves.keeps_bind moves.keeps_pure moves.keeps_transaction moves.keeps_option moves.keeps_if keeps_lift_bind
      keeps_modify insert_or_get_moves authority_moves assms jobs_move_same;
      (erule request_for_new)?; simp?)

end
