(* ===== verification/Sched_Occurrences.thy ===== *)
theory Sched_Occurrences
  imports Sched_Cron
begin

section \<open>Scheduler: cron expressions against a minute-by-minute reference\<close>

text \<open>
  What a cron expression means is \<open>cron_due\<close>: an instant is due when its wall time is a whole minute
  that \<open>matches\<close> accepts. The day-by-day construction of candidates finds exactly the due instants of
  the local dates it visits, in the order of date and time, and the scan of one 400-year cycle decides
  whether any calendar day matches.
\<close>

subsection \<open>Satisfiable days\<close>

lemma scan_days_iff: "scan_days c a b \<longleftrightarrow> (\<exists>n. a \<le> n \<and> n < b \<and> date_matches c n)"
proof (induction c a b rule: scan_days.induct)
  case (1 c a b)
  show ?case
  proof (cases "a < b \<and> \<not> date_matches c a")
    case True
    with 1 have "scan_days c a b \<longleftrightarrow> (\<exists>n. a + 1 \<le> n \<and> n < b \<and> date_matches c n)"
      by (subst scan_days.simps) simp
    with True show ?thesis by (metis order_less_le zless_imp_add1_zle zle_add1_eq_le add1_zle_eq)
  qed (subst scan_days.simps, auto)
qed

lemma date_matches_shift: "date_matches c (n + 146097) = date_matches c n"
proof -
  have week: "weekday_of (n + 146097) = weekday_of n"
    using mod_mult_self1 [of "n + 6" 20871 7] by (simp add: weekday_of_def algebra_simps)
  show ?thesis unfolding date_matches_def date_of_shift week by (auto split: prod.splits)
qed

lemma date_matches_shifts: "date_matches c (n + 146097 * int k) = date_matches c n"
proof (induction k)
  case (Suc k)
  then show ?case using date_matches_shift [of c "n + 146097 * int k"] by (simp add: algebra_simps)
qed simp

lemma date_matches_mod: "date_matches c n = date_matches c (n mod 146097)"
proof (cases "0 \<le> n div 146097")
  case True
  then show ?thesis
    using date_matches_shifts [of c "n mod 146097" "nat (n div 146097)"] by simp
next
  case False
  then show ?thesis
    using date_matches_shifts [of c n "nat (- (n div 146097))"]
    by (simp add: minus_div_mult_eq_mod [symmetric] algebra_simps)
qed

lemma cycle_match:
  assumes "date_matches c n"
  shows "\<exists>k. a \<le> k \<and> k < a + 146097 \<and> date_matches c k"
proof -
  let ?k = "a + (n - a) mod 146097"
  have "?k mod 146097 = n mod 146097" by (simp add: mod_add_right_eq)
  then have "date_matches c ?k" using assms date_matches_mod by metis
  moreover have "a \<le> ?k" "?k < a + 146097" using pos_mod_sign [of 146097 "n - a"] pos_mod_bound [of 146097 "n - a"] by simp_all
  ultimately show ?thesis by blast
qed

lemma satisfiable_iff: "has_satisfiable_calendar_day c \<longleftrightarrow> (\<exists>n. 1 \<le> n \<and> n \<le> 3652059 \<and> date_matches c n)"
proof -
  have ends: "ordinal_of 2000 1 1 = 730120" "ordinal_of 2400 1 1 = 730120 + 146097"
    by (simp_all add: ordinal_of_def days_before_year_def)
  show ?thesis unfolding has_satisfiable_calendar_day_def scan_days_iff ends
  proof
    assume "\<exists>n. 730120 \<le> n \<and> n < 730120 + 146097 \<and> date_matches c n"
    then show "\<exists>n. 1 \<le> n \<and> n \<le> 3652059 \<and> date_matches c n" by (elim exE conjE, intro exI conjI) auto
  next
    assume "\<exists>n. 1 \<le> n \<and> n \<le> 3652059 \<and> date_matches c n"
    then show "\<exists>n. 730120 \<le> n \<and> n < 730120 + 146097 \<and> date_matches c n" using cycle_match by blast
  qed
qed

subsection \<open>Candidates of one day\<close>

definition cron_due :: "zone \<Rightarrow> cron_expression \<Rightarrow> int \<Rightarrow> bool" where
  \<comment> \<open>the wall time of the instant is a whole minute that matches\<close>
  "cron_due z c u \<longleftrightarrow> zone_local z u mod 60000000 = 0 \<and> cron_matches c (zone_local z u)"

definition zone_inverse :: "zone \<Rightarrow> bool" where
  \<comment> \<open>one of the two folds of the wall time of an instant is the instant\<close>
  "zone_inverse z \<longleftrightarrow> (\<forall>u. \<exists>fold. zone_instant z (zone_local z u) fold = u)"

definition clock_fields :: "cron_expression \<Rightarrow> bool" where
  \<comment> \<open>the hours and minutes are within the ranges the parser enforces\<close>
  "clock_fields c \<longleftrightarrow> set (cron_values (cron_minute c)) \<subseteq> {0..59} \<and> set (cron_values (cron_hour c)) \<subseteq> {0..23}"

lemma wall_time_parts:
  assumes "0 \<le> h" "h \<le> 23" "0 \<le> m" "m \<le> 59"
  shows "wall_time day h m mod 60000000 = 0" "wall_time day h m div 60000000 mod 60 = m"
    "wall_time day h m div 3600000000 mod 24 = h" "ts_ordinal (wall_time day h m) = day"
proof -
  let ?n = "wall_time day h m"
  have n: "?n = ((day - 1) * 1440 + h * 60 + m) * 60000000" by (simp add: wall_time_def day_us_def)
  then have min: "?n div 60000000 = (day - 1) * 1440 + h * 60 + m" by simp
  show "?n mod 60000000 = 0" unfolding n by (rule mod_mult_self2_is_0)
  have "(day - 1) * 1440 + h * 60 + m = m + ((day - 1) * 24 + h) * 60" by simp
  moreover have "(m + k * 60) mod 60 = m" "(m + k * 60) div 60 = k" for k
    using assms by (simp_all only: mod_mult_self1 div_mult_self1) simp_all
  ultimately have rem: "((day - 1) * 1440 + h * 60 + m) mod 60 = m"
    and hour: "((day - 1) * 1440 + h * 60 + m) div 60 = (day - 1) * 24 + h" by metis+
  then show "?n div 60000000 mod 60 = m" unfolding min using rem by simp
  have h': "?n div 3600000000 = (day - 1) * 24 + h"
    using hour unfolding min [symmetric] by (simp add: zdiv_zmult2_eq [symmetric])
  show "?n div 3600000000 mod 24 = h" unfolding h' using mod_mult_self1 [of h "day - 1" 24] assms by (simp only: add.commute) simp
  have "?n div day_us = ?n div 3600000000 div 24" by (simp add: day_us_def zdiv_zmult2_eq [symmetric])
  also have "\<dots> = day - 1" unfolding h' using assms by simp
  finally show "ts_ordinal ?n = day" by (simp add: ts_ordinal_def)
qed

lemma wall_time_of:
  assumes "n mod 60000000 = 0"
  shows "wall_time (ts_ordinal n) (n div 3600000000 mod 24) (n div 60000000 mod 60) = n"
proof -
  have d: "n div 60000000 div 60 = n div 3600000000" "n div 3600000000 div 24 = n div day_us"
    by (simp_all add: day_us_def zdiv_zmult2_eq [symmetric])
  have "n = 60000000 * (n div 60000000) + 0" using mult_div_mod_eq [of 60000000 n] assms by simp
  moreover have "n div 60000000 = 60 * (n div 3600000000) + n div 60000000 mod 60"
    using mult_div_mod_eq [of 60 "n div 60000000"] unfolding d by (rule sym)
  moreover have "n div 3600000000 = 24 * (n div day_us) + n div 3600000000 mod 24"
    using mult_div_mod_eq [of 24 "n div 3600000000"] unfolding d by (rule sym)
  moreover have "n = 60000000 * a \<Longrightarrow> a = 60 * b + m \<Longrightarrow> b = 24 * q + h \<Longrightarrow>
      (q + 1 - 1) * 86400000000 + (h * 60 + m) * 60000000 = n" for a b q h m by simp
  ultimately show ?thesis unfolding wall_time_def ts_ordinal_def day_us_def [symmetric]
    by (metis add.right_neutral day_us_def)
qed

lemma day_candidates_set:
  assumes "zone_inverse z" and "clock_fields c"
  shows "set (day_candidates z c start stop day) =
    {u. start < u \<and> u \<le> stop \<and> cron_due z c u \<and> ts_ordinal (zone_local z u) = day}" (is "?L = ?R")
proof
  show "?L \<subseteq> ?R"
  proof
    fix u assume "u \<in> ?L"
    then obtain h m where day: "date_matches c day"
      and hm: "h \<in> set (cron_values (cron_hour c))" "m \<in> set (cron_values (cron_minute c))"
      and u: "zone_local z u = wall_time day h m" "start < u" "u \<le> stop"
      by (auto simp: day_candidates_def Let_def split: if_splits)
    from hm assms(2) have "0 \<le> h" "h \<le> 23" "0 \<le> m" "m \<le> 59" by (auto simp: clock_fields_def)
    from wall_time_parts [OF this, of day] show "u \<in> ?R"
      using day hm u by (simp add: cron_due_def cron_matches_def)
  qed
  show "?R \<subseteq> ?L"
  proof
    fix u assume u: "u \<in> ?R"
    let ?n = "zone_local z u"
    let ?h = "?n div 3600000000 mod 24" and ?m = "?n div 60000000 mod 60"
    from u have wall: "wall_time day ?h ?m = ?n" using wall_time_of [of ?n] by (auto simp: cron_due_def)
    from u have m: "date_matches c day" "?h \<in> set (cron_values (cron_hour c))" "?m \<in> set (cron_values (cron_minute c))"
      by (auto simp: cron_due_def cron_matches_def)
    from assms(1) obtain fold where fold: "zone_instant z ?n fold = u" unfolding zone_inverse_def by blast
    have "\<exists>h \<in> set (cron_values (cron_hour c)). \<exists>m \<in> set (cron_values (cron_minute c)). \<exists>fold \<in> {False, True}.
        zone_instant z (wall_time day h m) fold = u \<and> zone_local z u = wall_time day h m"
      using m fold wall by (intro bexI [of _ ?h] bexI [of _ ?m] bexI [of _ fold]) auto
    then show "u \<in> ?L" using u m(1) by (fastforce simp: day_candidates_def Let_def)
  qed
qed

lemma day_candidates_sorted: "sorted (day_candidates z c start stop day)" "distinct (day_candidates z c start stop day)"
  by (simp_all add: day_candidates_def)

subsection \<open>All days\<close>

lemma collect_days_eq:
  "length found \<le> limit \<Longrightarrow>
   collect_days z c start stop limit first day found =
     take limit (found @ concat (map (\<lambda>d. rev (day_candidates z c start stop d)) (rev [first..day])))"
proof (induction z c start stop limit first day found rule: collect_days.induct)
  case (1 z c start stop limit first day found)
  let ?cs = "\<lambda>d. rev (day_candidates z c start stop d)"
  show ?case
  proof (cases "day < first \<or> limit \<le> length found")
    case True
    with "1.prems" show ?thesis by (subst collect_days.simps) auto
  next
    case False
    let ?more = "found @ take (limit - length found) (?cs day)"
    have days: "[first..day] = [first..day - 1] @ [day]" using False by (simp add: upto_rec2)
    have rest: "collect_days z c start stop limit first (day - 1) ?more
        = take limit (?more @ concat (map ?cs (rev [first..day - 1])))"
      using False by (intro "1.IH") auto
    have "take limit (?more @ ys) = take limit (found @ ?cs day @ ys)" for ys
      using False by (cases "length (?cs day) \<le> limit - length found") simp_all
    then show ?thesis using False rest by (subst collect_days.simps) (simp add: days)
  qed
qed

text \<open>
  The order in which the code returns instants: by local date, and by time within a date. The two differ
  where the clock steps back over midnight, as it has done in some zones.
\<close>

definition local_date :: "zone \<Rightarrow> int \<Rightarrow> int" where
  "local_date z u = ts_ordinal (zone_local z u)"

definition by_local_date :: "zone \<Rightarrow> int \<Rightarrow> int \<Rightarrow> bool" where
  "by_local_date z u v \<longleftrightarrow> local_date z u < local_date z v \<or> local_date z u = local_date z v \<and> u < v"

definition due_instants :: "zone \<Rightarrow> cron_expression \<Rightarrow> int \<Rightarrow> int \<Rightarrow> int list \<Rightarrow> bool" where
  \<comment> \<open>the matching instants of the interval with a local date between those of its ends, in that order\<close>
  "due_instants z c start stop us \<longleftrightarrow>
     set us = {u. start < u \<and> u \<le> stop \<and> cron_due z c u \<and> local_date z u \<in> {local_date z start..local_date z stop}}
     \<and> sorted_wrt (by_local_date z) us"

definition dates_advance :: "zone \<Rightarrow> int \<Rightarrow> int \<Rightarrow> bool" where
  \<comment> \<open>within the interval the clock does not step back over midnight\<close>
  "dates_advance z start stop \<longleftrightarrow> (\<forall>u v. start \<le> u \<longrightarrow> u \<le> v \<longrightarrow> v \<le> stop \<longrightarrow> local_date z u \<le> local_date z v)"

lemma sorted_concat:
  assumes "\<And>d. sorted_wrt R (f d)" and "sorted_wrt (<) (ds :: int list)"
    and "\<And>d e x y. d < e \<Longrightarrow> x \<in> set (f d) \<Longrightarrow> y \<in> set (f e) \<Longrightarrow> R x y"
  shows "sorted_wrt R (concat (map f ds))"
  using assms(2) by (induction ds) (auto simp: sorted_wrt_append assms(1) intro: assms(3))

lemma due_instants_days:
  assumes "zone_inverse z" and "clock_fields c"
  shows "due_instants z c start stop
    (concat (map (day_candidates z c start stop) [local_date z start..local_date z stop]))"
proof -
  let ?f = "day_candidates z c start stop"
  note cs = day_candidates_set [OF assms, of start stop, folded local_date_def]
  have same: "sorted_wrt (by_local_date z) (?f d)" for d
  proof -
    have "sorted_wrt (<) (?f d)" using day_candidates_sorted by (simp add: strict_sorted_iff)
    then show ?thesis by (rule sorted_wrt_mono_rel [rotated]) (simp add: cs by_local_date_def)
  qed
  have "by_local_date z u v" if "d < e" "u \<in> set (?f d)" "v \<in> set (?f e)" for d e u v
    using that by (simp add: cs by_local_date_def)
  with same have "sorted_wrt (by_local_date z) (concat (map ?f [local_date z start..local_date z stop]))"
    by (intro sorted_concat) (simp_all add: sorted_wrt_upto)
  then show ?thesis using cs by (auto simp: due_instants_def)
qed

lemma due_instants_scan:
  assumes "due_instants z c start stop us" and "dates_advance z start stop"
  shows "us = sorted_list_of_set {u. start < u \<and> u \<le> stop \<and> cron_due z c u}"
proof -
  let ?D = "{u. start < u \<and> u \<le> stop \<and> cron_due z c u}"
  have "local_date z u \<in> {local_date z start..local_date z stop}" if "u \<in> ?D" for u
    using that assms(2) by (simp add: dates_advance_def)
  then have us: "set us = ?D" using assms(1) by (auto simp: due_instants_def)
  have "sorted_wrt (<) us"
  proof (rule sorted_wrt_mono_rel)
    show "sorted_wrt (by_local_date z) us" using assms(1) by (simp add: due_instants_def)
    fix u v assume "u \<in> set us" "v \<in> set us" "by_local_date z u v"
    moreover have "local_date z v \<le> local_date z u" if "v \<le> u" "u \<in> set us" "v \<in> set us"
      using that assms(2) unfolding us by (simp add: dates_advance_def)
    ultimately show "u < v" by (fastforce simp: by_local_date_def)
  qed
  then have "sorted_list_of_set (set us) = us" by (simp add: strict_sorted_iff sorted_list_of_set.idem_if_sorted_distinct)
  then show ?thesis by (simp only: us)
qed

definition take_last :: "nat \<Rightarrow> 'a list \<Rightarrow> 'a list" where
  "take_last n xs = drop (length xs - n) xs"

lemma take_last_empty: "take_last n [] = []" "take_last 0 xs = []"
  by (simp_all add: take_last_def)

lemma rev_take_rev: "rev (take n (rev xs)) = take_last n xs"
  by (simp add: take_last_def rev_take)

lemma occurrences_between_eq:
  assumes "zone_inverse z" and "clock_fields c" and "occurrences_between z c start stop limit = Inr us"
  obtains xs where "due_instants z c start stop xs" and "us = take_last (nat limit) xs"
proof
  let ?first = "local_date z start" and ?last = "local_date z stop"
  let ?f = "day_candidates z c start stop"
  show due: "due_instants z c start stop (concat (map ?f [?first..?last]))"
    by (rule due_instants_days [OF assms(1,2)])
  show "us = take_last (nat limit) (concat (map ?f [?first..?last]))"
  proof (cases "stop \<le> start \<or> limit < 1")
    case True
    then have "us = []" using assms(3) by (auto simp: occurrences_between_def)
    moreover have "concat (map ?f [?first..?last]) = [] \<or> nat limit = 0"
    proof (cases "stop \<le> start")
      case stop: True
      with due have "set (concat (map ?f [?first..?last])) = {}" by (simp only: due_instants_def) auto
      then show ?thesis by (simp only: set_empty simp_thms)
    qed (use True in simp)
    ultimately show ?thesis using take_last_empty by metis
  next
    case False
    then have "us = rev (take (nat limit) (concat (map (\<lambda>d. rev (?f d)) (rev [?first..?last]))))"
      using assms(3)
      by (auto simp: occurrences_between_def Let_def collect_days_eq local_date_def split: if_splits)
    moreover have "concat (map (\<lambda>d. rev (?f d)) (rev [?first..?last])) = rev (concat (map ?f [?first..?last]))"
      by (simp add: rev_concat rev_map comp_def)
    ultimately show ?thesis by (simp add: rev_take_rev)
  qed
qed

subsection \<open>Parsed fields\<close>

lemma cron_component_range:
  assumes "cron_component lo hi w = Inr xs"
  shows "set xs \<subseteq> {lo..hi}"
proof -
  have "\<exists>step a b. 1 \<le> step \<and> lo \<le> a \<and> b \<le> hi \<and> a \<le> b \<and> xs = py_range a b step"
  proof -
    obtain step a b where ok: "cron_step (snd (partition_on (CHR ''/'') w)) = Inr step"
      "lo \<le> a" "b \<le> hi" "a \<le> b" "xs = py_range a b step"
      using assms by (auto simp: cron_component_def res_bind_Inr_iff not_less split: if_splits prod.splits intro: that)
    then have "1 \<le> step" by (auto simp: cron_step_def res_bind_Inr_iff split: option.splits if_splits)
    with ok show ?thesis by blast
  qed
  then obtain step a b where r: "1 \<le> step" "lo \<le> a" "b \<le> hi" "a \<le> b" "xs = py_range a b step" by blast
  show ?thesis
  proof
    fix v assume "v \<in> set xs"
    then have "v \<in> (\<lambda>k. a + int k * step) ` {0..<nat ((b - a) div step) + 1}"
      using r by (simp add: py_range_def del: upt_Suc)
    then obtain k where "k \<in> {0..<nat ((b - a) div step) + 1}" and v: "v = a + int k * step" by (rule imageE)
    then have k: "k \<le> nat ((b - a) div step)" by (metis atLeastLessThan_iff less_Suc_eq_le Suc_eq_plus1)
    have "0 \<le> (b - a) div step" using r by (simp add: pos_imp_zdiv_nonneg_iff)
    with k have "int k \<le> (b - a) div step" by simp
    then have "int k * step \<le> (b - a) div step * step" using r(1) by (intro mult_right_mono) auto
    also have "\<dots> \<le> b - a" using div_near(1) [of step "b - a"] r(1) by (simp add: mult.commute)
    finally have "int k * step \<le> b - a" .
    moreover have "0 \<le> int k * step" using r(1) by simp
    ultimately show "v \<in> {lo..hi}" using v r(2,3) by simp
  qed
qed

lemma cron_components_range: "cron_components lo hi ws = Inr xs \<Longrightarrow> set xs \<subseteq> {lo..hi}"
  by (induction ws arbitrary: xs) (fastforce simp: res_bind_Inr_iff dest: cron_component_range)+

lemma parse_field_range:
  "parse_field lo hi dow w = Inr f \<Longrightarrow> set (cron_values f) \<subseteq> {min lo 0..hi}"
  "parse_field lo hi False w = Inr f \<Longrightarrow> set (cron_values f) \<subseteq> {lo..hi}"
  by (force simp: parse_field_def res_bind_Inr_iff dest!: cron_components_range split: if_splits)+

lemma parse_cron_Inr:
  assumes "parse_cron e = Inr c"
  obtains p1 p2 p3 p4 p5 where "py_split e = [p1, p2, p3, p4, p5]"
    "cron_text c = join_on (CHR '' '') [p1, p2, p3, p4, p5]"
    "parse_field 0 59 False p1 = Inr (cron_minute c)" "parse_field 0 23 False p2 = Inr (cron_hour c)"
    "parse_field 1 31 False p3 = Inr (cron_day c)" "parse_field 1 12 False p4 = Inr (cron_month c)"
    "parse_field 0 7 True p5 = Inr (cron_weekday c)" "has_satisfiable_calendar_day c"
proof -
  from assms obtain p1 p2 p3 p4 p5 where p: "py_split e = [p1, p2, p3, p4, p5]"
    by (simp add: parse_cron_def split: list.split_asm)
  with assms show thesis
    by (intro that) (auto simp: parse_cron_def res_bind_Inr_iff Let_def split: if_split_asm)
qed

lemma parse_cron_clock: "parse_cron e = Inr c \<Longrightarrow> clock_fields c"
  by (elim parse_cron_Inr) (simp add: clock_fields_def parse_field_range(2))

subsection \<open>The normalised expression\<close>

lemma split_words_no_space: "w \<in> set (split_words s) \<Longrightarrow> list_all (\<lambda>c. \<not> is_space c) w"
  by (induction s arbitrary: w) (fastforce split: if_splits list.splits)+

lemma split_words_word: "list_all (\<lambda>c. \<not> is_space c) w \<Longrightarrow> split_words w = [w]"
  by (induction w) auto

lemma split_words_append:
  "list_all (\<lambda>c. \<not> is_space c) w \<Longrightarrow> split_words (w @ CHR '' '' # s) = w # split_words s"
  by (induction w) (auto simp: is_space_def)

lemma split_words_join:
  "ws \<noteq> [] \<Longrightarrow> list_all (list_all (\<lambda>c. \<not> is_space c)) ws \<Longrightarrow> split_words (join_on (CHR '' '') ws) = ws"
proof (induction "CHR '' ''" ws rule: join_on.induct)
  case (2 p)
  then show ?case by (simp add: split_words_word)
next
  case (3 p q ps)
  then show ?case by (simp add: split_words_append)
qed simp

lemma py_split_join: "py_split e = ws \<Longrightarrow> ws \<noteq> [] \<Longrightarrow> py_split (join_on (CHR '' '') ws) = ws"
proof -
  assume e: "py_split e = ws" "ws \<noteq> []"
  then have "list_all (list_all (\<lambda>c. \<not> is_space c)) ws" "\<forall>w \<in> set ws. w \<noteq> []"
    using split_words_no_space by (auto simp: py_split_def list_all_iff)
  with e(2) have "split_words (join_on (CHR '' '') ws) = ws" by (intro split_words_join)
  then show "py_split (join_on (CHR '' '') ws) = ws" using \<open>\<forall>w \<in> set ws. w \<noteq> []\<close> by (simp add: py_split_def filter_id_conv)
qed

lemma parse_cron_text: "parse_cron e = Inr c \<Longrightarrow> parse_cron (cron_text c) = Inr c"
proof -
  assume c: "parse_cron e = Inr c"
  then obtain p1 p2 p3 p4 p5 where p: "py_split e = [p1, p2, p3, p4, p5]"
    "cron_text c = join_on (CHR '' '') [p1, p2, p3, p4, p5]"
    by (rule parse_cron_Inr)
  have "py_split (cron_text c) = py_split e" unfolding p(2) using py_split_join [OF p(1)] p(1) by simp
  then show "parse_cron (cron_text c) = Inr c" using c by (simp add: parse_cron_def)
qed

end
