(* ===== verification/Sched_Trigger.thy ===== *)
theory Sched_Trigger
  imports Sched_Occurrences Sched_Jobs Graph_Repository
begin

section \<open>Scheduler: triggers\<close>

text \<open>
  \<open>TriggerService\<close> of \<open>operant/application/scheduler.py\<close>. The workflow repository is the graph store of
  \<open>Graph_Repository\<close>, absent when the service was given none. A zone name denotes the zone that
  \<open>zoneinfo\<close> loads; \<open>digest\<close> is the hexadecimal SHA-256 of the signal text. Paths are POSIX paths as
  \<open>pathlib\<close> reads them.
\<close>

subsection \<open>Paths\<close>

definition path_anchor :: "string \<Rightarrow> string" where
  \<comment> \<open>exactly two leading slashes are an anchor of their own\<close>
  "path_anchor s =
     (if starts_with s ''//'' \<and> \<not> starts_with s ''///'' then ''//''
      else if starts_with s ''/'' then ''/'' else [])"

definition path_parts :: "string \<Rightarrow> string list" where
  "path_parts s = filter (\<lambda>p. p \<noteq> [] \<and> p \<noteq> ''.'') (split_on (CHR ''/'') s)"

definition path_absolute :: "string \<Rightarrow> bool" where
  "path_absolute s \<longleftrightarrow> path_anchor s \<noteq> []"

definition path_under :: "string \<Rightarrow> string \<Rightarrow> bool" where
  \<comment> \<open>\<open>is_relative_to\<close>\<close>
  "path_under s base \<longleftrightarrow>
     path_anchor s = path_anchor base
     \<and> take (length (path_parts base)) (path_parts s) = path_parts base"

definition path_same :: "string \<Rightarrow> string \<Rightarrow> bool" where
  "path_same s t \<longleftrightarrow> path_anchor s = path_anchor t \<and> path_parts s = path_parts t"

subsection \<open>Validation\<close>

definition workspace_of :: "schedule_definition \<Rightarrow> py option" where
  \<comment> \<open>\<open>workflow_input.get("workspace_or_target")\<close>, where None is also absence\<close>
  "workspace_of d =
     (case map_of (sd_input d) ''workspace_or_target'' of Some PNone \<Rightarrow> None | w \<Rightarrow> w)"

definition is_watch_hook :: "schedule_definition \<Rightarrow> bool" where
  "is_watch_hook d \<longleftrightarrow> sd_hook d \<in> {Some HkFile, Some HkGit}"

definition or_empty :: "string option \<Rightarrow> string" where
  "or_empty t = (case t of None \<Rightarrow> [] | Some s \<Rightarrow> s)"

definition validate_watch :: "schedule_definition \<Rightarrow> sched_error + unit" where
  "validate_watch d =
     (case workspace_of d of
        Some (PStr base) \<Rightarrow>
          let watched = or_empty (sd_watch_path d) in
          if \<not> path_absolute base \<or> \<not> path_absolute watched \<or> ''..'' \<in> set (path_parts base)
             \<or> ''..'' \<in> set (path_parts watched) \<or> path_parts base = [] \<or> path_same watched base
             \<or> \<not> path_under watched base
          then Inl (ScValidation ''watch_path must be inside the workflow workspace'') else Inr ()
      | _ \<Rightarrow> Inl (ScValidation ''watch hooks require an absolute workflow workspace''))"

definition validate_workflow :: "graph_store option \<Rightarrow> schedule_definition \<Rightarrow> sched_error + unit" where
  "validate_workflow workflows d =
     (case workflows of
        None \<Rightarrow> Inr ()
      | Some g \<Rightarrow>
          (case fst (get_definition (sd_workflow d, sd_workflow_version d) g) of
             Inl _ \<Rightarrow> Inl (ScValidation ''schedule workflow definition does not exist'')
           | Inr def \<Rightarrow>
               if wf_status def \<noteq> DS_PUBLISHED
               then Inl (ScValidation ''schedule workflow definition must be published'') else Inr ()))"

definition validate_schedule :: "graph_store option \<Rightarrow> schedule_definition \<Rightarrow> sched_error + unit" where
  "validate_schedule workflows d =
     res_bind (if sd_kind d = TkCron then res_bind (parse_cron (or_empty (sd_cron d))) (\<lambda>_. Inr ()) else Inr ()) (\<lambda>_.
     res_bind
       (case workspace_of d of
          None \<Rightarrow> Inr ()
        | Some (PStr w) \<Rightarrow>
            if path_absolute w then Inr ()
            else Inl (ScValidation ''scheduled workspace must be an absolute path'')
        | Some _ \<Rightarrow> Inl (ScValidation ''scheduled workspace must be an absolute path'')) (\<lambda>_.
     res_bind (if is_watch_hook d then validate_watch d else Inr ()) (\<lambda>_.
     validate_workflow workflows d)))"

definition create_schedule :: "graph_store option \<Rightarrow> schedule_definition \<Rightarrow> unit sched" where
  "create_schedule workflows d =
     sx_bind (sx_lift (validate_schedule workflows d)) (\<lambda>_. put_schedule d)"

definition set_status :: "string \<Rightarrow> schedule_status \<Rightarrow> int \<Rightarrow> int \<Rightarrow> schedule_definition sched" where
  "set_status i status expected now = update_schedule_status i status expected now"

subsection \<open>Materialisation\<close>

definition due_occurrences :: "(string \<Rightarrow> zone) \<Rightarrow> schedule_definition \<Rightarrow> int \<Rightarrow> int \<Rightarrow> sched_error + int list" where
  "due_occurrences zones d cursor now =
     (case sd_kind d of
        TkTimer \<Rightarrow>
          (case sd_timer d of
             None \<Rightarrow> Inl ScAssertion
           | Some timer_at \<Rightarrow> Inr (if cursor < timer_at \<and> timer_at \<le> now then [timer_at] else []))
      | TkHook \<Rightarrow> Inr []
      | TkCron \<Rightarrow>
          res_bind (parse_cron (or_empty (sd_cron d))) (\<lambda>c.
          occurrences_between (zones (sd_timezone d)) c cursor now (sd_max_catch_up d + 1)))"

definition apply_misfire :: "schedule_definition \<Rightarrow> int list \<Rightarrow> int \<Rightarrow> int list" where
  "apply_misfire d due now =
     (if due = [] then []
      else case sd_misfire d of
          MpFireOnce \<Rightarrow> [last due]
        | MpCatchUp \<Rightarrow> take_last (nat (sd_max_catch_up d)) due
        | MpSkip \<Rightarrow>
            if sd_kind d = TkTimer then filter (\<lambda>v. now \<le> v) due
            else filter (\<lambda>v. v = now - now mod 60000000) due)"

definition materialize_due ::
  "(string \<Rightarrow> zone) \<Rightarrow> string \<Rightarrow> scheduler_lease \<Rightarrow> int \<Rightarrow> (nat \<Rightarrow> stamp) \<Rightarrow> run_request list sched" where
  "materialize_due zones i leader now fresh =
     sx_bind (get_schedule i) (\<lambda>d.
     if sd_status d \<noteq> SsEnabled then sx_return []
     else if sd_kind d = TkHook then sx_return []
     else
       sx_bind (get_schedule_cursor (sd_id d)) (\<lambda>cursor.
       sx_bind (sx_lift (due_occurrences zones d cursor now)) (\<lambda>due.
       enqueue_occurrences d (apply_misfire d due now) leader now now fresh)))"

definition materialize_all_due ::
  "(string \<Rightarrow> zone) \<Rightarrow> scheduler_lease \<Rightarrow> int \<Rightarrow> (string \<Rightarrow> nat \<Rightarrow> stamp) \<Rightarrow> run_request list sched" where
  "materialize_all_due zones leader now fresh =
     sx_bind list_enabled_schedule_ids (\<lambda>ids.
     sx_bind (sx_each (\<lambda>i. materialize_due zones i leader now (fresh i)) ids) (\<lambda>batches.
     sx_return (concat batches)))"

subsection \<open>Manual and signalled runs\<close>

definition manual_trigger :: "string \<Rightarrow> string \<Rightarrow> int \<Rightarrow> stamp \<Rightarrow> run_request sched" where
  "manual_trigger i idempotency_key now st =
     sx_bind (get_schedule i) (\<lambda>d.
     if sd_status d = SsCancelled then sx_raise (ScConflict ''cancelled schedules cannot be triggered'')
     else enqueue_manual d idempotency_key now st)"

definition signal_hook :: "(string \<Rightarrow> string) \<Rightarrow> string \<Rightarrow> string \<Rightarrow> int \<Rightarrow> stamp \<Rightarrow> run_request sched" where
  "signal_hook digest i event_id now st =
     sx_bind (sx_guard (text_between 1 200 event_id)
       (ScValidation ''hook event_id must contain 1-200 characters'')) (\<lambda>_.
     sx_bind (get_schedule i) (\<lambda>d.
     if sd_kind d \<noteq> TkHook \<or> sd_hook d \<noteq> Some HkSignal
     then sx_raise (ScConflict ''schedule is not an application.signal hook'')
     else if sd_status d \<noteq> SsEnabled then sx_raise (ScConflict ''hook schedule is not enabled'')
     else enqueue_hook d
       (''hook:'' @ sd_id d @ '':v'' @ show_int (sd_version d) @ '':''
         @ digest (''application.signal'' @ char_of (0 :: nat) # event_id)) now st))"

definition replay_dead_letter :: "string \<Rightarrow> string \<Rightarrow> int \<Rightarrow> stamp \<Rightarrow> run_request sched" where
  "replay_dead_letter i idempotency_key now st = store_replay_dead_letter i idempotency_key now st"

subsection \<open>How many requests one pass creates\<close>

lemma take_last_length: "length (take_last n xs) \<le> n"
  by (simp add: take_last_def)

lemma take_last_subset: "set (take_last n xs) \<subseteq> set xs"
  by (auto simp: take_last_def dest: in_set_dropD)

lemma apply_misfire_subset: "set (apply_misfire d due now) \<subseteq> set due"
  by (auto simp: apply_misfire_def dest: subsetD [OF take_last_subset] split: misfire_policy.splits)

lemma apply_misfire_sorted: "sorted due \<Longrightarrow> sorted (apply_misfire d due now)"
  by (auto simp: apply_misfire_def take_last_def sorted_wrt_drop sorted_wrt_filter split: misfire_policy.splits)

lemma apply_misfire_distinct: "distinct due \<Longrightarrow> distinct (apply_misfire d due now)"
  by (auto simp: apply_misfire_def take_last_def split: misfire_policy.splits)

end
