(* ===== verification/Sched_Worker.thy ===== *)
theory Sched_Worker
  imports Sched_Trigger
begin

section \<open>Scheduler: the worker\<close>

text \<open>
  \<open>SchedulerWorker\<close> of \<open>operant/runtime/scheduler.py\<close>. The gateway is a protocol whose implementations
  are outside this file: a record of functions on a state of its own, the optional methods absent when
  \<open>getattr\<close> finds none. Each call of the store reads the clock and draws its tokens: the n-th call takes
  them from \<open>we_clock n\<close> and \<open>we_token n\<close>.
\<close>

datatype gateway_error =
    GwDispatch string bool \<comment> \<open>\<open>DispatchError(error_code, outcome_unknown)\<close>\<close>
  | GwConflict string \<comment> \<open>\<open>SchedulerConflictError\<close>\<close>
  | GwOther string \<comment> \<open>any other exception, by the name of its type\<close>

datatype worker_error = WkStore sched_error | WkGateway gateway_error

record workflow_dispatch =
  wd_workflow :: string
  wd_version :: int
  wd_input :: py_env
  wd_key :: string
  wd_source :: string

record 'g gateway =
  gw_dispatch :: "workflow_dispatch \<Rightarrow> 'g \<Rightarrow> (gateway_error + string) \<times> 'g"
  gw_status :: "(string \<Rightarrow> 'g \<Rightarrow> (gateway_error + graph_run_status) \<times> 'g) option"
  gw_ensure :: "(string \<Rightarrow> 'g \<Rightarrow> (gateway_error + unit) \<times> 'g) option"
  gw_cancel :: "(string \<Rightarrow> 'g \<Rightarrow> (gateway_error + unit) \<times> 'g) option"

record 'g worker_state =
  wk_store :: sched_store
  wk_gateway :: 'g
  wk_calls :: nat

record worker_env =
  we_owner :: string
  we_ttl :: int
  we_clock :: "nat \<Rightarrow> int"
  we_token :: "nat \<Rightarrow> nat \<Rightarrow> string"

type_synonym ('g, 'a) wk = "('g worker_state, worker_error, 'a) sx"

definition make_worker :: "worker_env \<Rightarrow> sched_error + worker_env" where
  "make_worker env =
     (if we_ttl env < 1 then Inl (ScValueError ''job_ttl_seconds must be positive'') else Inr env)"

definition store_call :: "worker_env \<Rightarrow> (int \<Rightarrow> (nat \<Rightarrow> string) \<Rightarrow> 'a sched) \<Rightarrow> ('g, 'a) wk" where
  "store_call env f = (\<lambda>w.
     case f (we_clock env (wk_calls w)) (we_token env (wk_calls w)) (wk_store w) of
       (r, s) \<Rightarrow> (case r of Inl e \<Rightarrow> Inl (WkStore e) | Inr x \<Rightarrow> Inr x,
         w\<lparr>wk_store := s, wk_calls := wk_calls w + 1\<rparr>))"

definition gateway_call :: "('g \<Rightarrow> (gateway_error + 'a) \<times> 'g) \<Rightarrow> ('g, 'a) wk" where
  "gateway_call f = (\<lambda>w.
     case f (wk_gateway w) of
       (r, g) \<Rightarrow> (case r of Inl e \<Rightarrow> Inl (WkGateway e) | Inr x \<Rightarrow> Inr x, w\<lparr>wk_gateway := g\<rparr>))"

definition finish_if_terminal ::
  "worker_env \<Rightarrow> run_request \<Rightarrow> job_lease \<Rightarrow> graph_run_status \<Rightarrow> ('g, run_request) wk" where
  "finish_if_terminal env request lease status =
     (case rr_run request of
        None \<Rightarrow> sx_raise (WkStore ScAssertion)
      | Some run_id \<Rightarrow>
          if status = RS_COMPLETED then store_call env (\<lambda>now tk. complete_job lease run_id now)
          else if status = RS_CANCELLED
          then store_call env (\<lambda>now tk. finish_dispatched_job lease RqCancelled ''graph.cancelled'' now)
          else if status = RS_FAILED
          then store_call env (\<lambda>now tk. finish_dispatched_job lease RqDeadLetter ''graph.failed'' now)
          else if status = RS_MANUAL_RECONCILE
          then store_call env (\<lambda>now tk.
            finish_dispatched_job lease RqManual ''graph.manual_reconcile_required'' now)
          else sx_return request)"

definition reconcile_one ::
  "worker_env \<Rightarrow> 'g gateway \<Rightarrow> (string \<Rightarrow> 'g \<Rightarrow> (gateway_error + graph_run_status) \<times> 'g)
     \<Rightarrow> run_request \<Rightarrow> job_lease \<Rightarrow> ('g, run_request) wk" where
  "reconcile_one env gw read_status request lease =
     (case rr_run request of
        None \<Rightarrow> sx_raise (WkStore ScAssertion)
      | Some run_id \<Rightarrow>
          sx_bind (gateway_call (read_status run_id)) (\<lambda>status.
          sx_bind
            (if rr_cancel request
                \<and> status \<notin> {RS_COMPLETED, RS_FAILED, RS_CANCELLED, RS_MANUAL_RECONCILE} then
               (case gw_cancel gw of
                  None \<Rightarrow> sx_return status
                | Some cancel \<Rightarrow>
                    sx_bind (gateway_call (cancel run_id)) (\<lambda>_. gateway_call (read_status run_id)))
             else if status \<in> {RS_CREATED, RS_QUEUED, RS_RUNNING, RS_INTERRUPTED} then
               (case gw_ensure gw of
                  None \<Rightarrow> sx_return status
                | Some ensure \<Rightarrow> sx_bind (gateway_call (ensure run_id)) (\<lambda>_. sx_return status))
             else sx_return status) (\<lambda>status.
          finish_if_terminal env request lease status)))"

fun reconcile_each ::
  "worker_env \<Rightarrow> 'g gateway \<Rightarrow> (string \<Rightarrow> 'g \<Rightarrow> (gateway_error + graph_run_status) \<times> 'g)
     \<Rightarrow> (run_request \<times> job_lease) list \<Rightarrow> ('g, run_request option) wk" where
  \<comment> \<open>the loop of \<open>_reconcile_dispatched\<close>: it stops at the first request that is no longer leased\<close>
  "reconcile_each env gw read_status [] = sx_return None"
| "reconcile_each env gw read_status (job # jobs) =
     sx_bind (reconcile_one env gw read_status (fst job) (snd job)) (\<lambda>result.
     if rr_status result \<noteq> RqLeased then sx_return (Some result)
     else reconcile_each env gw read_status jobs)"

definition reconcile_dispatched ::
  "worker_env \<Rightarrow> 'g gateway \<Rightarrow> scheduler_lease \<Rightarrow> ('g, run_request option) wk" where
  "reconcile_dispatched env gw writer =
     (case gw_status gw of
        None \<Rightarrow> sx_return None
      | Some read_status \<Rightarrow>
          sx_bind (store_call env (\<lambda>now tk. renew_dispatched_jobs writer (we_owner env) (we_ttl env) now tk))
            (\<lambda>jobs. reconcile_each env gw read_status jobs))"

definition exception_code :: "worker_error \<Rightarrow> string" where
  \<comment> \<open>\<open>type(exc).__name__\<close>\<close>
  "exception_code e =
     (case e of
        WkGateway (GwOther name) \<Rightarrow> name
      | WkGateway (GwDispatch _ _) \<Rightarrow> ''DispatchError''
      | WkGateway (GwConflict _) \<Rightarrow> ''SchedulerConflictError''
      | WkStore (ScValidation _) \<Rightarrow> ''SchedulerValidationError''
      | WkStore (ScConflict _) \<Rightarrow> ''SchedulerConflictError''
      | WkStore (ScValueError _) \<Rightarrow> ''ValueError''
      | WkStore ScKeyError \<Rightarrow> ''KeyError''
      | WkStore ScIntegrity \<Rightarrow> ''IntegrityError''
      | WkStore ScAssertion \<Rightarrow> ''AssertionError'')"

datatype dispatch_outcome = Dispatched string | Settled run_request

definition fail_claimed ::
  "worker_env \<Rightarrow> schedule_definition \<Rightarrow> job_lease \<Rightarrow> string \<Rightarrow> bool \<Rightarrow> ('g, run_request) wk" where
  "fail_claimed env d lease code unknown =
     store_call env (\<lambda>now tk. fail_job lease code unknown (sd_retry_base d) (sd_retry_max d) now)"

definition dispatch_claimed ::
  "worker_env \<Rightarrow> 'g gateway \<Rightarrow> schedule_definition \<Rightarrow> run_request \<Rightarrow> job_lease \<Rightarrow> ('g, dispatch_outcome) wk" where
  \<comment> \<open>the \<open>try\<close> statement of \<open>run_one\<close>: the run id, or the request that a handler settled\<close>
  "dispatch_claimed env gw d request lease =
     sx_catch
       (sx_bind (store_call env (\<lambda>now tk. mark_job_side_effect lease now)) (\<lambda>_.
        sx_bind (gateway_call (gw_dispatch gw
          \<lparr>wd_workflow = rr_workflow request, wd_version = rr_workflow_version request,
           wd_input = rr_input request, wd_key = rr_key request, wd_source = rr_id request\<rparr>)) (\<lambda>run_id.
        sx_return (Dispatched run_id))))
       (\<lambda>e. case e of
          WkStore (ScConflict m) \<Rightarrow> sx_raise e
        | WkGateway (GwConflict m) \<Rightarrow> sx_raise e
        | WkGateway (GwDispatch code unknown) \<Rightarrow>
            sx_bind (fail_claimed env d lease code unknown) (\<lambda>r. sx_return (Settled r))
        | _ \<Rightarrow>
            sx_bind (fail_claimed env d lease (''gateway.'' @ exception_code e) True) (\<lambda>r. sx_return (Settled r)))"

definition run_claimed ::
  "worker_env \<Rightarrow> 'g gateway \<Rightarrow> run_request \<Rightarrow> job_lease \<Rightarrow> ('g, run_request) wk" where
  \<comment> \<open>\<open>run_one\<close> after the claim\<close>
  "run_claimed env gw request lease =
     sx_bind (store_call env (\<lambda>now tk. get_request (rr_id request))) (\<lambda>current.
     if rr_cancel current then store_call env (\<lambda>now tk. cancel_claimed_job lease now)
     else
       sx_bind (store_call env (\<lambda>now tk. get_schedule_revision (rr_schedule request) (rr_version request))) (\<lambda>d.
       sx_bind (dispatch_claimed env gw d request lease) (\<lambda>out.
       case out of
         Settled r \<Rightarrow> sx_return r
       | Dispatched run_id \<Rightarrow>
           if run_id = [] then fail_claimed env d lease ''gateway.missing_workflow_run_id'' True
           else
             sx_bind (store_call env (\<lambda>now tk. mark_workflow_dispatched lease run_id now)) (\<lambda>dispatched.
             case gw_status gw of
               None \<Rightarrow> store_call env (\<lambda>now tk. complete_job lease run_id now)
             | Some read_status \<Rightarrow> reconcile_one env gw read_status dispatched lease))))"

definition run_one :: "worker_env \<Rightarrow> 'g gateway \<Rightarrow> scheduler_lease \<Rightarrow> ('g, run_request option) wk" where
  "run_one env gw writer =
     sx_bind (reconcile_dispatched env gw writer) (\<lambda>terminal.
     case terminal of
       Some r \<Rightarrow> sx_return (Some r)
     | None \<Rightarrow>
         sx_bind (store_call env (\<lambda>now tk. claim_due writer (we_owner env) (we_ttl env) now (tk 0))) (\<lambda>claimed.
         case claimed of
           None \<Rightarrow> sx_return None
         | Some (request, lease) \<Rightarrow>
             sx_bind (run_claimed env gw request lease) (\<lambda>r. sx_return (Some r))))"

end
