(* ===== verification/Sched_Runs.thy ===== *)
theory Sched_Runs
  imports Sched_Operations Sched_Worker
begin

section \<open>Scheduler: sequences of calls\<close>

text \<open>
  \<open>sched_op\<close> is a call of a method of the store that may write, \<open>sched_execute\<close> any sequence of calls,
  the failed ones included. A relation that each call keeps is kept by every sequence, and by the
  services built on the store: the locale \<open>sched_kept\<close> proves that once for \<open>TriggerService\<close> and for
  \<open>SchedulerWorker\<close> with any gateway.
\<close>

datatype sched_op =
    OpPutSchedule schedule_definition
  | OpSetStatus string schedule_status int int
  | OpEnqueue schedule_definition "int list" scheduler_lease int int "nat \<Rightarrow> stamp"
  | OpManual schedule_definition string int stamp
  | OpHook schedule_definition string int stamp
  | OpWatch schedule_definition "string option" "string option" scheduler_lease int stamp
  | OpReplay string string int stamp
  | OpAcquire lease_kind string int int string
  | OpRenewAuthority scheduler_lease int int
  | OpClaim scheduler_lease string int int string
  | OpRenewJob job_lease scheduler_lease int int
  | OpRenewDispatched scheduler_lease string int int "nat \<Rightarrow> string"
  | OpMarkSideEffect job_lease int
  | OpMarkDispatched job_lease string int
  | OpCancelClaimed job_lease int
  | OpComplete job_lease string int
  | OpFinish job_lease request_status string int
  | OpFail job_lease string bool int int int
  | OpRequestCancel string int

fun sched_step :: "sched_op \<Rightarrow> unit sched" where
  "sched_step (OpPutSchedule d) = put_schedule d"
| "sched_step (OpSetStatus i status expected now) = sx_void (update_schedule_status i status expected now)"
| "sched_step (OpEnqueue d vs leader advance_to available fresh) =
     sx_void (enqueue_occurrences d vs leader advance_to available fresh)"
| "sched_step (OpManual d key now st) = sx_void (enqueue_manual d key now st)"
| "sched_step (OpHook d key now st) = sx_void (enqueue_hook d key now st)"
| "sched_step (OpWatch d fingerprint code leader now st) = sx_void (observe_watch d fingerprint code leader now st)"
| "sched_step (OpReplay i key now st) = sx_void (store_replay_dead_letter i key now st)"
| "sched_step (OpAcquire kind who ttl now token) = sx_void (acquire_authority kind who ttl now token)"
| "sched_step (OpRenewAuthority lease ttl now) = sx_void (renew_authority lease ttl now)"
| "sched_step (OpClaim writer who ttl now token) = sx_void (claim_due writer who ttl now token)"
| "sched_step (OpRenewJob lease writer ttl now) = sx_void (renew_job lease writer ttl now)"
| "sched_step (OpRenewDispatched writer who ttl now tokens) =
     sx_void (renew_dispatched_jobs writer who ttl now tokens)"
| "sched_step (OpMarkSideEffect lease now) = mark_job_side_effect lease now"
| "sched_step (OpMarkDispatched lease run_id now) = sx_void (mark_workflow_dispatched lease run_id now)"
| "sched_step (OpCancelClaimed lease now) = sx_void (cancel_claimed_job lease now)"
| "sched_step (OpComplete lease run_id now) = sx_void (complete_job lease run_id now)"
| "sched_step (OpFinish lease status code now) = sx_void (finish_dispatched_job lease status code now)"
| "sched_step (OpFail lease code unknown retry_base retry_max now) =
     sx_void (fail_job lease code unknown retry_base retry_max now)"
| "sched_step (OpRequestCancel i now) = sx_void (request_cancel i now)"

definition sched_execute :: "sched_op list \<Rightarrow> sched_store \<Rightarrow> sched_store" where
  "sched_execute ops s = fold (\<lambda>c s. snd (sched_step c s)) ops s"

definition empty_sched :: sched_store where
  "empty_sched = \<lparr>ss_definitions = [], ss_heads = [], ss_requests = [], ss_authority = [], ss_leases = [],
     ss_attempts = [], ss_watches = []\<rparr>"

lemma sched_execute_append: "sched_execute (xs @ ys) s = sched_execute ys (sched_execute xs s)"
  by (simp add: sched_execute_def)

lemma sched_execute_Cons: "sched_execute (c # cs) s = sched_execute cs (snd (sched_step c s))"
  by (simp add: sched_execute_def)

lemma sched_execute_Nil: "sched_execute [] s = s"
  by (simp add: sched_execute_def)

subsection \<open>What the services are built from\<close>

text \<open>A relation on stores that the allowed calls keep.\<close>

locale sched_kept = kept_relation R
  for R :: "sched_store \<Rightarrow> sched_store \<Rightarrow> bool" +
  fixes allowed :: "sched_op \<Rightarrow> bool"
  assumes step_kept: "allowed c \<Longrightarrow> keeps R (sched_step c)"
begin

lemma execute_kept: "list_all allowed cs \<Longrightarrow> R s (sched_execute cs s)"
proof (induction cs arbitrary: s)
  case (Cons c cs)
  have "R s (snd (sched_step c s))" using step_kept Cons.prems by (simp add: keeps_def)
  then show ?case using Cons kept_trans by (auto simp: sched_execute_Cons)
qed (simp add: sched_execute_Nil kept_refl)

end

text \<open>When every call is allowed, the services keep the relation too.\<close>

locale sched_service = sched_kept R "\<lambda>_. True" for R
begin

lemma store_kept:
  "keeps R (put_schedule d)"
  "keeps R (update_schedule_status i status expected now)"
  "keeps R (enqueue_occurrences d vs leader advance_to available fresh)"
  "keeps R (enqueue_manual d key now st)"
  "keeps R (enqueue_hook d key now st)"
  "keeps R (observe_watch d fingerprint error leader now st)"
  "keeps R (store_replay_dead_letter i key now st)"
  "keeps R (acquire_authority kind who ttl now token)"
  "keeps R (renew_authority authority ttl now)"
  "keeps R (claim_due writer who ttl now token)"
  "keeps R (renew_dispatched_jobs writer who ttl now tokens)"
  "keeps R (mark_job_side_effect lease now)"
  "keeps R (mark_workflow_dispatched lease run_id now)"
  "keeps R (cancel_claimed_job lease now)"
  "keeps R (complete_job lease run_id now)"
  "keeps R (finish_dispatched_job lease result code now)"
  "keeps R (fail_job lease code unknown retry_base retry_max now)"
  "keeps R (request_cancel i now)"
  using step_kept [of "OpPutSchedule d"] step_kept [of "OpSetStatus i status expected now"]
    step_kept [of "OpEnqueue d vs leader advance_to available fresh"] step_kept [of "OpManual d key now st"]
    step_kept [of "OpHook d key now st"] step_kept [of "OpWatch d fingerprint error leader now st"]
    step_kept [of "OpReplay i key now st"] step_kept [of "OpAcquire kind who ttl now token"]
    step_kept [of "OpRenewAuthority authority ttl now"] step_kept [of "OpClaim writer who ttl now token"]
    step_kept [of "OpRenewDispatched writer who ttl now tokens"] step_kept [of "OpMarkSideEffect lease now"]
    step_kept [of "OpMarkDispatched lease run_id now"] step_kept [of "OpCancelClaimed lease now"]
    step_kept [of "OpComplete lease run_id now"] step_kept [of "OpFinish lease result code now"]
    step_kept [of "OpFail lease code unknown retry_base retry_max now"] step_kept [of "OpRequestCancel i now"]
  by (simp_all add: keeps_void)

lemma reads_kept:
  "keeps R (get_schedule i)" "keeps R (get_schedule_revision i v)" "keeps R (get_schedule_cursor i)"
  "keeps R list_enabled_schedule_ids" "keeps R (get_request i)"
  unfolding get_schedule_def get_schedule_revision_def get_schedule_cursor_def list_enabled_schedule_ids_def
    get_request_def
  by (intro keeps_rules)+

lemma trigger_kept:
  "keeps R (create_schedule workflows d)"
  "keeps R (materialize_due zones i leader now fresh1)"
  "keeps R (materialize_all_due zones leader now fresh)"
  "keeps R (manual_trigger i key now st)"
  "keeps R (signal_hook digest i event now st)"
proof -
  show one: "keeps R (materialize_due zones i leader now fresh1)" for i fresh1
    unfolding materialize_due_def by (intro keeps_rules store_kept reads_kept)
  show "keeps R (materialize_all_due zones leader now fresh)"
    unfolding materialize_all_due_def by (intro keeps_rules reads_kept one)
  show "keeps R (create_schedule workflows d)"
    unfolding create_schedule_def by (intro keeps_rules store_kept)
  show "keeps R (manual_trigger i key now st)"
    unfolding manual_trigger_def by (intro keeps_rules store_kept reads_kept)
  show "keeps R (signal_hook digest i event now st)"
    unfolding signal_hook_def by (intro keeps_rules store_kept reads_kept)
qed

end

sublocale sched_service \<subseteq> worker: kept_relation "\<lambda>w w' :: 'g worker_state. R (wk_store w) (wk_store w')"
  by unfold_locales (auto intro: kept_refl kept_trans)

context sched_service
begin

lemma store_call_kept:
  assumes "\<And>now tk. keeps R (f now tk)"
  shows "keeps (\<lambda>w w'. R (wk_store w) (wk_store w')) (store_call env f)"
proof (rule keepsI)
  fix w :: "'g worker_state"
  have "R (wk_store w) (snd (f (we_clock env (wk_calls w)) (we_token env (wk_calls w)) (wk_store w)))"
    using assms by (simp add: keeps_def)
  then show "R (wk_store w) (wk_store (snd (store_call env f w)))"
    by (simp add: store_call_def case_prod_beta)
qed

lemma gateway_call_kept: "keeps (\<lambda>w w'. R (wk_store w) (wk_store w')) (gateway_call f)"
  by (simp add: keeps_def gateway_call_def kept_refl split: prod.splits)

lemmas worker_rules = worker.keeps_rules store_call_kept gateway_call_kept store_kept reads_kept

lemma finish_kept: "keeps (\<lambda>w w'. R (wk_store w) (wk_store w')) (finish_if_terminal env request lease status)"
  unfolding finish_if_terminal_def by (intro worker_rules)

lemma reconcile_kept: "keeps (\<lambda>w w'. R (wk_store w) (wk_store w')) (reconcile_one env gw read request lease)"
  unfolding reconcile_one_def by (intro worker_rules finish_kept)

lemma reconcile_each_kept: "keeps (\<lambda>w w'. R (wk_store w) (wk_store w')) (reconcile_each env gw read jobs)"
  by (induction jobs) (auto intro!: worker_rules reconcile_kept)

lemma fail_claimed_kept: "keeps (\<lambda>w w'. R (wk_store w) (wk_store w')) (fail_claimed env d lease code unknown)"
  unfolding fail_claimed_def by (intro worker_rules)

lemma handler_kept:
  "keeps (\<lambda>w w'. R (wk_store w) (wk_store w'))
    (case e of
       WkStore (ScConflict m) \<Rightarrow> sx_raise e
     | WkGateway (GwConflict m) \<Rightarrow> sx_raise e
     | WkGateway (GwDispatch code unknown) \<Rightarrow>
         sx_bind (fail_claimed env d lease code unknown) (\<lambda>r. sx_return (Settled r))
     | _ \<Rightarrow>
         sx_bind (fail_claimed env d lease (''gateway.'' @ exception_code e) True) (\<lambda>r. sx_return (Settled r)))"
  by (auto split: worker_error.splits sched_error.splits gateway_error.splits intro!: worker_rules fail_claimed_kept)

lemma dispatch_claimed_kept: "keeps (\<lambda>w w'. R (wk_store w) (wk_store w')) (dispatch_claimed env gw d request lease)"
  unfolding dispatch_claimed_def
  by (rule worker.keeps_catch, intro worker_rules) (rule handler_kept)

lemma outcome_kept:
  "(\<And>r. keeps S (f r)) \<Longrightarrow> (\<And>x. keeps S (g x)) \<Longrightarrow> keeps S (case out of Settled r \<Rightarrow> f r | Dispatched x \<Rightarrow> g x)"
  by (cases out) simp_all

lemma run_claimed_kept: "keeps (\<lambda>w w'. R (wk_store w) (wk_store w')) (run_claimed env gw request lease)"
  unfolding run_claimed_def
  by (intro worker_rules outcome_kept dispatch_claimed_kept fail_claimed_kept reconcile_kept)

lemma run_one_kept: "keeps (\<lambda>w w'. R (wk_store w) (wk_store w')) (run_one env gw writer)"
  unfolding run_one_def reconcile_dispatched_def
  by (intro worker_rules reconcile_each_kept run_claimed_kept)

end

end
