(* ===== verification/Sched_Tables.thy ===== *)
theory Sched_Tables
  imports Sched_Runs
begin

section \<open>Scheduler: revisions, heads, authority and watches only advance\<close>

text \<open>
  \<open>tables_grow\<close>: published revisions stay as they are, the version of a head does not fall and a
  cancelled version stays cancelled, the fencing number of an authority does not fall and names one
  owner and token, the generation of a watch does not fall.
\<close>

definition fenced :: "(scheduler_lease \<Rightarrow> scheduler_lease \<Rightarrow> bool)" where
  "fenced l m \<longleftrightarrow> sl_fencing l < sl_fencing m
     \<or> sl_fencing m = sl_fencing l \<and> sl_owner m = sl_owner l \<and> sl_token m = sl_token l"

definition head_advance :: "schedule_head \<Rightarrow> schedule_head \<Rightarrow> bool" where
  "head_advance h g \<longleftrightarrow> hd_version h < hd_version g
     \<or> hd_version g = hd_version h \<and> (hd_status h = SsCancelled \<longrightarrow> hd_status g = SsCancelled)"

definition watch_advance :: "watch_baseline \<Rightarrow> watch_baseline \<Rightarrow> bool" where
  "watch_advance a b \<longleftrightarrow> wb_generation a \<le> wb_generation b"

definition rows_move :: "('v \<Rightarrow> 'v \<Rightarrow> bool) \<Rightarrow> ('k \<times> 'v) list \<Rightarrow> ('k \<times> 'v) list \<Rightarrow> bool" where
  \<comment> \<open>no row is deleted, and each moves as given\<close>
  "rows_move step d e \<longleftrightarrow> (\<forall>k v. map_of d k = Some v \<longrightarrow> (\<exists>w. map_of e k = Some w \<and> step v w))"

definition tables_grow :: "sched_store \<Rightarrow> sched_store \<Rightarrow> bool" where
  "tables_grow s t \<longleftrightarrow>
     rows_move (=) (ss_definitions s) (ss_definitions t)
     \<and> rows_move head_advance (ss_heads s) (ss_heads t)
     \<and> rows_move fenced (ss_authority s) (ss_authority t)
     \<and> rows_move watch_advance (ss_watches s) (ss_watches t)"

lemma rows_move_refl: "(\<And>v. step v v) \<Longrightarrow> rows_move step d d"
  by (simp add: rows_move_def)

lemma rows_move_trans:
  assumes "rows_move step d e" and "rows_move step e f" and "\<And>u v w. step u v \<Longrightarrow> step v w \<Longrightarrow> step u w"
  shows "rows_move step d f"
  using assms unfolding rows_move_def by meson

lemma rows_move_sql: "(\<And>k v. P k v \<Longrightarrow> map_of d k = Some v \<Longrightarrow> step v (f v)) \<Longrightarrow> (\<And>v. step v v) \<Longrightarrow>
    rows_move step d (sql_update P f d)"
  by (auto simp: rows_move_def map_of_sql_update)

lemma rows_move_update: "(\<And>v. map_of d k = Some v \<Longrightarrow> step v w) \<Longrightarrow> (\<And>v. step v v) \<Longrightarrow>
    rows_move step d (AList.update k w d)"
  by (auto simp: rows_move_def map_of_update)

lemma step_refl [simp]: "fenced l l" "head_advance h h" "watch_advance b b"
  by (simp_all add: fenced_def head_advance_def watch_advance_def)

interpretation tables: kept_relation tables_grow
proof
  fix s t u
  show "tables_grow s s" by (simp add: tables_grow_def rows_move_refl)
  assume "tables_grow s t" and "tables_grow t u"
  then show "tables_grow s u" unfolding tables_grow_def
    by (auto elim!: rows_move_trans simp: fenced_def head_advance_def watch_advance_def)
qed

lemma grow_same:
  "ss_definitions t = ss_definitions s \<Longrightarrow> ss_heads t = ss_heads s \<Longrightarrow> ss_authority t = ss_authority s \<Longrightarrow>
   ss_watches t = ss_watches s \<Longrightarrow> tables_grow s t"
  by (simp add: tables_grow_def rows_move_refl)

lemma same_tables [simp]:
  "ss_definitions (cancel_schedule_requests i now s) = ss_definitions s"
  "ss_heads (cancel_schedule_requests i now s) = ss_heads s"
  "ss_authority (cancel_schedule_requests i now s) = ss_authority s"
  "ss_watches (cancel_schedule_requests i now s) = ss_watches s"
  "ss_definitions (insert_request r s) = ss_definitions s" "ss_heads (insert_request r s) = ss_heads s"
  "ss_authority (insert_request r s) = ss_authority s" "ss_watches (insert_request r s) = ss_watches s"
  "ss_definitions (drop_lease i s) = ss_definitions s" "ss_heads (drop_lease i s) = ss_heads s"
  "ss_authority (drop_lease i s) = ss_authority s" "ss_watches (drop_lease i s) = ss_watches s"
  "ss_definitions (end_request i f s) = ss_definitions s" "ss_heads (end_request i f s) = ss_heads s"
  "ss_authority (end_request i f s) = ss_authority s" "ss_watches (end_request i f s) = ss_watches s"
  "ss_definitions (end_attempt i n g s) = ss_definitions s" "ss_heads (end_attempt i n g s) = ss_heads s"
  "ss_authority (end_attempt i n g s) = ss_authority s" "ss_watches (end_attempt i n g s) = ss_watches s"
  "ss_definitions (start_job r l now s) = ss_definitions s" "ss_heads (start_job r l now s) = ss_heads s"
  "ss_authority (start_job r l now s) = ss_authority s" "ss_watches (start_job r l now s) = ss_watches s"
  by (simp_all add: cancel_schedule_requests_def insert_request_def drop_lease_def end_request_def
      end_attempt_def start_job_def)

lemma fold_same: "(\<And>row s. field (f row s) = field s) \<Longrightarrow> field (fold f rows s) = field s"
  by (induction rows arbitrary: s) simp_all

lemma recover_job_tables:
  "ss_definitions (recover_job now row s) = ss_definitions s" "ss_heads (recover_job now row s) = ss_heads s"
  "ss_authority (recover_job now row s) = ss_authority s" "ss_watches (recover_job now row s) = ss_watches s"
  by (simp_all add: recover_job_def Let_def split: prod.splits)

lemma recover_tables [simp]:
  "ss_definitions (recover_expired_jobs now s) = ss_definitions s"
  "ss_heads (recover_expired_jobs now s) = ss_heads s"
  "ss_authority (recover_expired_jobs now s) = ss_authority s"
  "ss_watches (recover_expired_jobs now s) = ss_watches s"
  unfolding recover_expired_jobs_def by (rule fold_same; rule recover_job_tables)+

lemma take_over_tables [simp]:
  "ss_definitions (fold (take_over who expires now) rows s) = ss_definitions s"
  "ss_heads (fold (take_over who expires now) rows s) = ss_heads s"
  "ss_authority (fold (take_over who expires now) rows s) = ss_authority s"
  "ss_watches (fold (take_over who expires now) rows s) = ss_watches s"
  by (rule fold_same; simp add: take_over_def split: prod.splits)+

lemma extend_tables [simp]:
  "ss_definitions (fold (extend_lease who expires) rows s) = ss_definitions s"
  "ss_heads (fold (extend_lease who expires) rows s) = ss_heads s"
  "ss_authority (fold (extend_lease who expires) rows s) = ss_authority s"
  "ss_watches (fold (extend_lease who expires) rows s) = ss_watches s"
  by (rule fold_same; simp add: extend_lease_def split: prod.splits)+

lemma job_modify: "keeps tables_grow (sx_modify f)"
  if "\<And>s. ss_definitions (f s) = ss_definitions s" "\<And>s. ss_heads (f s) = ss_heads s"
    "\<And>s. ss_authority (f s) = ss_authority s" "\<And>s. ss_watches (f s) = ss_watches s"
  using that by (intro keeps_modify grow_same)

lemmas grow_rules = tables.keeps_rules job_modify

lemma current_request_grow: "keeps tables_grow (current_request i)" "keeps tables_grow (assert_job_lease lease now)"
  "keeps tables_grow (assert_authority authority now)"
  unfolding current_request_def assert_job_lease_def assert_authority_def by (intro tables.keeps_rules)+

lemma insert_or_get_grow: "keeps tables_grow (insert_or_get_request r)"
  unfolding insert_or_get_request_def by (intro grow_rules) simp_all

lemma job_methods_grow:
  "keeps tables_grow (claim_due writer who ttl now token)"
  "keeps tables_grow (renew_job lease writer ttl now)"
  "keeps tables_grow (renew_dispatched_jobs writer who ttl now tokens)"
  "keeps tables_grow (mark_job_side_effect lease now)"
  "keeps tables_grow (mark_workflow_dispatched lease run_id now)"
  "keeps tables_grow (cancel_claimed_job lease now)"
  "keeps tables_grow (complete_job lease run_id now)"
  "keeps tables_grow (finish_dispatched_job lease status code now)"
  "keeps tables_grow (fail_job lease code unknown retry_base retry_max now)"
  "keeps tables_grow (request_cancel i now)"
  unfolding claim_due_def renew_job_def renew_dispatched_jobs_def mark_job_side_effect_def
    mark_workflow_dispatched_def cancel_claimed_job_def complete_job_def finish_dispatched_job_def fail_job_def
    request_cancel_def
  by (intro grow_rules current_request_grow; simp add: Let_def split: option.splits)+

lemma put_schedule_grow: "keeps tables_grow (put_schedule d)"
  unfolding put_schedule_def
proof (rule tables.keeps_commit, goal_cases)
  case (1 s u t)
  then show ?case
    by (auto simp: sx_Inr tables_grow_def head_advance_def split: option.splits if_splits
        intro!: rows_move_refl rows_move_update rows_move_sql)
qed

lemma status_grow:
  "keeps tables_grow (sx_modify (\<lambda>s. s\<lparr>ss_heads :=
     sql_update (\<lambda>k h. k = i \<and> hd_version h = expected \<and> hd_status h \<noteq> SsCancelled)
       (\<lambda>h. h\<lparr>hd_status := status, hd_updated := now\<rparr>) (ss_heads s)\<rparr>))"
  by (intro keeps_modify) (auto simp: tables_grow_def head_advance_def intro!: rows_move_refl rows_move_sql)

lemma update_status_grow: "keeps tables_grow (update_schedule_status i status expected now)"
  unfolding update_schedule_status_def get_schedule_def Let_def
  by (intro tables.keeps_rules status_grow job_modify) simp_all

lemma authority_grow:
  "keeps tables_grow (acquire_authority kind who ttl now token)"
  "keeps tables_grow (renew_authority lease ttl now)"
proof -
  show "keeps tables_grow (acquire_authority kind who ttl now token)"
    unfolding acquire_authority_def
  proof (intro tables.keeps_bind tables.keeps_pure tables.keeps_commit, goal_cases)
    case (1 _ _ s u t)
    then show ?case
      by (auto simp: sx_Inr Let_def tables_grow_def fenced_def intro!: rows_move_refl rows_move_update)
  qed
  show "keeps tables_grow (renew_authority lease ttl now)"
    unfolding renew_authority_def
  proof (intro tables.keeps_bind tables.keeps_pure tables.keeps_commit, goal_cases)
    case (1 _ s u t)
    then show ?case
      by (auto simp: sx_Inr Let_def tables_grow_def fenced_def intro!: rows_move_refl rows_move_sql)
  qed
qed

lemma enqueue_grow:
  "keeps tables_grow (enqueue_occurrences d vs leader advance_to available fresh)"
  "keeps tables_grow (enqueue_manual d key now st)"
  "keeps tables_grow (enqueue_hook d key now st)"
  "keeps tables_grow (store_replay_dead_letter i key now st)"
proof -
  show "keeps tables_grow (enqueue_occurrences d vs leader advance_to available fresh)"
    unfolding enqueue_occurrences_def
    by (intro tables.keeps_rules insert_or_get_grow current_request_grow keeps_modify)
      (auto simp: tables_grow_def head_advance_def intro!: rows_move_refl rows_move_sql)
  show "keeps tables_grow (enqueue_manual d key now st)" "keeps tables_grow (enqueue_hook d key now st)"
    "keeps tables_grow (store_replay_dead_letter i key now st)"
    unfolding enqueue_manual_def enqueue_hook_def store_replay_dead_letter_def
    by (intro tables.keeps_rules insert_or_get_grow)+
qed

lemma observe_watch_grow: "keeps tables_grow (observe_watch d fingerprint code leader now st)"
proof -
  have ins: "insert_or_get_request r s = (Inr q, t) \<Longrightarrow> ss_watches t = ss_watches s \<and> tables_grow s t" for r q s t
    by (auto simp: insert_or_get_request_def sx_Inr grow_same split: option.splits if_splits)
  show ?thesis unfolding observe_watch_def
  proof (rule tables.keeps_commit, goal_cases)
    case (1 s u t)
    have put: "tables_grow s' (s'\<lparr>ss_watches := AList.update k row (ss_watches s')\<rparr>)"
      if "\<And>b. map_of (ss_watches s') k = Some b \<Longrightarrow> wb_generation b \<le> wb_generation row" for s' k row
      using that by (auto simp: tables_grow_def watch_advance_def intro!: rows_move_refl rows_move_update)
    from 1 show ?case
      by (fastforce simp: assert_authority_def sx_Inr Let_def split: option.splits if_splits
          intro!: put dest!: ins intro: tables.kept_trans)
  qed
qed

interpretation tables: sched_service tables_grow
proof
  show "keeps tables_grow (sched_step c)" for c
    by (cases c) (simp_all add: keeps_void put_schedule_grow update_status_grow enqueue_grow observe_watch_grow
        authority_grow job_methods_grow)
qed

subsection \<open>Superseded authority\<close>

lemma superseded_refused:
  assumes "map_of (ss_authority s) (sl_kind lease) = Some row" and "sl_fencing lease < sl_fencing row"
    and "tables_grow s t"
  shows "\<not> authority_ok t lease now"
proof -
  obtain row' where "map_of (ss_authority t) (sl_kind lease) = Some row'" "fenced row row'"
    using assms(1,3) unfolding tables_grow_def rows_move_def by blast
  then show ?thesis using assms(2) by (auto simp: authority_ok_def fenced_def)
qed

lemma acquire_supersedes:
  assumes "acquire_authority kind who ttl now token s = (Inr lease, t)"
    and "map_of (ss_authority s) kind = Some row" and "sl_fencing old \<le> sl_fencing row" and "sl_kind old = kind"
  shows "map_of (ss_authority t) (sl_kind old) = Some lease \<and> sl_fencing old < sl_fencing lease"
  using assms by (auto simp: acquire_authority_def sx_Inr sx_transaction_Inr Let_def map_of_update)

end
