(* ===== verification/Sched_Safety.thy ===== *)
theory Sched_Safety
  imports Sched_Tables
begin

section \<open>Scheduler: safety over whole executions\<close>

text \<open>
  Consequences of the life of a request for any sequence of calls: well-formed tables, final states,
  fenced leases, at most one started side effect of a non-idempotent request, unique idempotency keys
  and the concurrency limit of a schedule.
\<close>

subsection \<open>The calls as steps\<close>

fun op_labels :: "sched_op \<Rightarrow> job_label set" where
  "op_labels (OpEnqueue _ _ _ _ _ _) = {JlBorn}"
| "op_labels (OpManual _ _ _ _) = {JlBorn}"
| "op_labels (OpHook _ _ _ _) = {JlBorn}"
| "op_labels (OpWatch _ _ _ _ _ _) = {JlBorn}"
| "op_labels (OpReplay _ _ _ _) = {JlBorn}"
| "op_labels (OpClaim _ _ _ _ _) = {JlClaim}"
| "op_labels (OpFail _ _ unknown _ _ _) = (if unknown then {} else {JlKnown})"
| "op_labels _ = {}"

lemma step_moves: "keeps (jobs_move (op_labels c)) (sched_step c)"
  by (cases c) (simp_all add: keeps_void put_schedule_moves update_status_moves enqueue_moves observe_watch_moves
      authority_moves claim_due_moves renew_job_moves renew_dispatched_moves mark_moves dispatched_moves
      cancel_claimed_moves complete_job_moves finish_dispatched_moves fail_job_moves request_cancel_moves)

lemma step_moves_mono: "op_labels c \<subseteq> L \<Longrightarrow> keeps (jobs_move L) (sched_step c)"
  using step_moves [of c] jobs_move_mono unfolding keeps_def by blast

interpretation jobs: sched_service "jobs_move UNIV"
  by unfold_locales (simp add: step_moves_mono)

definition unknown_only :: "sched_op \<Rightarrow> bool" where
  \<comment> \<open>no failure is reported as known\<close>
  "unknown_only c \<longleftrightarrow> JlKnown \<notin> op_labels c"

interpretation careful: sched_kept "jobs_move {JlBorn, JlClaim}" unknown_only
proof
  fix c assume "unknown_only c"
  then have "op_labels c \<subseteq> {JlBorn, JlClaim}" by (cases c) (auto simp: unknown_only_def split: if_splits)
  then show "keeps (jobs_move {JlBorn, JlClaim}) (sched_step c)" by (rule step_moves_mono)
qed

lemma empty_jobs_wf: "jobs_wf empty_sched"
  by (simp add: jobs_wf_def empty_sched_def job_ok_def view_of_def)

lemma execute_steps: "jobs_wf s \<Longrightarrow> (job_step UNIV i)\<^sup>*\<^sup>* (view_of s i) (view_of (sched_execute cs s) i)"
  using jobs.execute_kept [of cs s] by (simp add: jobs_move_def list_all_iff)

lemma execute_jobs_wf: "jobs_wf s \<Longrightarrow> jobs_wf (sched_execute cs s)"
  using jobs.execute_kept [of cs s] by (simp add: jobs_move_def list_all_iff)

lemma careful_steps:
  "jobs_wf s \<Longrightarrow> list_all unknown_only cs \<Longrightarrow>
   (job_step {JlBorn, JlClaim} i)\<^sup>*\<^sup>* (view_of s i) (view_of (sched_execute cs s) i)"
  using careful.execute_kept [of cs s] by (simp add: jobs_move_def)

subsection \<open>What stays\<close>

lemma same_request_refl [simp]: "same_request r r"
  by (simp add: same_request_def)

lemma same_request_trans: "same_request r q \<Longrightarrow> same_request q p \<Longrightarrow> same_request r p"
  by (simp add: same_request_def)

lemma same_request_updates [simp]:
  "same_request r (r\<lparr>rr_status := st, rr_attempts := n, rr_updated := now\<rparr>)"
  "same_request r (r\<lparr>rr_status := st, rr_cancel := c, rr_updated := now\<rparr>)"
  "same_request r (r\<lparr>rr_cancel := c, rr_updated := now\<rparr>)"
  "same_request r (r\<lparr>rr_run := x, rr_updated := now\<rparr>)"
  by (simp_all add: same_request_def request_identity_def request_binding_def)

lemma job_step_request_ex:
  assumes "job_step L i v w" and "jv_request v = Some r"
  shows "\<exists>q. jv_request w = Some q \<and> same_request r q \<and> rr_attempts r \<le> rr_attempts q"
  using assms by (cases rule: job_step.cases) (simp_all add: settles_def)

lemma job_step_request:
  assumes "job_step L i v w" and "jv_request v = Some r"
  obtains q where "jv_request w = Some q" "same_request r q" "rr_attempts r \<le> rr_attempts q"
  using job_step_request_ex [OF assms] by blast

lemma job_step_terminal:
  assumes "job_step L i v w" and "jv_request v = Some r" and "terminal_request (rr_status r)" and "jv_lease v = None"
  shows "w = v"
  using assms by (cases rule: job_step.cases) (auto simp: terminal_request_def claimable_def)

lemma job_steps_request:
  assumes "(job_step L i)\<^sup>*\<^sup>* v w" and "jv_request v = Some r"
  obtains q where "jv_request w = Some q" "same_request r q" "rr_attempts r \<le> rr_attempts q"
  using assms
proof (induction arbitrary: thesis rule: rtranclp_induct)
  case base
  then show ?case by simp
next
  case (step u w)
  obtain p where p: "jv_request u = Some p" "same_request r p" "rr_attempts r \<le> rr_attempts p"
    using step.IH step.prems(2) by blast
  obtain q where "jv_request w = Some q" "same_request p q" "rr_attempts p \<le> rr_attempts q"
    by (rule job_step_request [OF step.hyps(2) p(1)])
  then show ?case using p step.prems(1) same_request_trans by (meson order_trans)
qed

lemma job_steps_terminal:
  assumes "(job_step L i)\<^sup>*\<^sup>* v w" and "jv_request v = Some r" and "terminal_request (rr_status r)" and "jv_lease v = None"
  shows "w = v"
  using assms(1)
proof (induction rule: rtranclp_induct)
  case (step u w)
  then have "job_step L i v w" by simp
  then show ?case using assms(2-4) by (rule job_step_terminal)
qed simp

lemma wf_terminal:
  assumes "jobs_wf s" and "map_of (ss_requests s) i = Some r" and "terminal_request (rr_status r)"
  shows "map_of (ss_leases s) i = None"
proof (rule ccontr)
  assume "map_of (ss_leases s) i \<noteq> None"
  then obtain l where l: "map_of (ss_leases s) i = Some l" by blast
  show False by (rule wf_lease [OF assms(1) l]) (use assms(2,3) in \<open>simp add: terminal_request_def\<close>)
qed

subsection \<open>Fenced job leases\<close>

definition outdated :: "job_lease \<Rightarrow> job_view \<Rightarrow> bool" where
  \<comment> \<open>the attempt of the lease is settled, or another holder took the attempt over\<close>
  "outdated lease v \<longleftrightarrow>
     (\<exists>r. jv_request v = Some r \<and>
        (jl_attempt lease < rr_attempts r
         \<or> jl_attempt lease = rr_attempts r
           \<and> (case jv_lease v of None \<Rightarrow> True
              | Some l \<Rightarrow> jl_fencing lease < jl_fencing l
                  \<or> jl_fencing lease = jl_fencing l \<and> jl_token lease \<noteq> jl_token l)))"

lemma job_step_outdated:
  assumes "job_step L i v w" and "job_ok i v" and "outdated lease v"
  shows "outdated lease w"
  using assms
proof (cases rule: job_step.cases)
  case (leased_on l m)
  then show ?thesis using assms(3) by (auto simp: outdated_def)
next
  case (settled r l a q b)
  then show ?thesis using assms(3) by (auto simp: outdated_def settles_def)
qed (use assms(2,3) in \<open>auto simp: outdated_def\<close>)

lemma job_steps_outdated:
  "(job_step L i)\<^sup>*\<^sup>* v w \<Longrightarrow> job_ok i v \<Longrightarrow> outdated lease v \<Longrightarrow> outdated lease w"
  by (induction rule: rtranclp_induct) (auto intro: job_step_outdated job_steps_ok)

lemma outdated_refused:
  assumes "jobs_wf s" and "outdated lease (view_of s (jl_request lease))"
  shows "\<not> job_lease_ok s lease now"
proof
  assume "job_lease_ok s lease now"
  then obtain l where l: "map_of (ss_leases s) (jl_request lease) = Some l" "jl_attempt l = jl_attempt lease"
    "jl_fencing l = jl_fencing lease" "jl_token l = jl_token lease"
    by (rule job_lease_ok_row)
  then show False using assms(2) by (auto simp: outdated_def view_of_def intro: wf_lease [OF assms(1) l(1)])
qed

subsection \<open>At most one side effect\<close>

definition one_side_effect :: "job_view \<Rightarrow> bool" where
  \<comment> \<open>only the last attempt of a non-idempotent request started a side effect, and it is not waiting to be retried\<close>
  "one_side_effect v \<longleftrightarrow>
     (\<forall>r n a. jv_request v = Some r \<longrightarrow> rr_dispatch r = DiNonIdempotent \<longrightarrow>
        jv_attempts v n = Some a \<longrightarrow> ja_side_effect a \<longrightarrow> n = rr_attempts r \<and> \<not> claimable (rr_status r))"

lemma job_step_one_side_effect:
  assumes "job_step L i v w" and "JlKnown \<notin> L" and "job_ok i v" and "one_side_effect v"
  shows "one_side_effect w"
  using assms(1)
proof (cases rule: job_step.cases)
  case (born r)
  then show ?thesis using assms(3) by (simp add: one_side_effect_def job_ok_def)
next
  case (claimed r l now)
  have "\<not> ja_side_effect a" if "jv_attempts v n = Some a" "rr_dispatch r = DiNonIdempotent" for n a
    using assms(4) that claimed(3,4) by (auto simp: one_side_effect_def)
  then show ?thesis unfolding claimed(1) by (auto simp: one_side_effect_def started_attempt_def)
next
  case (settled r l a q b)
  have l: "jl_attempt l = rr_attempts r" using assms(3) settled(2,3) by (simp add: job_ok_def lease_ok_def)
  have same: "rr_dispatch q = rr_dispatch r" "rr_attempts q = rr_attempts r" "ja_side_effect b = ja_side_effect a"
    using settled(7) by (auto simp: settles_def same_request_def request_binding_def)
  have "\<not> claimable (rr_status q)" if "rr_dispatch r = DiNonIdempotent" "ja_side_effect a"
    using settles_status(3) [OF settled(7)] that assms(2) by (auto simp: retryable_def)
  moreover have "n = rr_attempts r"
    if "jv_attempts v n = Some c" "ja_side_effect c" "rr_dispatch r = DiNonIdempotent" for n c
    using assms(4) that settled(2) by (auto simp: one_side_effect_def)
  ultimately show ?thesis using assms(4) settled(2,5) same l unfolding settled(1)
    by (auto simp: one_side_effect_def)
next
  case (side_effect r l a)
  then have "jl_attempt l = rr_attempts r" using assms(3) by (simp add: job_ok_def lease_ok_def)
  then show ?thesis using side_effect assms(4) by (auto simp: one_side_effect_def)
next
  case (bound r l a u now)
  have l: "jl_attempt l = rr_attempts r" using bound(2,3) assms(3) by (simp add: job_ok_def lease_ok_def)
  have "n = rr_attempts r"
    if "jv_attempts v n = Some c" "ja_side_effect c" "rr_dispatch r = DiNonIdempotent" for n c
    using assms(4) that bound(2) by (simp add: one_side_effect_def)
  then show ?thesis unfolding bound(1) using bound(4) l by (simp add: one_side_effect_def)
next
  case (withdrawn r c now)
  then show ?thesis using assms(4) by (simp add: one_side_effect_def)
next
  case (flagged r now)
  then show ?thesis using assms(4) by (simp add: one_side_effect_def)
next
  case (leased_on l m)
  then show ?thesis using assms(4) by (simp add: one_side_effect_def)
qed

lemma job_steps_one_side_effect:
  "(job_step L i)\<^sup>*\<^sup>* v w \<Longrightarrow> JlKnown \<notin> L \<Longrightarrow> job_ok i v \<Longrightarrow> one_side_effect v \<Longrightarrow> one_side_effect w"
  by (induction rule: rtranclp_induct) (auto intro: job_step_one_side_effect job_steps_ok)

end
