(* ===== verification/Sched_Limits.thy ===== *)
theory Sched_Limits
  imports Sched_Safety
begin

section \<open>Scheduler: idempotency keys and concurrency\<close>

text \<open>
  Two invariants that relate several requests: no two requests share an idempotency key, so a repeated
  trigger finds the first one; and the leased requests of a schedule stay within the concurrency limit
  of its revisions.
\<close>

subsection \<open>Requests that were not created\<close>

lemma job_steps_unborn:
  assumes "(job_step L i)\<^sup>*\<^sup>* v w" and "JlBorn \<notin> L" and "jv_request v = None" and "jv_lease v = None"
  shows "w = v"
  using assms(1)
proof (induction rule: rtranclp_induct)
  case (step u w)
  then have "job_step L i v w" by simp
  then show ?case using assms(2-4) by (cases rule: job_step.cases) simp_all
qed simp

lemma jobs_move_unborn:
  assumes "jobs_move L s t" and "jobs_wf s" and "JlBorn \<notin> L" and "map_of (ss_requests t) i = Some q"
  obtains r where "map_of (ss_requests s) i = Some r" "same_request r q"
proof -
  have steps: "(job_step L i)\<^sup>*\<^sup>* (view_of s i) (view_of t i)" using assms(1,2) by (simp add: jobs_move_def)
  show thesis
  proof (cases "map_of (ss_requests s) i")
    case None
    then have "jv_request (view_of s i) = None" "jv_lease (view_of s i) = None"
      using wf_view [OF assms(2), of i] by (simp_all add: job_ok_def view_of_def)
    then have "view_of t i = view_of s i" using job_steps_unborn [OF steps assms(3)] by simp
    then show ?thesis using None assms(4) by (simp add: view_of_def)
  next
    case (Some r)
    then have "jv_request (view_of s i) = Some r" by (simp add: view_of_def)
    then obtain q' where "jv_request (view_of t i) = Some q'" "same_request r q'"
      by (rule job_steps_request [OF steps])
    with Some assms(4) that show ?thesis by (simp add: view_of_def)
  qed
qed

subsection \<open>Idempotency keys\<close>

definition keys_ok :: "sched_store \<Rightarrow> bool" where
  "keys_ok s \<longleftrightarrow> jobs_wf s
     \<and> (\<forall>i j r q. map_of (ss_requests s) i = Some r \<longrightarrow> map_of (ss_requests s) j = Some q \<longrightarrow>
          rr_key r = rr_key q \<longrightarrow> i = j)"

lemma keys_unborn:
  assumes "jobs_move L s t" and "JlBorn \<notin> L"
  shows "holding keys_ok s t"
  unfolding holding_def
proof
  assume ok: "keys_ok s"
  then have wf: "jobs_wf s" by (simp add: keys_ok_def)
  show "keys_ok t" unfolding keys_ok_def
  proof (intro conjI allI impI)
    show "jobs_wf t" using assms(1) wf by (simp add: jobs_move_def)
    fix i j r q
    assume t: "map_of (ss_requests t) i = Some r" "map_of (ss_requests t) j = Some q" "rr_key r = rr_key q"
    obtain r' where "map_of (ss_requests s) i = Some r'" "same_request r' r"
      by (rule jobs_move_unborn [OF assms(1) wf assms(2) t(1)])
    moreover obtain q' where "map_of (ss_requests s) j = Some q'" "same_request q' q"
      by (rule jobs_move_unborn [OF assms(1) wf assms(2) t(2)])
    ultimately show "i = j" using ok t(3) by (auto simp: keys_ok_def same_request_def request_identity_def)
  qed
qed

lemma keys_same: "ss_requests t = ss_requests s \<Longrightarrow> ss_leases t = ss_leases s \<Longrightarrow> ss_attempts t = ss_attempts s \<Longrightarrow>
    holding keys_ok s t"
  by (simp add: holding_def keys_ok_def jobs_wf_def view_of_def)

lemma find_key_None: "find_key key s = None \<Longrightarrow> map_of (ss_requests s) i = Some r \<Longrightarrow> rr_key r \<noteq> key"
  by (force simp: find_key_def list_find_None_iff dest: map_of_SomeD)

lemma find_key_Some:
  assumes "keys_ok s" and "map_of (ss_requests s) i = Some r"
  shows "find_key (rr_key r) s = Some r"
proof (cases "find_key (rr_key r) s")
  case None
  then show ?thesis using find_key_None assms(2) by blast
next
  case (Some q)
  then obtain j where "(j, q) \<in> set (ss_requests s)" "rr_key q = rr_key r"
    by (auto simp: find_key_def dest!: list_find_SomeD)
  moreover from this have "map_of (ss_requests s) j = Some q" using assms(1) by (simp add: keys_ok_def jobs_wf_def)
  ultimately show ?thesis using assms Some unfolding keys_ok_def by (metis option.inject)
qed

lemma insert_or_get_keys: "new_request r \<Longrightarrow> keeps (holding keys_ok) (insert_or_get_request r)"
proof (rule keepsI)
  fix s
  assume new: "new_request r"
  show "holding keys_ok s (snd (insert_or_get_request r s))"
  proof (cases "insertable r s")
    case True
    then have fresh: "map_of (ss_requests s) (rr_id r) = None" "find_key (rr_key r) s = None" by (simp_all add: insertable_def)
    have "jobs_move {JlBorn} s (insert_request r s)" using fresh(1) new by (intro insert_request_moves) simp_all
    moreover have "snd (insert_or_get_request r s) = insert_request r s"
      using True by (simp add: insert_or_get_request_def sx_simps)
    ultimately show ?thesis
      using find_key_None [OF fresh(2)] not_sym [OF find_key_None [OF fresh(2)]]
      by (auto simp: holding_def keys_ok_def jobs_move_def insert_request_def map_of_update)
  next
    case False
    then show ?thesis
      by (auto simp: insert_or_get_request_def sx_simps holding_def split: option.splits)
  qed
qed

lemma keys_each: "\<forall>r \<in> set rs. new_request r \<Longrightarrow> keeps (holding keys_ok) (sx_each insert_or_get_request rs)"
  by (induction rs) (auto intro!: hold.keeps_bind hold.keeps_pure insert_or_get_keys)

lemma keeps_keys_lift:
  "(\<And>x. r = Inr x \<Longrightarrow> keeps (holding I) (f x)) \<Longrightarrow> keeps (holding I) (sx_bind (sx_lift r) f)"
  by (cases r) (auto simp: keeps_def sx_simps hold.kept_refl)

lemma assert_authority_keys: "keeps (holding keys_ok) (assert_authority lease now)"
  unfolding assert_authority_def by (intro hold.keeps_rules)

lemma enqueue_keys:
  "keeps (holding keys_ok) (enqueue_occurrences d vs leader advance_to available fresh)"
  "keeps (holding keys_ok) (enqueue_manual d key now st)"
  "keeps (holding keys_ok) (enqueue_hook d key now st)"
  "keeps (holding keys_ok) (store_replay_dead_letter i key now st)"
  "keeps (holding keys_ok) (observe_watch d fingerprint code leader now st)"
  unfolding enqueue_occurrences_def enqueue_manual_def enqueue_hook_def store_replay_dead_letter_def
    observe_watch_def Let_def
  by (intro hold.keeps_bind hold.keeps_transaction keeps_keys_lift hold.keeps_pure hold.keeps_option hold.keeps_if
      keeps_modify keys_each insert_or_get_keys assert_authority_keys keys_same;
      (erule requests_for_new request_for_new)?;
      (fastforce simp: make_request_def new_request_def split: if_splits)?)+

interpretation keys: sched_service "holding keys_ok"
proof
  fix c
  show "keeps (holding keys_ok) (sched_step c)"
  proof (cases "JlBorn \<in> op_labels c")
    case True
    then show ?thesis
      by (cases c) (simp_all add: keeps_void enqueue_keys split: if_splits)
  next
    case False
    have "jobs_move (op_labels c) s (snd (sched_step c s))" for s using step_moves [of c] by (simp add: keeps_def)
    then show ?thesis using False by (intro keepsI keys_unborn)
  qed
qed

lemma empty_keys_ok: "keys_ok empty_sched"
  by (simp add: keys_ok_def empty_jobs_wf) (simp add: empty_sched_def)

lemma execute_keys_ok: "keys_ok s \<Longrightarrow> keys_ok (sched_execute cs s)"
  using keys.execute_kept [of cs s] by (simp add: holding_def list_all_iff)

lemma execute_request:
  assumes "jobs_wf s" and "map_of (ss_requests s) i = Some r"
  obtains q where "map_of (ss_requests (sched_execute cs s)) i = Some q" "same_request r q" "rr_attempts r \<le> rr_attempts q"
  using job_steps_request [OF execute_steps [OF assms(1)], of i r cs] assms(2) by (auto simp: view_of_def)

lemma insert_or_get_stored:
  assumes "insert_or_get_request r s = (Inr q, t)" and "keys_ok s" and "keys_ok t"
  shows "map_of (ss_requests t) (rr_id q) = Some q \<and> rr_key q = rr_key r"
proof (cases "insertable r s")
  case True
  then show ?thesis using assms(1)
    by (auto simp: insert_or_get_request_def sx_Inr insert_request_def map_of_update)
next
  case False
  then have "find_key (rr_key r) s = Some q" "t = s"
    using assms(1) by (auto simp: insert_or_get_request_def sx_Inr split: option.splits if_splits)
  moreover from this obtain j where "(j, q) \<in> set (ss_requests s)" "rr_key q = rr_key r"
    by (auto simp: find_key_def dest!: list_find_SomeD)
  moreover from this have "map_of (ss_requests s) j = Some q" using assms(2) by (simp add: keys_ok_def jobs_wf_def)
  ultimately show ?thesis using assms(2) wf_request by (auto simp: keys_ok_def)
qed

lemma insert_or_get_again:
  assumes "keys_ok u" and "map_of (ss_requests u) i = Some p" and "rr_key p = rr_key r"
  shows "insert_or_get_request r u =
    (if same_binding r p then Inr p else Inl (ScConflict ''idempotency key is bound to another request''), u)"
proof -
  have f: "find_key (rr_key r) u = Some p" using find_key_Some [OF assms(1,2)] assms(3) by simp
  then have "\<not> insertable r u" by (simp add: insertable_def)
  with f show ?thesis by (simp add: insert_or_get_request_def sx_simps)
qed

subsection \<open>Concurrency\<close>

definition active_set :: "string \<Rightarrow> sched_store \<Rightarrow> string set" where
  "active_set x s = {i. \<exists>r. map_of (ss_requests s) i = Some r \<and> rr_schedule r = x \<and> rr_status r = RqLeased}"

lemma active_set_finite: "finite (active_set x s)"
  by (rule finite_subset [of _ "fst ` set (ss_requests s)"]) (auto simp: active_set_def dest!: map_of_SomeD intro: rev_image_eqI)

lemma active_jobs_card: "distinct (map fst (ss_requests s)) \<Longrightarrow> active_jobs x s = card (active_set x s)"
proof -
  assume d: "distinct (map fst (ss_requests s))"
  let ?rows = "filter (\<lambda>(k, r). rr_schedule r = x \<and> rr_status r = RqLeased) (ss_requests s)"
  have "active_set x s = fst ` set ?rows" using d by (force simp: active_set_def)
  moreover have "distinct (map fst ?rows)" using d by (rule distinct_map_filter)
  ultimately show ?thesis using distinct_card [of "map fst ?rows"] by (simp add: active_jobs_def sql_rows_def)
qed


lemma job_step_inactive:
  assumes "job_step L i v w" and "JlClaim \<notin> L" and "jv_request w = Some q" and "rr_status q = RqLeased"
  shows "\<exists>r. jv_request v = Some r \<and> rr_status r = RqLeased \<and> rr_schedule r = rr_schedule q"
  using assms
  by (cases rule: job_step.cases) (auto simp: new_request_def settles_def)

lemma job_steps_inactive:
  assumes "(job_step L i)\<^sup>*\<^sup>* v w" and "JlClaim \<notin> L" and "jv_request w = Some q" and "rr_status q = RqLeased"
  shows "\<exists>r. jv_request v = Some r \<and> rr_status r = RqLeased \<and> rr_schedule r = rr_schedule q"
  using assms
proof (induction arbitrary: q rule: rtranclp_induct)
  case (step u w)
  obtain p where "jv_request u = Some p" "rr_status p = RqLeased" "rr_schedule p = rr_schedule q"
    using job_step_inactive [OF step.hyps(2) step.prems] by blast
  then show ?case using step.IH step.prems(1) by metis
qed simp

lemma active_shrinks:
  assumes "jobs_move L s t" and "jobs_wf s" and "JlClaim \<notin> L"
  shows "active_jobs x t \<le> active_jobs x s"
proof -
  have wf: "jobs_wf t" "\<And>i. (job_step L i)\<^sup>*\<^sup>* (view_of s i) (view_of t i)"
    using assms(1,2) by (simp_all add: jobs_move_def)
  have "active_set x t \<subseteq> active_set x s"
    using job_steps_inactive [OF wf(2) assms(3)] by (fastforce simp: active_set_def view_of_def)
  then show ?thesis
    using wf(1) assms(2) by (simp add: active_jobs_card jobs_wf_def card_mono active_set_finite)
qed

lemma start_job_active:
  assumes "jobs_wf s" and "jobs_wf (start_job r l now s)" and "map_of (ss_requests s) (rr_id r) = Some r"
    and "claimable (rr_status r)"
  shows "active_jobs x (start_job r l now s) = active_jobs x s + (if x = rr_schedule r then 1 else 0)"
proof -
  have "map_of (ss_requests (start_job r l now s)) i =
      (if i = rr_id r then Some (r\<lparr>rr_status := RqLeased, rr_attempts := jl_attempt l, rr_updated := now\<rparr>)
       else map_of (ss_requests s) i)" for i
    using assms(3,4) by (simp add: start_job_def map_of_sql_update option.map_ident)
  then have "active_set x (start_job r l now s) = (if x = rr_schedule r then insert (rr_id r) (active_set x s) else active_set x s)"
    using assms(3) claimable_not_leased [OF assms(4)] by (auto simp: active_set_def)
  moreover have "rr_id r \<notin> active_set x s"
    using assms(3) claimable_not_leased [OF assms(4)] by (simp add: active_set_def)
  ultimately show ?thesis
    using assms(1,2) by (cases "x = rr_schedule r") (simp_all add: active_jobs_card jobs_wf_def active_set_finite)
qed

text \<open>What a claim does: it recovers the expired leases, then starts the job that \<open>next_claim\<close> chose.\<close>

definition claim_lease :: "scheduler_lease \<Rightarrow> string \<Rightarrow> int \<Rightarrow> int \<Rightarrow> string \<Rightarrow> run_request \<Rightarrow> sched_store \<Rightarrow> job_lease" where
  "claim_lease writer who ttl now token r s =
     \<lparr>jl_request = rr_id r, jl_owner = who, jl_token = token, jl_fencing = next_fencing (rr_id r) s,
      jl_expires = min (now + seconds ttl) (sl_expires writer), jl_attempt = rr_attempts r + 1\<rparr>"

lemma claim_due_cases:
  assumes "jobs_wf s" and "text_between 1 200 who" and "1 \<le> ttl" and "sl_kind writer = LkWriter"
    and "sl_owner writer = who" and "authority_ok s writer now"
  shows "claim_due writer who ttl now token s =
    (let u = recover_expired_jobs now s in
     case next_claim now u of
       None \<Rightarrow> (Inr None, u)
     | Some r \<Rightarrow>
         let l = claim_lease writer who ttl now token r u in
         (Inr (Some (r\<lparr>rr_status := RqLeased, rr_attempts := rr_attempts r + 1, rr_updated := now\<rparr>, l)),
          start_job r l now u))"
proof -
  let ?u = "recover_expired_jobs now s"
  have wf: "jobs_wf ?u" using recover_moves [of UNIV s now] assms(1) by (simp add: jobs_move_def)
  have guard: "sql_rows (\<lambda>k q. k = rr_id r \<and> claimable (rr_status q)) (ss_requests ?u) = 1 \<and>
      rr_attempts r + 1 \<le> 20 \<and> map_of (ss_leases ?u) (rr_id r) = None
      \<and> map_of (ss_attempts ?u) (rr_id r, rr_attempts r + 1) = None"
    if sel: "next_claim now ?u = Some r" for r
  proof -
    have keys: "distinct (map fst (ss_requests ?u))" using wf by (simp add: jobs_wf_def)
    obtain i where "map_of (ss_requests ?u) i = Some r" and c: "claimable (rr_status r)"
      by (rule next_claim_props [OF sel keys])
    then have r: "map_of (ss_requests ?u) (rr_id r) = Some r" using wf_request [OF wf] by auto
    have ok: "job_ok (rr_id r) (view_of ?u (rr_id r))" using wf by (rule wf_view)
    then have "rr_attempts r < rr_max_attempts r" "request_fields_ok r" "attempts_ok (rr_id r) r (jv_attempts (view_of ?u (rr_id r)))"
      "lease_ok (rr_id r) r (map_of (ss_leases ?u) (rr_id r)) (jv_attempts (view_of ?u (rr_id r)))"
      using r c by (simp_all add: job_ok_def view_of_def)
    note facts = this
    have "map_of (ss_attempts ?u) (rr_id r, rr_attempts r + 1) = None"
    proof (rule ccontr)
      assume "map_of (ss_attempts ?u) (rr_id r, rr_attempts r + 1) \<noteq> None"
      then obtain a where "jv_attempts (view_of ?u (rr_id r)) (rr_attempts r + 1) = Some a" by (auto simp: view_of_def)
      then have "rr_attempts r + 1 \<le> rr_attempts r" using facts(3) unfolding attempts_ok_def by blast
      then show False by simp
    qed
    moreover have "map_of (ss_leases ?u) (rr_id r) = None"
      using facts(4) claimable_not_leased [OF c] by (simp add: lease_ok_def split: option.splits)
    moreover have "rr_attempts r + 1 \<le> 20" using facts(1,2) by (simp add: request_fields_ok_def)
    ultimately show ?thesis using r c sql_rows_key [OF keys, of "rr_id r" "\<lambda>q. claimable (rr_status q)"] by simp
  qed
  show ?thesis
  proof (cases "next_claim now ?u")
    case None
    then show ?thesis using assms by (simp add: claim_due_def sx_simps assert_authority_def Let_def)
  next
    case (Some r)
    then show ?thesis using assms guard [OF Some]
      by (simp add: claim_due_def sx_simps assert_authority_def Let_def claim_lease_def)
  qed
qed

definition within_limits :: "sched_store \<Rightarrow> bool" where
  "within_limits s \<longleftrightarrow> jobs_wf s
     \<and> (\<forall>x K. 0 \<le> K \<longrightarrow> (\<forall>v d. map_of (ss_definitions s) (x, v) = Some d \<longrightarrow> sd_concurrency d \<le> K) \<longrightarrow>
          int (active_jobs x s) \<le> K)"

lemma within_limits_shrink:
  assumes "jobs_move L s t" and "JlClaim \<notin> L" and "tables_grow s t"
  shows "holding within_limits s t"
  unfolding holding_def
proof
  assume ok: "within_limits s"
  then have wf: "jobs_wf s" by (simp add: within_limits_def)
  show "within_limits t" unfolding within_limits_def
  proof (intro conjI allI impI)
    show "jobs_wf t" using assms(1) wf by (simp add: jobs_move_def)
    fix x and K :: int
    assume K: "0 \<le> K" "\<forall>v d. map_of (ss_definitions t) (x, v) = Some d \<longrightarrow> sd_concurrency d \<le> K"
    then have "\<forall>v d. map_of (ss_definitions s) (x, v) = Some d \<longrightarrow> sd_concurrency d \<le> K"
      using assms(3) unfolding tables_grow_def rows_move_def by blast
    then have "int (active_jobs x s) \<le> K" using ok K(1) unfolding within_limits_def by blast
    then show "int (active_jobs x t) \<le> K" using active_shrinks [OF assms(1) wf assms(2), of x] by linarith
  qed
qed

lemma within_limits_start:
  assumes "within_limits u" and "next_claim now u = Some r" and "jobs_wf (start_job r l now u)"
  shows "within_limits (start_job r l now u)"
  unfolding within_limits_def
proof (intro conjI allI impI)
  have wf: "jobs_wf u" using assms(1) by (simp add: within_limits_def)
  then have keys: "distinct (map fst (ss_requests u))" by (simp add: jobs_wf_def)
  obtain i d where i: "map_of (ss_requests u) i = Some r" "claimable (rr_status r)"
    "map_of (ss_definitions u) (rr_schedule r, rr_version r) = Some d"
    "int (active_jobs (rr_schedule r) u) < sd_concurrency d"
    by (rule next_claim_props [OF assms(2) keys])
  have r: "map_of (ss_requests u) (rr_id r) = Some r" using i(1) wf_request [OF wf] by auto
  show "jobs_wf (start_job r l now u)" by (rule assms(3))
  fix x and K :: int
  assume K: "0 \<le> K" "\<forall>v d. map_of (ss_definitions (start_job r l now u)) (x, v) = Some d \<longrightarrow> sd_concurrency d \<le> K"
  then have old: "int (active_jobs x u) \<le> K" using assms(1) unfolding within_limits_def by simp
  show "int (active_jobs x (start_job r l now u)) \<le> K"
  proof (cases "x = rr_schedule r")
    case True
    then have "sd_concurrency d \<le> K" using K(2) i(3) by simp
    then show ?thesis using i(4) True start_job_active [OF wf assms(3) r i(2), of x] by simp
  qed (use old start_job_active [OF wf assms(3) r i(2), of x] in simp)
qed

lemma claim_due_state:
  "let u = recover_expired_jobs now s; t = snd (claim_due writer who ttl now token s) in
   t = s \<or> t = u \<or> (\<exists>r. next_claim now u = Some r \<and> t = start_job r (claim_lease writer who ttl now token r u) now u)"
  by (simp add: claim_due_def sx_simps assert_authority_def Let_def claim_lease_def split: option.splits)

lemma claim_due_limits: "keeps (holding within_limits) (claim_due writer who ttl now token)"
proof (rule keepsI)
  fix s
  let ?u = "recover_expired_jobs now s" and ?t = "snd (claim_due writer who ttl now token s)"
  show "holding within_limits s ?t" unfolding holding_def
  proof
    assume ok: "within_limits s"
    have u: "within_limits ?u"
      using within_limits_shrink [OF recover_moves [of "{}" s now], of] ok
      by (simp add: holding_def tables_grow_def rows_move_refl)
    have "jobs_wf ?t"
      using claim_due_moves [of UNIV writer who ttl now token] ok by (simp add: keeps_def jobs_move_def within_limits_def)
    then show "within_limits ?t"
      using claim_due_state [of now s writer who ttl token] ok u within_limits_start [OF u]
      unfolding Let_def by metis
  qed
qed

interpretation limits: sched_service "holding within_limits"
proof
  fix c
  show "keeps (holding within_limits) (sched_step c)"
  proof (cases "JlClaim \<in> op_labels c")
    case True
    then show ?thesis
      by (cases c) (simp_all add: keeps_void claim_due_limits split: if_splits)
  next
    case False
    have "jobs_move (op_labels c) s (snd (sched_step c s))" "tables_grow s (snd (sched_step c s))" for s
      using step_moves [of c] tables.step_kept [of c] by (simp_all add: keeps_def)
    then show ?thesis using False by (intro keepsI within_limits_shrink)
  qed
qed

lemma empty_within_limits: "within_limits empty_sched"
  by (simp add: within_limits_def empty_jobs_wf) (simp add: empty_sched_def active_jobs_def sql_rows_def)

end
