(* ===== verification/Sched_Samples.thy ===== *)
theory Sched_Samples
  imports Sched_Limits
begin

section \<open>Scheduler: concrete inputs\<close>

text \<open>
  A daily schedule of a non-idempotent workflow, in UTC, with the leases of a leader and a writer and the
  stores that a few calls reach: the properties of the scheduler are applied at them.
\<close>

definition utc_zone :: zone where
  "utc_zone = \<lparr>zone_local = (\<lambda>u. u), zone_instant = (\<lambda>w fold. w)\<rparr>"

lemma utc_zone_laws: "zone_inverse utc_zone" "dates_advance utc_zone start stop"
  by (simp_all add: zone_inverse_def dates_advance_def local_date_def utc_zone_def ts_ordinal_def day_us_def zdiv_mono1)

definition eight_oclock :: int where
  \<comment> \<open>2020-01-01T08:00:00+00:00\<close>
  "eight_oclock = 737424 * 86400000000 + 28800000000"

definition hours_after :: "int \<Rightarrow> int" where
  "hours_after h = eight_oclock + h * 3600000000"

definition daily :: schedule_definition where
  "daily = \<lparr>sd_id = ''daily'', sd_version = 1, sd_name = ''daily'', sd_kind = TkCron, sd_cron = Some ''0 9 * * *'',
     sd_timer = None, sd_hook = None, sd_watch_path = None, sd_timezone = ''UTC'', sd_misfire = MpCatchUp,
     sd_max_catch_up = 10, sd_workflow = ''w'', sd_workflow_version = 1, sd_input = [], sd_concurrency = 1,
     sd_max_attempts = 2, sd_retry_base = 5, sd_retry_max = 300, sd_dispatch = DiNonIdempotent,
     sd_status = SsEnabled, sd_created = eight_oclock\<rparr>"

definition leader_lease :: scheduler_lease where
  "leader_lease = \<lparr>sl_kind = LkLeader, sl_owner = ''core'', sl_token = ''leader-token'', sl_fencing = 1,
     sl_expires = hours_after 100\<rparr>"

definition writer_lease :: scheduler_lease where
  "writer_lease = \<lparr>sl_kind = LkWriter, sl_owner = ''core'', sl_token = ''writer-token'', sl_fencing = 1,
     sl_expires = hours_after 100\<rparr>"

definition some_stamp :: "string \<Rightarrow> stamp" where
  "some_stamp i = \<lparr>st_id = i, st_created = hours_after 25, st_updated = hours_after 25\<rparr>"

definition numbered :: "nat \<Rightarrow> stamp" where
  "numbered n = some_stamp (''request_'' @ show_int (int n))"

definition set_up :: "sched_op list" where
  "set_up = [OpPutSchedule daily, OpAcquire LkLeader ''core'' 360000 eight_oclock ''leader-token'',
     OpAcquire LkWriter ''core'' 360000 eight_oclock ''writer-token'']"

definition ready_store :: sched_store where
  "ready_store = sched_execute set_up empty_sched"

definition queued_store :: sched_store where
  "queued_store = sched_execute
     (set_up @ [OpEnqueue daily [hours_after 1] leader_lease (hours_after 2) (hours_after 2) numbered]) empty_sched"

definition daily_claim :: sched_op where
  "daily_claim = OpClaim writer_lease ''core'' 30 (hours_after 2) ''job-token''"

definition claimed_store :: sched_store where
  "claimed_store = sched_execute
     (set_up @ [OpEnqueue daily [hours_after 1] leader_lease (hours_after 2) (hours_after 2) numbered, daily_claim])
     empty_sched"

definition daily_lease :: job_lease where
  "daily_lease = \<lparr>jl_request = ''request_0'', jl_owner = ''core'', jl_token = ''job-token'', jl_fencing = 1,
     jl_expires = hours_after 2 + 30000000, jl_attempt = 1\<rparr>"

definition started_store :: sched_store where
  "started_store = sched_execute
     (set_up @ [OpEnqueue daily [hours_after 1] leader_lease (hours_after 2) (hours_after 2) numbered, daily_claim,
        OpMarkSideEffect daily_lease (hours_after 2)]) empty_sched"

lemma sample_stores_ok:
  "jobs_wf ready_store" "jobs_wf queued_store" "jobs_wf claimed_store" "jobs_wf started_store"
  "keys_ok ready_store" "keys_ok queued_store"
  by (simp_all add: ready_store_def queued_store_def claimed_store_def started_store_def execute_jobs_wf
      empty_jobs_wf execute_keys_ok empty_keys_ok)

definition only_gateway :: "nat gateway" where
  \<comment> \<open>a gateway that counts its dispatches\<close>
  "only_gateway = \<lparr>gw_dispatch = (\<lambda>d n. (Inr ''run'', n + 1)), gw_status = None, gw_ensure = None, gw_cancel = None\<rparr>"

definition core_env :: worker_env where
  "core_env = \<lparr>we_owner = ''core'', we_ttl = 30, we_clock = (\<lambda>n. hours_after 2), we_token = (\<lambda>n k. ''job-token'')\<rparr>"

end
