(* ===== verification/Sched_Properties.thy ===== *)
theory Sched_Properties
  imports Sched_Samples
begin

section \<open>Scheduler: the properties\<close>

text \<open>
  What the scheduler guarantees, over any sequence of calls and for any gateway, each with its
  application at the stores of \<open>Sched_Samples\<close>.
\<close>

subsection \<open>Requests\<close>

text \<open>
  C5: Whatever method of the store is called, and whether it raises or not, what the tables hold about any
  request (its row, its lease, its attempts) changes only by steps of the life of a request, and the
  tables stay well formed: the store implements the abstract machine.
\<close>

theorem store_refines_job_life:
  assumes "jobs_wf s"
  shows "jobs_wf (snd (sched_step c s))
    \<and> (job_step (op_labels c) i)\<^sup>*\<^sup>* (view_of s i) (view_of (snd (sched_step c s)) i)"
  using step_moves [of c] assms by (simp add: keeps_def jobs_move_def)

theorem store_refines_job_life_witness:
  "(job_step {JlClaim} ''request_0'')\<^sup>*\<^sup>* (view_of queued_store ''request_0'')
     (view_of (snd (sched_step daily_claim queued_store)) ''request_0'')"
  using store_refines_job_life [OF sample_stores_ok(2), of daily_claim "''request_0''"]
  by (simp add: daily_claim_def)

text \<open>
  C20: In every store that calls can reach, a request is leased exactly when it has a lease, which is for its
  last attempt, and exactly when that attempt is running; attempts are numbered from 1 to the count, and the
  count never exceeds the maximum of the request.
\<close>

theorem leased_means_running:
  assumes "map_of (ss_requests (sched_execute cs empty_sched)) i = Some r"
  shows "0 \<le> rr_attempts r \<and> rr_attempts r \<le> rr_max_attempts r \<and> rr_max_attempts r \<le> 20
    \<and> (rr_status r = RqLeased \<longleftrightarrow>
        (\<exists>l. map_of (ss_leases (sched_execute cs empty_sched)) i = Some l \<and> jl_attempt l = rr_attempts r))
    \<and> (rr_status r = RqLeased \<longleftrightarrow>
        (\<exists>a. map_of (ss_attempts (sched_execute cs empty_sched)) (i, rr_attempts r) = Some a \<and> ja_status a = JaRunning))
    \<and> (\<forall>n a. map_of (ss_attempts (sched_execute cs empty_sched)) (i, n) = Some a \<longrightarrow> 1 \<le> n \<and> n \<le> rr_attempts r)"
proof -
  have "job_ok i (view_of (sched_execute cs empty_sched) i)"
    using execute_jobs_wf [OF empty_jobs_wf] by (rule wf_view)
  then show ?thesis using assms
    by (auto simp: job_ok_def view_of_def request_fields_ok_def lease_ok_def attempts_ok_def split: option.splits)
qed

theorem leased_means_running_witness:
  "\<exists>l. map_of (ss_leases claimed_store) ''request_0'' = Some l \<and> jl_attempt l = 1"
proof -
  have "case map_of (ss_requests claimed_store) ''request_0'' of
      Some r \<Rightarrow> rr_status r = RqLeased \<and> rr_attempts r = 1 | None \<Rightarrow> False" by code_simp
  then obtain r where r: "map_of (ss_requests claimed_store) ''request_0'' = Some r" "rr_status r = RqLeased" "rr_attempts r = 1"
    by (auto split: option.splits)
  from leased_means_running [OF r(1) [unfolded claimed_store_def]] r(2)
  have "\<exists>l. map_of (ss_leases claimed_store) ''request_0'' = Some l \<and> jl_attempt l = rr_attempts r"
    unfolding claimed_store_def by (elim conjE iffD1)
  then show ?thesis using r(3) by simp
qed

text \<open>
  C6: As long as no caller reports a failure as known, at most one attempt of a non-idempotent request ever
  starts its side effect, and after that the request is never again waiting to be claimed: an expired lease
  or an unknown outcome leads to manual reconciliation, not to a second run.
\<close>

theorem side_effect_started_once:
  assumes "list_all unknown_only cs"
    and "map_of (ss_requests (sched_execute cs empty_sched)) i = Some r" and "rr_dispatch r = DiNonIdempotent"
    and "map_of (ss_attempts (sched_execute cs empty_sched)) (i, m) = Some a" and "ja_side_effect a"
    and "map_of (ss_attempts (sched_execute cs empty_sched)) (i, n) = Some b" and "ja_side_effect b"
  shows "m = n \<and> rr_status r \<notin> {RqQueued, RqRetryWait}"
proof -
  have "one_side_effect (view_of empty_sched i)" by (simp add: one_side_effect_def view_of_def empty_sched_def)
  then have "one_side_effect (view_of (sched_execute cs empty_sched) i)"
    using job_steps_one_side_effect [OF careful_steps [OF empty_jobs_wf assms(1)] _ wf_view [OF empty_jobs_wf]] by simp
  then have "k = rr_attempts r \<and> \<not> claimable (rr_status r)"
    if "map_of (ss_attempts (sched_execute cs empty_sched)) (i, k) = Some x" "ja_side_effect x" for k x
    using assms(2,3) that by (simp add: one_side_effect_def view_of_def)
  from this [OF assms(4,5)] this [OF assms(6,7)] show ?thesis by (simp add: claimable_def)
qed

theorem side_effect_started_once_witness:
  "case map_of (ss_requests started_store) ''request_0'' of
     Some r \<Rightarrow> rr_status r \<notin> {RqQueued, RqRetryWait} | None \<Rightarrow> False"
proof -
  let ?cs = "set_up @ [OpEnqueue daily [hours_after 1] leader_lease (hours_after 2) (hours_after 2) numbered,
    daily_claim, OpMarkSideEffect daily_lease (hours_after 2)]"
  have "case (map_of (ss_requests started_store) ''request_0'', map_of (ss_attempts started_store) (''request_0'', 1)) of
      (Some r, Some a) \<Rightarrow> rr_dispatch r = DiNonIdempotent \<and> ja_side_effect a | _ \<Rightarrow> False" by code_simp
  then obtain r a where "map_of (ss_requests started_store) ''request_0'' = Some r" "rr_dispatch r = DiNonIdempotent"
    "map_of (ss_attempts started_store) (''request_0'', 1) = Some a" "ja_side_effect a"
    by (auto split: option.splits)
  moreover have "list_all unknown_only ?cs" by (simp add: unknown_only_def set_up_def daily_claim_def)
  ultimately show ?thesis
    using side_effect_started_once [of ?cs "''request_0''" r 1 a 1 a] unfolding started_store_def by simp
qed

text \<open>
  C22: What a request stands for (its schedule revision, workflow, input, key, occurrence and limits) never
  changes, whatever calls follow; and once a request has ended, its row never changes again and no lease for
  it exists.
\<close>

theorem ended_requests_are_final:
  assumes "jobs_wf s" and "map_of (ss_requests s) i = Some r"
  shows "\<exists>q. map_of (ss_requests (sched_execute cs s)) i = Some q
    \<and> request_identity q = request_identity r \<and> request_binding q = request_binding r
    \<and> rr_attempts r \<le> rr_attempts q
    \<and> (rr_status r \<in> {RqSucceeded, RqCancelled, RqDeadLetter, RqManual} \<longrightarrow>
        q = r \<and> map_of (ss_leases (sched_execute cs s)) i = None)"
proof -
  obtain q where q: "map_of (ss_requests (sched_execute cs s)) i = Some q" "same_request r q" "rr_attempts r \<le> rr_attempts q"
    by (rule execute_request [OF assms])
  have "q = r \<and> map_of (ss_leases (sched_execute cs s)) i = None"
    if st: "rr_status r \<in> {RqSucceeded, RqCancelled, RqDeadLetter, RqManual}"
  proof -
    have ended: "terminal_request (rr_status r)" using st by (simp add: terminal_request_def)
    have "jv_request (view_of s i) = Some r" "jv_lease (view_of s i) = None"
      using assms(2) wf_terminal [OF assms ended] by (simp_all add: view_of_def)
    then have "view_of (sched_execute cs s) i = view_of s i"
      using job_steps_terminal [OF execute_steps [OF assms(1)]] ended by blast
    then show ?thesis using q(1) assms(2) wf_terminal [OF assms ended] by (simp add: view_of_def)
  qed
  then show ?thesis using q by (auto simp: same_request_def)
qed

theorem ended_requests_are_final_witness:
  "\<exists>q. map_of (ss_requests (sched_execute [OpRequestCancel ''request_0'' (hours_after 3), daily_claim] queued_store))
     ''request_0'' = Some q \<and> rr_schedule q = ''daily''"
proof -
  have "case map_of (ss_requests queued_store) ''request_0'' of Some r \<Rightarrow> rr_schedule r = ''daily'' | None \<Rightarrow> False"
    by code_simp
  then obtain r where r: "map_of (ss_requests queued_store) ''request_0'' = Some r" "rr_schedule r = ''daily''"
    by (auto split: option.splits)
  show ?thesis
    using ended_requests_are_final [OF sample_stores_ok(2) r(1),
        of "[OpRequestCancel ''request_0'' (hours_after 3), daily_claim]"] r(2)
    by (auto simp: request_binding_def)
qed

subsection \<open>Fences\<close>

fun settled_by :: "sched_op \<Rightarrow> job_lease option" where
  \<comment> \<open>the lease that a settling call presents\<close>
  "settled_by (OpCancelClaimed lease _) = Some lease"
| "settled_by (OpComplete lease _ _) = Some lease"
| "settled_by (OpFinish lease _ _ _) = Some lease"
| "settled_by (OpFail lease _ _ _ _ _) = Some lease"
| "settled_by _ = None"

lemma settled_outdated:
  assumes "jobs_wf s" and "sched_step c s = (Inr u, t)" and "settled_by c = Some lease"
  shows "outdated lease (view_of t (jl_request lease))"
proof -
  have "job_lease_ok s lease now \<and> map_of (ss_leases t) (jl_request lease) = None"
    if "c = OpCancelClaimed lease now \<or> (\<exists>w. c = OpComplete lease w now) \<or> (\<exists>st e. c = OpFinish lease st e now)
      \<or> (\<exists>e k b m. c = OpFail lease e k b m now)" for now
    using assms(2) that
    by (auto simp: sx_void_def sx_Inr sx_transaction_Inr cancel_claimed_job_def complete_job_def
        finish_dispatched_job_def fail_job_def assert_job_lease_def current_request_def Let_def
        settle_tables delete_conv' split: option.splits)
  then obtain now where ok: "job_lease_ok s lease now" and gone: "map_of (ss_leases t) (jl_request lease) = None"
    using assms(3) by (cases c) auto
  obtain l where l: "map_of (ss_leases s) (jl_request lease) = Some l" "jl_attempt l = jl_attempt lease"
    using ok by (rule job_lease_ok_row)
  obtain r where r: "map_of (ss_requests s) (jl_request lease) = Some r" "jl_attempt l = rr_attempts r"
    by (rule wf_lease [OF assms(1) l(1)])
  have "(job_step UNIV (jl_request lease))\<^sup>*\<^sup>* (view_of s (jl_request lease)) (view_of t (jl_request lease))"
    using execute_steps [OF assms(1), of "jl_request lease" "[c]"] assms(2) by (simp add: sched_execute_def)
  then obtain q where "jv_request (view_of t (jl_request lease)) = Some q" "rr_attempts r \<le> rr_attempts q"
    by (rule job_steps_request) (use r in \<open>simp_all add: view_of_def\<close>)
  then show ?thesis using r l(2) gone by (auto simp: outdated_def view_of_def)
qed

text \<open>
  Once a worker has settled a job (completed, finished, failed or cancelled it), its lease is refused for
  good: any later report under the same lease raises a conflict and changes nothing, also after the request
  was claimed again.
\<close>

theorem settled_lease_is_refused:
  assumes "jobs_wf s" and "sched_step c s = (Inr u, t)" and "settled_by c = Some lease"
  shows "complete_job lease run_id now (sched_execute cs t)
      = (Inl (ScConflict ''job lease was lost or expired''), sched_execute cs t)
    \<and> mark_job_side_effect lease now (sched_execute cs t)
      = (Inl (ScConflict ''job lease was lost or expired''), sched_execute cs t)
    \<and> fail_job lease code unknown retry_base retry_max now (sched_execute cs t)
      = (Inl (ScConflict ''job lease was lost or expired''), sched_execute cs t)"
proof -
  have t: "t = sched_execute [c] s" using assms(2) by (simp add: sched_execute_def)
  have wf: "jobs_wf t" "jobs_wf (sched_execute cs t)" unfolding t using assms(1) by (intro execute_jobs_wf; simp)+
  have "outdated lease (view_of (sched_execute cs t) (jl_request lease))"
    by (rule job_steps_outdated [OF execute_steps [OF wf(1)] wf_view [OF wf(1)] settled_outdated [OF assms]])
  then have "\<not> job_lease_ok (sched_execute cs t) lease now" by (rule outdated_refused [OF wf(2)])
  then show ?thesis
    by (simp add: complete_job_def mark_job_side_effect_def fail_job_def assert_job_lease_def sx_simps)
qed

theorem settled_lease_is_refused_witness:
  "complete_job daily_lease ''run'' (hours_after 2)
     (snd (sched_step (OpFail daily_lease ''e'' False 5 300 (hours_after 2)) claimed_store))
   = (Inl (ScConflict ''job lease was lost or expired''),
      snd (sched_step (OpFail daily_lease ''e'' False 5 300 (hours_after 2)) claimed_store))"
proof -
  let ?c = "OpFail daily_lease ''e'' False 5 300 (hours_after 2)"
  have "case fst (sched_step ?c claimed_store) of Inr u \<Rightarrow> True | Inl e \<Rightarrow> False" by code_simp
  then have "sched_step ?c claimed_store = (Inr (), snd (sched_step ?c claimed_store))"
    by (cases "sched_step ?c claimed_store") (auto split: sum.splits)
  then show ?thesis
    using settled_lease_is_refused [OF sample_stores_ok(3), of ?c "()" _ daily_lease "''run''" "hours_after 2" "[]"]
    by (simp add: sched_execute_Nil del: sched_step.simps)
qed

text \<open>
  C23: When another owner acquires an authority, the lease it supersedes is refused for good, whatever calls
  follow: its holder can neither materialise nor claim nor record an observation, and the refused call changes nothing.
\<close>

theorem superseded_authority_is_refused:
  assumes "authority_ok s old before" and "acquire_authority (sl_kind old) who ttl now token s = (Inr new, t)"
  shows "\<exists>e1 e2 e3. enqueue_occurrences d vs old advance available fresh (sched_execute cs t) = (Inl e1, sched_execute cs t)
    \<and> claim_due old who' ttl' now' token' (sched_execute cs t) = (Inl e2, sched_execute cs t)
    \<and> observe_watch d fingerprint code old now' st (sched_execute cs t) = (Inl e3, sched_execute cs t)"
proof -
  let ?u = "sched_execute cs t"
  obtain row where row: "map_of (ss_authority s) (sl_kind old) = Some row" "sl_fencing row = sl_fencing old"
    using assms(1) by (auto simp: authority_ok_def split: option.splits)
  have "map_of (ss_authority t) (sl_kind old) = Some new" "sl_fencing old < sl_fencing new"
    using acquire_supersedes [OF assms(2) row(1), of old] row(2) by simp_all
  moreover have grow: "tables_grow t ?u" using tables.execute_kept [of cs t] by (simp add: list_all_iff)
  ultimately have refused: "\<not> authority_ok ?u old n" for n using superseded_refused by blast
  have "\<exists>e. enqueue_occurrences d vs old advance available fresh ?u = (Inl e, ?u)"
    using refused by (cases "requests_for d vs available fresh 0") (simp_all add: enqueue_occurrences_def sx_simps assert_authority_def)
  moreover have "\<exists>e. claim_due old who' ttl' now' token' ?u = (Inl e, ?u)"
    using refused by (simp add: claim_due_def sx_simps assert_authority_def)
  moreover have "\<exists>e. observe_watch d fingerprint code old now' st ?u = (Inl e, ?u)"
    using refused by (simp add: observe_watch_def sx_simps assert_authority_def)
  ultimately show ?thesis by blast
qed

theorem superseded_authority_is_refused_witness:
  "\<exists>e. claim_due writer_lease ''core'' 30 (hours_after 102) ''x''
      (snd (acquire_authority LkWriter ''next'' 3600 (hours_after 101) ''next-token'' ready_store))
    = (Inl e, snd (acquire_authority LkWriter ''next'' 3600 (hours_after 101) ''next-token'' ready_store))"
proof -
  let ?m = "acquire_authority (sl_kind writer_lease) ''next'' 3600 (hours_after 101) ''next-token''"
  have ok: "authority_ok ready_store writer_lease (hours_after 1)" by code_simp
  have "case fst (?m ready_store) of Inr l \<Rightarrow> True | Inl e \<Rightarrow> False" by code_simp
  then obtain l where l: "?m ready_store = (Inr l, snd (?m ready_store))"
    by (cases "?m ready_store") (auto split: sum.splits)
  have k: "sl_kind writer_lease = LkWriter" by (simp add: writer_lease_def)
  show ?thesis
    using superseded_authority_is_refused [OF ok l, of daily "[]" 0 0 numbered "[]" "''core''" 30 "hours_after 102" "''x''"]
    unfolding k sched_execute_Nil by blast
qed

end
