(* ===== verification/Sched_Services.thy ===== *)
theory Sched_Services
  imports Sched_Samples
begin

section \<open>Scheduler: properties of triggers and of the worker\<close>

text \<open>
  Properties that span components: the cron evaluation with the trigger service and the store, and the
  worker with the store and its gateway.
\<close>

subsection \<open>Triggers\<close>

definition manual_key :: "schedule_definition \<Rightarrow> string \<Rightarrow> string" where
  "manual_key d key = ''manual:'' @ sd_id d @ '':'' @ key"

lemma manual_request:
  assumes "request_for d now now (Some (manual_key d key)) st = Inr r"
  shows "new_request r" "rr_key r = manual_key d key"
    "request_binding r = (sd_id d, sd_version d, sd_workflow d, sd_workflow_version d, sd_input d, sd_dispatch d, sd_max_attempts d)"
  using assms request_for_new [OF assms]
  by (auto simp: request_for_def make_request_def manual_key_def request_binding_def Let_def split: if_splits)

lemma enqueue_manual_Inr:
  assumes "enqueue_manual d key now st s = (Inr q, t)"
  obtains r where "request_for d now now (Some (manual_key d key)) st = Inr r" "key \<noteq> []"
    "insert_or_get_request r s = (Inr q, t)"
  using assms by (auto simp: enqueue_manual_def manual_key_def sx_Inr sx_transaction_Inr)

lemma enqueue_manual_again:
  \<comment> \<open>the method on a store that has a row of this key\<close>
  assumes "keys_ok v" and "map_of (ss_requests v) i = Some p" and "rr_key p = manual_key d key"
    and "enqueue_manual d key now st v = (x, u)"
  shows "u = v" and "x = Inr q \<Longrightarrow> q = p"
    and "request_for d now now (Some (manual_key d key)) st = Inr r \<Longrightarrow> key \<noteq> [] \<Longrightarrow>
      map_of (ss_heads v) (sd_id d) = Some h \<Longrightarrow> hd_version h = sd_version d \<Longrightarrow> hd_status h \<noteq> SsCancelled \<Longrightarrow>
      same_binding r p \<Longrightarrow> x = Inr p"
proof -
  have again: "insert_or_get_request r v =
      (if same_binding r p then Inr p else Inl (ScConflict ''idempotency key is bound to another request''), v)"
    if "request_for d now now (Some (manual_key d key)) st = Inr r" for r
    using insert_or_get_again [OF assms(1,2)] manual_request(2) [OF that] assms(3) by simp
  note run = assms(4) [unfolded enqueue_manual_def manual_key_def [symmetric]]
  show "u = v" "x = Inr q \<Longrightarrow> q = p"
    using run again by (auto simp: sx_simps split: if_splits sum.splits option.splits)
  show "x = Inr p" if "request_for d now now (Some (manual_key d key)) st = Inr r" "key \<noteq> []"
    "map_of (ss_heads v) (sd_id d) = Some h" "hd_version h = sd_version d" "hd_status h \<noteq> SsCancelled" "same_binding r p"
    using run again [OF that(1)] that by (simp add: sx_simps)
qed

text \<open>
  C35: Triggering a schedule by hand again under the same idempotency key, at any later time and after any
  calls, changes nothing; when it answers with a request, that is the request of the first call, with the
  same binding, as it is stored now. It does answer as long as the schedule was not revised or cancelled
  since (pausing does not matter); otherwise it may refuse. An input that differs from itself, as one
  with a NaN does, is not recognised again.
\<close>

theorem manual_trigger_is_idempotent:
  assumes "keys_ok s" and "enqueue_manual d key now st s = (Inr q, t)" and "sd_id d' = sd_id d"
    and "enqueue_manual d' key now' st' (sched_execute cs t) = (x, u)"
  shows "u = sched_execute cs t
    \<and> (\<forall>q'. x = Inr q' \<longrightarrow> rr_id q' = rr_id q \<and> request_binding q' = request_binding q
         \<and> map_of (ss_requests u) (rr_id q) = Some q')
    \<and> (d' = d\<lparr>sd_status := sd_status d'\<rparr> \<and> py_eq (env_to_py (sd_input d)) (env_to_py (sd_input d))
         \<and> (\<exists>h. map_of (ss_heads u) (sd_id d) = Some h \<and> hd_version h = sd_version d \<and> hd_status h \<noteq> SsCancelled)
         \<longrightarrow> (\<exists>q'. x = Inr q'))"
proof -
  let ?v = "sched_execute cs t"
  obtain r where r: "request_for d now now (Some (manual_key d key)) st = Inr r" "key \<noteq> []"
    "insert_or_get_request r s = (Inr q, t)"
    by (rule enqueue_manual_Inr [OF assms(2)])
  note new = manual_request [OF r(1)]
  have t: "keys_ok t" using keepsD [OF insert_or_get_keys [OF new(1)] r(3)] assms(1) by (simp add: holding_def)
  have q: "map_of (ss_requests t) (rr_id q) = Some q" "rr_key q = rr_key r"
    using insert_or_get_stored [OF r(3) assms(1) t] by simp_all
  obtain p where p: "map_of (ss_requests ?v) (rr_id q) = Some p" "same_request q p"
    using execute_request q(1) t unfolding keys_ok_def by metis
  have key: "rr_key p = manual_key d' key"
    using p(2) q(2) new(2) assms(3) by (simp add: same_request_def request_identity_def manual_key_def)
  note again = enqueue_manual_again [OF execute_keys_ok [OF t] p(1) key assms(4)]
  have same: "rr_id p = rr_id q" "request_binding p = request_binding q"
    using p(2) by (simp_all add: same_request_def request_identity_def)
  have "\<exists>q'. x = Inr q'" if d': "d' = d\<lparr>sd_status := sd_status d'\<rparr>"
    and refl: "py_eq (env_to_py (sd_input d)) (env_to_py (sd_input d))"
    and h: "map_of (ss_heads ?v) (sd_id d) = Some h" "hd_version h = sd_version d" "hd_status h \<noteq> SsCancelled" for h
  proof -
    define e where "e = sd_status d'"
    have de: "d' = d\<lparr>sd_status := e\<rparr>" using d' by (simp only: e_def)
    have "\<exists>r'. request_for d' now' now' (Some (manual_key d' key)) st' = Inr r'"
      using r(1) unfolding de
      by (auto simp: request_for_def make_request_def request_fields_ok_def manual_key_def Let_def split: if_splits)
    then obtain r' where r': "request_for d' now' now' (Some (manual_key d' key)) st' = Inr r'" by blast
    have "same_binding r q"
      using r(3) refl new(3) by (auto simp: insert_or_get_request_def sx_Inr same_binding_def request_binding_def
          split: if_splits option.splits)
    moreover have "request_binding r' = request_binding r"
      unfolding manual_request(3) [OF r'] new(3) by (simp add: de)
    ultimately have "same_binding r' p" using same(2) by (simp add: same_binding_def request_binding_def)
    moreover have "sd_id d' = sd_id d" "sd_version d' = sd_version d" by (simp_all add: de)
    ultimately have "x = Inr p" using again(3) [OF r' r(2)] h by simp
    then show ?thesis by blast
  qed
  with again(1,2) same p(1) show ?thesis by blast
qed

definition triggered_store :: sched_store where
  "triggered_store = snd (enqueue_manual daily ''k'' (hours_after 2) (some_stamp ''request_m'') ready_store)"

theorem manual_trigger_is_idempotent_witness:
  "\<exists>q. enqueue_manual daily ''k'' (hours_after 5) (some_stamp ''request_n'') triggered_store = (Inr q, triggered_store)
    \<and> rr_id q = ''request_m''"
proof -
  let ?one = "enqueue_manual daily ''k'' (hours_after 2) (some_stamp ''request_m'') ready_store"
  let ?two = "enqueue_manual daily ''k'' (hours_after 5) (some_stamp ''request_n'') triggered_store"
  have "case fst ?one of Inr q \<Rightarrow> rr_id q = ''request_m'' | Inl e \<Rightarrow> False" by code_simp
  then obtain q where one: "?one = (Inr q, triggered_store)" and id: "rr_id q = ''request_m''"
    by (cases ?one) (auto simp: triggered_store_def split: sum.splits)
  obtain x u where two: "?two = (x, u)" by fastforce
  have "case map_of (ss_heads triggered_store) ''daily'' of
      Some h \<Rightarrow> hd_version h = 1 \<and> hd_status h \<noteq> SsCancelled | None \<Rightarrow> False" by code_simp
  then have head: "\<exists>h. map_of (ss_heads triggered_store) (sd_id daily) = Some h \<and> hd_version h = sd_version daily
      \<and> hd_status h \<noteq> SsCancelled" by (auto simp: daily_def split: option.splits)
  have input: "py_eq (env_to_py (sd_input daily)) (env_to_py (sd_input daily))" by code_simp
  have "daily = daily\<lparr>sd_status := sd_status daily\<rparr>" by simp
  with manual_trigger_is_idempotent [OF sample_stores_ok(5) one refl, of "hours_after 5" "some_stamp ''request_n''" "[]" x u]
    two head input id show ?thesis by (auto simp: sched_execute_Nil)
qed

subsection \<open>Materialisation\<close>














text \<open>
  C27: For a parsed expression, the day-by-day construction of \<open>occurrences_between\<close> returns the last
  \<open>limit\<close> of the instants in the interval whose wall time is a whole minute that the expression matches
  and whose local date lies between those of the two ends, ordered by local date and then by time
  (\<open>due_instants\<close>). When within the interval the clock of the zone does not step back over midnight, this
  is the scan of every minute of the interval in the order of time. It assumes of the time zone that one
  of the two folds of the wall time of an instant is that instant.
\<close>

theorem occurrences_equal_minute_scan:
  assumes "parse_cron e = Inr c" and "zone_inverse z" and "occurrences_between z c start stop limit = Inr us"
  shows "(\<exists>xs. due_instants z c start stop xs \<and> us = take_last (nat limit) xs)
    \<and> (dates_advance z start stop \<longrightarrow>
         us = take_last (nat limit) (sorted_list_of_set {u. start < u \<and> u \<le> stop \<and> cron_due z c u}))"
  using occurrences_between_eq [OF assms(2) parse_cron_clock [OF assms(1)] assms(3)] due_instants_scan by metis

theorem occurrences_equal_minute_scan_witness:
  "\<exists>c. parse_cron ''30 */6 1,15 * *'' = Inr c \<and>
     take_last 2 (sorted_list_of_set {u. hours_after 0 < u \<and> u \<le> hours_after 24 \<and> cron_due utc_zone c u})
     = [hours_after 4 + 1800000000, hours_after 10 + 1800000000]"
proof -
  have "case parse_cron ''30 */6 1,15 * *'' of
      Inr c \<Rightarrow> occurrences_between utc_zone c (hours_after 0) (hours_after 24) 2
        = Inr [hours_after 4 + 1800000000, hours_after 10 + 1800000000]
    | Inl e \<Rightarrow> False" by code_simp
  then obtain c where c: "parse_cron ''30 */6 1,15 * *'' = Inr c"
    "occurrences_between utc_zone c (hours_after 0) (hours_after 24) 2
      = Inr [hours_after 4 + 1800000000, hours_after 10 + 1800000000]"
    by (auto split: sum.splits)
  show ?thesis using occurrences_equal_minute_scan [OF c(1) utc_zone_laws(1) c(2)] c(1) utc_zone_laws(2) by simp
qed

text \<open>
  In a zone whose clock goes back by an hour half an hour after midnight, the instants of the repeated
  part come before earlier instants of the new date, and a limited result drops a later instant.
\<close>

definition stepping_zone :: "int \<Rightarrow> zone" where
  "stepping_zone change =
     \<lparr>zone_local = (\<lambda>u. if u < change then u else u - 3600000000),
      zone_instant = (\<lambda>n fold. if n < change - 3600000000 then n else if change \<le> n \<or> fold then n + 3600000000 else n)\<rparr>"

lemma stepping_zone_inverse: "zone_inverse (stepping_zone change)"
  unfolding zone_inverse_def
proof
  fix u
  show "\<exists>fold. zone_instant (stepping_zone change) (zone_local (stepping_zone change) u) fold = u"
    by (rule exI [of _ "change \<le> u"]) (simp add: stepping_zone_def)
qed

lemma repeated_midnight_reorders:
  "case parse_cron ''15,45 0,23 * * *'' of
     Inr c \<Rightarrow>
       let z = stepping_zone (hours_after 16 + 1800000000); found = occurrences_between z c (hours_after 15) (hours_after 18) in
       found 4 = Inr [hours_after 16 + 2700000000, hours_after 16 + 900000000, hours_after 17 + 900000000, hours_after 17 + 2700000000]
         \<and> found 3 = Inr [hours_after 16 + 900000000, hours_after 17 + 900000000, hours_after 17 + 2700000000]
   | Inl e \<Rightarrow> False"
  by code_simp

text \<open>
  C37: An expression is accepted only when it can fire: some day of the years 1 to 9999 matches it. Parsing
  the normalised text of an accepted expression gives the same expression back.
\<close>

theorem accepted_cron_fires:
  assumes "parse_cron e = Inr c"
  shows "(\<exists>n. 1 \<le> n \<and> n \<le> 3652059 \<and> date_matches c n) \<and> parse_cron (cron_text c) = Inr c"
proof -
  have "has_satisfiable_calendar_day c" using assms by (rule parse_cron_Inr)
  then show ?thesis using satisfiable_iff parse_cron_text [OF assms] by simp
qed

theorem accepted_cron_fires_witness:
  "\<exists>c. parse_cron ''  0  0 29 2   * '' = Inr c \<and> parse_cron (cron_text c) = Inr c"
proof -
  have "case parse_cron ''  0  0 29 2   * '' of Inr c \<Rightarrow> True | Inl e \<Rightarrow> False" by code_simp
  then obtain c where c: "parse_cron ''  0  0 29 2   * '' = Inr c" by (auto split: sum.splits)
  then show ?thesis using accepted_cron_fires [OF c] by blast
qed

text \<open>
  C38: The text that a timestamp is stored as reads back as the same instant, and the order of two stored
  texts is the order of the instants, so the SQL comparisons of texts compare times.
\<close>

theorem stored_timestamps_round_trip:
  assumes "ts_valid t" and "ts_valid u"
  shows "read_iso (iso_text t) = t \<and> (iso_text t < iso_text u \<longleftrightarrow> t < u)"
  using read_iso_text [OF assms(1)] iso_text_order [OF assms] by simp

theorem stored_timestamps_round_trip_witness:
  "iso_text eight_oclock < iso_text (eight_oclock + 1) \<and> read_iso ''2020-01-01T08:00:00+00:00'' = eight_oclock"
proof -
  have t: "iso_text eight_oclock = ''2020-01-01T08:00:00+00:00''" by code_simp
  have v: "ts_valid eight_oclock" "ts_valid (eight_oclock + 1)" by code_simp+
  show ?thesis using stored_timestamps_round_trip [OF v] unfolding t by simp
qed

subsection \<open>Claims\<close>

text \<open>
  C21: The leased requests of a schedule never outnumber the largest concurrency limit of its revisions.
\<close>

theorem concurrency_stays_within_limit:
  assumes "0 \<le> K"
    and "\<forall>v d. map_of (ss_definitions (sched_execute cs empty_sched)) (x, v) = Some d \<longrightarrow> sd_concurrency d \<le> K"
  shows "int (active_jobs x (sched_execute cs empty_sched)) \<le> K"
proof -
  have "within_limits (sched_execute cs empty_sched)"
    using limits.execute_kept [of cs empty_sched] empty_within_limits by (simp add: holding_def list_all_iff)
  then show ?thesis using assms unfolding within_limits_def by blast
qed

theorem concurrency_stays_within_limit_witness: "int (active_jobs ''daily'' claimed_store) \<le> 1"
proof -
  have "ss_definitions claimed_store = [((''daily'', 1), daily)]" by code_simp
  then have "\<forall>v d. map_of (ss_definitions claimed_store) (''daily'', v) = Some d \<longrightarrow> sd_concurrency d \<le> 1"
    by (simp add: daily_def)
  then show ?thesis unfolding claimed_store_def by (intro concurrency_stays_within_limit) simp_all
qed

text \<open>
  The requests that may be claimed, without the bound that the query puts on their number: due, not
  cancelled, of an enabled schedule, in the order of their times and identifiers.
\<close>

definition claimable_order :: "int \<Rightarrow> sched_store \<Rightarrow> (run_request \<times> schedule_definition) list \<Rightarrow> bool" where
  "claimable_order now u xs \<longleftrightarrow>
     sorted (map (\<lambda>(r, d). (rr_available r, rr_created r, rr_id r)) xs) \<and> distinct xs
     \<and> set xs = {(r, d). map_of (ss_requests u) (rr_id r) = Some r \<and> claimable (rr_status r) \<and> rr_available r \<le> now
          \<and> \<not> rr_cancel r \<and> (\<exists>h. map_of (ss_heads u) (rr_schedule r) = Some h \<and> hd_status h = SsEnabled)
          \<and> map_of (ss_definitions u) (rr_schedule r, rr_version r) = Some d}"

definition has_room :: "sched_store \<Rightarrow> run_request \<times> schedule_definition \<Rightarrow> bool" where
  "has_room u p \<longleftrightarrow> int (active_jobs (rr_schedule (fst p)) u) < sd_concurrency (snd p)"

lemma distinct_map_filter:
  "distinct xs \<Longrightarrow> (\<And>x y z. x \<in> set xs \<Longrightarrow> y \<in> set xs \<Longrightarrow> f x = Some z \<Longrightarrow> f y = Some z \<Longrightarrow> x = y) \<Longrightarrow>
   distinct (List.map_filter f xs)"
proof (induction xs)
  case (Cons x xs)
  have "distinct (List.map_filter f xs)" by (rule Cons.IH) (use Cons.prems in auto)
  moreover have "z \<notin> set (List.map_filter f xs)" if "f x = Some z" for z
    using that Cons.prems by (fastforce simp: set_map_filter)
  ultimately show ?case by (simp split: option.split)
qed simp

lemma claim_candidates_order:
  assumes "jobs_wf u"
  obtains xs where "claimable_order now u xs" and "claim_candidates now u = take 100 xs"
proof
  let ?key = "\<lambda>(r, d). (rr_available r, rr_created r, rr_id r)"
  let ?row = "\<lambda>(i, r). case (map_of (ss_heads u) (rr_schedule r), map_of (ss_definitions u) (rr_schedule r, rr_version r)) of
      (Some h, Some d) \<Rightarrow>
        if claimable (rr_status r) \<and> rr_available r \<le> now \<and> \<not> rr_cancel r \<and> hd_status h = SsEnabled then Some (r, d) else None
    | _ \<Rightarrow> None"
  let ?xs = "sort_key ?key (List.map_filter ?row (ss_requests u))"
  show "claim_candidates now u = take 100 ?xs" by (simp add: claim_candidates_def)
  have keys: "distinct (map fst (ss_requests u))" using assms by (simp add: jobs_wf_def)
  have row: "map_of (ss_requests u) (rr_id r) = Some r \<longleftrightarrow> (\<exists>i. (i, r) \<in> set (ss_requests u))" for r
    using wf_request [OF assms] keys by (metis map_of_SomeD map_of_is_SomeI)
  have id: "rr_id r = i" if "(i, r) \<in> set (ss_requests u)" for i r
    using wf_request [OF assms] keys that by simp
  have "distinct (List.map_filter ?row (ss_requests u))"
  proof (rule distinct_map_filter)
    show "distinct (ss_requests u)" using keys by (simp add: distinct_map)
    fix x y z assume xy: "x \<in> set (ss_requests u)" "y \<in> set (ss_requests u)" and found: "?row x = Some z" "?row y = Some z"
    have "snd p = fst z" if "?row p = Some z" for p
      using that by (cases p) (auto split: option.splits if_splits)
    from this [OF found(1)] this [OF found(2)] have same: "snd x = snd y" by (rule trans [OF _ sym])
    have "fst x = rr_id (snd x)" "fst y = rr_id (snd y)" using id [of "fst x" "snd x"] id [of "fst y" "snd y"] xy by simp_all
    with same show "x = y" by (intro prod_eqI) simp_all
  qed
  moreover have "set (List.map_filter ?row (ss_requests u)) =
      {(r, d). map_of (ss_requests u) (rr_id r) = Some r \<and> claimable (rr_status r) \<and> rr_available r \<le> now
          \<and> \<not> rr_cancel r \<and> (\<exists>h. map_of (ss_heads u) (rr_schedule r) = Some h \<and> hd_status h = SsEnabled)
          \<and> map_of (ss_definitions u) (rr_schedule r, rr_version r) = Some d}"
    unfolding row by (force simp: set_map_filter split: option.splits if_splits)
  moreover have "sorted (map ?key ?xs)" by (rule sorted_sort_key)
  ultimately show "claimable_order now u ?xs" by (simp add: claimable_order_def)
qed

text \<open>
  C36: A claim by the holder of a live writer lease never raises. After the expired leases were recovered
  it leases the first request with room, that is, whose schedule has fewer leased requests than its
  revision allows, among the first 100 of the due requests; when none of these has room it answers with
  none, and only the recovery has changed the store. So up to 100 due requests a request with room is
  always served, and a longer queue of schedules without room can hold it back.
\<close>

theorem claim_leases_first_with_room:
  assumes "jobs_wf s" and "text_between 1 200 who" and "1 \<le> ttl" and "sl_kind writer = LkWriter"
    and "sl_owner writer = who" and "authority_ok s writer now"
  shows "\<exists>u xs. u = recover_expired_jobs now s \<and> claimable_order now u xs
    \<and> (case list_find (has_room u) (take 100 xs) of
         None \<Rightarrow> claim_due writer who ttl now token s = (Inr None, u)
       | Some (r, d) \<Rightarrow> \<exists>q l t. claim_due writer who ttl now token s = (Inr (Some (q, l)), t)
           \<and> q = r\<lparr>rr_status := RqLeased, rr_attempts := rr_attempts r + 1, rr_updated := now\<rparr>
           \<and> map_of (ss_requests t) = (map_of (ss_requests u))(rr_id r \<mapsto> q)
           \<and> map_of (ss_leases t) = (map_of (ss_leases u))(rr_id r \<mapsto> l) \<and> jl_owner l = who)"
proof -
  let ?u = "recover_expired_jobs now s"
  have wf: "jobs_wf ?u" using recover_moves [of UNIV s now] assms(1) by (simp add: jobs_move_def)
  obtain xs where xs: "claimable_order now ?u xs" "claim_candidates now ?u = take 100 xs"
    by (rule claim_candidates_order [OF wf])
  have choice: "next_claim now ?u = map_option fst (list_find (has_room ?u) (take 100 xs))"
    by (simp add: next_claim_def xs(2) has_room_def [abs_def] case_prod_unfold)
  note claim = claim_due_cases [OF assms, of token, unfolded Let_def choice]
  have "case list_find (has_room ?u) (take 100 xs) of
         None \<Rightarrow> claim_due writer who ttl now token s = (Inr None, ?u)
       | Some (r, d) \<Rightarrow> \<exists>q l t. claim_due writer who ttl now token s = (Inr (Some (q, l)), t)
           \<and> q = r\<lparr>rr_status := RqLeased, rr_attempts := rr_attempts r + 1, rr_updated := now\<rparr>
           \<and> map_of (ss_requests t) = (map_of (ss_requests ?u))(rr_id r \<mapsto> q)
           \<and> map_of (ss_leases t) = (map_of (ss_leases ?u))(rr_id r \<mapsto> l) \<and> jl_owner l = who"
  proof (cases "list_find (has_room ?u) (take 100 xs)")
    case None
    with claim show ?thesis by simp
  next
    case (Some p)
    obtain r d where p: "p = (r, d)" by fastforce
    have "(r, d) \<in> set xs" using list_find_SomeD(1) [OF Some] p in_set_takeD by fastforce
    then have r: "map_of (ss_requests ?u) (rr_id r) = Some r" "claimable (rr_status r)"
      using xs(1) by (auto simp: claimable_order_def)
    with claim Some p show ?thesis
      by (simp add: start_job_def claim_lease_def map_of_sql_update map_of_update fun_eq_iff option.map_ident)
  qed
  with xs(1) show ?thesis by blast
qed

theorem claim_leases_first_with_room_witness:
  "\<exists>q l. fst (claim_due writer_lease ''core'' 30 (hours_after 2) ''job-token'' queued_store) = Inr (Some (q, l))
    \<and> rr_status q = RqLeased \<and> jl_owner l = ''core''"
proof -
  have a: "authority_ok queued_store writer_lease (hours_after 2)" by code_simp
  have w: "text_between 1 200 ''core''" "(1 :: int) \<le> 30" "sl_kind writer_lease = LkWriter" "sl_owner writer_lease = ''core''"
    by (simp_all add: text_between_def writer_lease_def)
  have "case fst (claim_due writer_lease ''core'' 30 (hours_after 2) ''job-token'' queued_store) of
      Inr (Some p) \<Rightarrow> True | _ \<Rightarrow> False" by code_simp
  moreover note claim_leases_first_with_room [OF sample_stores_ok(2) w a, of "''job-token''"]
  ultimately show ?thesis by (auto split: option.splits)
qed

subsection \<open>The worker\<close>

text \<open>
  A cancellation or a lost lease closes the door before the side effect: when, at the moment the worker
  is about to dispatch, the request is flagged for cancellation or the lease is no longer good, the gateway
  is not called, the store does not change, and the conflict is raised.
\<close>

theorem cancelled_dispatch_is_fenced:
  assumes "\<not> job_lease_ok (wk_store w) lease (we_clock env (wk_calls w))
    \<or> (\<exists>q. map_of (ss_requests (wk_store w)) (jl_request lease) = Some q \<and> rr_cancel q)"
  shows "\<exists>m. dispatch_claimed env gw d request lease w
    = (Inl (WkStore (ScConflict m)), w\<lparr>wk_calls := wk_calls w + 1\<rparr>)"
proof -
  have "\<exists>m. mark_job_side_effect lease (we_clock env (wk_calls w)) (wk_store w) = (Inl (ScConflict m), wk_store w)"
    using assms by (auto simp: mark_job_side_effect_def sx_simps assert_job_lease_def Let_def sql_rows_def)
  then obtain m where m: "mark_job_side_effect lease (we_clock env (wk_calls w)) (wk_store w) = (Inl (ScConflict m), wk_store w)"
    by blast
  show ?thesis
    by (simp add: dispatch_claimed_def sx_catch_def sx_bind_def store_call_def m sx_raise_def)
qed

theorem cancelled_dispatch_is_fenced_witness:
  "\<forall>r. wk_gateway (snd (dispatch_claimed core_env only_gateway daily r daily_lease
     \<lparr>wk_store = snd (request_cancel ''request_0'' (hours_after 2) claimed_store), wk_gateway = 0, wk_calls = 0\<rparr>)) = 0"
proof -
  let ?w = "\<lparr>wk_store = snd (request_cancel ''request_0'' (hours_after 2) claimed_store), wk_gateway = 0, wk_calls = 0\<rparr>"
  have "case map_of (ss_requests (wk_store ?w)) (jl_request daily_lease) of Some q \<Rightarrow> rr_cancel q | None \<Rightarrow> False" by code_simp
  then have c: "\<not> job_lease_ok (wk_store ?w) daily_lease (we_clock core_env (wk_calls ?w))
      \<or> (\<exists>q. map_of (ss_requests (wk_store ?w)) (jl_request daily_lease) = Some q \<and> rr_cancel q)"
    by (auto split: option.splits)
  show ?thesis
  proof
    fix r
    from cancelled_dispatch_is_fenced [OF c, of only_gateway daily r]
    show "wk_gateway (snd (dispatch_claimed core_env only_gateway daily r daily_lease ?w)) = 0" by auto
  qed
qed

text \<open>
  The services keep the invariants of the store: a pass of the trigger service over all schedules, and
  a turn of the worker with any gateway whatever it answers, leave the tables well formed, the idempotency
  keys unique and the leased requests within the concurrency limits.
\<close>

theorem services_keep_invariants:
  assumes "keys_ok s" and "within_limits s"
  shows "keys_ok (snd (materialize_all_due zones leader now fresh s))
    \<and> within_limits (snd (materialize_all_due zones leader now fresh s))
    \<and> keys_ok (wk_store (snd (run_one env gw writer \<lparr>wk_store = s, wk_gateway = g, wk_calls = n\<rparr>)))
    \<and> within_limits (wk_store (snd (run_one env gw writer \<lparr>wk_store = s, wk_gateway = g, wk_calls = n\<rparr>)))"
proof -
  let ?w = "\<lparr>wk_store = s, wk_gateway = g, wk_calls = n\<rparr>"
  have "holding keys_ok s (snd (materialize_all_due zones leader now fresh s))"
    "holding within_limits s (snd (materialize_all_due zones leader now fresh s))"
    using keys.trigger_kept(3) limits.trigger_kept(3) by (simp_all add: keeps_def)
  moreover have "holding keys_ok (wk_store ?w) (wk_store (snd (run_one env gw writer ?w)))"
    "holding within_limits (wk_store ?w) (wk_store (snd (run_one env gw writer ?w)))"
    using keys.run_one_kept [of env gw writer] limits.run_one_kept [of env gw writer] unfolding keeps_def by blast+
  ultimately show ?thesis using assms by (simp add: holding_def)
qed

theorem services_keep_invariants_witness:
  "keys_ok (wk_store (snd (run_one core_env only_gateway writer_lease
     \<lparr>wk_store = queued_store, wk_gateway = 0, wk_calls = 0\<rparr>)))"
proof -
  have "within_limits queued_store"
    using limits.execute_kept [of _ empty_sched] empty_within_limits
    by (simp add: queued_store_def holding_def list_all_iff)
  note kept = services_keep_invariants [OF sample_stores_ok(6) this, where env = core_env and gw = only_gateway and g = 0
      and n = 0 and writer = writer_lease]
  show ?thesis by (rule kept [THEN conjunct2, THEN conjunct2, THEN conjunct1])
qed

subsection \<open>Where the code falls short\<close>

text \<open>
  A request that was flagged for cancellation while it was leased, and whose lease then ran out, waits for a
  retry with the flag still set: no claim ever selects it, only a second cancellation would end it.
\<close>

lemma flagged_requests_are_not_claimed: "rr_cancel r \<Longrightarrow> (r, d) \<notin> set (claim_candidates now s)"
  by (auto simp: claim_candidates_def set_map_filter dest!: in_set_takeD split: option.splits if_splits)

lemma expired_cancellation_is_stuck:
  "case map_of (ss_requests (sched_execute [OpRequestCancel ''request_0'' (hours_after 2),
       OpClaim writer_lease ''core'' 30 (hours_after 3) ''x''] claimed_store)) ''request_0'' of
     Some r \<Rightarrow> rr_status r = RqRetryWait \<and> rr_cancel r | None \<Rightarrow> False"
  by code_simp

text \<open>
  A timer under the skip policy fires only in a pass at its exact microsecond; any later pass selects
  nothing and still moves the cursor past the timer.
\<close>

lemma skipped_timer_needs_its_instant:
  assumes "sd_kind d = TkTimer" and "sd_misfire d = MpSkip" and "sd_timer d = Some due" and "cursor < due" and "due < now"
  shows "due_occurrences zones d cursor now = Inr [due] \<and> apply_misfire d [due] now = []"
  using assms by (simp add: due_occurrences_def apply_misfire_def)

text \<open>
  A superscript digit passes \<open>isdigit\<close> and is refused by \<open>int\<close>: the expression raises \<open>int\<close>'s error instead of
  the validation error of every other malformed field.
\<close>

lemma superscript_field_is_not_validated:
  "parse_cron (char_of (178 :: nat) # '' * * * *'') = Inl (ScValueError ''int'')"
  by code_simp

end
