(* ===== verification/Multi_Domain.thy ===== *)
theory Multi_Domain
  imports Graph_Compiled Sql_Tables
begin

section \<open>Multi-writer merges: the data model\<close>

text \<open>
  \<open>operant/domain/multiwriter.py\<close>. Several writer nodes of one graph run work in workspaces of their
  own, publish patches or commits under a lease, and a merge node combines them. The policies of the
  nodes (\<open>WriterNodePolicy\<close>, \<open>MergeNodePolicy\<close>) and their enumerations are those of the graph data
  model. Timestamps are aware UTC datetimes, held as microseconds; a stored ISO text compares as its
  instant (\<open>iso_text_order\<close> of \<open>Sched_Time\<close>). The field constraints of a pydantic model are a predicate.
\<close>

datatype artifact_kind = AK_PATCH | AK_COMMIT

datatype conflict_status = CS_OPEN | CS_RESOLVED | CS_REJECTED

datatype merge_status =
    MS_CREATED | MS_RUNNING | MS_CONFLICTED | MS_REVIEW_REQUIRED | MS_SUCCEEDED | MS_FAILED
  | MS_ROLLED_BACK | MS_OUTCOME_UNKNOWN

record writer_workspace =
  ww_id :: string
  ww_run :: string
  ww_node_run :: string
  ww_key :: string
  ww_kind :: isolation_kind
  ww_isolation :: string
  ww_base :: string
  ww_paths :: "string list"
  ww_created :: int
  ww_closed :: "int option"

record writer_lease =
  wl_workspace :: string
  wl_owner :: string
  wl_token :: string
  wl_fencing :: int
  wl_expires :: int
  wl_released :: "int option"

record writer_artifact =
  wa_id :: string
  wa_workspace :: string
  wa_kind :: artifact_kind
  wa_ref :: string
  wa_sha :: string
  wa_base :: string
  wa_result :: "string option"
  wa_changed :: "string list"
  wa_evidence :: "string list"
  wa_created :: int

record writer_conflict =
  wc_id :: string
  wc_run :: string
  wc_left :: string
  wc_right :: string
  wc_hash :: string
  wc_paths :: "string list"
  wc_status :: conflict_status
  wc_resolution :: "string option"
  wc_created :: int
  wc_resolved :: "int option"

record merge_run =
  mr_id :: string
  mr_run :: string
  mr_node :: string
  mr_artifacts :: "string list"
  mr_strategy :: merge_strategy
  mr_target :: string
  mr_base :: string
  mr_status :: merge_status
  mr_revision :: int
  mr_result :: "string option"
  mr_error :: "string option"
  mr_created :: int
  mr_updated :: int

subsection \<open>Constraints\<close>

definition sized :: "nat \<Rightarrow> nat \<Rightarrow> 'a list \<Rightarrow> bool" where
  \<comment> \<open>\<open>Field(min_length=lo, max_length=hi)\<close>\<close>
  "sized lo hi xs \<longleftrightarrow> lo \<le> length xs \<and> length xs \<le> hi"

definition sized_option :: "nat \<Rightarrow> nat \<Rightarrow> 'a list option \<Rightarrow> bool" where
  "sized_option lo hi v = (case v of None \<Rightarrow> True | Some xs \<Rightarrow> sized lo hi xs)"

definition hex_digest :: "string \<Rightarrow> bool" where
  \<comment> \<open>the pattern \<open>^[0-9a-f]{64}$\<close>\<close>
  "hex_digest s \<longleftrightarrow> length s = 64 \<and> list_all (\<lambda>c. c \<in> set ''0123456789abcdef'') s"

definition workspace_valid :: "writer_workspace \<Rightarrow> bool" where
  "workspace_valid w \<longleftrightarrow>
     sized 1 300 (ww_run w) \<and> sized 1 300 (ww_node_run w) \<and> sized 1 200 (ww_key w)
     \<and> sized 1 500 (ww_isolation w) \<and> sized 7 128 (ww_base w) \<and> sized 1 256 (ww_paths w)"

definition artifact_valid :: "writer_artifact \<Rightarrow> bool" where
  "artifact_valid a \<longleftrightarrow>
     sized 1 300 (wa_workspace a) \<and> sized 1 500 (wa_ref a) \<and> hex_digest (wa_sha a)
     \<and> sized 7 128 (wa_base a) \<and> sized_option 7 128 (wa_result a) \<and> sized 0 5000 (wa_changed a)
     \<and> sized 0 200 (wa_evidence a) \<and> (wa_kind a = AK_COMMIT \<longrightarrow> wa_result a \<noteq> None)"

definition conflict_valid :: "writer_conflict \<Rightarrow> bool" where
  "conflict_valid c \<longleftrightarrow>
     sized 1 300 (wc_run c) \<and> sized 1 300 (wc_left c) \<and> sized 1 300 (wc_right c) \<and> hex_digest (wc_hash c)
     \<and> sized 1 5000 (wc_paths c) \<and> sized_option 0 500 (wc_resolution c)"

definition merge_valid :: "merge_run \<Rightarrow> bool" where
  "merge_valid m \<longleftrightarrow>
     sized 1 300 (mr_run m) \<and> sized 1 300 (mr_node m) \<and> sized 2 64 (mr_artifacts m)
     \<and> sized 1 500 (mr_target m) \<and> sized 7 128 (mr_base m) \<and> 0 \<le> mr_revision m
     \<and> sized_option 0 500 (mr_result m) \<and> sized_option 0 200 (mr_error m)"

definition writer_policy_valid :: "writer_policy \<Rightarrow> bool" where
  \<comment> \<open>\<open>WriterNodePolicy\<close> with \<open>validate_paths\<close>\<close>
  "writer_policy_valid p \<longleftrightarrow>
     sized 1 200 (writer_key p) \<and> sized 1 500 (isolation_ref p) \<and> sized 1 256 (ownership_paths p)
     \<and> distinct (ownership_paths p)
     \<and> list_all (\<lambda>path. \<not> starts_with path ''/'' \<and> ''..'' \<notin> set (split_on (CHR ''/'') path)) (ownership_paths p)"

definition merge_policy_valid :: "merge_policy \<Rightarrow> bool" where
  "merge_policy_valid p \<longleftrightarrow> sized 2 64 (source_writer_keys p)"

text \<open>A workspace owns a path that it names or that lies below one it names.\<close>

definition owned_path :: "string list \<Rightarrow> string \<Rightarrow> bool" where
  "owned_path owned path \<longleftrightarrow> list_ex (\<lambda>r. path = r \<or> starts_with path (r @ ''/'')) owned"

definition writer_overlap :: "string list \<Rightarrow> string list \<Rightarrow> string list" where
  \<comment> \<open>\<open>_ownership_overlap\<close>; \<open>min(..., key=len)\<close> keeps the left path on equal lengths\<close>
  "writer_overlap left right =
     concat (map (\<lambda>l. concat (map (\<lambda>r.
       if l = r \<or> starts_with l (r @ ''/'') \<or> starts_with r (l @ ''/'')
       then [if length r < length l then r else l] else []) right)) left)"

lemma split_on_append: "split_on c (xs @ c # ys) = split_on c xs @ split_on c ys"
proof (induction xs)
  case (Cons x xs)
  show ?case
  proof (cases "x = c")
    case False
    obtain p ps where "split_on c xs = p # ps" by (cases "split_on c xs") auto
    with False Cons show ?thesis by simp
  qed (use Cons in simp)
qed simp

lemma owned_path_owns: "owned_path owned path \<longleftrightarrow> (\<exists>r \<in> set owned. owns r path)"
proof -
  have "owns r path \<longleftrightarrow> path = r \<or> starts_with path (r @ ''/'')" for r
  proof
    assume "owns r path"
    then obtain zs where zs: "split_on (CHR ''/'') path = split_on (CHR ''/'') r @ zs"
      unfolding owns_def by (metis append_take_drop_id)
    show "path = r \<or> starts_with path (r @ ''/'')"
    proof (cases "zs = []")
      case True
      then have "join_on (CHR ''/'') (split_on (CHR ''/'') path) = join_on (CHR ''/'') (split_on (CHR ''/'') r)"
        using zs by simp
      then show ?thesis by simp
    next
      case False
      have "path = join_on (CHR ''/'') (split_on (CHR ''/'') r @ zs)" by (simp add: zs [symmetric])
      then have "path = r @ ''/'' @ join_on (CHR ''/'') zs" using False by (simp add: join_append)
      then show ?thesis by (simp add: starts_with_iff)
    qed
  next
    assume "path = r \<or> starts_with path (r @ ''/'')"
    then show "owns r path"
    proof
      assume "starts_with path (r @ ''/'')"
      then obtain t where "path = r @ CHR ''/'' # t" by (auto simp: starts_with_iff)
      then show ?thesis by (simp add: owns_def split_on_append)
    qed (simp add: owns_def)
  qed
  then show ?thesis by (auto simp: owned_path_def list_ex_iff)
qed

lemma writer_overlap_graph: "writer_overlap left right = ownership_overlap left right"
  by (simp add: writer_overlap_def ownership_overlap_def issue_if_def paths_overlap_def cong: if_cong)

lemma writer_overlap_empty_iff:
  "writer_overlap left right = [] \<longleftrightarrow>
     (\<forall>l \<in> set left. \<forall>r \<in> set right. \<not> paths_overlap l r)"
  by (auto simp: writer_overlap_def paths_overlap_def)

end
