(* ===== verification/Multi_Store.thy ===== *)
theory Multi_Store
  imports Multi_Domain Graph_Repository
begin

section \<open>Multi-writer merges: the store\<close>

text \<open>
  \<open>SQLiteMultiWriterRepository\<close> of \<open>operant/persistence/multiwriter.py\<close> over the five tables of the
  schema. Each method is one transaction of the store's context manager, rolled back when it raises.
  Violated constraints raise \<open>sqlite3.IntegrityError\<close>, which most methods turn into
  \<open>GraphConflictError\<close>. The rows a foreign key refers to in the graph tables are those of a graph store
  \<open>g\<close>. The SHA-256 of a token and the readings of the clock are arguments.
\<close>

datatype multi_error =
    MwConflict string \<comment> \<open>\<open>GraphConflictError\<close>\<close>
  | MwNotFound
  | MwValueError string
  | MwKeyError
  | MwIntegrity
  | MwTypeError
  | MwOther string \<comment> \<open>any other exception of an adapter, by the name of its type\<close>

record lease_row =
  lr_owner :: string
  lr_token_hash :: string
  lr_fencing :: int
  lr_expires :: int
  lr_released :: "int option"

record merge_row =
  mg_merge :: merge_run
  mg_owner :: "string option"
  mg_expires :: "int option"

record multi_store =
  ms_workspaces :: "(string \<times> writer_workspace) list"
  ms_leases :: "(string \<times> lease_row) list"
  ms_artifacts :: "(string \<times> writer_artifact) list"
  ms_conflicts :: "(string \<times> writer_conflict) list"
  ms_merges :: "(string \<times> merge_row) list"

type_synonym 'a mw = "(multi_store, multi_error, 'a) sx"

subsection \<open>Workspaces\<close>

definition workspace_insertable :: "graph_store \<Rightarrow> writer_workspace \<Rightarrow> multi_store \<Rightarrow> bool" where
  \<comment> \<open>checks, primary key, unique keys and foreign keys of \<open>writer_workspaces\<close>\<close>
  "workspace_insertable g w s \<longleftrightarrow>
     map_of (ms_workspaces s) (ww_id w) = None
     \<and> sized 1 200 (ww_key w) \<and> sized 1 500 (ww_isolation w) \<and> sized 7 128 (ww_base w)
     \<and> list_all (\<lambda>(i, v). ww_isolation v \<noteq> ww_isolation w \<and> (ww_run v, ww_key v) \<noteq> (ww_run w, ww_key w))
         (ms_workspaces s)
     \<and> map_of (gs_runs g) (ww_run w) \<noteq> None \<and> map_of (gs_nodes g) (ww_node_run w) \<noteq> None"

definition create_workspace :: "graph_store \<Rightarrow> writer_workspace \<Rightarrow> writer_workspace mw" where
  "create_workspace g w =
     sx_transaction
       (sx_bind sx_get (\<lambda>s.
        sx_bind (sx_guard (workspace_insertable g w s)
          (MwConflict ''writer workspace already exists or is not isolated'')) (\<lambda>_.
        sx_bind (sx_modify (\<lambda>s. s\<lparr>ms_workspaces :=
          AList.update (ww_id w) (w\<lparr>ww_closed := None\<rparr>) (ms_workspaces s)\<rparr>)) (\<lambda>_.
        sx_return w))))"

definition get_workspace :: "string \<Rightarrow> writer_workspace mw" where
  "get_workspace i =
     sx_bind sx_get (\<lambda>s.
     case map_of (ms_workspaces s) i of None \<Rightarrow> sx_raise MwNotFound | Some w \<Rightarrow> sx_return w)"

definition list_workspaces :: "string \<Rightarrow> writer_workspace list mw" where
  "list_workspaces run =
     sx_bind sx_get (\<lambda>s.
     sx_return (sort_key ww_created (filter (\<lambda>w. ww_run w = run) (map snd (ms_workspaces s)))))"

subsection \<open>Leases\<close>

definition get_lease :: "string \<Rightarrow> writer_lease option mw" where
  "get_lease i =
     sx_bind sx_get (\<lambda>s.
     sx_return (map_option (\<lambda>l. \<lparr>wl_workspace = i, wl_owner = lr_owner l, wl_token = ''redacted-at-rest'',
       wl_fencing = lr_fencing l, wl_expires = lr_expires l, wl_released = lr_released l\<rparr>)
       (map_of (ms_leases s) i)))"

definition lease_active :: "lease_row \<Rightarrow> int \<Rightarrow> bool" where
  "lease_active l now \<longleftrightarrow> lr_released l = None \<and> now < lr_expires l"

definition token_unused :: "string \<Rightarrow> string \<Rightarrow> multi_store \<Rightarrow> bool" where
  \<comment> \<open>\<open>token_hash TEXT NOT NULL UNIQUE\<close>\<close>
  "token_unused i h s \<longleftrightarrow> list_all (\<lambda>(k, l). k = i \<or> lr_token_hash l \<noteq> h) (ms_leases s)"

definition acquire_lease ::
  "(string \<Rightarrow> string) \<Rightarrow> string \<Rightarrow> string \<Rightarrow> string \<Rightarrow> int \<Rightarrow> int \<Rightarrow> writer_lease mw" where
  "acquire_lease sha i who token expires now =
     sx_bind (sx_guard (now < expires) (MwValueError ''writer lease expiry must be in the future'')) (\<lambda>_.
     sx_transaction
       (sx_bind sx_get (\<lambda>s.
        case map_of (ms_workspaces s) i of
          None \<Rightarrow> sx_raise MwNotFound
        | Some w \<Rightarrow>
            if ww_closed w \<noteq> None then sx_raise (MwConflict ''writer workspace is closed'')
            else
              let current = map_of (ms_leases s) i in
              sx_bind (sx_guard (case current of None \<Rightarrow> True | Some l \<Rightarrow> \<not> lease_active l now)
                (MwConflict ''writer workspace already has an active lease'')) (\<lambda>_.
              let fencing = (case current of None \<Rightarrow> 1 | Some l \<Rightarrow> lr_fencing l + 1) in
              sx_bind (sx_guard (token_unused i (sha token) s \<and> sized 1 300 who) MwIntegrity) (\<lambda>_.
              sx_bind (sx_modify (\<lambda>s. s\<lparr>ms_leases := AList.update i
                \<lparr>lr_owner = who, lr_token_hash = sha token, lr_fencing = fencing, lr_expires = expires,
                 lr_released = None\<rparr> (ms_leases s)\<rparr>)) (\<lambda>_.
              sx_return \<lparr>wl_workspace = i, wl_owner = who, wl_token = token, wl_fencing = fencing,
                wl_expires = expires, wl_released = None\<rparr>))))))"

definition lease_held :: "(string \<Rightarrow> string) \<Rightarrow> writer_lease \<Rightarrow> lease_row \<Rightarrow> bool" where
  \<comment> \<open>the row is still the one of this owner, token and fencing number, and was not released\<close>
  "lease_held sha lease l \<longleftrightarrow>
     lr_owner l = wl_owner lease \<and> lr_token_hash l = sha (wl_token lease) \<and> lr_fencing l = wl_fencing lease
     \<and> lr_released l = None"

definition renew_lease :: "(string \<Rightarrow> string) \<Rightarrow> writer_lease \<Rightarrow> int \<Rightarrow> int \<Rightarrow> writer_lease mw" where
  "renew_lease sha lease expires now =
     sx_bind (sx_guard (now < expires) (MwValueError ''writer lease expiry must be in the future'')) (\<lambda>_.
     sx_transaction
       (sx_bind sx_get (\<lambda>s.
        let P = (\<lambda>k l. k = wl_workspace lease \<and> (lease_held sha lease l \<and> now < lr_expires l)) in
        sx_bind (sx_modify (\<lambda>s. s\<lparr>ms_leases := sql_update P (\<lambda>l. l\<lparr>lr_expires := expires\<rparr>) (ms_leases s)\<rparr>)) (\<lambda>_.
        sx_bind (sx_guard (sql_rows P (ms_leases s) = 1)
          (MwConflict ''writer lease is expired, released, or fenced'')) (\<lambda>_.
        sx_return (lease\<lparr>wl_expires := expires\<rparr>))))))"

definition release_lease :: "(string \<Rightarrow> string) \<Rightarrow> writer_lease \<Rightarrow> int \<Rightarrow> writer_lease mw" where
  "release_lease sha lease now =
     sx_transaction
       (sx_bind sx_get (\<lambda>s.
        let P = (\<lambda>k l. k = wl_workspace lease \<and> lease_held sha lease l) in
        sx_bind (sx_modify (\<lambda>s. s\<lparr>ms_leases :=
          sql_update P (\<lambda>l. l\<lparr>lr_released := Some now, lr_expires := now\<rparr>) (ms_leases s)\<rparr>)) (\<lambda>_.
        sx_bind (sx_guard (sql_rows P (ms_leases s) = 1) (MwConflict ''writer lease is released or fenced'')) (\<lambda>_.
        sx_return (lease\<lparr>wl_expires := now, wl_released := Some now\<rparr>)))))"

definition lease_current :: "(string \<Rightarrow> string) \<Rightarrow> multi_store \<Rightarrow> writer_lease \<Rightarrow> int \<Rightarrow> bool" where
  "lease_current sha s lease now =
     (case map_of (ms_leases s) (wl_workspace lease) of
        None \<Rightarrow> False
      | Some l \<Rightarrow> lease_held sha lease l \<and> now < lr_expires l)"

definition assert_lease :: "(string \<Rightarrow> string) \<Rightarrow> writer_lease \<Rightarrow> int \<Rightarrow> unit mw" where
  "assert_lease sha lease now =
     sx_bind sx_get (\<lambda>s. sx_guard (lease_current sha s lease now)
       (MwConflict ''writer lease is expired, released, or fenced''))"

subsection \<open>Artifacts\<close>

definition artifact_insertable :: "writer_artifact \<Rightarrow> multi_store \<Rightarrow> bool" where
  \<comment> \<open>keys and checks of \<open>writer_artifacts\<close>\<close>
  "artifact_insertable a s \<longleftrightarrow>
     map_of (ms_artifacts s) (wa_id a) = None
     \<and> list_all (\<lambda>(i, b). wa_ref b \<noteq> wa_ref a) (ms_artifacts s) \<and> artifact_valid a"

definition publish_artifact ::
  "(string \<Rightarrow> string) \<Rightarrow> writer_artifact \<Rightarrow> writer_lease \<Rightarrow> int \<Rightarrow> writer_artifact mw" where
  "publish_artifact sha a lease now =
     sx_bind (sx_guard (wa_workspace a = wl_workspace lease)
       (MwConflict ''writer lease belongs to another workspace'')) (\<lambda>_.
     sx_transaction
       (sx_bind (assert_lease sha lease now) (\<lambda>_.
        sx_bind sx_get (\<lambda>s.
        case map_of (ms_workspaces s) (wa_workspace a) of
          None \<Rightarrow> sx_raise MwTypeError
        | Some w \<Rightarrow>
            sx_bind (sx_guard (wa_base a = ww_base w) (MwConflict ''writer artifact has a stale base revision'')) (\<lambda>_.
            sx_bind (sx_guard (list_all (owned_path (ww_paths w)) (wa_changed a))
              (MwConflict ''writer artifact changes paths outside ownership'')) (\<lambda>_.
            sx_bind (sx_guard (wa_changed a \<noteq> [] \<and> wa_evidence a \<noteq> [])
              (MwConflict ''writer artifact requires changed paths and test evidence'')) (\<lambda>_.
            sx_bind (sx_guard (artifact_insertable a s)
              (MwConflict ''writer artifact already exists or is invalid'')) (\<lambda>_.
            sx_bind (sx_modify (\<lambda>s. s\<lparr>ms_artifacts := AList.update (wa_id a) a (ms_artifacts s)\<rparr>)) (\<lambda>_.
            sx_return a)))))))))"

definition get_artifact :: "string \<Rightarrow> writer_artifact mw" where
  "get_artifact i =
     sx_bind sx_get (\<lambda>s.
     case map_of (ms_artifacts s) i of None \<Rightarrow> sx_raise MwNotFound | Some a \<Rightarrow> sx_return a)"

definition list_artifacts :: "string \<Rightarrow> writer_artifact list mw" where
  "list_artifacts run =
     sx_bind sx_get (\<lambda>s.
     sx_return (sort_key wa_created (filter
       (\<lambda>a. case map_of (ms_workspaces s) (wa_workspace a) of None \<Rightarrow> False | Some w \<Rightarrow> ww_run w = run)
       (map snd (ms_artifacts s)))))"

subsection \<open>Conflicts\<close>

definition find_conflict :: "string \<Rightarrow> string \<Rightarrow> multi_store \<Rightarrow> writer_conflict option" where
  "find_conflict run h s = list_find (\<lambda>c. wc_run c = run \<and> wc_hash c = h) (map snd (ms_conflicts s))"

definition conflict_insertable :: "writer_conflict \<Rightarrow> multi_store \<Rightarrow> bool" where
  \<comment> \<open>the constraints that \<open>INSERT OR IGNORE\<close> skips over\<close>
  "conflict_insertable c s \<longleftrightarrow>
     map_of (ms_conflicts s) (wc_id c) = None \<and> find_conflict (wc_run c) (wc_hash c) s = None
     \<and> wc_left c \<noteq> wc_right c \<and> hex_digest (wc_hash c)"

definition conflict_referenced :: "graph_store \<Rightarrow> writer_conflict \<Rightarrow> multi_store \<Rightarrow> bool" where
  \<comment> \<open>the foreign keys\<close>
  "conflict_referenced g c s \<longleftrightarrow>
     map_of (gs_runs g) (wc_run c) \<noteq> None \<and> map_of (ms_artifacts s) (wc_left c) \<noteq> None
     \<and> map_of (ms_artifacts s) (wc_right c) \<noteq> None"

definition put_conflict :: "graph_store \<Rightarrow> writer_conflict \<Rightarrow> writer_conflict mw" where
  "put_conflict g c =
     sx_transaction
       (sx_bind sx_get (\<lambda>s.
        sx_bind
          (if conflict_insertable c s then
             sx_bind (sx_guard (conflict_referenced g c s) MwIntegrity) (\<lambda>_.
             sx_modify (\<lambda>s. s\<lparr>ms_conflicts :=
               AList.update (wc_id c) (c\<lparr>wc_resolved := None\<rparr>) (ms_conflicts s)\<rparr>))
           else sx_return ()) (\<lambda>_.
        sx_bind sx_get (\<lambda>s.
        case find_conflict (wc_run c) (wc_hash c) s of
          None \<Rightarrow> sx_raise MwTypeError
        | Some row \<Rightarrow> sx_return row))))"

definition list_conflicts :: "string \<Rightarrow> writer_conflict list mw" where
  "list_conflicts run =
     sx_bind sx_get (\<lambda>s.
     sx_return (sort_key wc_created (filter (\<lambda>c. wc_run c = run) (map snd (ms_conflicts s)))))"

definition resolve_conflict :: "string \<Rightarrow> string \<Rightarrow> bool \<Rightarrow> int \<Rightarrow> writer_conflict mw" where
  "resolve_conflict i resolution rejected now =
     sx_transaction
       (sx_bind sx_get (\<lambda>s.
        let P = (\<lambda>k c. k = i \<and> wc_status c = CS_OPEN) in
        sx_bind (sx_modify (\<lambda>s. s\<lparr>ms_conflicts := sql_update P
          (\<lambda>c. c\<lparr>wc_status := if rejected then CS_REJECTED else CS_RESOLVED,
                 wc_resolution := Some resolution, wc_resolved := Some now\<rparr>) (ms_conflicts s)\<rparr>)) (\<lambda>_.
        sx_bind (sx_guard (sql_rows P (ms_conflicts s) = 1)
          (MwConflict ''writer conflict is missing or already resolved'')) (\<lambda>_.
        sx_bind sx_get (\<lambda>s.
        case map_of (ms_conflicts s) i of None \<Rightarrow> sx_raise MwTypeError | Some c \<Rightarrow> sx_return c)))))"

end
