(* ===== verification/Multi_Merges.thy ===== *)
theory Multi_Merges
  imports Multi_Store
begin

section \<open>Multi-writer merges: the rows of merge runs\<close>

text \<open>
  The methods of \<open>SQLiteMultiWriterRepository\<close> on \<open>merge_runs\<close>. A write is a compare-and-swap on the
  revision of the row; a running merge has an owner with a lease on its execution, and the partial
  unique index admits one running merge per target.
\<close>

definition target_free :: "string \<Rightarrow> string \<Rightarrow> multi_store \<Rightarrow> bool" where
  \<comment> \<open>\<open>uq_merge_runs_running_target\<close>: no other running merge has the target\<close>
  "target_free i target s \<longleftrightarrow>
     list_all (\<lambda>(k, r). k = i \<or> mr_status (mg_merge r) \<noteq> MS_RUNNING \<or> mr_target (mg_merge r) \<noteq> target)
       (ms_merges s)"

definition error_storable :: "string option \<Rightarrow> bool" where
  \<comment> \<open>the check of \<open>error_code\<close>\<close>
  "error_storable e = sized_option 1 200 e"

definition repo_create_merge :: "graph_store \<Rightarrow> merge_run \<Rightarrow> merge_run mw" where
  \<comment> \<open>the owner columns are left null, which the schema refuses for a running merge\<close>
  "repo_create_merge g m =
     sx_transaction
       (sx_bind sx_get (\<lambda>s.
        sx_bind (sx_guard (map_of (ms_merges s) (mr_id m) = None \<and> merge_valid m \<and> error_storable (mr_error m)
            \<and> mr_status m \<noteq> MS_RUNNING
            \<and> map_of (gs_runs g) (mr_run m) \<noteq> None)
          (MwConflict ''merge run already exists or is invalid'')) (\<lambda>_.
        sx_bind (sx_modify (\<lambda>s. s\<lparr>ms_merges :=
          AList.update (mr_id m) \<lparr>mg_merge = m, mg_owner = None, mg_expires = None\<rparr> (ms_merges s)\<rparr>)) (\<lambda>_.
        sx_return m))))"

definition get_merge_run :: "string \<Rightarrow> merge_run mw" where
  "get_merge_run i =
     sx_bind sx_get (\<lambda>s.
     case map_of (ms_merges s) i of None \<Rightarrow> sx_raise MwNotFound | Some r \<Rightarrow> sx_return (mg_merge r))"

definition list_merge_runs :: "string \<Rightarrow> merge_run list mw" where
  "list_merge_runs run =
     sx_bind sx_get (\<lambda>s.
     sx_return (sort_key mr_created (filter (\<lambda>m. mr_run m = run) (map (mg_merge \<circ> snd) (ms_merges s)))))"

definition write_merge :: "merge_run \<Rightarrow> merge_row \<Rightarrow> merge_row" where
  \<comment> \<open>the columns that a transition sets; the execution columns become null\<close>
  "write_merge m r = r\<lparr>mg_merge := (mg_merge r)\<lparr>mr_status := mr_status m, mr_revision := mr_revision m,
     mr_result := mr_result m, mr_error := mr_error m, mr_updated := mr_updated m\<rparr>,
     mg_owner := None, mg_expires := None\<rparr>"

definition update_merge_run :: "merge_run \<Rightarrow> int \<Rightarrow> merge_run mw" where
  "update_merge_run m expected =
     sx_bind (sx_guard (mr_revision m = expected + 1) (MwConflict ''merge run revision conflict'')) (\<lambda>_.
     sx_bind (sx_guard (mr_status m \<noteq> MS_RUNNING)
       (MwConflict ''running merge runs require an execution owner lease'')) (\<lambda>_.
     sx_transaction
       (sx_bind sx_get (\<lambda>s.
        let P = (\<lambda>k r. k = mr_id m \<and> mr_revision (mg_merge r) = expected) in
        sx_bind (sx_guard (sql_rows P (ms_merges s) = 0 \<or> error_storable (mr_error m))
          (MwConflict ''merge target already has an exclusive running merge'')) (\<lambda>_.
        sx_bind (sx_modify (\<lambda>s. s\<lparr>ms_merges := sql_update P (write_merge m) (ms_merges s)\<rparr>)) (\<lambda>_.
        sx_bind (sx_guard (sql_rows P (ms_merges s) = 1) (MwConflict ''merge run revision conflict'')) (\<lambda>_.
        sx_return m)))))))"

definition startable :: "merge_status \<Rightarrow> bool" where
  "startable st \<longleftrightarrow> st \<notin> {MS_RUNNING, MS_SUCCEEDED, MS_FAILED, MS_ROLLED_BACK, MS_OUTCOME_UNKNOWN}"

definition claim_merge_run :: "merge_run \<Rightarrow> string \<Rightarrow> int \<Rightarrow> int \<Rightarrow> merge_run mw" where
  "claim_merge_run m who expires now =
     (let claimed = m\<lparr>mr_status := MS_RUNNING, mr_revision := mr_revision m + 1, mr_result := None,
            mr_error := None, mr_updated := now\<rparr> in
      sx_transaction
        (sx_bind sx_get (\<lambda>s.
         let P = (\<lambda>k r. k = mr_id m \<and> (mr_revision (mg_merge r) = mr_revision m
               \<and> startable (mr_status (mg_merge r)))) in
         sx_bind (sx_guard (list_all (\<lambda>(k, r). P k r \<longrightarrow> target_free k (mr_target (mg_merge r)) s \<and> sized 1 300 who) (ms_merges s))
           (MwConflict ''merge target already has an exclusive running merge'')) (\<lambda>_.
         sx_bind (sx_modify (\<lambda>s. s\<lparr>ms_merges := sql_update P
           (\<lambda>r. (write_merge claimed r)\<lparr>mg_owner := Some who, mg_expires := Some expires\<rparr>) (ms_merges s)\<rparr>)) (\<lambda>_.
         sx_bind (sx_guard (sql_rows P (ms_merges s) = 1) (MwConflict ''merge run execution claim conflicts'')) (\<lambda>_.
         sx_return claimed))))))"

definition running_owned_by :: "string \<Rightarrow> merge_row \<Rightarrow> bool" where
  "running_owned_by who r \<longleftrightarrow> mr_status (mg_merge r) = MS_RUNNING \<and> mg_owner r = Some who"

definition renew_merge_run_lease :: "string \<Rightarrow> string \<Rightarrow> int \<Rightarrow> int \<Rightarrow> unit mw" where
  "renew_merge_run_lease i who expires now =
     sx_transaction
       (sx_bind sx_get (\<lambda>s.
        let P = (\<lambda>k r. k = i \<and> running_owned_by who r) in
        sx_bind (sx_modify (\<lambda>s. s\<lparr>ms_merges := sql_update P
          (\<lambda>r. r\<lparr>mg_expires := Some expires, mg_merge := (mg_merge r)\<lparr>mr_updated := now\<rparr>\<rparr>) (ms_merges s)\<rparr>)) (\<lambda>_.
        sx_guard (sql_rows P (ms_merges s) = 1) (MwConflict ''merge run execution lease was lost''))))"

definition complete_owned_merge_run :: "merge_run \<Rightarrow> int \<Rightarrow> string \<Rightarrow> merge_run mw" where
  "complete_owned_merge_run m expected who =
     sx_bind (sx_guard (mr_revision m = expected + 1) (MwConflict ''merge run revision conflict'')) (\<lambda>_.
     sx_bind (sx_guard (mr_status m \<noteq> MS_RUNNING)
       (MwConflict ''owned merge completion requires a known terminal status'')) (\<lambda>_.
     sx_transaction
       (sx_bind sx_get (\<lambda>s.
        let P = (\<lambda>k r. k = mr_id m \<and> (mr_revision (mg_merge r) = expected \<and> running_owned_by who r)) in
        sx_bind (sx_guard (sql_rows P (ms_merges s) = 0 \<or> error_storable (mr_error m)) MwIntegrity) (\<lambda>_.
        sx_bind (sx_modify (\<lambda>s. s\<lparr>ms_merges := sql_update P (write_merge m) (ms_merges s)\<rparr>)) (\<lambda>_.
        sx_bind (sx_guard (sql_rows P (ms_merges s) = 1) (MwConflict ''merge run owned completion conflicts'')) (\<lambda>_.
        sx_return m)))))))"

definition execution_expired :: "int \<Rightarrow> merge_row \<Rightarrow> bool" where
  "execution_expired now r \<longleftrightarrow>
     mr_status (mg_merge r) = MS_RUNNING
     \<and> (case mg_expires r of None \<Rightarrow> True | Some t \<Rightarrow> t \<le> now)"

definition close_unknown :: "int \<Rightarrow> merge_row \<Rightarrow> merge_row" where
  "close_unknown now r = r\<lparr>mg_merge := (mg_merge r)\<lparr>mr_status := MS_OUTCOME_UNKNOWN,
     mr_revision := mr_revision (mg_merge r) + 1, mr_result := None,
     mr_error := Some ''merge.manual_reconcile_required'', mr_updated := now\<rparr>,
     mg_owner := None, mg_expires := None\<rparr>"

definition reconcile_incomplete_merge_runs :: "int \<Rightarrow> int mw" where
  "reconcile_incomplete_merge_runs now =
     sx_transaction
       (sx_bind sx_get (\<lambda>s.
        let P = (\<lambda>k r. execution_expired now r) in
        sx_bind (sx_modify (\<lambda>s. s\<lparr>ms_merges := sql_update P (close_unknown now) (ms_merges s)\<rparr>)) (\<lambda>_.
        sx_return (int (sql_rows P (ms_merges s))))))"

definition repo_reconcile_merge ::
  "string \<Rightarrow> int \<Rightarrow> merge_status \<Rightarrow> string option \<Rightarrow> string option \<Rightarrow> int \<Rightarrow> merge_run mw" where
  "repo_reconcile_merge i expected status result error now =
     sx_bind (sx_guard (status \<in> {MS_SUCCEEDED, MS_FAILED, MS_ROLLED_BACK})
       (MwConflict ''merge reconciliation requires a known terminal status'')) (\<lambda>_.
     sx_bind (sx_transaction
       (sx_bind sx_get (\<lambda>s.
        let P = (\<lambda>k r. k = i \<and> (mr_revision (mg_merge r) = expected \<and> mr_status (mg_merge r) = MS_OUTCOME_UNKNOWN)) in
        sx_bind (sx_guard (sql_rows P (ms_merges s) = 0 \<or> error_storable error) MwIntegrity) (\<lambda>_.
        sx_bind (sx_modify (\<lambda>s. s\<lparr>ms_merges := sql_update P
          (\<lambda>r. r\<lparr>mg_merge := (mg_merge r)\<lparr>mr_status := status, mr_revision := mr_revision (mg_merge r) + 1,
            mr_result := result, mr_error := error, mr_updated := now\<rparr>\<rparr>) (ms_merges s)\<rparr>)) (\<lambda>_.
        sx_guard (sql_rows P (ms_merges s) = 1) (MwConflict ''merge reconciliation state conflicts''))))))
     (\<lambda>_. get_merge_run i))"

end
