(* ===== verification/Multi_Runtime.thy ===== *)
theory Multi_Runtime
  imports Multi_Merges
begin

section \<open>Multi-writer merges: the runtime\<close>

text \<open>
  \<open>MultiWriterRuntime\<close> of \<open>operant/application/multiwriter.py\<close>. The artifact and merge adapters are
  protocols: a function that checks an artifact, and a record of functions on a state \<open>'g\<close> of their own
  (the Git worktrees). Every call of the repository is one transaction; before the n-th one the
  transactions that other threads and processes have run meanwhile, \<open>me_others n\<close>, take effect on the
  store (the heartbeat of a running merge is one of them), and the clock reads \<open>me_clock n\<close>. The graph
  repository is read only, as the store \<open>me_graph\<close>.
\<close>

datatype adapter_error =
    AeUnknown \<comment> \<open>\<open>MergeOutcomeUnknownError\<close>\<close>
  | AeOther string \<comment> \<open>any other exception, by the name of its type\<close>

record 'g merge_adapter =
  ma_merge :: "merge_run \<Rightarrow> writer_artifact list \<Rightarrow> writer_workspace list \<Rightarrow> writer_conflict list \<Rightarrow> 'g
     \<Rightarrow> (adapter_error + string) \<times> 'g"
  ma_rollback :: "merge_run \<Rightarrow> 'g \<Rightarrow> (adapter_error + unit) \<times> 'g"

record conflict_reason =
  cr_left :: string
  cr_right :: string
  cr_paths :: "string list"
  cr_stale :: bool
  cr_ownership :: "string list"

record multi_env =
  me_owner :: string
  me_ttl :: int
  me_clock :: "nat \<Rightarrow> int"
  me_fresh :: "nat \<Rightarrow> string"
  me_others :: "nat \<Rightarrow> multi_store \<Rightarrow> multi_store"
  me_graph :: graph_store
  me_sha :: "string \<Rightarrow> string"
  me_digest :: "conflict_reason \<Rightarrow> string"
  me_verify :: "writer_workspace \<Rightarrow> writer_artifact \<Rightarrow> multi_error + unit"

record 'g multi_world =
  mx_store :: multi_store
  mx_git :: 'g
  mx_calls :: nat

type_synonym ('g, 'a) mx = "('g multi_world, multi_error, 'a) sx"

definition seconds_from :: "int \<Rightarrow> int \<Rightarrow> int" where
  \<comment> \<open>\<open>now + timedelta(seconds=n)\<close>\<close>
  "seconds_from now n = now + n * 1000000"

definition repo_call :: "multi_env \<Rightarrow> (nat \<Rightarrow> int \<Rightarrow> 'a mw) \<Rightarrow> ('g, 'a) mx" where
  "repo_call env f = (\<lambda>w.
     case f (mx_calls w) (me_clock env (mx_calls w)) (me_others env (mx_calls w) (mx_store w)) of
       (r, s) \<Rightarrow> (r, w\<lparr>mx_store := s, mx_calls := mx_calls w + 1\<rparr>))"

definition adapter_call :: "('g \<Rightarrow> (adapter_error + 'a) \<times> 'g) \<Rightarrow> ('g, adapter_error + 'a) mx" where
  \<comment> \<open>a call of the merge adapter whose exceptions the caller handles\<close>
  "adapter_call f = (\<lambda>w. case f (mx_git w) of (r, g) \<Rightarrow> (Inr r, w\<lparr>mx_git := g\<rparr>))"

subsection \<open>The default adapters\<close>

definition reference_verify :: "writer_workspace \<Rightarrow> writer_artifact \<Rightarrow> multi_error + unit" where
  "reference_verify w a =
     (if wa_kind a = AK_PATCH \<and> (case wa_result a of None \<Rightarrow> False | Some r \<Rightarrow> r \<noteq> [])
      then Inl (MwValueError ''patch artifact cannot claim a result revision'') else Inr ())"

definition unavailable_adapter :: "'g merge_adapter" where
  "unavailable_adapter =
     \<lparr>ma_merge = \<lambda>m as ws cs g. (Inl (AeOther ''RuntimeError''), g), ma_rollback = \<lambda>m g. (Inr (), g)\<rparr>"

subsection \<open>Workspaces, leases and artifacts\<close>

definition start_runtime :: "multi_env \<Rightarrow> ('g, int) mx" where
  \<comment> \<open>\<open>__init__\<close>\<close>
  "start_runtime env =
     sx_bind (sx_guard (3 \<le> me_ttl env \<and> me_ttl env \<le> 3600)
       (MwValueError ''merge execution lease must be between 3 and 3600 seconds'')) (\<lambda>_.
     repo_call env (\<lambda>n now. reconcile_incomplete_merge_runs now))"

definition rt_create_workspace :: "multi_env \<Rightarrow> writer_workspace \<Rightarrow> ('g, writer_workspace) mx" where
  "rt_create_workspace env w =
     sx_bind (sx_guard (ww_isolation w \<noteq> ww_run w)
       (MwValueError ''writer isolation cannot be the graph run workspace'')) (\<lambda>_.
     repo_call env (\<lambda>n now. create_workspace (me_graph env) w))"

definition ttl_guard :: "int \<Rightarrow> ('g, unit) mx" where
  "ttl_guard ttl = sx_guard (1 \<le> ttl \<and> ttl \<le> 3600)
     (MwValueError ''writer lease TTL must be between 1 and 3600 seconds'')"

definition rt_acquire_lease :: "multi_env \<Rightarrow> string \<Rightarrow> string \<Rightarrow> int \<Rightarrow> ('g, writer_lease) mx" where
  "rt_acquire_lease env i who ttl =
     sx_bind (ttl_guard ttl) (\<lambda>_.
     repo_call env (\<lambda>n now. acquire_lease (me_sha env) i who (''writer_lease_'' @ me_fresh env n)
       (seconds_from now ttl) now))"

definition rt_renew_lease :: "multi_env \<Rightarrow> writer_lease \<Rightarrow> int \<Rightarrow> ('g, writer_lease) mx" where
  "rt_renew_lease env lease ttl =
     sx_bind (ttl_guard ttl) (\<lambda>_.
     repo_call env (\<lambda>n now. renew_lease (me_sha env) lease (seconds_from now ttl) now))"

definition rt_publish_artifact :: "multi_env \<Rightarrow> writer_artifact \<Rightarrow> writer_lease \<Rightarrow> ('g, writer_artifact) mx" where
  "rt_publish_artifact env a lease =
     sx_bind (repo_call env (\<lambda>n now. get_workspace (wa_workspace a))) (\<lambda>w.
     sx_bind (sx_lift (me_verify env w a)) (\<lambda>_.
     repo_call env (\<lambda>n now. publish_artifact (me_sha env) a lease now)))"

subsection \<open>Conflicts between artifacts\<close>

fun pairs_of :: "'a list \<Rightarrow> ('a \<times> 'a) list" where
  \<comment> \<open>\<open>combinations(xs, 2)\<close>\<close>
  "pairs_of [] = []"
| "pairs_of (x # xs) = map (Pair x) xs @ pairs_of xs"

definition conflict_between ::
  "writer_artifact \<Rightarrow> writer_workspace \<Rightarrow> writer_artifact \<Rightarrow> writer_workspace \<Rightarrow> conflict_reason option" where
  "conflict_between l lw r rw =
     (if ww_key lw = ww_key rw then None
      else
        let changed = filter (\<lambda>p. p \<in> set (wa_changed r)) (wa_changed l);
            ownership = writer_overlap (ww_paths lw) (ww_paths rw);
            stale = (wa_base l \<noteq> wa_base r);
            paths = (if stale \<and> changed @ ownership = [] then wa_changed l @ wa_changed r
                     else changed @ ownership)
        in
          if paths = [] \<and> \<not> stale then None
          else Some \<lparr>cr_left = min (wa_id l) (wa_id r), cr_right = max (wa_id l) (wa_id r),
                     cr_paths = sort (remdups paths), cr_stale = stale,
                     cr_ownership = sort (remdups ownership)\<rparr>)"

definition conflict_for :: "(conflict_reason \<Rightarrow> string) \<Rightarrow> string \<Rightarrow> conflict_reason \<Rightarrow> string \<Rightarrow> int \<Rightarrow> writer_conflict" where
  "conflict_for digest run reason i now =
     \<lparr>wc_id = i, wc_run = run, wc_left = cr_left reason, wc_right = cr_right reason,
      wc_hash = digest reason, wc_paths = cr_paths reason, wc_status = CS_OPEN, wc_resolution = None,
      wc_created = now, wc_resolved = None\<rparr>"

definition record_conflict :: "multi_env \<Rightarrow> string \<Rightarrow> conflict_reason \<Rightarrow> ('g, writer_conflict) mx" where
  "record_conflict env run reason =
     repo_call env (\<lambda>n now.
       let c = conflict_for (me_digest env) run reason (''writer_conflict_'' @ me_fresh env n) now in
       sx_bind (sx_guard (conflict_valid c) (MwValueError ''ValidationError'')) (\<lambda>_.
       put_conflict (me_graph env) c))"

fun detect_pairs ::
  "multi_env \<Rightarrow> string \<Rightarrow> (string \<times> writer_workspace) list \<Rightarrow> (writer_artifact \<times> writer_artifact) list
     \<Rightarrow> ('g, writer_conflict list) mx" where
  "detect_pairs env run workspaces [] = sx_return []"
| "detect_pairs env run workspaces ((l, r) # pairs) =
     (case (map_of workspaces (wa_workspace l), map_of workspaces (wa_workspace r)) of
        (Some lw, Some rw) \<Rightarrow>
          (case conflict_between l lw r rw of
             None \<Rightarrow> detect_pairs env run workspaces pairs
           | Some reason \<Rightarrow>
               sx_bind (record_conflict env run reason) (\<lambda>c.
               sx_bind (detect_pairs env run workspaces pairs) (\<lambda>cs. sx_return (c # cs))))
      | _ \<Rightarrow> sx_raise MwKeyError)"

definition detect_conflicts :: "multi_env \<Rightarrow> string \<Rightarrow> ('g, writer_conflict list) mx" where
  "detect_conflicts env run =
     sx_bind (repo_call env (\<lambda>n now. list_artifacts run)) (\<lambda>artifacts.
     sx_bind (repo_call env (\<lambda>n now. list_workspaces run)) (\<lambda>workspaces.
     detect_pairs env run (map (\<lambda>w. (ww_id w, w)) workspaces) (pairs_of artifacts)))"

subsection \<open>The inputs of a merge\<close>

definition merge_policy_of :: "workflow_definition \<Rightarrow> string \<Rightarrow> multi_error + merge_policy" where
  \<comment> \<open>\<open>_merge_policy\<close>\<close>
  "merge_policy_of def node =
     (case list_find (\<lambda>n. nd_id n = node) (wf_nodes def) of
        None \<Rightarrow> Inl (MwConflict ''merge run does not reference a frozen Merge node'')
      | Some n \<Rightarrow>
          (case nd_merge n of
             Some p \<Rightarrow>
               if nd_kind n = NK_MERGE then Inr p
               else Inl (MwConflict ''merge run does not reference a frozen Merge node'')
           | None \<Rightarrow> Inl (MwConflict ''merge run does not reference a frozen Merge node'')))"

definition frozen_definition :: "graph_store \<Rightarrow> string \<Rightarrow> multi_error + workflow_definition" where
  "frozen_definition g run =
     (case map_of (gs_runs g) run of
        None \<Rightarrow> Inl MwKeyError
      | Some r \<Rightarrow> (case map_of (gs_definitions g) (gr_definition r) of None \<Rightarrow> Inl MwKeyError | Some d \<Rightarrow> Inr d))"

definition workspace_bound :: "node_spec \<Rightarrow> writer_workspace \<Rightarrow> bool" where
  \<comment> \<open>the workspace has the identity that the frozen writer policy of its node gives it\<close>
  "workspace_bound spec w \<longleftrightarrow>
     nd_kind spec \<noteq> NK_MERGE \<and> nd_writes spec
     \<and> (case nd_writer spec of
          None \<Rightarrow> False
        | Some p \<Rightarrow> writer_key p = ww_key w \<and> writer_isolation_kind p = ww_kind w
            \<and> isolation_ref p = ww_isolation w \<and> ownership_paths p = ww_paths w)"

definition binding_check :: "graph_store \<Rightarrow> workflow_definition \<Rightarrow> string \<Rightarrow> writer_workspace \<Rightarrow> multi_error + unit" where
  "binding_check g def run w =
     (if ww_run w \<noteq> run then Inl (MwConflict ''merge artifact belongs to another Graph Run'')
      else
        (case map_of (gs_nodes g) (ww_node_run w) of
           None \<Rightarrow> Inl (MwConflict ''merge writer node binding is missing'')
         | Some node \<Rightarrow>
             (case map_of (rev (map (\<lambda>n. (nd_id n, n)) (wf_nodes def))) (nr_node node) of
                None \<Rightarrow> Inl (MwConflict ''merge writer node binding differs from the frozen Graph'')
              | Some spec \<Rightarrow>
                  if nr_run node = run \<and> workspace_bound spec w then Inr ()
                  else Inl (MwConflict ''merge writer node binding differs from the frozen Graph''))))"

definition merge_inputs ::
  "multi_env \<Rightarrow> merge_run \<Rightarrow> (string \<times> int) option
     \<Rightarrow> ('g, merge_policy \<times> writer_artifact list \<times> writer_workspace list) mx" where
  \<comment> \<open>the third argument is the identity of the definition the caller names\<close>
  "merge_inputs env m named =
     sx_bind (sx_lift (frozen_definition (me_graph env) (mr_run m))) (\<lambda>frozen.
     sx_bind (sx_guard (case named of None \<Rightarrow> True | Some key \<Rightarrow> key = (wf_id frozen, wf_version frozen))
       (MwConflict ''merge definition differs from the Graph Run'')) (\<lambda>_.
     sx_bind (sx_lift (merge_policy_of frozen (mr_node m))) (\<lambda>policy.
     sx_bind (sx_each (\<lambda>i. repo_call env (\<lambda>n now. get_artifact i)) (mr_artifacts m)) (\<lambda>artifacts.
     sx_bind (sx_guard (distinct (map wa_workspace artifacts))
       (MwConflict ''merge requires artifacts from distinct writer workspaces'')) (\<lambda>_.
     sx_bind (sx_each (\<lambda>a. repo_call env (\<lambda>n now. get_workspace (wa_workspace a))) artifacts) (\<lambda>workspaces.
     sx_bind (sx_guard (length workspaces = length (source_writer_keys policy)
         \<and> set (map ww_key workspaces) = set (source_writer_keys policy))
       (MwConflict ''merge artifacts do not cover the Merge node writer set'')) (\<lambda>_.
     sx_bind (sx_each (\<lambda>w. sx_lift (binding_check (me_graph env) frozen (mr_run m) w)) workspaces) (\<lambda>_.
     sx_return (policy, artifacts, workspaces)))))))))"

definition assert_workspace_leases ::
  "multi_env \<Rightarrow> writer_workspace list \<Rightarrow> writer_lease list \<Rightarrow> ('g, unit) mx" where
  "assert_workspace_leases env workspaces leases =
     (let by_workspace = fold (\<lambda>l. AList.update (wl_workspace l) l) leases [] in
      sx_bind (sx_guard (set (map fst by_workspace) = set (map ww_id workspaces))
        (MwConflict ''one current writer lease is required per merge artifact'')) (\<lambda>_.
      sx_bind (sx_each (\<lambda>l. repo_call env (\<lambda>n now. assert_lease (me_sha env) l now)) (map snd by_workspace))
        (\<lambda>_. sx_return ())))"

subsection \<open>Merge runs\<close>

definition create_merge_run ::
  "multi_env \<Rightarrow> merge_run \<Rightarrow> string \<times> int \<Rightarrow> writer_lease list \<Rightarrow> ('g, merge_run) mx" where
  "create_merge_run env m named leases =
     sx_bind (merge_inputs env m (Some named)) (\<lambda>(policy, artifacts, workspaces).
     sx_bind (sx_guard (mr_strategy m = merge_strategy policy)
       (MwConflict ''merge strategy does not match the frozen Merge node'')) (\<lambda>_.
     sx_bind (sx_guard (list_all (\<lambda>a. wa_base a = mr_base m) artifacts)
       (MwConflict ''merge contains an artifact with a stale base revision'')) (\<lambda>_.
     sx_bind (sx_guard (mr_target m \<notin> set (map ww_isolation workspaces))
       (MwConflict ''merge target must use a separate isolated workspace'')) (\<lambda>_.
     sx_bind (assert_workspace_leases env workspaces leases) (\<lambda>_.
     sx_bind (repo_call env (\<lambda>n now. list_conflicts (mr_run m))) (\<lambda>conflicts.
     let m' = (if list_ex (\<lambda>c. wc_status c = CS_OPEN) conflicts then m\<lparr>mr_status := MS_CONFLICTED\<rparr> else m) in
     repo_call env (\<lambda>n now. repo_create_merge (me_graph env) m')))))))"

definition moved_merge ::
  "merge_run \<Rightarrow> merge_status \<Rightarrow> string option \<Rightarrow> string option \<Rightarrow> int \<Rightarrow> merge_run" where
  "moved_merge m status result error now = m\<lparr>mr_status := status, mr_revision := mr_revision m + 1,
     mr_result := result, mr_error := error, mr_updated := now\<rparr>"

definition transition :: "multi_env \<Rightarrow> merge_run \<Rightarrow> merge_status \<Rightarrow> string option \<Rightarrow> ('g, merge_run) mx" where
  \<comment> \<open>\<open>_transition\<close>, which never carries a result here\<close>
  "transition env m status error =
     repo_call env (\<lambda>n now. update_merge_run (moved_merge m status None error now) (mr_revision m))"

definition transition_owned ::
  "multi_env \<Rightarrow> merge_run \<Rightarrow> merge_status \<Rightarrow> string option \<Rightarrow> string option \<Rightarrow> ('g, merge_run) mx" where
  "transition_owned env m status result error =
     repo_call env (\<lambda>n now.
       complete_owned_merge_run (moved_merge m status result error now) (mr_revision m) (me_owner env))"

definition adapter_error_code :: "string \<Rightarrow> string" where
  "adapter_error_code name = take 200 (''merge_adapter_'' @ ascii_lower name)"

definition settle_merge ::
  "multi_env \<Rightarrow> 'g merge_adapter \<Rightarrow> merge_policy \<Rightarrow> merge_run \<Rightarrow> adapter_error + string \<Rightarrow> ('g, merge_run) mx" where
  \<comment> \<open>the handlers around the call of the merge adapter\<close>
  "settle_merge env ad policy running outcome =
     (case outcome of
        Inr result \<Rightarrow> transition_owned env running MS_SUCCEEDED (Some result) None
      | Inl AeUnknown \<Rightarrow>
          transition_owned env running MS_OUTCOME_UNKNOWN None (Some ''merge.manual_reconcile_required'')
      | Inl (AeOther name) \<Rightarrow>
          if rollback_on_failure policy then
            sx_bind (adapter_call (ma_rollback ad running)) (\<lambda>undone.
            case undone of
              Inl e \<Rightarrow> transition_owned env running MS_FAILED None (Some (adapter_error_code name))
            | Inr u \<Rightarrow> transition_owned env running MS_ROLLED_BACK None (Some (adapter_error_code name)))
          else transition_owned env running MS_FAILED None (Some (adapter_error_code name)))"

definition execute_merge ::
  "multi_env \<Rightarrow> 'g merge_adapter \<Rightarrow> merge_run \<Rightarrow> merge_policy \<Rightarrow> writer_artifact list \<Rightarrow> writer_workspace list
     \<Rightarrow> writer_conflict list \<Rightarrow> ('g, merge_run) mx" where
  \<comment> \<open>\<open>finalize_merge_run\<close> from the claim on\<close>
  "execute_merge env ad m policy artifacts workspaces conflicts =
     sx_bind (repo_call env (\<lambda>n now. claim_merge_run m (me_owner env) (seconds_from now (me_ttl env)) now))
       (\<lambda>running.
     sx_bind (adapter_call (ma_merge ad running artifacts workspaces conflicts)) (\<lambda>outcome.
     settle_merge env ad policy running outcome))"

definition finalize_merge_run ::
  "multi_env \<Rightarrow> 'g merge_adapter \<Rightarrow> string \<Rightarrow> string \<times> int \<Rightarrow> writer_lease list \<Rightarrow> bool \<Rightarrow> ('g, merge_run) mx" where
  "finalize_merge_run env ad i named leases approved =
     sx_bind (repo_call env (\<lambda>n now. get_merge_run i)) (\<lambda>m.
     if mr_status m \<in> {MS_SUCCEEDED, MS_FAILED, MS_ROLLED_BACK, MS_OUTCOME_UNKNOWN}
     then sx_raise (MwConflict ''terminal merge runs cannot be finalized again'')
     else if mr_status m = MS_RUNNING
     then sx_raise (MwConflict ''running merge result is unknown and requires reconciliation'')
     else
       sx_bind (merge_inputs env m (Some named)) (\<lambda>(policy, artifacts, workspaces).
       sx_bind (assert_workspace_leases env workspaces leases) (\<lambda>_.
       sx_bind (repo_call env (\<lambda>n now. list_conflicts (mr_run m))) (\<lambda>conflicts.
       if list_ex (\<lambda>c. wc_status c = CS_OPEN) conflicts then
         if mr_status m = MS_CONFLICTED then sx_return m
         else transition env m MS_CONFLICTED (Some ''conflict_open'')
       else if require_review policy \<and> \<not> approved then
         if mr_status m = MS_REVIEW_REQUIRED then sx_return m
         else transition env m MS_REVIEW_REQUIRED None
       else execute_merge env ad m policy artifacts workspaces conflicts))))"

definition reconcile_merge_run ::
  "multi_env \<Rightarrow> string \<Rightarrow> int \<Rightarrow> merge_status \<Rightarrow> string option \<Rightarrow> string option \<Rightarrow> ('g, merge_run) mx" where
  "reconcile_merge_run env i expected status result error =
     sx_bind (sx_guard (\<not> (status = MS_SUCCEEDED \<and> result = None))
       (MwConflict ''successful merge reconciliation requires a result ref'')) (\<lambda>_.
     sx_bind (repo_call env (\<lambda>n now. get_merge_run i)) (\<lambda>m.
     sx_bind (merge_inputs env m None) (\<lambda>_.
     repo_call env (\<lambda>n now. repo_reconcile_merge i expected status result error now))))"

end
