(* ===== verification/Multi_Life.thy ===== *)
theory Multi_Life
  imports Multi_Runtime
begin

section \<open>Multi-writer merges: the life of the rows\<close>

text \<open>
  What a transaction may do to each row: the steps of merge runs, leases and conflicts, and the
  relation \<open>multi_evolves\<close> between stores that are joined by such steps and stay well formed. Every
  transaction of the repository keeps it (the compare-and-swap of \<open>_transition\<close> when it names the status
  that was read); it is the guarantee the runtime gives and what it relies on of others.
\<close>

subsection \<open>Steps of a row\<close>

definition same_plan :: "merge_run \<Rightarrow> merge_run \<Rightarrow> bool" where
  "same_plan m n \<longleftrightarrow>
     mr_id n = mr_id m \<and> mr_run n = mr_run m \<and> mr_node n = mr_node m \<and> mr_artifacts n = mr_artifacts m
     \<and> mr_strategy n = mr_strategy m \<and> mr_target n = mr_target m \<and> mr_base n = mr_base m
     \<and> mr_created n = mr_created m"

inductive merge_step :: "merge_row \<Rightarrow> merge_row \<Rightarrow> bool" where
  park: "startable (mr_status (mg_merge r)) \<Longrightarrow> mr_status (mg_merge t) \<in> {MS_CONFLICTED, MS_REVIEW_REQUIRED} \<Longrightarrow>
    mr_revision (mg_merge t) = mr_revision (mg_merge r) + 1 \<Longrightarrow> same_plan (mg_merge r) (mg_merge t) \<Longrightarrow>
    mg_owner t = None \<Longrightarrow> mg_expires t = None \<Longrightarrow> merge_step r t"
| claim: "startable (mr_status (mg_merge r)) \<Longrightarrow> mr_status (mg_merge t) = MS_RUNNING \<Longrightarrow>
    mr_revision (mg_merge t) = mr_revision (mg_merge r) + 1 \<Longrightarrow> same_plan (mg_merge r) (mg_merge t) \<Longrightarrow>
    mg_owner t \<noteq> None \<Longrightarrow> mg_expires t \<noteq> None \<Longrightarrow> merge_step r t"
| heartbeat: "mr_status (mg_merge r) = MS_RUNNING \<Longrightarrow>
    t = r\<lparr>mg_expires := Some e, mg_merge := (mg_merge r)\<lparr>mr_updated := u\<rparr>\<rparr> \<Longrightarrow> merge_step r t"
| settle: "mr_status (mg_merge r) = MS_RUNNING \<Longrightarrow>
    mr_status (mg_merge t) \<in> {MS_SUCCEEDED, MS_FAILED, MS_ROLLED_BACK, MS_OUTCOME_UNKNOWN} \<Longrightarrow>
    mr_revision (mg_merge t) = mr_revision (mg_merge r) + 1 \<Longrightarrow> same_plan (mg_merge r) (mg_merge t) \<Longrightarrow>
    mg_owner t = None \<Longrightarrow> mg_expires t = None \<Longrightarrow> merge_step r t"
| reconcile: "mr_status (mg_merge r) = MS_OUTCOME_UNKNOWN \<Longrightarrow>
    mr_status (mg_merge t) \<in> {MS_SUCCEEDED, MS_FAILED, MS_ROLLED_BACK} \<Longrightarrow>
    mr_revision (mg_merge t) = mr_revision (mg_merge r) + 1 \<Longrightarrow> same_plan (mg_merge r) (mg_merge t) \<Longrightarrow>
    mg_owner t = mg_owner r \<Longrightarrow> mg_expires t = mg_expires r \<Longrightarrow> merge_step r t"

definition merge_born :: "merge_row \<Rightarrow> bool" where
  "merge_born r \<longleftrightarrow> mr_status (mg_merge r) \<noteq> MS_RUNNING \<and> mg_owner r = None \<and> mg_expires r = None"

inductive lease_step :: "lease_row \<Rightarrow> lease_row \<Rightarrow> bool" where
  extend: "lr_released l = None \<Longrightarrow> lease_step l (l\<lparr>lr_expires := e\<rparr>)"
| release: "lr_released l = None \<Longrightarrow> lease_step l (l\<lparr>lr_released := Some now, lr_expires := now\<rparr>)"
| supersede: "\<not> lease_active l now \<Longrightarrow> lr_fencing k = lr_fencing l + 1 \<Longrightarrow> lr_released k = None \<Longrightarrow> lease_step l k"

definition lease_born :: "lease_row \<Rightarrow> bool" where
  "lease_born l \<longleftrightarrow> lr_fencing l = 1"

inductive conflict_step :: "writer_conflict \<Rightarrow> writer_conflict \<Rightarrow> bool" where
  resolve: "wc_status c = CS_OPEN \<Longrightarrow> st \<in> {CS_RESOLVED, CS_REJECTED} \<Longrightarrow>
    conflict_step c (c\<lparr>wc_status := st, wc_resolution := Some r, wc_resolved := Some now\<rparr>)"

subsection \<open>Steps of a store\<close>

definition indexed :: "('v \<Rightarrow> string) \<Rightarrow> (string \<times> 'v) list \<Rightarrow> bool" where
  "indexed key d \<longleftrightarrow> distinct (map fst d) \<and> (\<forall>i v. map_of d i = Some v \<longrightarrow> key v = i)"

definition merges_ok :: "(string \<times> merge_row) list \<Rightarrow> bool" where
  \<comment> \<open>the check of the execution columns and the partial unique index\<close>
  "merges_ok d \<longleftrightarrow> indexed (mr_id \<circ> mg_merge) d
     \<and> (\<forall>i r. map_of d i = Some r \<longrightarrow>
          (mr_status (mg_merge r) = MS_RUNNING) = (mg_owner r \<noteq> None \<and> mg_expires r \<noteq> None))
     \<and> (\<forall>i j r q. map_of d i = Some r \<and> map_of d j = Some q \<and> mr_status (mg_merge r) = MS_RUNNING
          \<and> mr_status (mg_merge q) = MS_RUNNING \<and> mr_target (mg_merge r) = mr_target (mg_merge q) \<longrightarrow> i = j)"

definition published_within :: "multi_store \<Rightarrow> writer_artifact \<Rightarrow> bool" where
  "published_within s a \<longleftrightarrow>
     (\<exists>w. map_of (ms_workspaces s) (wa_workspace a) = Some w \<and> wa_base a = ww_base w
        \<and> wa_changed a \<noteq> [] \<and> list_all (owned_path (ww_paths w)) (wa_changed a) \<and> wa_evidence a \<noteq> [])"

definition multi_wf :: "multi_store \<Rightarrow> bool" where
  "multi_wf s \<longleftrightarrow>
     indexed ww_id (ms_workspaces s) \<and> distinct (map fst (ms_leases s)) \<and> indexed wa_id (ms_artifacts s)
     \<and> indexed wc_id (ms_conflicts s) \<and> merges_ok (ms_merges s)
     \<and> (\<forall>i a. map_of (ms_artifacts s) i = Some a \<longrightarrow> published_within s a)"

definition multi_moves :: "multi_store \<Rightarrow> multi_store \<Rightarrow> bool" where
  "multi_moves s t \<longleftrightarrow>
     map_of (ms_workspaces s) \<subseteq>\<^sub>m map_of (ms_workspaces t)
     \<and> map_of (ms_artifacts s) \<subseteq>\<^sub>m map_of (ms_artifacts t)
     \<and> (\<forall>i. descends lease_step lease_born (map_of (ms_leases s) i) (map_of (ms_leases t) i))
     \<and> (\<forall>i. descends conflict_step (\<lambda>_. True) (map_of (ms_conflicts s) i) (map_of (ms_conflicts t) i))
     \<and> (\<forall>i. descends merge_step merge_born (map_of (ms_merges s) i) (map_of (ms_merges t) i))"

definition multi_evolves :: "multi_store \<Rightarrow> multi_store \<Rightarrow> bool" where
  "multi_evolves s t \<longleftrightarrow> (multi_wf s \<longrightarrow> multi_wf t \<and> multi_moves s t)"

lemma multi_moves_refl [simp]: "multi_moves s s"
  by (simp add: multi_moves_def)

lemma multi_moves_trans: "multi_moves s t \<Longrightarrow> multi_moves t u \<Longrightarrow> multi_moves s u"
  unfolding multi_moves_def by (blast intro: map_le_trans descends_trans)

interpretation multi: kept_relation multi_evolves
  by unfold_locales (auto simp: multi_evolves_def intro: multi_moves_trans)

text \<open>A change of one table.\<close>

lemma leases_change:
  assumes "distinct (map fst (ms_leases s)) \<Longrightarrow> distinct (map fst d)"
    and "\<And>i. descends lease_step lease_born (map_of (ms_leases s) i) (map_of d i)"
  shows "multi_evolves s (s\<lparr>ms_leases := d\<rparr>)"
  using assms by (auto simp: multi_evolves_def multi_wf_def multi_moves_def published_within_def)

lemma conflicts_change:
  assumes "indexed wc_id (ms_conflicts s) \<Longrightarrow> indexed wc_id d"
    and "\<And>i. descends conflict_step (\<lambda>_. True) (map_of (ms_conflicts s) i) (map_of d i)"
  shows "multi_evolves s (s\<lparr>ms_conflicts := d\<rparr>)"
  using assms by (auto simp: multi_evolves_def multi_wf_def multi_moves_def published_within_def)

lemma merges_change:
  assumes "merges_ok (ms_merges s) \<Longrightarrow> merges_ok d"
    and "\<And>i. merges_ok (ms_merges s) \<Longrightarrow> descends merge_step merge_born (map_of (ms_merges s) i) (map_of d i)"
  shows "multi_evolves s (s\<lparr>ms_merges := d\<rparr>)"
  using assms by (auto simp: multi_evolves_def multi_wf_def multi_moves_def published_within_def)

lemma indexed_update: "indexed key d \<Longrightarrow> indexed key (AList.update (key v) v d)"
  by (auto simp: indexed_def fst_update map_of_update distinct_update split: if_splits)

lemma indexed_sql_update: "indexed key d \<Longrightarrow> (\<And>v. key (f v) = key v) \<Longrightarrow> indexed key (sql_update P f d)"
  by (auto simp: indexed_def map_of_sql_update)

end
