(* ===== verification/Multi_Steps.thy ===== *)
theory Multi_Steps
  imports Multi_Life
begin

section \<open>Multi-writer merges: every transaction is a step\<close>

text \<open>Each method of the repository keeps \<open>multi_evolves\<close>.\<close>

subsection \<open>Reads\<close>

lemma multi_reads [sx_simps]:
  "get_workspace i s = ((case map_of (ms_workspaces s) i of None \<Rightarrow> Inl MwNotFound | Some w \<Rightarrow> Inr w), s)"
  "get_artifact i s = ((case map_of (ms_artifacts s) i of None \<Rightarrow> Inl MwNotFound | Some a \<Rightarrow> Inr a), s)"
  "get_merge_run i s = ((case map_of (ms_merges s) i of None \<Rightarrow> Inl MwNotFound | Some r \<Rightarrow> Inr (mg_merge r)), s)"
  "list_conflicts run s = (Inr (sort_key wc_created (filter (\<lambda>c. wc_run c = run) (map snd (ms_conflicts s)))), s)"
  "assert_lease sha lease now s = ((if lease_current sha s lease now then Inr () else
     Inl (MwConflict ''writer lease is expired, released, or fenced'')), s)"
  by (simp_all add: get_workspace_def get_artifact_def get_merge_run_def list_conflicts_def assert_lease_def
      sx_simps split: option.splits)

lemma list_reads [sx_simps]:
  "list_workspaces run s = (Inr (sort_key ww_created (filter (\<lambda>w. ww_run w = run) (map snd (ms_workspaces s)))), s)"
  "list_artifacts run s = (Inr (sort_key wa_created (filter
       (\<lambda>a. case map_of (ms_workspaces s) (wa_workspace a) of None \<Rightarrow> False | Some w \<Rightarrow> ww_run w = run)
       (map snd (ms_artifacts s)))), s)"
  by (simp_all add: list_workspaces_def list_artifacts_def sx_simps)

lemma multi_reads_kept:
  "keeps multi_evolves (get_workspace i)" "keeps multi_evolves (get_artifact i)"
  "keeps multi_evolves (get_merge_run i)" "keeps multi_evolves (list_conflicts run)"
  "keeps multi_evolves (assert_lease sha lease now)" "keeps multi_evolves (list_workspaces run)"
  "keeps multi_evolves (list_artifacts run)"
  by (simp_all add: keeps_def sx_simps multi.kept_refl)

subsection \<open>Workspaces, leases and artifacts\<close>

lemma map_le_update: "map_of d k = None \<Longrightarrow> map_of d \<subseteq>\<^sub>m map_of (AList.update k v d)"
  by (auto simp: map_le_def map_of_update)

lemma create_workspace_kept: "keeps multi_evolves (create_workspace g w)"
proof (rule multi.keeps_atomic)
  show "atomic (create_workspace g w)" unfolding create_workspace_def by (intro atomic_rules)
next
  fix s t :: multi_store and x
  let ?d = "AList.update (ww_id w) (w\<lparr>ww_closed := None\<rparr>) (ms_workspaces s)"
  assume "create_workspace g w s = (Inr x, t)"
  then have ins: "workspace_insertable g w s" and t: "t = s\<lparr>ms_workspaces := ?d\<rparr>"
    unfolding create_workspace_def by (auto simp: sx_Inr sx_transaction_Inr)
  have fresh: "map_of (ms_workspaces s) (ww_id w) = None" using ins by (simp add: workspace_insertable_def)
  have "indexed ww_id ?d" if "indexed ww_id (ms_workspaces s)"
    using indexed_update [OF that, of "w\<lparr>ww_closed := None\<rparr>"] by simp
  moreover have "published_within (s\<lparr>ms_workspaces := ?d\<rparr>) a" if "published_within s a" for a
    using that fresh by (auto simp: published_within_def map_of_update)
  ultimately show "multi_evolves s t"
    using t map_le_update [OF fresh] by (auto simp: multi_evolves_def multi_wf_def multi_moves_def)
qed

lemma acquire_lease_Inr:
  assumes "acquire_lease sha i who token expires now s = (Inr x, t)"
  defines "n \<equiv> case map_of (ms_leases s) i of None \<Rightarrow> 1 | Some l \<Rightarrow> lr_fencing l + 1"
  shows "case map_of (ms_leases s) i of None \<Rightarrow> True | Some l \<Rightarrow> \<not> lease_active l now"
    and "t = s\<lparr>ms_leases := AList.update i \<lparr>lr_owner = who, lr_token_hash = sha token, lr_fencing = n,
      lr_expires = expires, lr_released = None\<rparr> (ms_leases s)\<rparr>"
    and "x = \<lparr>wl_workspace = i, wl_owner = who, wl_token = token, wl_fencing = n, wl_expires = expires,
      wl_released = None\<rparr>"
    and "now < expires"
  using assms(1) unfolding acquire_lease_def n_def
  by (auto simp: sx_Inr sx_transaction_Inr Let_def split: if_splits)

lemma acquire_lease_kept: "keeps multi_evolves (acquire_lease sha i who token expires now)"
proof (rule multi.keeps_atomic)
  show "atomic (acquire_lease sha i who token expires now)" unfolding acquire_lease_def by (intro atomic_rules)
next
  fix s x t
  assume "acquire_lease sha i who token expires now s = (Inr x, t)"
  note facts = acquire_lease_Inr [OF this]
  have "descends lease_step lease_born (map_of (ms_leases s) j) (map_of (ms_leases t) j)" for j
    using facts(1)
    by (cases "map_of (ms_leases s) i")
       (auto simp: facts(2) map_of_update lease_born_def intro!: descends_born descends_step lease_step.supersede)
  then show "multi_evolves s t" unfolding facts(2) by (intro leases_change) (auto simp: distinct_update)
qed

lemma renew_lease_kept: "keeps multi_evolves (renew_lease sha lease expires now)"
  unfolding renew_lease_def
  by (intro multi.keeps_bind multi.keeps_pure, rule multi.keeps_commit)
     (auto simp: sx_Inr lease_held_def intro!: leases_change descends_sql_update lease_step.extend)

lemma release_lease_kept: "keeps multi_evolves (release_lease sha lease now)"
  unfolding release_lease_def
  by (rule multi.keeps_commit)
     (auto simp: sx_Inr lease_held_def intro!: leases_change descends_sql_update lease_step.release)

lemma assert_lease_Inr: "assert_lease sha lease now s = (Inr u, t) \<longleftrightarrow> lease_current sha s lease now \<and> t = s"
  by (auto simp: sx_simps)

lemma publish_artifact_Inr:
  assumes "publish_artifact sha a lease now s = (Inr x, t)"
  shows "x = a" and "t = s\<lparr>ms_artifacts := AList.update (wa_id a) a (ms_artifacts s)\<rparr>"
    and "lease_current sha s lease now" and "wa_workspace a = wl_workspace lease"
    and "published_within s a" and "map_of (ms_artifacts s) (wa_id a) = None"
  using assms unfolding publish_artifact_def
  by (auto simp: sx_Inr sx_transaction_Inr assert_lease_Inr published_within_def artifact_insertable_def
      split: if_splits)

lemma publish_artifact_kept: "keeps multi_evolves (publish_artifact sha a lease now)"
proof (rule multi.keeps_atomic)
  show "atomic (publish_artifact sha a lease now)" unfolding publish_artifact_def by (intro atomic_rules)
next
  fix s x t
  assume "publish_artifact sha a lease now s = (Inr x, t)"
  note facts = publish_artifact_Inr [OF this]
  have "indexed wa_id (ms_artifacts t)" if "indexed wa_id (ms_artifacts s)"
    using indexed_update [OF that, of a] facts(2) by simp
  moreover have "published_within t b \<longleftrightarrow> published_within s b" for b
    using facts(2) by (simp add: published_within_def)
  ultimately have "multi_wf s \<Longrightarrow> multi_wf t"
    using facts(2,5) by (auto simp: multi_wf_def map_of_update split: if_splits)
  moreover have "multi_moves s t" using facts(2) map_le_update [OF facts(6)] by (simp add: multi_moves_def)
  ultimately show "multi_evolves s t" by (simp add: multi_evolves_def)
qed

subsection \<open>Conflicts\<close>

lemma put_conflict_kept: "keeps multi_evolves (put_conflict g c)"
proof (rule multi.keeps_atomic)
  show "atomic (put_conflict g c)" unfolding put_conflict_def by (intro atomic_rules)
next
  fix s x t
  assume "put_conflict g c s = (Inr x, t)"
  then have "t = s \<or> (map_of (ms_conflicts s) (wc_id c) = None
      \<and> t = s\<lparr>ms_conflicts := AList.update (wc_id c) (c\<lparr>wc_resolved := None\<rparr>) (ms_conflicts s)\<rparr>)"
    unfolding put_conflict_def by (auto simp: sx_Inr sx_transaction_Inr conflict_insertable_def split: if_splits)
  then show "multi_evolves s t"
    using indexed_update [of wc_id "ms_conflicts s" "c\<lparr>wc_resolved := None\<rparr>"]
    by (auto simp: multi.kept_refl intro!: conflicts_change descends_update)
qed

lemma resolve_conflict_kept: "keeps multi_evolves (resolve_conflict i resolution rejected now)"
  unfolding resolve_conflict_def
  by (rule multi.keeps_commit)
     (auto simp: sx_Inr intro!: conflicts_change indexed_sql_update descends_sql_update conflict_step.resolve)

end
