(* ===== verification/Multi_Execution.thy ===== *)
theory Multi_Execution
  imports Multi_Steps
begin

section \<open>Multi-writer merges: transactions on merge runs, and sequences of transactions\<close>

subsection \<open>Merge runs\<close>

lemma merges_okD:
  assumes "merges_ok d" and "map_of d i = Some r"
  shows "mr_id (mg_merge r) = i"
    and "(mr_status (mg_merge r) = MS_RUNNING) = (mg_owner r \<noteq> None \<and> mg_expires r \<noteq> None)"
  using assms by (auto simp: merges_ok_def indexed_def)

lemma merges_ok_distinct: "merges_ok d \<Longrightarrow> distinct (map fst d)"
  by (simp add: merges_ok_def indexed_def)

lemma same_plan_target: "same_plan m n \<Longrightarrow> mr_target n = mr_target m"
  by (simp add: same_plan_def)

lemma merges_ok_update:
  assumes ok: "merges_ok d"
    and plan: "\<And>k v. map_of d k = Some v \<Longrightarrow> P k v \<Longrightarrow> same_plan (mg_merge v) (mg_merge (f v))"
    and exec: "\<And>k v. map_of d k = Some v \<Longrightarrow> P k v \<Longrightarrow>
      (mr_status (mg_merge (f v)) = MS_RUNNING) = (mg_owner (f v) \<noteq> None \<and> mg_expires (f v) \<noteq> None)"
    and runs: "\<And>k v. map_of d k = Some v \<Longrightarrow> P k v \<Longrightarrow> mr_status (mg_merge (f v)) = MS_RUNNING \<Longrightarrow>
      mr_status (mg_merge v) = MS_RUNNING \<or> (\<forall>j q. map_of d j = Some q \<longrightarrow> P j q \<longrightarrow> j = k)
        \<and> (\<forall>j q. map_of d j = Some q \<longrightarrow> mr_status (mg_merge q) = MS_RUNNING \<longrightarrow>
             mr_target (mg_merge q) = mr_target (mg_merge v) \<longrightarrow> j = k)"
  shows "merges_ok (sql_update P f d)"
proof -
  let ?e = "sql_update P f d"
  have row: "\<exists>v. map_of d k = Some v \<and> r = (if P k v then f v else v)" if "map_of ?e k = Some r" for k r
    using that by (auto simp: map_of_sql_update)
  have "indexed (mr_id \<circ> mg_merge) ?e"
    using ok plan by (fastforce simp: merges_ok_def indexed_def same_plan_def map_of_sql_update)
  moreover have "(mr_status (mg_merge r) = MS_RUNNING) = (mg_owner r \<noteq> None \<and> mg_expires r \<noteq> None)"
    if "map_of ?e i = Some r" for i r
    using row [OF that] exec merges_okD(2) [OF ok] by (auto split: if_splits)
  moreover have "i = j"
    if e: "map_of ?e i = Some r" "map_of ?e j = Some q" and run: "mr_status (mg_merge r) = MS_RUNNING"
      "mr_status (mg_merge q) = MS_RUNNING" and tgt: "mr_target (mg_merge r) = mr_target (mg_merge q)" for i j r q
  proof -
    from row [OF e(1)] obtain v where v: "map_of d i = Some v" "r = (if P i v then f v else v)" by blast
    from row [OF e(2)] obtain u where u: "map_of d j = Some u" "q = (if P j u then f u else u)" by blast
    have targets: "mr_target (mg_merge v) = mr_target (mg_merge u)"
      using tgt v u plan [OF v(1)] plan [OF u(1)] by (auto simp: same_plan_def split: if_splits)
    note rv = runs [OF v(1)] and ru = runs [OF u(1)]
    show ?thesis
    proof (cases "mr_status (mg_merge v) = MS_RUNNING \<and> mr_status (mg_merge u) = MS_RUNNING")
      case True
      with ok v(1) u(1) targets show ?thesis unfolding merges_ok_def by blast
    next
      case False
      then show ?thesis using rv ru v u run targets by (metis (no_types, lifting))
    qed
  qed
  ultimately show ?thesis unfolding merges_ok_def by blast
qed

lemma write_merge_plan [simp]: "same_plan (mg_merge r) (mg_merge (write_merge m r))"
  by (simp add: write_merge_def same_plan_def)

lemma write_merge_fields [simp]:
  "mr_status (mg_merge (write_merge m r)) = mr_status m"
  "mr_revision (mg_merge (write_merge m r)) = mr_revision m"
  "mg_owner (write_merge m r) = None" "mg_expires (write_merge m r) = None"
  by (simp_all add: write_merge_def)

lemma repo_create_merge_kept: "keeps multi_evolves (repo_create_merge g m)"
proof (rule multi.keeps_atomic)
  show "atomic (repo_create_merge g m)" unfolding repo_create_merge_def by (intro atomic_rules)
next
  fix s t :: multi_store and x
  let ?row = "\<lparr>mg_merge = m, mg_owner = None, mg_expires = None\<rparr>"
  let ?d = "AList.update (mr_id m) ?row (ms_merges s)"
  assume "repo_create_merge g m s = (Inr x, t)"
  then have fresh: "map_of (ms_merges s) (mr_id m) = None" and idle: "mr_status m \<noteq> MS_RUNNING"
    and t: "t = s\<lparr>ms_merges := ?d\<rparr>"
    unfolding repo_create_merge_def by (auto simp: sx_Inr sx_transaction_Inr)
  have "merges_ok ?d" if ok: "merges_ok (ms_merges s)"
  proof -
    have "indexed (mr_id \<circ> mg_merge) ?d"
      using ok indexed_update [of "mr_id \<circ> mg_merge" "ms_merges s" ?row] by (simp add: merges_ok_def)
    then show ?thesis using ok idle unfolding merges_ok_def map_of_update fun_upd_apply by (auto split: if_splits)
  qed
  moreover have "merge_born ?row" using idle by (simp add: merge_born_def)
  ultimately show "multi_evolves s t"
    unfolding t by (intro merges_change descends_update fresh) auto
qed

lemma update_merge_evolves:
  assumes "mr_status m \<in> {MS_CONFLICTED, MS_REVIEW_REQUIRED}"
    and read: "\<And>r. multi_wf s \<Longrightarrow> map_of (ms_merges s) (mr_id m) = Some r \<Longrightarrow> mr_revision (mg_merge r) = expected \<Longrightarrow>
      startable (mr_status (mg_merge r))"
  shows "multi_evolves s (snd (update_merge_run m expected s))"
proof -
  obtain r t where run: "update_merge_run m expected s = (r, t)" by fastforce
  have "atomic (update_merge_run m expected)" unfolding update_merge_run_def by (intro atomic_rules)
  note same = atomicD [OF this]
  let ?P = "\<lambda>k r. k = mr_id m \<and> mr_revision (mg_merge r) = expected"
  have "multi_evolves s t"
  proof (cases r)
    case (Inr x)
    then have rev: "mr_revision m = expected + 1"
      and t: "t = s\<lparr>ms_merges := sql_update ?P (write_merge m) (ms_merges s)\<rparr>"
      using run unfolding update_merge_run_def by (auto simp: sx_Inr sx_transaction_Inr Let_def)
    show ?thesis
    proof (cases "multi_wf s")
      case True
      have "merges_ok (sql_update ?P (write_merge m) (ms_merges s))" if "merges_ok (ms_merges s)"
        using that assms(1) by (intro merges_ok_update) auto
      moreover have "merge_step r (write_merge m r)" if "map_of (ms_merges s) k = Some r" "?P k r" for k r
        using that read [OF True, of r] assms(1) rev by (intro merge_step.park) auto
      ultimately show ?thesis unfolding t by (intro merges_change descends_sql_update) auto
    qed (simp add: multi_evolves_def)
  next
    case (Inl e)
    with same [of s e t] run show ?thesis by (simp add: multi.kept_refl)
  qed
  then show ?thesis using run by simp
qed

lemma target_freeD:
  assumes "target_free i target s" and "distinct (map fst (ms_merges s))"
    and "map_of (ms_merges s) j = Some r" and "mr_status (mg_merge r) = MS_RUNNING" and "mr_target (mg_merge r) = target"
  shows "j = i"
  using assms map_of_SomeD [OF assms(3)] unfolding target_free_def list_all_iff by fastforce

lemma claim_merge_run_Inr:
  assumes "claim_merge_run m who expires now s = (Inr x, t)"
  defines "claimed \<equiv> m\<lparr>mr_status := MS_RUNNING, mr_revision := mr_revision m + 1, mr_result := None,
      mr_error := None, mr_updated := now\<rparr>"
  defines "P \<equiv> \<lambda>k r. k = mr_id m \<and> (mr_revision (mg_merge r) = mr_revision m \<and> startable (mr_status (mg_merge r)))"
  shows "x = claimed"
    and "t = s\<lparr>ms_merges := sql_update P
          (\<lambda>r. (write_merge claimed r)\<lparr>mg_owner := Some who, mg_expires := Some expires\<rparr>) (ms_merges s)\<rparr>"
    and "sql_rows P (ms_merges s) = 1"
    and "\<And>k r. (k, r) \<in> set (ms_merges s) \<Longrightarrow> P k r \<Longrightarrow> target_free k (mr_target (mg_merge r)) s"
  using assms(1) unfolding claim_merge_run_def claimed_def P_def
  by (auto simp: sx_Inr sx_transaction_Inr Let_def list_all_iff)

lemma claim_merge_run_kept: "keeps multi_evolves (claim_merge_run m who expires now)"
proof (rule multi.keeps_atomic)
  show "atomic (claim_merge_run m who expires now)"
    unfolding claim_merge_run_def Let_def by (intro atomic_rules)
next
  fix s t :: multi_store and x
  assume "claim_merge_run m who expires now s = (Inr x, t)"
  note facts = claim_merge_run_Inr [OF this]
  let ?c = "m\<lparr>mr_status := MS_RUNNING, mr_revision := mr_revision m + 1, mr_result := None, mr_error := None,
      mr_updated := now\<rparr>"
  let ?P = "\<lambda>k r. k = mr_id m \<and> (mr_revision (mg_merge r) = mr_revision m \<and> startable (mr_status (mg_merge r)))"
  let ?f = "\<lambda>r. (write_merge ?c r)\<lparr>mg_owner := Some who, mg_expires := Some expires\<rparr>"
  have "merges_ok (sql_update ?P ?f (ms_merges s))" if ok: "merges_ok (ms_merges s)"
  proof (rule merges_ok_update [OF ok])
    fix k v assume v: "map_of (ms_merges s) k = Some v" and P: "?P k v"
    have free: "target_free k (mr_target (mg_merge v)) s" using facts(4) [OF map_of_SomeD [OF v] P] .
    have "j = k" if "map_of (ms_merges s) j = Some q" "mr_status (mg_merge q) = MS_RUNNING"
      "mr_target (mg_merge q) = mr_target (mg_merge v)" for j q
      by (rule target_freeD [OF free merges_ok_distinct [OF ok] that])
    then show "mr_status (mg_merge v) = MS_RUNNING \<or> (\<forall>j q. map_of (ms_merges s) j = Some q \<longrightarrow> ?P j q \<longrightarrow> j = k)
        \<and> (\<forall>j q. map_of (ms_merges s) j = Some q \<longrightarrow> mr_status (mg_merge q) = MS_RUNNING \<longrightarrow>
             mr_target (mg_merge q) = mr_target (mg_merge v) \<longrightarrow> j = k)"
      using P by blast
  qed (auto simp: same_plan_def write_merge_def)
  moreover have "merge_step r (?f r)" if "?P k r" for k r
    using that by (intro merge_step.claim) (auto simp: same_plan_def write_merge_def)
  ultimately show "multi_evolves s t" unfolding facts(2) by (intro merges_change descends_sql_update) auto
qed

lemma renew_merge_run_lease_kept: "keeps multi_evolves (renew_merge_run_lease i who expires now)"
proof (rule multi.keeps_atomic)
  show "atomic (renew_merge_run_lease i who expires now)" unfolding renew_merge_run_lease_def by (intro atomic_rules)
next
  fix s t :: multi_store and x
  let ?P = "\<lambda>k r. k = i \<and> running_owned_by who r"
  let ?f = "\<lambda>r. r\<lparr>mg_expires := Some expires, mg_merge := (mg_merge r)\<lparr>mr_updated := now\<rparr>\<rparr>"
  assume "renew_merge_run_lease i who expires now s = (Inr x, t)"
  then have t: "t = s\<lparr>ms_merges := sql_update ?P ?f (ms_merges s)\<rparr>"
    unfolding renew_merge_run_lease_def by (auto simp: sx_Inr sx_transaction_Inr Let_def)
  have "merges_ok (sql_update ?P ?f (ms_merges s))" if "merges_ok (ms_merges s)"
    using that by (intro merges_ok_update) (auto simp: running_owned_by_def same_plan_def)
  then show "multi_evolves s t"
    unfolding t by (intro merges_change descends_sql_update) (auto simp: running_owned_by_def intro: merge_step.heartbeat)
qed

lemma complete_owned_merge_run_kept:
  assumes "mr_status m \<in> {MS_SUCCEEDED, MS_FAILED, MS_ROLLED_BACK, MS_OUTCOME_UNKNOWN}"
  shows "keeps multi_evolves (complete_owned_merge_run m expected who)"
proof (rule multi.keeps_atomic)
  show "atomic (complete_owned_merge_run m expected who)"
    unfolding complete_owned_merge_run_def by (intro atomic_rules)
next
  fix s t :: multi_store and x
  let ?P = "\<lambda>k r. k = mr_id m \<and> (mr_revision (mg_merge r) = expected \<and> running_owned_by who r)"
  assume "complete_owned_merge_run m expected who s = (Inr x, t)"
  then have rev: "mr_revision m = expected + 1"
    and t: "t = s\<lparr>ms_merges := sql_update ?P (write_merge m) (ms_merges s)\<rparr>"
    unfolding complete_owned_merge_run_def by (auto simp: sx_Inr sx_transaction_Inr Let_def)
  have "merges_ok (sql_update ?P (write_merge m) (ms_merges s))" if "merges_ok (ms_merges s)"
    using that assms by (intro merges_ok_update) auto
  moreover have "merge_step r (write_merge m r)" if "?P k r" for k r
    using that assms rev by (intro merge_step.settle) (auto simp: running_owned_by_def)
  ultimately show "multi_evolves s t" unfolding t by (intro merges_change descends_sql_update) auto
qed

lemma reconcile_incomplete_kept: "keeps multi_evolves (reconcile_incomplete_merge_runs now)"
proof (rule multi.keeps_atomic)
  show "atomic (reconcile_incomplete_merge_runs now)"
    unfolding reconcile_incomplete_merge_runs_def by (intro atomic_rules)
next
  fix s t :: multi_store and x
  let ?P = "\<lambda>k :: string. execution_expired now"
  assume "reconcile_incomplete_merge_runs now s = (Inr x, t)"
  then have t: "t = s\<lparr>ms_merges := sql_update ?P (close_unknown now) (ms_merges s)\<rparr>"
    unfolding reconcile_incomplete_merge_runs_def by (auto simp: sx_Inr sx_transaction_Inr Let_def)
  have "merges_ok (sql_update ?P (close_unknown now) (ms_merges s))" if "merges_ok (ms_merges s)"
    using that by (intro merges_ok_update) (auto simp: close_unknown_def same_plan_def)
  moreover have "merge_step r (close_unknown now r)" if "execution_expired now r" for r
    using that by (intro merge_step.settle) (auto simp: execution_expired_def close_unknown_def same_plan_def)
  ultimately show "multi_evolves s t" unfolding t by (intro merges_change descends_sql_update) auto
qed

lemma repo_reconcile_merge_kept: "keeps multi_evolves (repo_reconcile_merge i expected status result error now)"
proof -
  let ?P = "\<lambda>k r. k = i \<and> (mr_revision (mg_merge r) = expected \<and> mr_status (mg_merge r) = MS_OUTCOME_UNKNOWN)"
  let ?f = "\<lambda>r. r\<lparr>mg_merge := (mg_merge r)\<lparr>mr_status := status, mr_revision := mr_revision (mg_merge r) + 1,
            mr_result := result, mr_error := error, mr_updated := now\<rparr>\<rparr>"
  have step: "multi_evolves s (s\<lparr>ms_merges := sql_update ?P ?f (ms_merges s)\<rparr>)"
    if st: "status \<in> {MS_SUCCEEDED, MS_FAILED, MS_ROLLED_BACK}" for s
  proof -
    have "merges_ok (sql_update ?P ?f (ms_merges s))" if ok: "merges_ok (ms_merges s)"
    proof (rule merges_ok_update [OF ok])
      fix k v assume "map_of (ms_merges s) k = Some v" and "?P k v"
      with merges_okD(2) [OF ok] have "\<not> (mg_owner v \<noteq> None \<and> mg_expires v \<noteq> None)" by fastforce
      with st show "(mr_status (mg_merge (?f v)) = MS_RUNNING) = (mg_owner (?f v) \<noteq> None \<and> mg_expires (?f v) \<noteq> None)"
        by auto
    qed (use st in \<open>auto simp: same_plan_def\<close>)
    moreover have "merge_step r (?f r)" if "?P k r" for k r
      using that st by (intro merge_step.reconcile) (auto simp: same_plan_def)
    ultimately show ?thesis by (intro merges_change descends_sql_update) auto
  qed
  show ?thesis
  proof (cases "status \<in> {MS_SUCCEEDED, MS_FAILED, MS_ROLLED_BACK}")
    case True
    show ?thesis
      unfolding repo_reconcile_merge_def
      by (intro multi.keeps_bind multi.keeps_pure multi_reads_kept, rule multi.keeps_commit)
         (auto simp: sx_Inr Let_def intro: step [OF True])
  qed (auto simp: repo_reconcile_merge_def keeps_def sx_simps multi.kept_refl)
qed

end
