(* ===== verification/Multi_Guarantee.thy ===== *)
theory Multi_Guarantee
  imports Multi_Execution
begin

section \<open>Multi-writer merges: the runtime among other actors\<close>

text \<open>
  \<open>multi_op\<close> is a transaction that another thread or process may run, \<open>multi_execute\<close> a sequence of
  them, and \<open>multi_session\<close> a sequence of calls of the runtime. The locale \<open>multi_actor\<close> is the
  rely-guarantee rule: when whatever happens between two transactions of the runtime keeps
  \<open>multi_evolves\<close>, so does each call of the runtime; it is interpreted for others that run any
  sequences of transactions.
\<close>

subsection \<open>Transactions of others\<close>

definition park_merge :: "string \<Rightarrow> int \<Rightarrow> merge_status \<Rightarrow> string option \<Rightarrow> int \<Rightarrow> unit mw" where
  \<comment> \<open>\<open>_transition\<close> of a row that was read with this revision and a status that is not final\<close>
  "park_merge i expected status error now =
     sx_bind sx_get (\<lambda>s.
     case map_of (ms_merges s) i of
       None \<Rightarrow> sx_raise MwNotFound
     | Some r \<Rightarrow>
         if mr_revision (mg_merge r) = expected \<and> startable (mr_status (mg_merge r))
            \<and> status \<in> {MS_CONFLICTED, MS_REVIEW_REQUIRED}
         then sx_void (update_merge_run (moved_merge (mg_merge r) status None error now) expected)
         else sx_raise (MwConflict ''merge run revision conflict''))"

datatype multi_op =
    MoWorkspace writer_workspace
  | MoAcquire string string string int int
  | MoRenew writer_lease int int
  | MoRelease writer_lease int
  | MoPublish writer_artifact writer_lease int
  | MoConflict writer_conflict
  | MoResolve string string bool int
  | MoCreate merge_run
  | MoPark string int merge_status "string option" int
  | MoClaim merge_run string int int
  | MoHeartbeat string string int int
  | MoSettle merge_run int string
  | MoReconcileAll int
  | MoReconcile string int merge_status "string option" "string option" int

fun multi_transaction :: "graph_store \<Rightarrow> (string \<Rightarrow> string) \<Rightarrow> multi_op \<Rightarrow> unit mw" where
  "multi_transaction g sha (MoWorkspace w) = sx_void (create_workspace g w)"
| "multi_transaction g sha (MoAcquire i who token expires now) = sx_void (acquire_lease sha i who token expires now)"
| "multi_transaction g sha (MoRenew lease expires now) = sx_void (renew_lease sha lease expires now)"
| "multi_transaction g sha (MoRelease lease now) = sx_void (release_lease sha lease now)"
| "multi_transaction g sha (MoPublish a lease now) = sx_void (publish_artifact sha a lease now)"
| "multi_transaction g sha (MoConflict c) = sx_void (put_conflict g c)"
| "multi_transaction g sha (MoResolve i r rejected now) = sx_void (resolve_conflict i r rejected now)"
| "multi_transaction g sha (MoCreate m) = sx_void (repo_create_merge g m)"
| "multi_transaction g sha (MoPark i expected status error now) = park_merge i expected status error now"
| "multi_transaction g sha (MoClaim m who expires now) = sx_void (claim_merge_run m who expires now)"
| "multi_transaction g sha (MoHeartbeat i who expires now) = renew_merge_run_lease i who expires now"
| "multi_transaction g sha (MoSettle m expected who) =
     (if mr_status m \<in> {MS_SUCCEEDED, MS_FAILED, MS_ROLLED_BACK, MS_OUTCOME_UNKNOWN}
      then sx_void (complete_owned_merge_run m expected who) else sx_return ())"
| "multi_transaction g sha (MoReconcileAll now) = sx_void (reconcile_incomplete_merge_runs now)"
| "multi_transaction g sha (MoReconcile i expected status result error now) =
     sx_void (repo_reconcile_merge i expected status result error now)"

definition multi_execute :: "graph_store \<Rightarrow> (string \<Rightarrow> string) \<Rightarrow> multi_op list \<Rightarrow> multi_store \<Rightarrow> multi_store" where
  "multi_execute g sha ops s = fold (\<lambda>c s. snd (multi_transaction g sha c s)) ops s"

lemma park_merge_kept: "keeps multi_evolves (park_merge i expected status error now)"
proof (rule keepsI)
  fix s
  show "multi_evolves s (snd (park_merge i expected status error now s))"
  proof (cases "map_of (ms_merges s) i")
    case (Some r)
    let ?m = "moved_merge (mg_merge r) status None error now"
    have "multi_evolves s (snd (update_merge_run ?m expected s))"
      if "startable (mr_status (mg_merge r))" "status \<in> {MS_CONFLICTED, MS_REVIEW_REQUIRED}"
    proof (cases "multi_wf s")
      case True
      then have "mr_id (mg_merge r) = i" using Some merges_okD(1) by (auto simp: multi_wf_def)
      with that Some show ?thesis by (intro update_merge_evolves) (auto simp: moved_merge_def)
    qed (simp add: multi_evolves_def)
    with Some show ?thesis by (simp add: park_merge_def sx_simps sx_void_state multi.kept_refl)
  qed (simp add: park_merge_def sx_simps multi.kept_refl)
qed

lemma multi_transaction_kept: "keeps multi_evolves (multi_transaction g sha c)"
  by (cases c) (auto simp: keeps_void multi.keeps_pure intro: create_workspace_kept acquire_lease_kept
      renew_lease_kept release_lease_kept publish_artifact_kept put_conflict_kept resolve_conflict_kept
      repo_create_merge_kept park_merge_kept claim_merge_run_kept renew_merge_run_lease_kept
      complete_owned_merge_run_kept reconcile_incomplete_kept repo_reconcile_merge_kept)

lemma multi_execute_evolves: "multi_evolves s (multi_execute g sha ops s)"
proof (induction ops arbitrary: s)
  case (Cons c cs)
  have "multi_evolves s (snd (multi_transaction g sha c s))" using multi_transaction_kept by (simp add: keeps_def)
  then show ?case using Cons multi.kept_trans by (fastforce simp: multi_execute_def)
qed (simp add: multi_execute_def multi.kept_refl)

subsection \<open>A row that was read\<close>

definition row_seen :: "merge_run \<Rightarrow> multi_store \<Rightarrow> bool" where
  \<comment> \<open>the row of the merge run has gone on from \<open>m\<close>\<close>
  "row_seen m s \<longleftrightarrow> (\<exists>q r. mg_merge q = m \<and> map_of (ms_merges s) (mr_id m) = Some r \<and> merge_step\<^sup>*\<^sup>* q r)"

definition following :: "merge_run \<Rightarrow> multi_store \<Rightarrow> multi_store \<Rightarrow> bool" where
  "following m s t \<longleftrightarrow> (multi_wf s \<and> row_seen m s \<longrightarrow> multi_wf t \<and> row_seen m t \<and> multi_moves s t)"

lemma row_seen_moves: "row_seen m s \<Longrightarrow> multi_moves s t \<Longrightarrow> row_seen m t"
  unfolding row_seen_def multi_moves_def descends_def
  by (elim exE conjE, erule_tac x = "mr_id m" in allE) (auto intro: rtranclp_trans)

lemma evolves_following: "multi_evolves s t \<Longrightarrow> following m s t"
  by (auto simp: multi_evolves_def following_def intro: row_seen_moves)

lemma keeps_following: "keeps multi_evolves f \<Longrightarrow> keeps (following m) f"
  by (auto simp: keeps_def intro: evolves_following)

lemma merge_step_revision:
  "merge_step r t \<Longrightarrow> mr_revision (mg_merge r) < mr_revision (mg_merge t)
     \<or> mr_revision (mg_merge r) = mr_revision (mg_merge t) \<and> mr_status (mg_merge r) = MS_RUNNING
       \<and> mr_status (mg_merge t) = MS_RUNNING"
  by (induction rule: merge_step.induct) auto

lemma merge_steps_revision:
  "merge_step\<^sup>*\<^sup>* r t \<Longrightarrow> mr_revision (mg_merge r) < mr_revision (mg_merge t)
     \<or> mr_revision (mg_merge r) = mr_revision (mg_merge t) \<and> mr_status (mg_merge r) = mr_status (mg_merge t)"
  by (induction rule: rtranclp_induct) (auto dest: merge_step_revision)

lemma row_seen_same_revision:
  assumes "row_seen m s" and "map_of (ms_merges s) (mr_id m) = Some r" and "mr_revision (mg_merge r) = mr_revision m"
  shows "mr_status (mg_merge r) = mr_status m"
  using assms by (auto simp: row_seen_def dest: merge_steps_revision)

lemma update_following:
  assumes "startable (mr_status m)" and "status \<in> {MS_CONFLICTED, MS_REVIEW_REQUIRED}"
  shows "keeps (following m) (update_merge_run (moved_merge m status None error now) (mr_revision m))"
proof (rule keepsI)
  fix s
  show "following m s (snd (update_merge_run (moved_merge m status None error now) (mr_revision m) s))"
  proof (cases "row_seen m s")
    case True
    have "startable (mr_status (mg_merge r))"
      if "map_of (ms_merges s) (mr_id m) = Some r" "mr_revision (mg_merge r) = mr_revision m" for r
      using row_seen_same_revision [OF True that] assms(1) by simp
    with assms(2) show ?thesis by (intro evolves_following update_merge_evolves) (auto simp: moved_merge_def)
  qed (simp add: following_def)
qed

subsection \<open>Worlds\<close>

definition on_store :: "(multi_store \<Rightarrow> multi_store \<Rightarrow> bool) \<Rightarrow> 'g multi_world \<Rightarrow> 'g multi_world \<Rightarrow> bool" where
  "on_store R w w' \<longleftrightarrow> R (mx_store w) (mx_store w')"

interpretation mworld: kept_relation "on_store multi_evolves"
  by unfold_locales (auto simp: on_store_def intro: multi.kept_refl multi.kept_trans)

interpretation mseen: kept_relation "on_store (following m)" for m
  by unfold_locales (auto simp: on_store_def following_def intro: multi_moves_trans)

lemma adapter_call_kept:
  "keeps (on_store multi_evolves) (adapter_call f)" "keeps (on_store (following m)) (adapter_call f)"
  by (auto simp: keeps_def adapter_call_def on_store_def multi.kept_refl following_def split: prod.splits)

text \<open>Others that keep the relation.\<close>

locale multi_actor =
  fixes env :: multi_env
  assumes others_evolve: "multi_evolves s (me_others env n s)"
begin

lemma repo_call_kept:
  assumes "\<And>n now. keeps multi_evolves (f n now)"
  shows "keeps (on_store multi_evolves) (repo_call env f)"
proof (rule keepsI)
  fix w :: "'g multi_world"
  let ?n = "mx_calls w" and ?s = "mx_store w"
  have "multi_evolves (me_others env ?n ?s) (snd (f ?n (me_clock env ?n) (me_others env ?n ?s)))"
    using assms by (simp add: keeps_def)
  with others_evolve have "multi_evolves ?s (snd (f ?n (me_clock env ?n) (me_others env ?n ?s)))"
    by (rule multi.kept_trans)
  then show "on_store multi_evolves w (snd (repo_call env f w))"
    by (simp add: on_store_def repo_call_def case_prod_beta)
qed

lemma repo_call_following:
  assumes "\<And>n now. keeps (following m) (f n now)"
  shows "keeps (on_store (following m)) (repo_call env f)"
proof (rule keepsI)
  fix w :: "'g multi_world"
  let ?n = "mx_calls w" and ?s = "mx_store w"
  have "following m (me_others env ?n ?s) (snd (f ?n (me_clock env ?n) (me_others env ?n ?s)))"
    using assms by (simp add: keeps_def)
  moreover have "following m ?s (me_others env ?n ?s)" by (rule evolves_following [OF others_evolve])
  ultimately have "following m ?s (snd (f ?n (me_clock env ?n) (me_others env ?n ?s)))"
    unfolding following_def by (blast intro: multi_moves_trans)
  then show "on_store (following m) w (snd (repo_call env f w))"
    by (simp add: on_store_def repo_call_def case_prod_beta)
qed

lemmas repo_calls_kept = repo_call_kept [OF create_workspace_kept] repo_call_kept [OF acquire_lease_kept]
  repo_call_kept [OF renew_lease_kept] repo_call_kept [OF release_lease_kept]
  repo_call_kept [OF publish_artifact_kept] repo_call_kept [OF resolve_conflict_kept]
  repo_call_kept [OF repo_create_merge_kept] repo_call_kept [OF reconcile_incomplete_kept]
  repo_call_kept [OF repo_reconcile_merge_kept] multi_reads_kept [THEN repo_call_kept]

lemmas store_following = multi_reads_kept [THEN keeps_following, THEN repo_call_following]
  repo_call_following [OF keeps_following, OF claim_merge_run_kept]

lemma record_conflict_kept: "keeps (on_store multi_evolves) (record_conflict env run reason)"
  unfolding record_conflict_def Let_def
  by (intro repo_call_kept multi.keeps_bind multi.keeps_pure put_conflict_kept)

lemma detect_pairs_kept: "keeps (on_store multi_evolves) (detect_pairs env run ws ps)"
  by (induction ps)
     (auto intro!: mworld.keeps_rules record_conflict_kept split: option.split)

lemma merge_inputs_kept:
  "keeps (on_store multi_evolves) (merge_inputs env m named)"
  "keeps (on_store (following k)) (merge_inputs env m named)"
  unfolding merge_inputs_def by (intro mworld.keeps_rules repo_calls_kept) (intro mseen.keeps_rules store_following)

lemma assert_leases_kept:
  "keeps (on_store multi_evolves) (assert_workspace_leases env ws leases)"
  "keeps (on_store (following k)) (assert_workspace_leases env ws leases)"
  unfolding assert_workspace_leases_def
  by (intro mworld.keeps_rules repo_calls_kept) (intro mseen.keeps_rules store_following)

lemma transition_following:
  "startable (mr_status m) \<Longrightarrow> status \<in> {MS_CONFLICTED, MS_REVIEW_REQUIRED} \<Longrightarrow>
   keeps (on_store (following m)) (transition env m status error)"
  unfolding transition_def by (intro repo_call_following update_following)

lemma transition_owned_following:
  assumes "status \<in> {MS_SUCCEEDED, MS_FAILED, MS_ROLLED_BACK, MS_OUTCOME_UNKNOWN}"
  shows "keeps (on_store (following k)) (transition_owned env m status result error)"
  unfolding transition_owned_def
  by (intro repo_call_following keeps_following complete_owned_merge_run_kept) (use assms in \<open>simp add: moved_merge_def\<close>)

lemma settle_following: "keeps (on_store (following k)) (settle_merge env ad policy running outcome)"
  unfolding settle_merge_def
  by (auto split: sum.splits adapter_error.splits
      intro!: transition_owned_following mseen.keeps_bind adapter_call_kept)

lemma settle_kept: "keeps (on_store multi_evolves) (settle_merge env ad policy running outcome)"
  unfolding settle_merge_def transition_owned_def
  by (auto split: sum.splits adapter_error.splits simp: moved_merge_def
      intro!: repo_call_kept complete_owned_merge_run_kept mworld.keeps_bind adapter_call_kept)

lemma execute_following: "keeps (on_store (following k)) (execute_merge env ad m policy as ws cs)"
  unfolding execute_merge_def
  by (intro mseen.keeps_bind store_following adapter_call_kept settle_following)

lemma finalize_kept:
  fixes ad :: "'g merge_adapter"
  shows "keeps (on_store multi_evolves) (finalize_merge_run env ad i named leases approved)"
proof (rule keepsI)
  fix w :: "'g multi_world"
  let ?s = "me_others env (mx_calls w) (mx_store w)"
  let ?w = "w\<lparr>mx_store := ?s, mx_calls := mx_calls w + 1\<rparr>"
  have here: "multi_evolves (mx_store w) ?s" by (rule others_evolve)
  show "on_store multi_evolves w (snd (finalize_merge_run env ad i named leases approved w))"
  proof (cases "map_of (ms_merges ?s) i")
    case None
    then show ?thesis
      using here by (simp add: finalize_merge_run_def repo_call_def sx_simps on_store_def)
  next
    case (Some r)
    let ?m = "mg_merge r"
    define body where "body = (if mr_status ?m \<in> {MS_SUCCEEDED, MS_FAILED, MS_ROLLED_BACK, MS_OUTCOME_UNKNOWN}
     then sx_raise (MwConflict ''terminal merge runs cannot be finalized again'')
     else if mr_status ?m = MS_RUNNING
     then sx_raise (MwConflict ''running merge result is unknown and requires reconciliation'')
     else
       sx_bind (merge_inputs env ?m (Some named)) (\<lambda>(policy, artifacts, workspaces).
       sx_bind (assert_workspace_leases env workspaces leases) (\<lambda>_.
       sx_bind (repo_call env (\<lambda>n now. list_conflicts (mr_run ?m))) (\<lambda>conflicts.
       if list_ex (\<lambda>c. wc_status c = CS_OPEN) conflicts then
         if mr_status ?m = MS_CONFLICTED then sx_return ?m
         else transition env ?m MS_CONFLICTED (Some ''conflict_open'')
       else if require_review policy \<and> \<not> approved then
         if mr_status ?m = MS_REVIEW_REQUIRED then sx_return ?m
         else transition env ?m MS_REVIEW_REQUIRED None
       else execute_merge env ad ?m policy artifacts workspaces conflicts))))"
    have run: "finalize_merge_run env ad i named leases approved w = body ?w"
      using Some by (simp add: finalize_merge_run_def repo_call_def sx_simps body_def)
    have "keeps (on_store (following ?m)) body"
    proof (cases "startable (mr_status ?m)")
      case True
      show ?thesis unfolding body_def
        by (intro mseen.keeps_rules merge_inputs_kept assert_leases_kept store_following execute_following
            transition_following [OF True]) simp_all
    next
      case False
      then have "mr_status ?m \<in> {MS_SUCCEEDED, MS_FAILED, MS_ROLLED_BACK, MS_OUTCOME_UNKNOWN, MS_RUNNING}"
        by (auto simp: startable_def)
      then show ?thesis unfolding body_def by (cases "mr_status ?m") (simp_all add: mseen.keeps_pure)
    qed
    then have "following ?m (mx_store ?w) (mx_store (snd (body ?w)))"
      unfolding keeps_def on_store_def by (rule spec)
    then have after: "following ?m ?s (mx_store (snd (body ?w)))" by simp
    have "multi_evolves ?s (mx_store (snd (body ?w)))"
    proof (cases "multi_wf ?s")
      case True
      then have "mr_id ?m = i" using Some merges_okD(1) by (auto simp: multi_wf_def)
      then have "row_seen ?m ?s" using Some by (auto simp: row_seen_def)
      with True after show ?thesis by (simp add: following_def multi_evolves_def)
    qed (simp add: multi_evolves_def)
    with here show ?thesis using run by (simp add: on_store_def) (rule multi.kept_trans)
  qed
qed

lemma runtime_kept:
  "keeps (on_store multi_evolves) (start_runtime env)"
  "keeps (on_store multi_evolves) (rt_create_workspace env w)"
  "keeps (on_store multi_evolves) (rt_acquire_lease env i who ttl)"
  "keeps (on_store multi_evolves) (rt_renew_lease env lease ttl)"
  "keeps (on_store multi_evolves) (rt_publish_artifact env a lease)"
  "keeps (on_store multi_evolves) (detect_conflicts env run)"
  "keeps (on_store multi_evolves) (create_merge_run env m named leases)"
  "keeps (on_store multi_evolves) (reconcile_merge_run env i expected status result error)"
  unfolding start_runtime_def rt_create_workspace_def rt_acquire_lease_def rt_renew_lease_def ttl_guard_def
    rt_publish_artifact_def detect_conflicts_def create_merge_run_def reconcile_merge_run_def Let_def
  by (intro mworld.keeps_rules repo_calls_kept detect_pairs_kept merge_inputs_kept assert_leases_kept)+

end

subsection \<open>Sessions\<close>

datatype multi_call =
    CallStart
  | CallWorkspace writer_workspace
  | CallAcquire string string int
  | CallRenew writer_lease int
  | CallRelease writer_lease
  | CallPublish writer_artifact writer_lease
  | CallDetect string
  | CallResolve string string bool
  | CallCreate merge_run "string \<times> int" "writer_lease list"
  | CallFinalize string "string \<times> int" "writer_lease list" bool
  | CallReconcile string int merge_status "string option" "string option"

fun multi_perform :: "multi_env \<Rightarrow> 'g merge_adapter \<Rightarrow> multi_call \<Rightarrow> ('g, unit) mx" where
  "multi_perform env ad CallStart = sx_void (start_runtime env)"
| "multi_perform env ad (CallWorkspace w) = sx_void (rt_create_workspace env w)"
| "multi_perform env ad (CallAcquire i who ttl) = sx_void (rt_acquire_lease env i who ttl)"
| "multi_perform env ad (CallRenew lease ttl) = sx_void (rt_renew_lease env lease ttl)"
| "multi_perform env ad (CallRelease lease) = sx_void (repo_call env (\<lambda>n now. release_lease (me_sha env) lease now))"
| "multi_perform env ad (CallPublish a lease) = sx_void (rt_publish_artifact env a lease)"
| "multi_perform env ad (CallDetect run) = sx_void (detect_conflicts env run)"
| "multi_perform env ad (CallResolve i r rejected) =
     sx_void (repo_call env (\<lambda>n now. resolve_conflict i r rejected now))"
| "multi_perform env ad (CallCreate m named leases) = sx_void (create_merge_run env m named leases)"
| "multi_perform env ad (CallFinalize i named leases approved) =
     sx_void (finalize_merge_run env ad i named leases approved)"
| "multi_perform env ad (CallReconcile i expected status result error) =
     sx_void (reconcile_merge_run env i expected status result error)"

definition multi_session :: "multi_env \<Rightarrow> 'g merge_adapter \<Rightarrow> multi_call list \<Rightarrow> 'g multi_world \<Rightarrow> 'g multi_world" where
  "multi_session env ad calls w = fold (\<lambda>c w. snd (multi_perform env ad c w)) calls w"

definition among :: "(nat \<Rightarrow> multi_op list) \<Rightarrow> multi_env \<Rightarrow> multi_env" where
  \<comment> \<open>the same environment where others run the transactions \<open>ops n\<close> before the n-th one of the runtime\<close>
  "among ops env = env\<lparr>me_others := \<lambda>n. multi_execute (me_graph env) (me_sha env) (ops n)\<rparr>"

lemma among_fields [simp]: "me_graph (among ops env) = me_graph env" "me_sha (among ops env) = me_sha env"
  "me_digest (among ops env) = me_digest env" "me_clock (among ops env) = me_clock env"
  by (simp_all add: among_def)

definition empty_multi :: multi_store where
  "empty_multi = \<lparr>ms_workspaces = [], ms_leases = [], ms_artifacts = [], ms_conflicts = [], ms_merges = []\<rparr>"

lemma empty_multi_wf: "multi_wf empty_multi"
  by (simp add: empty_multi_def multi_wf_def indexed_def merges_ok_def)

interpretation actor: multi_actor "among ops env" for ops env
  by unfold_locales (simp add: among_def multi_execute_evolves)

lemma perform_kept: "keeps (on_store multi_evolves) (multi_perform (among ops env) ad c)"
  by (cases c) (simp_all add: keeps_void actor.runtime_kept actor.finalize_kept actor.repo_calls_kept)

lemma session_evolves: "multi_evolves (mx_store w) (mx_store (multi_session (among ops env) ad calls w))"
proof (induction calls arbitrary: w)
  case (Cons c cs)
  have "multi_evolves (mx_store w) (mx_store (snd (multi_perform (among ops env) ad c w)))"
    using perform_kept [of ops env ad c] by (simp add: keeps_def on_store_def)
  then show ?case using Cons multi.kept_trans by (fastforce simp: multi_session_def)
qed (simp add: multi_session_def multi.kept_refl)

end
