(* ===== verification/Multi_Safety.thy ===== *)
theory Multi_Safety
  imports Multi_Guarantee
begin

section \<open>Multi-writer merges: what the steps imply\<close>

subsection \<open>Merge runs that ran\<close>

definition spent :: "string \<Rightarrow> multi_store \<Rightarrow> bool" where
  \<comment> \<open>the merge run was claimed, or ended\<close>
  "spent i s \<longleftrightarrow> (\<exists>r. map_of (ms_merges s) i = Some r \<and> \<not> startable (mr_status (mg_merge r)))"

lemma merge_step_spent: "merge_step r t \<Longrightarrow> \<not> startable (mr_status (mg_merge r)) \<Longrightarrow> \<not> startable (mr_status (mg_merge t))"
  by (induction rule: merge_step.induct) (auto simp: startable_def)

lemma merge_steps_spent:
  "merge_step\<^sup>*\<^sup>* r t \<Longrightarrow> \<not> startable (mr_status (mg_merge r)) \<Longrightarrow> \<not> startable (mr_status (mg_merge t))"
  by (induction rule: rtranclp_induct) (auto dest: merge_step_spent)

lemma merges_descend:
  "multi_moves s t \<Longrightarrow> descends merge_step merge_born (map_of (ms_merges s) i) (map_of (ms_merges t) i)"
  by (simp add: multi_moves_def)

lemma spent_moves: "spent i s \<Longrightarrow> multi_moves s t \<Longrightarrow> spent i t"
  using merges_descend [of s t i] by (fastforce simp: spent_def descends_def dest: merge_steps_spent)

lemma spent_evolves: "multi_wf s \<Longrightarrow> spent i s \<Longrightarrow> multi_evolves s t \<Longrightarrow> spent i t"
  by (auto simp: multi_evolves_def intro: spent_moves)

inductive_cases merge_stepE: "merge_step r t"

lemma merge_step_final:
  "merge_step r t \<Longrightarrow> mr_status (mg_merge r) \<notin> {MS_SUCCEEDED, MS_FAILED, MS_ROLLED_BACK}"
  by (auto elim!: merge_stepE simp: startable_def)

lemma merge_steps_final:
  "merge_step\<^sup>*\<^sup>* r t \<Longrightarrow> mr_status (mg_merge r) \<in> {MS_SUCCEEDED, MS_FAILED, MS_ROLLED_BACK} \<Longrightarrow> t = r"
  by (induction rule: converse_rtranclp_induct) (auto dest: merge_step_final)

lemma merge_steps_plan: "merge_step\<^sup>*\<^sup>* r t \<Longrightarrow> same_plan (mg_merge r) (mg_merge t)"
  by (induction rule: rtranclp_induct) (auto elim!: merge_stepE simp: same_plan_def)

subsection \<open>Calls that leave the worktrees alone\<close>

definition same_git :: "'g multi_world \<Rightarrow> 'g multi_world \<Rightarrow> bool" where
  "same_git w w' \<longleftrightarrow> mx_git w' = mx_git w"

interpretation git: kept_relation same_git
  by unfold_locales (simp_all add: same_git_def)

lemma repo_call_git: "keeps same_git (repo_call env f)"
  by (simp add: keeps_def same_git_def repo_call_def case_prod_beta)

lemma merge_inputs_git: "keeps same_git (merge_inputs env m named)"
  unfolding merge_inputs_def by (intro git.keeps_rules repo_call_git)

lemma assert_leases_git: "keeps same_git (assert_workspace_leases env ws leases)"
  unfolding assert_workspace_leases_def by (intro git.keeps_rules repo_call_git)

lemma transition_git: "keeps same_git (transition env m status error)"
  unfolding transition_def by (rule repo_call_git)

text \<open>Calls only add to the number of transactions, which numbers the readings of the clock.\<close>

definition counting :: "'g multi_world \<Rightarrow> 'g multi_world \<Rightarrow> bool" where
  "counting w w' \<longleftrightarrow> mx_calls w \<le> mx_calls w'"

interpretation count: kept_relation counting
  by unfold_locales (simp_all add: counting_def)

lemma repo_call_counts: "keeps counting (repo_call env f)"
  by (simp add: keeps_def counting_def repo_call_def case_prod_beta)

lemma adapter_call_counts: "keeps counting (adapter_call f)"
  by (simp add: keeps_def counting_def adapter_call_def case_prod_beta)

lemma merge_inputs_counts: "keeps counting (merge_inputs env m named)"
  unfolding merge_inputs_def by (intro count.keeps_rules repo_call_counts)

lemma settle_counts: "keeps counting (settle_merge env ad policy running outcome)"
proof -
  have owned: "keeps counting (transition_owned env running st res err)" for st res err
    unfolding transition_owned_def by (rule repo_call_counts)
  have undo: "keeps counting (sx_bind (adapter_call (ma_rollback ad running)) (\<lambda>undone.
      case undone of Inl e \<Rightarrow> transition_owned env running MS_FAILED None (Some code)
      | Inr u \<Rightarrow> transition_owned env running MS_ROLLED_BACK None (Some code)))" for code
    by (intro count.keeps_bind adapter_call_counts) (simp add: owned split: sum.split)
  show ?thesis unfolding settle_merge_def by (simp add: owned undo split: sum.split adapter_error.split)
qed

lemma execute_merge_counts: "keeps counting (execute_merge env ad m policy as ws cs)"
  unfolding execute_merge_def by (intro count.keeps_bind repo_call_counts adapter_call_counts settle_counts)

lemma bind_changes:
  assumes "mx_git (snd (sx_bind f k w)) \<noteq> mx_git w" and "keeps same_git f"
  obtains x w' where "f w = (Inr x, w')" and "mx_git w' = mx_git w" and "mx_git (snd (k x w')) \<noteq> mx_git w'"
    and "sx_bind f k w = k x w'"
proof -
  obtain r w' where f: "f w = (r, w')" by fastforce
  have git: "mx_git w' = mx_git w" using keepsD [OF assms(2) f] by (simp add: same_git_def)
  from assms(1) f git obtain x where "r = Inr x" by (cases r) (auto simp: sx_bind_def)
  with f git assms(1) show ?thesis by (intro that [of x w']) (auto simp: sx_bind_def)
qed

lemma finalize_reaches:
  assumes "mx_git (snd (finalize_merge_run env ad i named leases approved w)) \<noteq> mx_git w"
  obtains m w1 policy as ws w2 u w3 cs w4
  where "repo_call env (\<lambda>n now. get_merge_run i) w = (Inr m, w1)" and "startable (mr_status m)"
    and "merge_inputs env m (Some named) w1 = (Inr (policy, as, ws), w2)"
    and "assert_workspace_leases env ws leases w2 = (Inr u, w3)"
    and "repo_call env (\<lambda>n now. list_conflicts (mr_run m)) w3 = (Inr cs, w4)"
    and "\<not> list_ex (\<lambda>c. wc_status c = CS_OPEN) cs" and "require_review policy \<longrightarrow> approved"
    and "finalize_merge_run env ad i named leases approved w = execute_merge env ad m policy as ws cs w4"
    and "mx_git (snd (execute_merge env ad m policy as ws cs w4)) \<noteq> mx_git w4"
proof -
  define tail where "tail = (\<lambda>m (policy, artifacts, workspaces).
       sx_bind (assert_workspace_leases env workspaces leases) (\<lambda>_.
       sx_bind (repo_call env (\<lambda>n now. list_conflicts (mr_run m))) (\<lambda>conflicts.
       if list_ex (\<lambda>c. wc_status c = CS_OPEN) conflicts then
         if mr_status m = MS_CONFLICTED then sx_return m
         else transition env m MS_CONFLICTED (Some ''conflict_open'')
       else if require_review policy \<and> \<not> approved then
         if mr_status m = MS_REVIEW_REQUIRED then sx_return m
         else transition env m MS_REVIEW_REQUIRED None
       else execute_merge env ad m policy artifacts workspaces conflicts)))"
  define body where "body = (\<lambda>m.
     if mr_status m \<in> {MS_SUCCEEDED, MS_FAILED, MS_ROLLED_BACK, MS_OUTCOME_UNKNOWN}
     then sx_raise (MwConflict ''terminal merge runs cannot be finalized again'')
     else if mr_status m = MS_RUNNING
     then sx_raise (MwConflict ''running merge result is unknown and requires reconciliation'')
     else sx_bind (merge_inputs env m (Some named)) (tail m))"
  have fin: "finalize_merge_run env ad i named leases approved = sx_bind (repo_call env (\<lambda>n now. get_merge_run i)) body"
    unfolding finalize_merge_run_def body_def tail_def by (rule refl)
  obtain m w1 where m: "repo_call env (\<lambda>n now. get_merge_run i) w = (Inr m, w1)" "mx_git w1 = mx_git w"
    "mx_git (snd (body m w1)) \<noteq> mx_git w1" "sx_bind (repo_call env (\<lambda>n now. get_merge_run i)) body w = body m w1"
    by (rule bind_changes [OF assms [unfolded fin] repo_call_git])
  from m(3) have st: "startable (mr_status m)"
    by (auto simp: body_def startable_def sx_simps split: if_splits)
  then have body: "body m w1 = sx_bind (merge_inputs env m (Some named)) (tail m) w1"
    by (auto simp: body_def startable_def)
  obtain inp w2 where inp: "merge_inputs env m (Some named) w1 = (Inr inp, w2)" "mx_git w2 = mx_git w1"
    "mx_git (snd (tail m inp w2)) \<noteq> mx_git w2"
    "sx_bind (merge_inputs env m (Some named)) (tail m) w1 = tail m inp w2"
    by (rule bind_changes [OF m(3) [unfolded body] merge_inputs_git])
  obtain policy as ws where parts: "inp = (policy, as, ws)" by (cases inp) auto
  let ?k = "\<lambda>conflicts. if list_ex (\<lambda>c. wc_status c = CS_OPEN) conflicts then
         if mr_status m = MS_CONFLICTED then sx_return m
         else transition env m MS_CONFLICTED (Some ''conflict_open'')
       else if require_review policy \<and> \<not> approved then
         if mr_status m = MS_REVIEW_REQUIRED then sx_return m
         else transition env m MS_REVIEW_REQUIRED None
       else execute_merge env ad m policy as ws conflicts"
  let ?list = "repo_call env (\<lambda>n now. list_conflicts (mr_run m))"
  have tail: "tail m inp = sx_bind (assert_workspace_leases env ws leases) (\<lambda>_. sx_bind ?list ?k)"
    by (simp add: tail_def parts)
  obtain u w3 where u: "assert_workspace_leases env ws leases w2 = (Inr u, w3)" "mx_git w3 = mx_git w2"
    "mx_git (snd (sx_bind ?list ?k w3)) \<noteq> mx_git w3"
    "sx_bind (assert_workspace_leases env ws leases) (\<lambda>_. sx_bind ?list ?k) w2 = sx_bind ?list ?k w3"
    by (rule bind_changes [OF inp(3) [unfolded tail] assert_leases_git])
  obtain cs w4 where cs: "?list w3 = (Inr cs, w4)" "mx_git w4 = mx_git w3" "mx_git (snd (?k cs w4)) \<noteq> mx_git w4"
    "sx_bind ?list ?k w3 = ?k cs w4"
    by (rule bind_changes [OF u(3) repo_call_git])
  have parked: "mx_git (snd (transition env m status error w4)) = mx_git w4" for status error
    by (rule spec [OF transition_git [unfolded keeps_def same_git_def]])
  have closed: "\<not> list_ex (\<lambda>c. wc_status c = CS_OPEN) cs" and review: "require_review policy \<longrightarrow> approved"
    using cs(3) by (auto simp: parked sx_simps split: if_splits)
  then have k: "?k cs w4 = execute_merge env ad m policy as ws cs w4" by auto
  have "finalize_merge_run env ad i named leases approved w = execute_merge env ad m policy as ws cs w4"
    unfolding fin m(4) body inp(4) tail u(4) cs(4) k ..
  with m inp parts u cs st closed review k show ?thesis by (intro that [of m w1 policy as ws w2 u w3 cs w4]) auto
qed

lemma repo_call_Inr:
  "repo_call env f w = (Inr x, w') \<longleftrightarrow>
     (\<exists>s. f (mx_calls w) (me_clock env (mx_calls w)) (me_others env (mx_calls w) (mx_store w)) = (Inr x, s)
        \<and> w' = w\<lparr>mx_store := s, mx_calls := mx_calls w + 1\<rparr>)"
  by (auto simp: repo_call_def split: prod.splits)

subsection \<open>One execution\<close>

context multi_actor
begin

lemma claimed_spent:
  assumes "repo_call env (\<lambda>n now. claim_merge_run m (me_owner env) (e now) now) w = (Inr running, w')"
    and "multi_wf (mx_store w)"
  shows "spent (mr_id m) (mx_store w') \<and> multi_wf (mx_store w')"
proof -
  let ?n = "mx_calls w"
  let ?s = "me_others env ?n (mx_store w)"
  let ?P = "\<lambda>k r. k = mr_id m \<and> (mr_revision (mg_merge r) = mr_revision m \<and> startable (mr_status (mg_merge r)))"
  have wf: "multi_wf ?s" using others_evolve assms(2) by (auto simp: multi_evolves_def)
  from assms(1) obtain t where run: "claim_merge_run m (me_owner env) (e (me_clock env ?n)) (me_clock env ?n) ?s = (Inr running, t)"
    and w': "mx_store w' = t" by (auto simp: repo_call_Inr)
  note facts = claim_merge_run_Inr [OF run]
  have "distinct (map fst (ms_merges ?s))" using wf merges_ok_distinct by (auto simp: multi_wf_def)
  with facts(3) obtain r where r: "map_of (ms_merges ?s) (mr_id m) = Some r" "?P (mr_id m) r"
    by (subst (asm) sql_rows_one_iff) auto
  have "spent (mr_id m) t"
    using r by (auto simp: spent_def facts(2) map_of_sql_update startable_def)
  moreover have "multi_evolves ?s t" using keepsD [OF claim_merge_run_kept run] .
  ultimately show ?thesis using wf w' by (auto simp: multi_evolves_def)
qed

lemma execute_spent:
  assumes "mx_git (snd (execute_merge env ad m policy as ws cs w)) \<noteq> mx_git w" and "multi_wf (mx_store w)"
  shows "spent (mr_id m) (mx_store (snd (execute_merge env ad m policy as ws cs w)))"
proof -
  let ?claim = "repo_call env (\<lambda>n now. claim_merge_run m (me_owner env) (seconds_from now (me_ttl env)) now)"
  let ?rest = "\<lambda>running. sx_bind (adapter_call (ma_merge ad running as ws cs)) (settle_merge env ad policy running)"
  have ex: "execute_merge env ad m policy as ws cs = sx_bind ?claim ?rest" by (simp add: execute_merge_def)
  obtain running w' where c: "?claim w = (Inr running, w')" "sx_bind ?claim ?rest w = ?rest running w'"
    by (rule bind_changes [OF assms(1) [unfolded ex] repo_call_git])
  from claimed_spent [OF c(1) assms(2)] have sp: "spent (mr_id m) (mx_store w')" "multi_wf (mx_store w')" by auto
  have "keeps (on_store multi_evolves) (?rest running)"
    by (intro mworld.keeps_bind adapter_call_kept settle_kept)
  then have "multi_evolves (mx_store w') (mx_store (snd (?rest running w')))"
    unfolding keeps_def on_store_def by (rule spec)
  with sp show ?thesis unfolding ex c(2) by (auto intro: spent_evolves)
qed

lemma read_wf:
  assumes "repo_call env (\<lambda>n now. get_merge_run i) w = (Inr m, w1)" and "multi_wf (mx_store w)"
  shows "mr_id m = i" and "multi_wf (mx_store w1)" and "row_seen m (mx_store w1)"
    and "multi_evolves (mx_store w) (mx_store w1)"
    and "\<exists>r. map_of (ms_merges (mx_store w1)) i = Some r \<and> mg_merge r = m"
proof -
  let ?s = "me_others env (mx_calls w) (mx_store w)"
  have ev: "multi_evolves (mx_store w) ?s" by (rule others_evolve)
  then have wf: "multi_wf ?s" using assms(2) by (simp add: multi_evolves_def)
  from assms(1) obtain r where r: "map_of (ms_merges ?s) i = Some r" "mg_merge r = m" "mx_store w1 = ?s"
    by (auto simp: repo_call_Inr sx_simps split: option.splits)
  then have "mr_id m = i" using wf merges_okD(1) by (auto simp: multi_wf_def)
  then show "mr_id m = i" and "row_seen m (mx_store w1)" using r by (auto simp: row_seen_def)
  show "multi_wf (mx_store w1)" "multi_evolves (mx_store w) (mx_store w1)"
    "\<exists>r. map_of (ms_merges (mx_store w1)) i = Some r \<and> mg_merge r = m" using wf ev r by auto
qed

lemma finalize_spends:
  assumes "mx_git (snd (finalize_merge_run env ad i named leases approved w)) \<noteq> mx_git w"
    and "multi_wf (mx_store w)"
  shows "spent i (mx_store (snd (finalize_merge_run env ad i named leases approved w)))"
proof -
  obtain m w1 policy as ws w2 u w3 cs w4
    where f: "repo_call env (\<lambda>n now. get_merge_run i) w = (Inr m, w1)"
      "merge_inputs env m (Some named) w1 = (Inr (policy, as, ws), w2)"
      "assert_workspace_leases env ws leases w2 = (Inr u, w3)"
      "repo_call env (\<lambda>n now. list_conflicts (mr_run m)) w3 = (Inr cs, w4)"
      "finalize_merge_run env ad i named leases approved w = execute_merge env ad m policy as ws cs w4"
      "mx_git (snd (execute_merge env ad m policy as ws cs w4)) \<noteq> mx_git w4"
    by (rule finalize_reaches [OF assms(1)])
  note rd = read_wf [OF f(1) assms(2)]
  have "multi_wf (mx_store w4)"
    using rd(2) keepsD [OF merge_inputs_kept(1) f(2)] keepsD [OF assert_leases_kept(1) f(3)]
      keepsD [OF repo_call_kept [OF multi_reads_kept(4)] f(4)]
    by (simp add: on_store_def multi_evolves_def)
  from execute_spent [OF f(6) this] show ?thesis unfolding f(5) rd(1) .
qed

lemma finalize_refused:
  assumes "spent i (mx_store w)" and "multi_wf (mx_store w)"
  shows "mx_git (snd (finalize_merge_run env ad i named leases approved w)) = mx_git w"
proof (rule ccontr)
  assume "mx_git (snd (finalize_merge_run env ad i named leases approved w)) \<noteq> mx_git w"
  then obtain m w1 where m: "repo_call env (\<lambda>n now. get_merge_run i) w = (Inr m, w1)" "startable (mr_status m)"
    by (rule finalize_reaches) blast
  note rd = read_wf [OF m(1) assms(2)]
  have "spent i (mx_store w1)" using spent_evolves [OF assms(2,1) rd(4)] .
  with rd(5) m(2) show False by (auto simp: spent_def)
qed

end

end
