(* ===== verification/Multi_Inputs.thy ===== *)
theory Multi_Inputs
  imports Multi_Safety
begin

section \<open>Multi-writer merges: leases, conflicts and the inputs of a merge\<close>

subsection \<open>Fencing\<close>

lemma lease_steps_fencing: "lease_step\<^sup>*\<^sup>* l k \<Longrightarrow> lr_fencing l \<le> lr_fencing k"
  by (induction rule: rtranclp_induct) (auto elim: lease_step.cases)

lemma leases_rise:
  assumes "multi_moves t u" and "map_of (ms_leases t) i = Some row"
  shows "\<exists>row'. map_of (ms_leases u) i = Some row' \<and> lr_fencing row \<le> lr_fencing row'"
proof -
  have "descends lease_step lease_born (map_of (ms_leases t) i) (map_of (ms_leases u) i)"
    using assms(1) by (simp add: multi_moves_def)
  with assms(2) show ?thesis by (auto simp: descends_def dest: lease_steps_fencing)
qed

lemma atomic_refuses: "atomic m \<Longrightarrow> (\<And>x t. m s \<noteq> (Inr x, t)) \<Longrightarrow> \<exists>e. m s = (Inl e, s)"
  by (cases "m s"; cases "fst (m s)") (auto dest: atomicD)

lemma fenced_lease_refused:
  assumes wf: "multi_wf s" and row: "map_of (ms_leases s) (wl_workspace l) = Some row" "wl_fencing l < lr_fencing row"
  shows "\<exists>e. publish_artifact sha a l now s = (Inl e, s)"
    and "\<exists>e. renew_lease sha l expires now s = (Inl e, s)"
    and "\<exists>e. release_lease sha l now s = (Inl e, s)"
proof -
  have keys: "distinct (map fst (ms_leases s))" using wf by (simp add: multi_wf_def)
  have behind: "\<not> lease_held sha l k" if "map_of (ms_leases s) (wl_workspace l) = Some k" for k
    using that row by (simp add: lease_held_def)
  show "\<exists>e. publish_artifact sha a l now s = (Inl e, s)"
  proof (rule atomic_refuses)
    show "atomic (publish_artifact sha a l now)" unfolding publish_artifact_def by (intro atomic_rules)
    fix x t
    show "publish_artifact sha a l now s \<noteq> (Inr x, t)"
      using publish_artifact_Inr(3) [of sha a l now s x t] behind row by (auto simp: lease_current_def)
  qed
  show "\<exists>e. renew_lease sha l expires now s = (Inl e, s)"
  proof (rule atomic_refuses)
    show "atomic (renew_lease sha l expires now)" unfolding renew_lease_def by (intro atomic_rules)
    fix x t
    show "renew_lease sha l expires now s \<noteq> (Inr x, t)"
      using behind sql_rows_one_iff [OF keys, of "wl_workspace l" "\<lambda>k. lease_held sha l k \<and> now < lr_expires k"]
      by (auto simp: renew_lease_def sx_Inr sx_transaction_Inr Let_def)
  qed
  show "\<exists>e. release_lease sha l now s = (Inl e, s)"
  proof (rule atomic_refuses)
    show "atomic (release_lease sha l now)" unfolding release_lease_def by (intro atomic_rules)
    fix x t
    show "release_lease sha l now s \<noteq> (Inr x, t)"
      using behind sql_rows_one_iff [OF keys, of "wl_workspace l" "lease_held sha l"]
      by (auto simp: release_lease_def sx_Inr sx_transaction_Inr Let_def)
  qed
qed

lemma rt_acquire_lease_Inr:
  assumes "rt_acquire_lease env i who ttl w = (Inr l, w')"
  defines "s \<equiv> me_others env (mx_calls w) (mx_store w)"
  shows "wl_workspace l = i" and "\<exists>row. map_of (ms_leases (mx_store w')) i = Some row \<and> lr_fencing row = wl_fencing l"
    and "\<And>row. map_of (ms_leases s) i = Some row \<Longrightarrow> lr_fencing row < wl_fencing l"
proof -
  from assms(1) obtain t who' token expires now where run: "acquire_lease (me_sha env) i who' token expires now s = (Inr l, t)"
    and w': "mx_store w' = t"
    unfolding rt_acquire_lease_def ttl_guard_def by (auto simp: repo_call_Inr sx_Inr s_def)
  note facts = acquire_lease_Inr [OF run]
  show "wl_workspace l = i" "\<exists>row. map_of (ms_leases (mx_store w')) i = Some row \<and> lr_fencing row = wl_fencing l"
    unfolding w' facts(2,3) by (simp_all add: map_of_update)
  show "lr_fencing row < wl_fencing l" if "map_of (ms_leases s) i = Some row" for row
    unfolding facts(3) by (simp add: that)
qed

subsection \<open>Detection of conflicts\<close>

lemma sort_remdups_eq: "sort (remdups xs) = sorted_list_of_set (set xs)"
  by (simp add: sorted_list_of_set_sort_remdups)

lemma overlap_equal_length:
  assumes "length l = length r"
  shows "paths_overlap l r \<longleftrightarrow> l = r"
  using assms by (auto simp: paths_overlap_def starts_with_iff)

lemma in_writer_overlap:
  "x \<in> set (writer_overlap left right) \<longleftrightarrow>
     (\<exists>l \<in> set left. \<exists>r \<in> set right. paths_overlap l r \<and> x = (if length r < length l then r else l))"
  by (auto simp: writer_overlap_def paths_overlap_def [symmetric] split: if_splits)

lemma set_writer_overlap_commute: "set (writer_overlap left right) = set (writer_overlap right left)"
proof -
  have half: "x \<in> set (writer_overlap q p)" if "x \<in> set (writer_overlap p q)" for x p q
  proof -
    from that obtain l r where lr: "l \<in> set p" "r \<in> set q" "paths_overlap l r"
      and x: "x = (if length r < length l then r else l)"
      unfolding in_writer_overlap by blast
    have "x = (if length l < length r then l else r)"
      using x lr(3) overlap_equal_length [of l r] by (auto split: if_splits)
    moreover have "paths_overlap r l" using lr(3) by (auto simp: paths_overlap_def)
    ultimately show ?thesis using lr unfolding in_writer_overlap by blast
  qed
  show ?thesis using half by blast
qed

lemma conflict_between_sets:
  "conflict_between l lw r rw =
     (let C = set (wa_changed l) \<inter> set (wa_changed r);
          D = set (writer_overlap (ww_paths lw) (ww_paths rw));
          stale = (wa_base l \<noteq> wa_base r);
          P = (if stale \<and> C \<union> D = {} then set (wa_changed l) \<union> set (wa_changed r) else C \<union> D)
      in if ww_key lw = ww_key rw \<or> P = {} \<and> \<not> stale then None
         else Some \<lparr>cr_left = min (wa_id l) (wa_id r), cr_right = max (wa_id l) (wa_id r),
                cr_paths = sorted_list_of_set P, cr_stale = stale, cr_ownership = sorted_list_of_set D\<rparr>)"
proof -
  have inter: "set (filter (\<lambda>p. p \<in> set (wa_changed r)) (wa_changed l)) = set (wa_changed l) \<inter> set (wa_changed r)"
    by auto
  show ?thesis
    unfolding conflict_between_def Let_def sort_remdups_eq set_empty [symmetric] if_distrib [of set] set_append inter
    by simp
qed

lemma conflict_between_commute: "conflict_between l lw r rw = conflict_between r rw l lw"
  unfolding conflict_between_sets set_writer_overlap_commute [of "ww_paths lw"]
  by (simp only: Int_commute Un_commute min.commute max.commute eq_commute [of "ww_key lw"] eq_commute [of "wa_base l"])

lemma conflict_between_Some:
  assumes "ww_key lw \<noteq> ww_key rw"
    and "set (wa_changed l) \<inter> set (wa_changed r) \<noteq> {} \<or> wa_base l \<noteq> wa_base r
      \<or> (\<exists>p \<in> set (ww_paths lw). \<exists>q \<in> set (ww_paths rw). paths_overlap p q)"
  obtains reason where "conflict_between l lw r rw = Some reason"
    and "cr_left reason = min (wa_id l) (wa_id r)" and "cr_right reason = max (wa_id l) (wa_id r)"
    and "set (wa_changed l) \<inter> set (wa_changed r) \<subseteq> set (cr_paths reason)"
proof -
  let ?C = "set (wa_changed l) \<inter> set (wa_changed r)" and ?D = "set (writer_overlap (ww_paths lw) (ww_paths rw))"
  let ?P = "if wa_base l \<noteq> wa_base r \<and> ?C \<union> ?D = {} then set (wa_changed l) \<union> set (wa_changed r) else ?C \<union> ?D"
  have "?C \<noteq> {} \<or> wa_base l \<noteq> wa_base r \<or> ?D \<noteq> {}"
    using assms(2) by (simp add: writer_overlap_empty_iff)
  then have "(ww_key lw = ww_key rw \<or> ?P = {} \<and> \<not> wa_base l \<noteq> wa_base r) = False"
    using assms(1) by (cases "wa_base l = wa_base r") (simp_all only: simp_thms if_True if_False Un_empty de_Morgan_conj)
  then have "conflict_between l lw r rw = Some \<lparr>cr_left = min (wa_id l) (wa_id r), cr_right = max (wa_id l) (wa_id r),
      cr_paths = sorted_list_of_set ?P, cr_stale = (wa_base l \<noteq> wa_base r), cr_ownership = sorted_list_of_set ?D\<rparr>"
    unfolding conflict_between_sets Let_def by (simp only: if_False)
  then show ?thesis by (rule that) auto
qed

lemma pairs_of_either:
  "x \<in> set xs \<Longrightarrow> y \<in> set xs \<Longrightarrow> x \<noteq> y \<Longrightarrow> (x, y) \<in> set (pairs_of xs) \<or> (y, x) \<in> set (pairs_of xs)"
  by (induction xs) auto

definition recorded :: "multi_store \<Rightarrow> string \<Rightarrow> string \<Rightarrow> bool" where
  "recorded s run h \<longleftrightarrow> (\<exists>i c. map_of (ms_conflicts s) i = Some c \<and> wc_run c = run \<and> wc_hash c = h)"

lemma conflict_steps_kept:
  "conflict_step\<^sup>*\<^sup>* c d \<Longrightarrow> wc_run d = wc_run c \<and> wc_hash d = wc_hash c \<and> wc_left d = wc_left c \<and> wc_right d = wc_right c
     \<and> (wc_status c \<noteq> CS_OPEN \<longrightarrow> d = c)"
proof (induction rule: rtranclp_induct)
  case (step d e)
  from step.hyps(2) show ?case using step.IH by cases auto
qed simp

lemma conflicts_descend:
  "multi_moves s t \<Longrightarrow> descends conflict_step (\<lambda>_. True) (map_of (ms_conflicts s) i) (map_of (ms_conflicts t) i)"
  by (simp add: multi_moves_def)

lemma recorded_moves: "recorded s run h \<Longrightarrow> multi_moves s t \<Longrightarrow> recorded t run h"
proof -
  assume "recorded s run h" and moves: "multi_moves s t"
  then obtain i c where c: "map_of (ms_conflicts s) i = Some c" "wc_run c = run" "wc_hash c = h"
    by (auto simp: recorded_def)
  from conflicts_descend [OF moves, of i] c(1) obtain d where "map_of (ms_conflicts t) i = Some d" "conflict_step\<^sup>*\<^sup>* c d"
    by (auto simp: descends_def)
  with c conflict_steps_kept [of c d] show ?thesis by (auto simp: recorded_def)
qed

lemma recorded_evolves: "multi_wf s \<Longrightarrow> recorded s run h \<Longrightarrow> multi_evolves s t \<Longrightarrow> recorded t run h"
  by (auto simp: multi_evolves_def intro: recorded_moves)

lemma put_conflict_recorded:
  assumes "put_conflict g c s = (Inr x, t)" and "multi_wf t"
  shows "recorded t (wc_run c) (wc_hash c)"
proof -
  from assms(1) have "find_conflict (wc_run c) (wc_hash c) t = Some x"
    unfolding put_conflict_def by (auto simp: sx_Inr sx_transaction_Inr)
  then have x: "x \<in> snd ` set (ms_conflicts t)" "wc_run x = wc_run c" "wc_hash x = wc_hash c"
    unfolding find_conflict_def by (auto dest: list_find_SomeD)
  then obtain i where "(i, x) \<in> set (ms_conflicts t)" by auto
  moreover have "distinct (map fst (ms_conflicts t))" using assms(2) by (simp add: multi_wf_def indexed_def)
  ultimately show ?thesis using x unfolding recorded_def by (auto intro!: exI [of _ i] exI [of _ x])
qed

lemma sx_each_lift: "sx_each (\<lambda>x. sx_lift (f x)) xs w = (r, w') \<Longrightarrow> w' = w"
  by (induction xs arbitrary: r) (auto simp: sx_simps split: sum.splits prod.splits)

lemma sx_each_lift_all: "sx_each (\<lambda>x. sx_lift (f x)) xs w = (Inr ys, w') \<Longrightarrow> x \<in> set xs \<Longrightarrow> \<exists>y. f x = Inr y"
  by (induction xs arbitrary: ys) (auto simp: sx_Inr)

definition leased_during ::
  "multi_env \<Rightarrow> 'g multi_world \<Rightarrow> 'g multi_world \<Rightarrow> writer_lease list \<Rightarrow> writer_workspace \<Rightarrow> multi_store \<Rightarrow> bool" where
  \<comment> \<open>between the worlds, before the store was \<open>t\<close>, a lease of the workspace was current by the clock\<close>
  "leased_during env w w' leases v t \<longleftrightarrow>
     (\<exists>l u n. l \<in> set leases \<and> wl_workspace l = ww_id v \<and> multi_evolves (mx_store w) u \<and> multi_evolves u t
        \<and> mx_calls w \<le> n \<and> n < mx_calls w' \<and> lease_current (me_sha env) u l (me_clock env n))"

lemma fold_leases:
  "(k, l) \<in> set (fold (\<lambda>l. AList.update (wl_workspace l) l) ls d) \<Longrightarrow> (k, l) \<in> set d \<or> l \<in> set ls \<and> k = wl_workspace l"
proof (induction ls arbitrary: d)
  case (Cons x ls)
  have "set (AList.update (wl_workspace x) x d) \<subseteq> insert (wl_workspace x, x) (set d)" by (induction d) auto
  with Cons.IH [of "AList.update (wl_workspace x) x d"] Cons.prems show ?case by auto
qed simp

text \<open>What the two lists hold.\<close>

lemma listed_artifact:
  assumes "repo_call env (\<lambda>n now. list_artifacts run) w = (Inr as, w')" and "multi_wf (mx_store w)"
    and "multi_evolves (mx_store w) (mx_store w')"
    and "map_of (ms_artifacts (mx_store w)) (wa_id a) = Some a"
    and "map_of (ms_workspaces (mx_store w)) (wa_workspace a) = Some v" and "ww_run v = run"
  shows "a \<in> set as"
proof -
  have moves: "multi_moves (mx_store w) (mx_store w')" using assms(2,3) by (simp add: multi_evolves_def)
  then have "map_of (ms_artifacts (mx_store w')) (wa_id a) = Some a"
    "map_of (ms_workspaces (mx_store w')) (wa_workspace a) = Some v"
    using assms(4,5) by (auto simp: multi_moves_def map_le_def dom_def)
  with assms(1,6) show ?thesis
    by (force simp: repo_call_Inr list_artifacts_def sx_Inr dest: map_of_SomeD)
qed

lemma map_of_unique:
  assumes "v \<in> set ws" and "f v = i" and "\<And>x. x \<in> set ws \<Longrightarrow> f x = i \<Longrightarrow> x = v"
  shows "map_of (map (\<lambda>w. (f w, w)) ws) i = Some v"
proof -
  have "i \<in> fst ` set (map (\<lambda>w. (f w, w)) ws)" using assms(1,2) by force
  then obtain y where y: "map_of (map (\<lambda>w. (f w, w)) ws) i = Some y"
    by (metis map_of_eq_None_iff not_None_eq)
  from map_of_SomeD [OF y] have "y \<in> set ws" "f y = i" by auto
  then have "y = v" by (rule assms(3))
  with y show ?thesis by (simp only:)
qed

lemma listed_workspace:
  assumes "repo_call env (\<lambda>n now. list_workspaces run) w1 = (Inr ws, w')" and "multi_wf (mx_store w)"
    and "multi_evolves (mx_store w) (mx_store w')"
    and "map_of (ms_workspaces (mx_store w)) i = Some v" and "ww_run v = run"
  shows "map_of (map (\<lambda>w. (ww_id w, w)) ws) i = Some v"
proof -
  have moves: "multi_wf (mx_store w')" "multi_moves (mx_store w) (mx_store w')"
    using assms(2,3) by (simp_all add: multi_evolves_def)
  then have row: "map_of (ms_workspaces (mx_store w')) i = Some v"
    using assms(4) by (auto simp: multi_moves_def map_le_def dom_def)
  have ix: "indexed ww_id (ms_workspaces (mx_store w'))" using moves(1) by (simp add: multi_wf_def)
  have ws: "set ws = {x \<in> snd ` set (ms_workspaces (mx_store w')). ww_run x = run}"
    using assms(1) by (auto simp: repo_call_Inr list_workspaces_def sx_Inr)
  have "v \<in> set ws" "ww_id v = i"
    using ws row assms(5) ix by (force dest: map_of_SomeD, simp add: indexed_def)
  moreover have "x = v" if x: "x \<in> set ws" "ww_id x = i" for x
  proof -
    obtain k where "(k, x) \<in> set (ms_workspaces (mx_store w'))" using ws x(1) by auto
    then have k: "map_of (ms_workspaces (mx_store w')) k = Some x" using ix by (simp add: indexed_def)
    then have "k = i" using ix x(2) unfolding indexed_def by blast
    with k row show ?thesis by simp
  qed
  ultimately show ?thesis by (rule map_of_unique)
qed

context multi_actor
begin

lemma evolves_wf: "multi_evolves s t \<Longrightarrow> multi_wf s \<Longrightarrow> multi_wf t"
  by (simp add: multi_evolves_def)

lemmas listed_kept = multi_reads_kept(7,6) [THEN repo_call_kept]

lemma record_conflict_recorded:
  assumes "record_conflict env run reason w = (Inr c, w')" and "multi_wf (mx_store w)"
  shows "recorded (mx_store w') run (me_digest env reason) \<and> multi_wf (mx_store w')"
proof -
  have wf: "multi_wf (mx_store w')"
    using keepsD [OF record_conflict_kept assms(1)] assms(2) by (simp add: on_store_def evolves_wf)
  moreover obtain s k where "put_conflict (me_graph env) k s = (Inr c, mx_store w')"
    "wc_run k = run" "wc_hash k = me_digest env reason"
    using assms(1) unfolding record_conflict_def
    by (auto simp: repo_call_Inr sx_Inr Let_def conflict_for_def)
  ultimately show ?thesis using put_conflict_recorded by metis
qed

lemma detect_pairs_recorded:
  assumes "detect_pairs env run ws ps w = (Inr cs, w')" and "multi_wf (mx_store w)"
    and "(l, r) \<in> set ps" and "map_of ws (wa_workspace l) = Some lw" and "map_of ws (wa_workspace r) = Some rw"
    and "conflict_between l lw r rw = Some reason"
  shows "recorded (mx_store w') run (me_digest env reason)"
  using assms(1-3)
proof (induction ps arbitrary: w cs)
  case (Cons p ps)
  obtain a b where p: "p = (a, b)" by fastforce
  obtain aw bw where aw: "map_of ws (wa_workspace a) = Some aw" and bw: "map_of ws (wa_workspace b) = Some bw"
    using Cons.prems(1) p by (auto simp: sx_Inr split: option.splits)
  show ?case
  proof (cases "conflict_between a aw b bw")
    case None
    with Cons p aw bw assms(4-6) show ?thesis by (auto split: if_splits)
  next
    case (Some why)
    then obtain c w1 cs' where c: "record_conflict env run why w = (Inr c, w1)"
      and rest: "detect_pairs env run ws ps w1 = (Inr cs', w')"
      using Cons.prems(1) p aw bw by (auto simp: sx_Inr)
    from record_conflict_recorded [OF c Cons.prems(2)]
    have here: "recorded (mx_store w1) run (me_digest env why)" "multi_wf (mx_store w1)" by auto
    show ?thesis
    proof (cases "(l, r) = p")
      case True
      with Some p aw bw assms(4-6) have "why = reason" by auto
      moreover have "multi_evolves (mx_store w1) (mx_store w')"
        using keepsD [OF detect_pairs_kept rest] by (simp add: on_store_def)
      ultimately show ?thesis using here recorded_evolves by blast
    qed (use Cons.IH [OF rest here(2)] Cons.prems(3) in auto)
  qed
qed simp

text \<open>Rows read one after the other are all there at the end.\<close>

lemma each_read:
  fixes w :: "'g multi_world"
  assumes "\<And>x y w (w' :: 'g multi_world). repo_call env (\<lambda>n now. f x) w = (Inr y, w') \<Longrightarrow> holds x y (mx_store w')"
    and "\<And>x. keeps multi_evolves (f x)"
    and "\<And>x y s t. multi_wf s \<Longrightarrow> holds x y s \<Longrightarrow> multi_evolves s t \<Longrightarrow> holds x y t"
    and "sx_each (\<lambda>x. repo_call env (\<lambda>n now. f x)) xs w = (Inr ys, w')" and "multi_wf (mx_store w)"
  shows "list_all2 (\<lambda>x y. holds x y (mx_store w')) xs ys \<and> multi_evolves (mx_store w) (mx_store w')"
  using assms(4,5)
proof (induction xs arbitrary: w ys)
  case Nil
  then show ?case by (simp add: sx_Inr multi.kept_refl)
next
  case (Cons x xs)
  from Cons.prems(1) obtain y zs w1 where y: "repo_call env (\<lambda>n now. f x) w = (Inr y, w1)"
    and zs: "sx_each (\<lambda>x. repo_call env (\<lambda>n now. f x)) xs w1 = (Inr zs, w')" and ys: "ys = y # zs"
    by (rule sx_each_ConsE)
  have ev: "multi_evolves (mx_store w) (mx_store w1)"
    using keepsD [OF repo_call_kept [OF assms(2)] y] by (simp add: on_store_def)
  then have wf: "multi_wf (mx_store w1)" using Cons.prems(2) by (rule evolves_wf)
  from Cons.IH [OF zs wf] have rest: "list_all2 (\<lambda>x y. holds x y (mx_store w')) xs zs"
    "multi_evolves (mx_store w1) (mx_store w')" by auto
  show ?case
    using assms(3) [OF wf assms(1) [OF y] rest(2)] rest ev ys multi.kept_trans by auto
qed

lemma merge_inputs_Inr:
  fixes w :: "'g multi_world"
  assumes "merge_inputs env m named w = (Inr (policy, as, ws), w')" and "multi_wf (mx_store w)"
  obtains def where "frozen_definition (me_graph env) (mr_run m) = Inr def"
    and "merge_policy_of def (mr_node m) = Inr policy"
    and "list_all2 (\<lambda>i a. map_of (ms_artifacts (mx_store w')) i = Some a) (mr_artifacts m) as"
    and "distinct (map wa_workspace as)"
    and "list_all2 (\<lambda>a v. map_of (ms_workspaces (mx_store w')) (wa_workspace a) = Some v) as ws"
    and "length ws = length (source_writer_keys policy)" and "set (map ww_key ws) = set (source_writer_keys policy)"
    and "\<forall>v \<in> set ws. binding_check (me_graph env) def (mr_run m) v = Inr ()"
    and "multi_wf (mx_store w')" and "multi_evolves (mx_store w) (mx_store w')"
proof -
  from assms(1) obtain def w1 us w2 where def: "frozen_definition (me_graph env) (mr_run m) = Inr def"
      "merge_policy_of def (mr_node m) = Inr policy"
    and arts: "sx_each (\<lambda>i. repo_call env (\<lambda>n now. get_artifact i)) (mr_artifacts m) w = (Inr as, w1)"
    and dist: "distinct (map wa_workspace as)"
    and wss2: "sx_each (\<lambda>a. repo_call env (\<lambda>n now. get_workspace (wa_workspace a))) as w1 = (Inr ws, w2)"
    and keys: "length ws = length (source_writer_keys policy)" "set (map ww_key ws) = set (source_writer_keys policy)"
    and bound2: "sx_each (\<lambda>v. sx_lift (binding_check (me_graph env) def (mr_run m) v)) ws w2 = (Inr us, w')"
    unfolding merge_inputs_def sx_bind_Inr_iff sx_Inr_iff by clarify (rule that; assumption)
  have w2: "w' = w2" by (rule sx_each_lift [OF bound2])
  note wss = wss2 [folded w2] and bound = bound2 [folded w2]
  have art_read: "map_of (ms_artifacts (mx_store w2)) i = Some a"
    if "repo_call env (\<lambda>n now. get_artifact i) w1 = (Inr a, w2)" for i a and w1 w2 :: "'g multi_world"
    using that by (auto simp: repo_call_Inr sx_simps split: option.splits)
  have ws_read: "map_of (ms_workspaces (mx_store w2)) (wa_workspace a) = Some v"
    if "repo_call env (\<lambda>n now. get_workspace (wa_workspace a)) w1 = (Inr v, w2)" for a v and w1 w2 :: "'g multi_world"
    using that by (auto simp: repo_call_Inr sx_simps split: option.splits)
  have art_kept: "map_of (ms_artifacts t) i = Some a" if "multi_wf s" "map_of (ms_artifacts s) i = Some a" "multi_evolves s t"
    for s t i a
    using that by (auto simp: multi_evolves_def multi_moves_def map_le_def dom_def)
  have ws_kept: "map_of (ms_workspaces t) (wa_workspace a) = Some v"
    if "multi_wf s" "map_of (ms_workspaces s) (wa_workspace a) = Some v" "multi_evolves s t" for s t a v
    using that by (auto simp: multi_evolves_def multi_moves_def map_le_def dom_def)
  have one: "list_all2 (\<lambda>i a. map_of (ms_artifacts (mx_store w1)) i = Some a) (mr_artifacts m) as
      \<and> multi_evolves (mx_store w) (mx_store w1)"
    by (rule each_read [OF _ multi_reads_kept(2) _ arts assms(2)]) (erule art_read, rule art_kept)
  then have wf1: "multi_wf (mx_store w1)" using assms(2) evolves_wf by blast
  have two: "list_all2 (\<lambda>a v. map_of (ms_workspaces (mx_store w')) (wa_workspace a) = Some v) as ws
      \<and> multi_evolves (mx_store w1) (mx_store w')"
    by (rule each_read [OF _ multi_reads_kept(1) _ wss wf1]) (erule ws_read, rule ws_kept)
  have "list_all2 (\<lambda>i a. map_of (ms_artifacts (mx_store w')) i = Some a) (mr_artifacts m) as"
    using one two by (auto elim!: list_all2_mono intro: art_kept [OF wf1])
  moreover have "\<forall>v \<in> set ws. binding_check (me_graph env) def (mr_run m) v = Inr ()"
    using bound by (auto dest: sx_each_lift_all)
  ultimately show ?thesis
    using that [OF def] dist keys two one wf1 evolves_wf multi.kept_trans by blast
qed

text \<open>Every workspace of a merge has one of the leases, and it was current at some moment of the check.\<close>

lemma each_assert:
  fixes w :: "'g multi_world"
  assumes "sx_each (\<lambda>l. repo_call env (\<lambda>n now. assert_lease (me_sha env) l now)) ls w = (Inr us, w')"
    and "l \<in> set ls"
  shows "\<exists>t n. multi_evolves (mx_store w) t \<and> multi_evolves t (mx_store w') \<and> mx_calls w \<le> n \<and> n < mx_calls w'
    \<and> lease_current (me_sha env) t l (me_clock env n)"
  using assms
proof (induction ls arbitrary: w us)
  case (Cons k ls)
  from Cons.prems(1) obtain u vs w1 where u: "repo_call env (\<lambda>n now. assert_lease (me_sha env) k now) w = (Inr u, w1)"
    and rest: "sx_each (\<lambda>l. repo_call env (\<lambda>n now. assert_lease (me_sha env) l now)) ls w1 = (Inr vs, w')"
    by (rule sx_each_ConsE)
  have ev: "multi_evolves (mx_store w) (mx_store w1)"
    using keepsD [OF repo_call_kept [OF multi_reads_kept(5)] u] by (simp add: on_store_def)
  show ?case
  proof (cases "l = k")
    case True
    have "keeps (on_store multi_evolves) (sx_each (\<lambda>l. repo_call env (\<lambda>n now. assert_lease (me_sha env) l now)) ls :: ('g, unit list) mx)"
      by (intro mworld.keeps_each repo_call_kept multi_reads_kept)
    from keepsD [OF this rest] have "multi_evolves (mx_store w1) (mx_store w')" by (simp add: on_store_def)
    moreover have "keeps counting (sx_each (\<lambda>l. repo_call env (\<lambda>n now. assert_lease (me_sha env) l now)) ls :: ('g, unit list) mx)"
      by (intro count.keeps_each repo_call_counts)
    from keepsD [OF this rest] have "mx_calls w1 \<le> mx_calls w'" by (simp add: counting_def)
    moreover have "lease_current (me_sha env) (mx_store w1) k (me_clock env (mx_calls w))" "mx_calls w1 = mx_calls w + 1"
      using u by (auto simp: repo_call_Inr assert_lease_Inr)
    ultimately show ?thesis using ev True by (intro exI [of _ "mx_store w1"] exI [of _ "mx_calls w"]) auto
  next
    case False
    with Cons.prems(2) have "l \<in> set ls" by simp
    from Cons.IH [OF rest this] obtain t n where "multi_evolves (mx_store w1) t" "multi_evolves t (mx_store w')"
      "mx_calls w1 \<le> n" "n < mx_calls w'" "lease_current (me_sha env) t l (me_clock env n)" by blast
    moreover have "mx_calls w \<le> mx_calls w1" using keepsD [OF repo_call_counts u] by (simp add: counting_def)
    ultimately show ?thesis using multi.kept_trans [OF ev] order_trans by blast
  qed
qed simp

lemma assert_leases_Inr:
  fixes w :: "'g multi_world"
  assumes "assert_workspace_leases env ws leases w = (Inr u, w')" and "v \<in> set ws"
  shows "\<exists>l t n. l \<in> set leases \<and> wl_workspace l = ww_id v \<and> multi_evolves (mx_store w) t
    \<and> multi_evolves t (mx_store w') \<and> mx_calls w \<le> n \<and> n < mx_calls w'
    \<and> lease_current (me_sha env) t l (me_clock env n)"
proof -
  let ?d = "fold (\<lambda>l. AList.update (wl_workspace l) l) leases []"
  have keys: "set (map fst ?d) = set (map ww_id ws)"
    and each: "\<exists>us. sx_each (\<lambda>l. repo_call env (\<lambda>n now. assert_lease (me_sha env) l now)) (map snd ?d) w = (Inr us, w')"
    using assms(1) unfolding assert_workspace_leases_def Let_def sx_bind_Inr_iff sx_Inr_iff by blast+
  have "ww_id v \<in> set (map fst ?d)" unfolding keys using assms(2) by simp
  then obtain l where l: "(ww_id v, l) \<in> set ?d" by auto
  then have "l \<in> set leases" "wl_workspace l = ww_id v" by (auto dest: fold_leases)
  moreover have "l \<in> set (map snd ?d)" using l by force
  ultimately show ?thesis using each each_assert by blast
qed

end

subsection \<open>Writers of one graph\<close>

lemma merge_sources_distinct:
  assumes "compile parse def = Inr cw" and "n \<in> set (wf_nodes def)" and "nd_kind n = NK_MERGE" and "nd_merge n = Some p"
  shows "distinct (source_writer_keys p)"
  using compile_Inr(7) [OF assms(1)] assms(2-4)
  by (auto simp: writer_issues_def Let_def validate_merge_sources_def issue_if_def split: option.splits if_splits)

lemma binding_check_Inr:
  assumes "binding_check g def run v = Inr ()"
  obtains spec p where "spec \<in> set (wf_nodes def)" and "nd_kind spec \<noteq> NK_MERGE" and "nd_writes spec"
    and "nd_writer spec = Some p" and "writer_key p = ww_key v" and "ownership_paths p = ww_paths v"
    and "map_of (rev (map (\<lambda>n. (nd_id n, n)) (wf_nodes def))) (nd_id spec) = Some spec"
proof -
  from assms obtain node :: node_run and spec where spec: "map_of (rev (map (\<lambda>n. (nd_id n, n)) (wf_nodes def))) (nr_node node) = Some spec"
    and bound: "workspace_bound spec v"
    by (auto simp: binding_check_def split: if_splits option.splits)
  from map_of_SomeD [OF spec] have "spec \<in> set (wf_nodes def)" "nd_id spec = nr_node node" by auto
  moreover obtain p where "nd_writer spec = Some p" "writer_key p = ww_key v" "ownership_paths p = ww_paths v"
    using bound by (auto simp: workspace_bound_def split: option.splits)
  ultimately show ?thesis using spec bound by (intro that [of spec p]) (auto simp: workspace_bound_def)
qed

lemma bound_writers_disjoint:
  assumes "compile parse def = Inr cw"
    and "binding_check g def run v = Inr ()" and "binding_check g def run u = Inr ()" and "ww_key v \<noteq> ww_key u"
  shows "\<not> (owned_path (ww_paths v) f \<and> owned_path (ww_paths u) f)"
proof -
  obtain sv pv where v: "sv \<in> set (wf_nodes def)" "nd_kind sv \<noteq> NK_MERGE" "nd_writes sv" "nd_writer sv = Some pv"
    "writer_key pv = ww_key v" "ownership_paths pv = ww_paths v"
    "map_of (rev (map (\<lambda>n. (nd_id n, n)) (wf_nodes def))) (nd_id sv) = Some sv"
    by (rule binding_check_Inr [OF assms(2)])
  obtain su pu where u: "su \<in> set (wf_nodes def)" "nd_kind su \<noteq> NK_MERGE" "nd_writes su" "nd_writer su = Some pu"
    "writer_key pu = ww_key u" "ownership_paths pu = ww_paths u"
    "map_of (rev (map (\<lambda>n. (nd_id n, n)) (wf_nodes def))) (nd_id su) = Some su"
    by (rule binding_check_Inr [OF assms(3)])
  have ne: "nd_id sv \<noteq> nd_id su"
  proof
    assume same: "nd_id sv = nd_id su"
    from v(7) u(7) have "sv = su" unfolding same by (metis option.inject)
    with v(4,5) u(4,5) assms(4) show False by (metis option.inject)
  qed
  have "\<exists>p q. nd_writer sv = Some p \<and> nd_writer su = Some q
      \<and> (\<nexists>a b f. a \<in> set (ownership_paths p) \<and> b \<in> set (ownership_paths q) \<and> owns a f \<and> owns b f)"
    by (rule compile_writers [OF assms(1) v(1,3,2) u(1,3,2) ne]) blast
  with v(4,6) u(4,6) have "\<nexists>a b f. a \<in> set (ww_paths v) \<and> b \<in> set (ww_paths u) \<and> owns a f \<and> owns b f" by simp
  then show ?thesis unfolding owned_path_owns by blast
qed

lemma distinct_keys_of_cover:
  assumes "length ws = length ks" and "set (map f ws) = set ks" and "distinct ks"
  shows "distinct (map f ws)"
  using assms by (metis card_distinct distinct_card length_map)

lemma indexed_get: "indexed key d \<Longrightarrow> map_of d k = Some v \<Longrightarrow> map_of d (key v) = Some v"
  by (auto simp: indexed_def)

lemma list_all2_leftD: "list_all2 P xs ys \<Longrightarrow> y \<in> set ys \<Longrightarrow> \<exists>x. x \<in> set xs \<and> P x y"
  by (induction rule: list_all2_induct) auto

lemma list_all2_rightD: "list_all2 P xs ys \<Longrightarrow> x \<in> set xs \<Longrightarrow> \<exists>y. y \<in> set ys \<and> P x y"
  by (induction rule: list_all2_induct) auto

context multi_actor
begin

lemma inputs_disjoint:
  assumes inp: "merge_inputs env m named w = (Inr (policy, as, ws), w')" and wf: "multi_wf (mx_store w)"
    and frozen: "frozen_definition (me_graph env) (mr_run m) = Inr def" and comp: "compile parse def = Inr cw"
    and a: "a \<in> set as" and b: "b \<in> set as" and "a \<noteq> b"
  shows "set (wa_changed a) \<inter> set (wa_changed b) = {}"
proof -
  obtain def' where def': "frozen_definition (me_graph env) (mr_run m) = Inr def'" "merge_policy_of def' (mr_node m) = Inr policy"
    and arts: "list_all2 (\<lambda>i a. map_of (ms_artifacts (mx_store w')) i = Some a) (mr_artifacts m) as"
    and dist: "distinct (map wa_workspace as)"
    and wss: "list_all2 (\<lambda>a v. map_of (ms_workspaces (mx_store w')) (wa_workspace a) = Some v) as ws"
    and cover: "length ws = length (source_writer_keys policy)" "set (map ww_key ws) = set (source_writer_keys policy)"
    and bound: "\<forall>v \<in> set ws. binding_check (me_graph env) def' (mr_run m) v = Inr ()"
    and wf': "multi_wf (mx_store w')" and "multi_evolves (mx_store w) (mx_store w')"
    by (rule merge_inputs_Inr [OF inp wf])
  have def: "def' = def" using def'(1) frozen by simp
  obtain n where n: "n \<in> set (wf_nodes def)" "nd_kind n = NK_MERGE" "nd_merge n = Some policy"
    using def'(2) unfolding def merge_policy_of_def by (auto split: option.splits if_splits dest: list_find_SomeD)
  have keys: "distinct (map ww_key ws)"
    by (rule distinct_keys_of_cover [OF cover merge_sources_distinct [OF comp n]])
  obtain u where u: "u \<in> set ws" "map_of (ms_workspaces (mx_store w')) (wa_workspace a) = Some u"
    using list_all2_rightD [OF wss a] by blast
  obtain v where v: "v \<in> set ws" "map_of (ms_workspaces (mx_store w')) (wa_workspace b) = Some v"
    using list_all2_rightD [OF wss b] by blast
  have "wa_workspace a \<noteq> wa_workspace b" using dist a b \<open>a \<noteq> b\<close> by (auto simp: distinct_map dest: inj_onD)
  moreover have "ww_id u = wa_workspace a" "ww_id v = wa_workspace b"
    using wf' u v by (auto simp: multi_wf_def indexed_def)
  ultimately have "u \<noteq> v" by auto
  then have "ww_key u \<noteq> ww_key v" using keys u v by (auto simp: distinct_map dest: inj_onD)
  note apart = bound_writers_disjoint [OF comp bspec [OF bound u(1), unfolded def] bspec [OF bound v(1), unfolded def] this]
  have inside: "list_all (owned_path (ww_paths k)) (wa_changed x)"
    if x: "x \<in> set as" and k: "map_of (ms_workspaces (mx_store w')) (wa_workspace x) = Some k" for x k
  proof -
    obtain i where "map_of (ms_artifacts (mx_store w')) i = Some x"
      using list_all2_leftD [OF arts x] by blast
    then have "published_within (mx_store w') x" using wf' by (auto simp: multi_wf_def)
    with k show ?thesis by (auto simp: published_within_def)
  qed
  show ?thesis
    using inside [OF a u(2)] inside [OF b v(2)] apart by (auto simp: list_all_iff)
qed

text \<open>What was read on the way to a merge that touched the worktrees.\<close>

lemma execute_merge_kept: "keeps (on_store multi_evolves) (execute_merge env ad m policy as ws cs)"
  unfolding execute_merge_def
  by (intro mworld.keeps_bind adapter_call_kept settle_kept repo_call_kept claim_merge_run_kept)

lemma finalize_cleared:
  fixes ad :: "'g merge_adapter" and w w' :: "'g multi_world"
  assumes git: "mx_git (snd (finalize_merge_run env ad i named leases approved w)) \<noteq> mx_git w"
    and wf: "multi_wf (mx_store w)" and w': "w' = snd (finalize_merge_run env ad i named leases approved w)"
  obtains r def policy as ws t and x y :: "'g multi_world" and m
  where "map_of (ms_merges (mx_store w')) i = Some r" and "same_plan m (mg_merge r)"
    and "frozen_definition (me_graph env) (mr_run m) = Inr def" and "merge_policy_of def (mr_node m) = Inr policy"
    and "require_review policy \<longrightarrow> approved"
    and "list_all2 (\<lambda>j a. map_of (ms_artifacts (mx_store w')) j = Some a) (mr_artifacts m) as"
    and "list_all2 (\<lambda>a v. map_of (ms_workspaces (mx_store w')) (wa_workspace a) = Some v) as ws"
    and "set (map ww_key ws) = set (source_writer_keys policy)"
    and "\<forall>v \<in> set ws. leased_during env w w' leases v t"
    and "multi_evolves (mx_store w) t" and "multi_evolves t (mx_store w')"
    and "\<forall>k c. map_of (ms_conflicts t) k = Some c \<and> wc_run c = mr_run m \<longrightarrow> wc_status c \<noteq> CS_OPEN"
    and "merge_inputs env m (Some named) x = (Inr (policy, as, ws), y)" and "multi_wf (mx_store x)"
proof -
  obtain m and w1 :: "'g multi_world" and policy as ws w2 u w3 cs w4
    where f: "repo_call env (\<lambda>n now. get_merge_run i) w = (Inr m, w1)" and "startable (mr_status m)"
      and f2: "merge_inputs env m (Some named) w1 = (Inr (policy, as, ws), w2)"
      and f3: "assert_workspace_leases env ws leases w2 = (Inr u, w3)"
      and f4: "repo_call env (\<lambda>n now. list_conflicts (mr_run m)) w3 = (Inr cs, w4)"
      and closed: "\<not> list_ex (\<lambda>c. wc_status c = CS_OPEN) cs" and review: "require_review policy \<longrightarrow> approved"
      and f5: "finalize_merge_run env ad i named leases approved w = execute_merge env ad m policy as ws cs w4"
      and "mx_git (snd (execute_merge env ad m policy as ws cs w4)) \<noteq> mx_git w4"
    by (rule finalize_reaches [OF git])
  note rd = read_wf [OF f wf]
  obtain def where inp: "frozen_definition (me_graph env) (mr_run m) = Inr def" "merge_policy_of def (mr_node m) = Inr policy"
    and arts: "list_all2 (\<lambda>i a. map_of (ms_artifacts (mx_store w2)) i = Some a) (mr_artifacts m) as"
    and dist: "distinct (map wa_workspace as)"
    and wss: "list_all2 (\<lambda>a v. map_of (ms_workspaces (mx_store w2)) (wa_workspace a) = Some v) as ws"
    and cover: "length ws = length (source_writer_keys policy)" "set (map ww_key ws) = set (source_writer_keys policy)"
    and bound: "\<forall>v \<in> set ws. binding_check (me_graph env) def (mr_run m) v = Inr ()"
    and wf2: "multi_wf (mx_store w2)" and ev12: "multi_evolves (mx_store w1) (mx_store w2)"
    by (rule merge_inputs_Inr [OF f2 rd(2)])
  have ev23: "multi_evolves (mx_store w2) (mx_store w3)"
    using keepsD [OF assert_leases_kept(1) f3] by (simp add: on_store_def)
  have ev34: "multi_evolves (mx_store w3) (mx_store w4)"
    using keepsD [OF repo_call_kept [OF multi_reads_kept(4)] f4] by (simp add: on_store_def)
  have ev4: "multi_evolves (mx_store w4) (mx_store w')"
    unfolding w' f5 by (rule spec [OF execute_merge_kept [unfolded keeps_def on_store_def]])
  note ev3 = multi.kept_trans [OF ev34 ev4] and ev02 = multi.kept_trans [OF rd(4) ev12]
  note ev2 = multi.kept_trans [OF ev23 ev3]
  have moves2: "multi_moves (mx_store w2) (mx_store w')" using ev2 wf2 by (simp add: multi_evolves_def)
  have moves1: "multi_moves (mx_store w1) (mx_store w')"
    using multi.kept_trans [OF ev12 ev2] rd(2) by (simp add: multi_evolves_def)
  obtain q where "map_of (ms_merges (mx_store w1)) i = Some q" "mg_merge q = m" using rd(5) by blast
  then obtain r where "map_of (ms_merges (mx_store w')) i = Some r" "merge_step\<^sup>*\<^sup>* q r"
    using merges_descend [OF moves1, of i] by (auto simp: descends_def)
  then have r: "map_of (ms_merges (mx_store w')) i = Some r" "same_plan m (mg_merge r)"
    using merge_steps_plan [of q r] \<open>mg_merge q = m\<close> by auto
  have "list_all2 (\<lambda>j a. map_of (ms_artifacts (mx_store w')) j = Some a) (mr_artifacts m) as"
    using arts by (rule list_all2_mono) (use moves2 in \<open>auto simp: multi_moves_def map_le_def dom_def\<close>)
  moreover have "list_all2 (\<lambda>a v. map_of (ms_workspaces (mx_store w')) (wa_workspace a) = Some v) as ws"
    using wss by (rule list_all2_mono) (use moves2 in \<open>auto simp: multi_moves_def map_le_def dom_def\<close>)
  moreover have "leased_during env w w' leases v (mx_store w4)" if v: "v \<in> set ws" for v
  proof -
    obtain l t n where l: "l \<in> set leases" "wl_workspace l = ww_id v" "multi_evolves (mx_store w2) t"
      "multi_evolves t (mx_store w3)" "mx_calls w2 \<le> n" "n < mx_calls w3" "lease_current (me_sha env) t l (me_clock env n)"
      using assert_leases_Inr [OF f3 v] by blast
    have "counting w4 w'" unfolding w' f5 by (rule spec [OF execute_merge_counts [unfolded keeps_def]])
    then have "mx_calls w \<le> mx_calls w1" "mx_calls w1 \<le> mx_calls w2" "mx_calls w3 \<le> mx_calls w4" "mx_calls w4 \<le> mx_calls w'"
      using keepsD [OF repo_call_counts f] keepsD [OF merge_inputs_counts f2] keepsD [OF repo_call_counts f4]
      by (simp_all add: counting_def)
    with l(5,6) have "mx_calls w \<le> n" "n < mx_calls w'" by simp_all
    with l(1,2,7) multi.kept_trans [OF ev02 l(3)] multi.kept_trans [OF l(4) ev34] show ?thesis
      unfolding leased_during_def by blast
  qed
  moreover have "wc_status c \<noteq> CS_OPEN"
    if "map_of (ms_conflicts (mx_store w4)) k = Some c" "wc_run c = mr_run m" for k c
  proof -
    have "c \<in> set cs" using f4 map_of_SomeD [OF that(1)] that(2)
      by (force simp: repo_call_Inr list_conflicts_def sx_Inr)
    with closed show ?thesis by (auto simp: list_ex_iff)
  qed
  moreover have "multi_evolves (mx_store w) (mx_store w4)"
    using multi.kept_trans [OF ev02 multi.kept_trans [OF ev23 ev34]] .
  ultimately show ?thesis
    using that [of r m def policy as ws "mx_store w4" w1 w2] r inp review cover(2) ev4 f2 rd(2) by blast
qed

end

end
