(* ===== verification/Multi_Samples.thy ===== *)
theory Multi_Samples
  imports Multi_Inputs Graph_Samples
begin

section \<open>Multi-writer merges: concrete worlds\<close>

text \<open>
  A graph run with two writers and a merge node, their workspaces, leases and artifacts, and an adapter
  that records the merges it is asked for: the inputs on which the properties are instantiated.
\<close>

definition multi_graph :: graph_store where
  "multi_graph = \<lparr>gs_definitions = [((''w'', 1), writers_graph)], gs_runs = [(''r'', demo_run RS_RUNNING)],
     gs_nodes = [(''na'', demo_node ''na'' ''a'' NS_RUNNING None), (''nb'', demo_node ''nb'' ''b'' NS_RUNNING None)],
     gs_attempts = []\<rparr>"

definition demo_workspace :: "string \<Rightarrow> writer_workspace" where
  "demo_workspace k = \<lparr>ww_id = ''ws-'' @ k, ww_run = ''r'', ww_node_run = CHR ''n'' # k, ww_key = k,
     ww_kind = WI_WORKTREE, ww_isolation = k, ww_base = ''base123'', ww_paths = [''src/'' @ k], ww_created = 0,
     ww_closed = None\<rparr>"

definition demo_artifact :: "string \<Rightarrow> string \<Rightarrow> writer_artifact" where
  "demo_artifact k path = \<lparr>wa_id = ''art-'' @ k, wa_workspace = ''ws-'' @ k, wa_kind = AK_PATCH,
     wa_ref = ''patch:'' @ k, wa_sha = replicate 64 CHR ''0'', wa_base = ''base123'', wa_result = None,
     wa_changed = [path], wa_evidence = [''test''], wa_created = 0\<rparr>"

definition demo_multi_env :: multi_env where
  "demo_multi_env = \<lparr>me_owner = ''core'', me_ttl = 30, me_clock = \<lambda>n. int n * 1000, me_fresh = \<lambda>n. replicate n CHR ''x'',
     me_others = \<lambda>n s. s, me_graph = multi_graph, me_sha = \<lambda>t. t, me_digest = \<lambda>r. replicate 64 CHR ''0'',
     me_verify = reference_verify\<rparr>"

definition quiet :: multi_env where
  \<comment> \<open>nobody else uses the store\<close>
  "quiet = among (\<lambda>_. []) demo_multi_env"

definition recorder :: "merge_run list merge_adapter" where
  "recorder = \<lparr>ma_merge = \<lambda>m as ws cs g. (Inr ''git:0123456'', g @ [m]), ma_rollback = \<lambda>m g. (Inr (), g)\<rparr>"

definition demo_lease :: "string \<Rightarrow> nat \<Rightarrow> int \<Rightarrow> writer_lease" where
  "demo_lease k n fencing = \<lparr>wl_workspace = ''ws-'' @ k, wl_owner = k, wl_token = ''writer_lease_'' @ replicate n CHR ''x'',
     wl_fencing = fencing, wl_expires = 0, wl_released = None\<rparr>"

definition demo_merge :: "merge_status \<Rightarrow> merge_run" where
  "demo_merge st = \<lparr>mr_id = ''mg'', mr_run = ''r'', mr_node = ''m'', mr_artifacts = [''art-a'', ''art-b''],
     mr_strategy = MS_THREE_WAY, mr_target = ''target'', mr_base = ''base123'', mr_status = st, mr_revision = 0,
     mr_result = None, mr_error = None, mr_created = 0, mr_updated = 0\<rparr>"

definition start_world :: "merge_run list multi_world" where
  "start_world = \<lparr>mx_store = empty_multi, mx_git = [], mx_calls = 0\<rparr>"

definition published_world :: "merge_run list multi_world" where
  "published_world = multi_session quiet recorder
     [CallWorkspace (demo_workspace ''a''), CallWorkspace (demo_workspace ''b''),
      CallAcquire ''ws-a'' ''a'' 60, CallAcquire ''ws-b'' ''b'' 60,
      CallPublish (demo_artifact ''a'' ''src/a/x'') (demo_lease ''a'' 2 1),
      CallPublish (demo_artifact ''b'' ''src/b/y'') (demo_lease ''b'' 3 1)] start_world"

definition demo_leases :: "writer_lease list" where
  "demo_leases = [demo_lease ''a'' 2 1, demo_lease ''b'' 3 1]"

definition created_world :: "merge_run list multi_world" where
  "created_world = multi_session quiet recorder [CallCreate (demo_merge MS_CREATED) (''w'', 1) demo_leases] published_world"

lemma start_world_wf: "multi_wf (mx_store start_world)"
  by (simp add: start_world_def empty_multi_wf)

lemma session_wf: "multi_wf (mx_store w) \<Longrightarrow> multi_wf (mx_store (multi_session quiet ad calls w))"
  unfolding quiet_def using session_evolves [of w "\<lambda>_. []" demo_multi_env ad calls] by (simp add: multi_evolves_def)

lemma sample_worlds_wf: "multi_wf (mx_store published_world)" "multi_wf (mx_store created_world)"
  unfolding published_world_def created_world_def by (intro session_wf start_world_wf)+

definition finalized_world :: "merge_run list multi_world" where
  "finalized_world = snd (finalize_merge_run quiet recorder ''mg'' (''w'', 1) demo_leases True created_world)"

lemma created_world_merge: "map (mr_status \<circ> mg_merge \<circ> snd) (ms_merges (mx_store created_world)) = [MS_CREATED]"
  by code_simp

lemma finalized_world_merge:
  "map (mr_status \<circ> mg_merge \<circ> snd) (ms_merges (mx_store finalized_world)) = [MS_SUCCEEDED]
   \<and> map mr_id (mx_git finalized_world) = [''mg''] \<and> mx_git created_world = []"
  by code_simp

end
