(* ===== verification/Multi_Properties.thy ===== *)
theory Multi_Properties
  imports Multi_Samples
begin

section \<open>Multi-writer merges: properties\<close>

subsection \<open>Merge runs\<close>

text \<open>
  C8: Whatever sequence of calls the runtime serves and whatever transactions other processes run in
  between, the store stays well formed and each merge run only takes the steps of its life: it is
  created idle, parks, is claimed, beats, settles with the revision it was claimed under, and is
  reconciled once from an unknown outcome; its plan never changes.
\<close>
theorem merge_runs_follow_life:
  assumes "multi_wf (mx_store w)"
  shows "multi_wf (mx_store (multi_session (among ops env) ad calls w))
    \<and> descends merge_step merge_born (map_of (ms_merges (mx_store w)) i)
      (map_of (ms_merges (mx_store (multi_session (among ops env) ad calls w))) i)"
  using session_evolves [of w ops env ad calls] assms by (simp_all add: multi_evolves_def merges_descend)

theorem merge_runs_follow_life_witness:
  "descends merge_step merge_born (map_of (ms_merges empty_multi) ''mg'')
     (map_of (ms_merges (mx_store (multi_session quiet recorder [CallStart, CallFinalize ''mg'' (''w'', 1) [] True] start_world))) ''mg'')"
  using merge_runs_follow_life [OF start_world_wf, where ops = "\<lambda>_. []" and env = demo_multi_env and ad = recorder
    and calls = "[CallStart, CallFinalize ''mg'' (''w'', 1) [] True]" and i = "''mg''"]
  by (simp add: quiet_def start_world_def)

text \<open>
  C15: In every store that calls and concurrent transactions lead to from a well-formed one, two running
  merges have different targets, and each has an owner and a lease on its execution.
\<close>
theorem running_merges_are_exclusive:
  assumes "multi_wf (mx_store w)"
    and "t = mx_store (multi_session (among ops env) ad calls w)"
    and "map_of (ms_merges t) i = Some r" and "mr_status (mg_merge r) = MS_RUNNING"
    and "map_of (ms_merges t) j = Some q" and "mr_status (mg_merge q) = MS_RUNNING"
  shows "mg_owner r \<noteq> None \<and> mg_expires r \<noteq> None
    \<and> (mr_target (mg_merge r) = mr_target (mg_merge q) \<longrightarrow> i = j)"
proof -
  have "merges_ok (ms_merges t)"
    using session_evolves [of w ops env ad calls] assms(1,2) by (simp add: multi_evolves_def multi_wf_def)
  with assms(3-6) merges_okD(2) [of "ms_merges t" i r] show ?thesis unfolding merges_ok_def by blast
qed

definition claimed_merge_store :: multi_store where
  "claimed_merge_store = snd (claim_merge_run (demo_merge MS_CREATED) ''core'' 30000000 5 (mx_store created_world))"

theorem running_merges_are_exclusive_witness:
  "\<exists>r. map_of (ms_merges claimed_merge_store) ''mg'' = Some r \<and> mr_status (mg_merge r) = MS_RUNNING
     \<and> mg_owner r \<noteq> None \<and> mg_expires r \<noteq> None"
proof -
  have "multi_evolves (mx_store created_world) claimed_merge_store"
    unfolding claimed_merge_store_def using claim_merge_run_kept by (simp add: keeps_def)
  then have wf: "multi_wf (mx_store (created_world\<lparr>mx_store := claimed_merge_store\<rparr>))"
    using sample_worlds_wf by (simp add: multi_evolves_def)
  have "map (\<lambda>(k, r). (k, mr_status (mg_merge r))) (ms_merges claimed_merge_store) = [(''mg'', MS_RUNNING)]" by code_simp
  then obtain r where r: "map_of (ms_merges claimed_merge_store) ''mg'' = Some r" "mr_status (mg_merge r) = MS_RUNNING"
    by (cases "ms_merges claimed_merge_store") auto
  with running_merges_are_exclusive [OF wf, where calls = "[]" and ops = "\<lambda>_. []" and env = demo_multi_env
      and i = "''mg''" and j = "''mg''" and r = r and q = r and ad = recorder]
  show ?thesis by (simp add: multi_session_def)
qed

text \<open>
  C7: A merge is executed at most once. When finalising a merge run touched the worktrees, no later
  call for it does, whatever calls and whatever transactions of others come in between, also after the
  outcome became unknown and after every reconciliation.
\<close>
theorem merge_executes_once:
  assumes "multi_wf (mx_store w)"
    and "mx_git (snd (finalize_merge_run (among ops env) ad i named leases approved w)) \<noteq> mx_git w"
    and "u = multi_session (among ops' env') ad' calls (snd (finalize_merge_run (among ops env) ad i named leases approved w))"
  shows "mx_git (snd (finalize_merge_run (among ops'' env'') ad'' i named' leases' approved' u)) = mx_git u"
proof -
  let ?v = "snd (finalize_merge_run (among ops env) ad i named leases approved w)"
  have "multi_evolves (mx_store w) (mx_store ?v)"
    using actor.finalize_kept [of ops env ad i named leases approved] by (simp add: keeps_def on_store_def)
  then have wf: "multi_wf (mx_store ?v)" using assms(1) by (simp add: multi_evolves_def)
  have ev: "multi_evolves (mx_store ?v) (mx_store u)" unfolding assms(3) by (rule session_evolves)
  have "spent i (mx_store u)"
    using spent_evolves [OF wf actor.finalize_spends [OF assms(2,1)] ev] .
  moreover have "multi_wf (mx_store u)" using wf ev by (simp add: multi_evolves_def)
  ultimately show ?thesis by (rule actor.finalize_refused)
qed

theorem merge_executes_once_witness:
  "mx_git (snd (finalize_merge_run quiet recorder ''mg'' (''w'', 1) demo_leases True finalized_world)) = mx_git finalized_world"
proof -
  have "mx_git (snd (finalize_merge_run (among (\<lambda>_. []) demo_multi_env) recorder ''mg'' (''w'', 1) demo_leases True
      created_world)) \<noteq> mx_git created_world"
    using finalized_world_merge unfolding finalized_world_def quiet_def by auto
  from merge_executes_once [OF sample_worlds_wf(2) this refl, where ops' = "\<lambda>_. []" and env' = demo_multi_env
      and ad' = recorder and calls = "[]" and ops'' = "\<lambda>_. []" and env'' = demo_multi_env and ad'' = recorder
      and named' = "(''w'', 1)" and leases' = demo_leases and approved' = True]
  show ?thesis by (simp add: multi_session_def finalized_world_def quiet_def)
qed

subsection \<open>What a merge was given\<close>

text \<open>
  C13: When finalising a merge run touched the worktrees, the frozen merge node it names had been
  honoured: a review it requires was given, and the workspaces cover exactly its writers. For each of
  them one of the leases passed was found on record, unexpired by the reading of the clock \<open>me_clock env n\<close>
  of one of the transactions of the call; and at a later moment of the call, the store \<open>t\<close>, no conflict of
  the graph run was open. Other processes may do what they like meanwhile.
\<close>
theorem merge_is_cleared:
  fixes w w' :: "'g multi_world"
  assumes "multi_wf (mx_store w)"
    and "w' = snd (finalize_merge_run (among ops env) ad i named leases approved w)" and "mx_git w' \<noteq> mx_git w"
  shows "\<exists>r def policy ws t. map_of (ms_merges (mx_store w')) i = Some r
    \<and> frozen_definition (me_graph env) (mr_run (mg_merge r)) = Inr def
    \<and> merge_policy_of def (mr_node (mg_merge r)) = Inr policy \<and> (require_review policy \<longrightarrow> approved)
    \<and> set (map ww_key ws) = set (source_writer_keys policy)
    \<and> (\<forall>v \<in> set ws. map_of (ms_workspaces (mx_store w')) (ww_id v) = Some v
         \<and> (\<exists>l u n. l \<in> set leases \<and> wl_workspace l = ww_id v \<and> multi_evolves (mx_store w) u \<and> multi_evolves u t
              \<and> mx_calls w \<le> n \<and> n < mx_calls w' \<and> lease_current (me_sha env) u l (me_clock env n)))
    \<and> multi_evolves (mx_store w) t \<and> multi_evolves t (mx_store w')
    \<and> (\<forall>k c. map_of (ms_conflicts t) k = Some c \<and> wc_run c = mr_run (mg_merge r) \<longrightarrow> wc_status c \<noteq> CS_OPEN)"
proof -
  obtain r def policy as ws t and x y :: "'g multi_world" and m
    where c: "map_of (ms_merges (mx_store w')) i = Some r" "same_plan m (mg_merge r)"
      "frozen_definition (me_graph (among ops env)) (mr_run m) = Inr def" "merge_policy_of def (mr_node m) = Inr policy"
      "require_review policy \<longrightarrow> approved"
      "list_all2 (\<lambda>j a. map_of (ms_artifacts (mx_store w')) j = Some a) (mr_artifacts m) as"
      "list_all2 (\<lambda>a v. map_of (ms_workspaces (mx_store w')) (wa_workspace a) = Some v) as ws"
      "set (map ww_key ws) = set (source_writer_keys policy)"
      "\<forall>v \<in> set ws. leased_during (among ops env) w w' leases v t"
      "multi_evolves (mx_store w) t" "multi_evolves t (mx_store w')"
      "\<forall>k c. map_of (ms_conflicts t) k = Some c \<and> wc_run c = mr_run m \<longrightarrow> wc_status c \<noteq> CS_OPEN"
      "merge_inputs (among ops env) m (Some named) x = (Inr (policy, as, ws), y)" "multi_wf (mx_store x)"
    by (rule actor.finalize_cleared [OF assms(3) [unfolded assms(2)] assms(1,2)])
  have plan: "mr_run (mg_merge r) = mr_run m" "mr_node (mg_merge r) = mr_node m"
    using c(2) by (simp_all add: same_plan_def)
  have "multi_wf (mx_store w')" using c(10,11) assms(1) by (simp add: multi_evolves_def)
  then have "indexed ww_id (ms_workspaces (mx_store w'))" by (simp add: multi_wf_def)
  then have rows: "\<forall>v \<in> set ws. map_of (ms_workspaces (mx_store w')) (ww_id v) = Some v"
    using list_all2_leftD [OF c(7)] by (blast intro: indexed_get)
  show ?thesis
    by (rule exI [of _ r], rule exI [of _ def], rule exI [of _ policy], rule exI [of _ ws], rule exI [of _ t])
      (use c rows in \<open>simp add: plan leased_during_def\<close>)
qed

theorem merge_is_cleared_witness:
  "\<exists>r def policy ws. map_of (ms_merges (mx_store finalized_world)) ''mg'' = Some r
     \<and> frozen_definition multi_graph (mr_run (mg_merge r)) = Inr def
     \<and> merge_policy_of def (mr_node (mg_merge r)) = Inr policy
     \<and> set (map ww_key ws) = set (source_writer_keys policy)
     \<and> (\<forall>v \<in> set ws. map_of (ms_workspaces (mx_store finalized_world)) (ww_id v) = Some v
          \<and> (\<exists>l u n. l \<in> set demo_leases \<and> wl_workspace l = ww_id v
               \<and> n < mx_calls finalized_world \<and> lease_current (me_sha demo_multi_env) u l (me_clock demo_multi_env n)))"
proof -
  have "finalized_world = snd (finalize_merge_run (among (\<lambda>_. []) demo_multi_env) recorder ''mg'' (''w'', 1) demo_leases True
      created_world)"
    by (simp add: finalized_world_def quiet_def)
  moreover have "mx_git finalized_world \<noteq> mx_git created_world" using finalized_world_merge by auto
  moreover have "me_graph demo_multi_env = multi_graph" by (simp add: demo_multi_env_def)
  ultimately show ?thesis
    using merge_is_cleared [OF sample_worlds_wf(2), where w' = finalized_world and ops = "\<lambda>_. []" and env = demo_multi_env
        and ad = recorder and i = "''mg''" and named = "(''w'', 1)" and leases = demo_leases and approved = True]
    by metis
qed

text \<open>
  C14: Two artifacts that one merge brings into the worktrees never change the same path: when the
  graph of the run compiles, the ownership its writers were given and the checks of publication and of
  the merge keep the changed paths of the artifacts apart.
\<close>
theorem merged_artifacts_are_disjoint:
  fixes w w' :: "'g multi_world"
  assumes "multi_wf (mx_store w)"
    and "w' = snd (finalize_merge_run (among ops env) ad i named leases approved w)" and "mx_git w' \<noteq> mx_git w"
    and "map_of (ms_merges (mx_store w')) i = Some r"
    and "frozen_definition (me_graph env) (mr_run (mg_merge r)) = Inr def" and "compile parse def = Inr cw"
    and "j \<in> set (mr_artifacts (mg_merge r))" and "map_of (ms_artifacts (mx_store w')) j = Some a"
    and "k \<in> set (mr_artifacts (mg_merge r))" and "map_of (ms_artifacts (mx_store w')) k = Some b" and "j \<noteq> k"
  shows "set (wa_changed a) \<inter> set (wa_changed b) = {}"
proof -
  obtain q d policy as ws t and x y :: "'g multi_world" and m
    where c: "map_of (ms_merges (mx_store w')) i = Some q" "same_plan m (mg_merge q)"
      "frozen_definition (me_graph (among ops env)) (mr_run m) = Inr d" "merge_policy_of d (mr_node m) = Inr policy"
      "require_review policy \<longrightarrow> approved"
      "list_all2 (\<lambda>j a. map_of (ms_artifacts (mx_store w')) j = Some a) (mr_artifacts m) as"
      "list_all2 (\<lambda>a v. map_of (ms_workspaces (mx_store w')) (wa_workspace a) = Some v) as ws"
      "set (map ww_key ws) = set (source_writer_keys policy)"
      "\<forall>v \<in> set ws. leased_during (among ops env) w w' leases v t"
      "multi_evolves (mx_store w) t" "multi_evolves t (mx_store w')"
      "\<forall>k c. map_of (ms_conflicts t) k = Some c \<and> wc_run c = mr_run m \<longrightarrow> wc_status c \<noteq> CS_OPEN"
      "merge_inputs (among ops env) m (Some named) x = (Inr (policy, as, ws), y)" "multi_wf (mx_store x)"
    by (rule actor.finalize_cleared [OF assms(3) [unfolded assms(2)] assms(1,2)])
  have plan: "mr_run (mg_merge r) = mr_run m" "mr_artifacts (mg_merge r) = mr_artifacts m"
    using c(1,2) assms(4) by (simp_all add: same_plan_def)
  have "a \<in> set as" "b \<in> set as"
    using list_all2_rightD [OF c(6)] assms(7-10) unfolding plan by (metis option.inject)+
  moreover have "multi_wf (mx_store w')" using c(10,11) assms(1) by (simp add: multi_evolves_def)
  then have "indexed wa_id (ms_artifacts (mx_store w'))" by (simp add: multi_wf_def)
  then have "wa_id a = j" "wa_id b = k" using assms(8,10) by (simp_all add: indexed_def)
  then have "a \<noteq> b" using assms(11) by auto
  moreover have "frozen_definition (me_graph (among ops env)) (mr_run m) = Inr def" using assms(5) plan by simp
  ultimately show ?thesis using actor.inputs_disjoint [OF c(13,14) _ assms(6)] by blast
qed

theorem merged_artifacts_are_disjoint_witness:
  "set (wa_changed (demo_artifact ''a'' ''src/a/x'')) \<inter> set (wa_changed (demo_artifact ''b'' ''src/b/y'')) = {}"
proof -
  have end_state: "finalized_world = snd (finalize_merge_run (among (\<lambda>_. []) demo_multi_env) recorder ''mg'' (''w'', 1)
      demo_leases True created_world)"
    by (simp add: finalized_world_def quiet_def)
  have moved: "mx_git finalized_world \<noteq> mx_git created_world" using finalized_world_merge by auto
  have rows: "map_of (ms_artifacts (mx_store finalized_world)) ''art-a'' = Some (demo_artifact ''a'' ''src/a/x'')"
    "map_of (ms_artifacts (mx_store finalized_world)) ''art-b'' = Some (demo_artifact ''b'' ''src/b/y'')"
    "map (mr_artifacts \<circ> mg_merge) (map snd (ms_merges (mx_store finalized_world))) = [[''art-a'', ''art-b'']]"
    "map fst (ms_merges (mx_store finalized_world)) = [''mg'']"
    "map (mr_run \<circ> mg_merge) (map snd (ms_merges (mx_store finalized_world))) = [''r'']"
    by code_simp+
  then obtain r where r: "map_of (ms_merges (mx_store finalized_world)) ''mg'' = Some r"
    "mr_artifacts (mg_merge r) = [''art-a'', ''art-b'']" "mr_run (mg_merge r) = ''r''"
    by (cases "ms_merges (mx_store finalized_world)") auto
  obtain cw where "compile no_parser writers_graph = Inr cw" using writers_compile by blast
  moreover have "frozen_definition (me_graph demo_multi_env) (mr_run (mg_merge r)) = Inr writers_graph"
    unfolding r by (simp add: demo_multi_env_def multi_graph_def frozen_definition_def demo_run_def)
  ultimately show ?thesis
    using merged_artifacts_are_disjoint [OF sample_worlds_wf(2) end_state moved r(1) _ _ _ rows(1) _ rows(2)]
    by (simp add: r)
qed

subsection \<open>Fencing and detection\<close>

text \<open>
  C24: A writer whose lease was taken over cannot go on. After a lease on a workspace was acquired, and
  later another one on the same workspace, with any calls and transactions of others in between and
  afterwards, the first lease has the smaller fencing number and is refused at every later time for
  publishing, renewing and releasing, and nothing changes.
\<close>
theorem superseded_writer_is_refused:
  fixes w w1 w2 w3 u :: "'g multi_world"
  assumes "multi_wf (mx_store w)" and "rt_acquire_lease (among ops env) i who ttl w = (Inr old, w1)"
    and "w2 = multi_session (among ops' env) ad calls w1"
    and "rt_acquire_lease (among ops'' env) i who' ttl' w2 = (Inr new, w3)"
    and "u = multi_session (among ops3 env) ad' calls' w3"
  shows "wl_fencing old < wl_fencing new
    \<and> (\<exists>e. publish_artifact (me_sha env) a old now (mx_store u) = (Inl e, mx_store u))
    \<and> (\<exists>e. renew_lease (me_sha env) old expires now (mx_store u) = (Inl e, mx_store u))
    \<and> (\<exists>e. release_lease (me_sha env) old now (mx_store u) = (Inl e, mx_store u))"
proof -
  have kept: "multi_evolves (mx_store x) (mx_store y)" if "rt_acquire_lease (among o1 env) i k d x = (r, y)"
    for o1 k d r and x y :: "'g multi_world"
    using keepsD [OF actor.runtime_kept(3) that] by (simp add: on_store_def)
  have wf1: "multi_wf (mx_store w1)" using kept [OF assms(2)] assms(1) by (simp add: multi_evolves_def)
  have moves12: "multi_wf (mx_store w2)" "multi_moves (mx_store w1) (mx_store w2)"
    using session_evolves [of w1 ops' env ad calls] wf1 unfolding assms(3) by (simp_all add: multi_evolves_def)
  let ?s = "me_others (among ops'' env) (mx_calls w2) (mx_store w2)"
  have "multi_moves (mx_store w2) ?s"
    using actor.others_evolve [of "mx_store w2" ops'' env "mx_calls w2"] moves12(1) by (simp add: multi_evolves_def)
  then have moves: "multi_moves (mx_store w1) ?s" using moves12(2) multi_moves_trans by blast
  obtain row where row: "map_of (ms_leases (mx_store w1)) i = Some row" "lr_fencing row = wl_fencing old"
    using rt_acquire_lease_Inr(2) [OF assms(2)] by blast
  then obtain row' where "map_of (ms_leases ?s) i = Some row'" "lr_fencing row \<le> lr_fencing row'"
    using leases_rise [OF moves row(1)] by blast
  then have less: "wl_fencing old < wl_fencing new" using rt_acquire_lease_Inr(3) [OF assms(4)] row(2) by fastforce
  have wf3: "multi_wf (mx_store w3)" using kept [OF assms(4)] moves12(1) by (simp add: multi_evolves_def)
  have u: "multi_wf (mx_store u)" "multi_moves (mx_store w3) (mx_store u)"
    using session_evolves [of w3 ops3 env ad' calls'] wf3 unfolding assms(5) by (simp_all add: multi_evolves_def)
  obtain top where top: "map_of (ms_leases (mx_store w3)) i = Some top" "lr_fencing top = wl_fencing new"
    using rt_acquire_lease_Inr(2) [OF assms(4)] by blast
  obtain last where "map_of (ms_leases (mx_store u)) i = Some last" "lr_fencing top \<le> lr_fencing last"
    using leases_rise [OF u(2) top(1)] by blast
  with top(2) less rt_acquire_lease_Inr(1) [OF assms(2)]
  have "map_of (ms_leases (mx_store u)) (wl_workspace old) = Some last" "wl_fencing old < lr_fencing last" by simp_all
  with less u(1) fenced_lease_refused [of "mx_store u" old last] show ?thesis by blast
qed

definition first_lease :: "(multi_error + writer_lease) \<times> merge_run list multi_world" where
  "first_lease = rt_acquire_lease quiet ''ws-a'' ''a'' 60
     (multi_session quiet recorder [CallWorkspace (demo_workspace ''a'')] start_world)"

definition second_lease :: "(multi_error + writer_lease) \<times> merge_run list multi_world" where
  \<comment> \<open>the first lease was released before the second writer came\<close>
  "second_lease = rt_acquire_lease quiet ''ws-a'' ''b'' 60
     (multi_session quiet recorder [CallRelease (demo_lease ''a'' 1 1)] (snd first_lease))"

theorem superseded_writer_is_refused_witness:
  "\<exists>old new. fst first_lease = Inr old \<and> fst second_lease = Inr new \<and> wl_fencing old < wl_fencing new
     \<and> (\<exists>e. publish_artifact (me_sha demo_multi_env) (demo_artifact ''a'' ''src/a/x'') old 5 (mx_store (snd second_lease))
          = (Inl e, mx_store (snd second_lease)))"
proof -
  have "case fst first_lease of Inl _ \<Rightarrow> False | Inr _ \<Rightarrow> True" by code_simp
  then obtain old where old: "fst first_lease = Inr old" by (auto split: sum.splits)
  have "case fst second_lease of Inl _ \<Rightarrow> False | Inr _ \<Rightarrow> True" by code_simp
  then obtain new where new: "fst second_lease = Inr new" by (auto split: sum.splits)
  let ?w = "multi_session quiet recorder [CallWorkspace (demo_workspace ''a'')] start_world"
  let ?w2 = "multi_session (among (\<lambda>_. []) demo_multi_env) recorder [CallRelease (demo_lease ''a'' 1 1)] (snd first_lease)"
  have one: "rt_acquire_lease (among (\<lambda>_. []) demo_multi_env) ''ws-a'' ''a'' 60 ?w = (Inr old, snd first_lease)"
    using old by (simp add: first_lease_def quiet_def prod_eq_iff)
  have two: "rt_acquire_lease (among (\<lambda>_. []) demo_multi_env) ''ws-a'' ''b'' 60 ?w2 = (Inr new, snd second_lease)"
    using new by (simp add: second_lease_def quiet_def prod_eq_iff)
  have same: "snd second_lease = multi_session (among (\<lambda>_. []) demo_multi_env) recorder [] (snd second_lease)"
    by (simp add: multi_session_def)
  from superseded_writer_is_refused [OF session_wf [OF start_world_wf] one refl two same] old new
  show ?thesis by blast
qed

text \<open>
  C25: Detection misses nothing. When detecting the conflicts of a run returns, every two artifacts of
  the run that were published before, by writers of different keys, and that change a common path, or
  start from different base revisions, or whose writers own overlapping paths, have a conflict on
  record: a row of the run with the digest of a reason that names both of them and their common paths.
\<close>
theorem detect_finds_every_conflict:
  fixes w w' :: "'g multi_world"
  assumes "multi_wf (mx_store w)" and "detect_conflicts (among ops env) run w = (Inr cs, w')"
    and "map_of (ms_artifacts (mx_store w)) (wa_id a) = Some a" and "map_of (ms_artifacts (mx_store w)) (wa_id b) = Some b"
    and "map_of (ms_workspaces (mx_store w)) (wa_workspace a) = Some v"
    and "map_of (ms_workspaces (mx_store w)) (wa_workspace b) = Some u"
    and "ww_run v = run" and "ww_run u = run" and "ww_key v \<noteq> ww_key u"
    and "set (wa_changed a) \<inter> set (wa_changed b) \<noteq> {} \<or> wa_base a \<noteq> wa_base b
      \<or> (\<exists>p \<in> set (ww_paths v). \<exists>q \<in> set (ww_paths u). paths_overlap p q)"
  shows "\<exists>reason i c. map_of (ms_conflicts (mx_store w')) i = Some c \<and> wc_run c = run
    \<and> wc_hash c = me_digest env reason
    \<and> {cr_left reason, cr_right reason} = {wa_id a, wa_id b}
    \<and> set (wa_changed a) \<inter> set (wa_changed b) \<subseteq> set (cr_paths reason)"
proof -
  obtain as ws w1 w2 where as: "repo_call (among ops env) (\<lambda>n now. list_artifacts run) w = (Inr as, w1)"
    and ws: "repo_call (among ops env) (\<lambda>n now. list_workspaces run) w1 = (Inr ws, w2)"
    and pairs: "detect_pairs (among ops env) run (map (\<lambda>w. (ww_id w, w)) ws) (pairs_of as) w2 = (Inr cs, w')"
    using assms(2) unfolding detect_conflicts_def by (auto simp: sx_Inr)
  have ev1: "multi_evolves (mx_store w) (mx_store w1)"
    using keepsD [OF actor.listed_kept(1) as] by (simp add: on_store_def)
  have ev2: "multi_evolves (mx_store w1) (mx_store w2)"
    using keepsD [OF actor.listed_kept(2) ws] by (simp add: on_store_def)
  have wf: "multi_wf (mx_store w1)" "multi_wf (mx_store w2)" using assms(1) ev1 ev2 by (simp_all add: multi_evolves_def)
  have ev: "multi_evolves (mx_store w) (mx_store w2)" by (rule multi.kept_trans [OF ev1 ev2])
  have "a \<in> set as" "b \<in> set as"
    using listed_artifact [OF as assms(1) ev1] assms(3-8) by blast+
  moreover have "a \<noteq> b" using assms(5,6,9) by auto
  ultimately have pair: "(a, b) \<in> set (pairs_of as) \<or> (b, a) \<in> set (pairs_of as)" by (rule pairs_of_either)
  have found: "map_of (map (\<lambda>w. (ww_id w, w)) ws) (wa_workspace a) = Some v"
    "map_of (map (\<lambda>w. (ww_id w, w)) ws) (wa_workspace b) = Some u"
    using listed_workspace [OF ws assms(1) ev] assms(5-8) by blast+
  obtain reason where reason: "conflict_between a v b u = Some reason"
    "cr_left reason = min (wa_id a) (wa_id b)" "cr_right reason = max (wa_id a) (wa_id b)"
    "set (wa_changed a) \<inter> set (wa_changed b) \<subseteq> set (cr_paths reason)"
    by (rule conflict_between_Some [OF assms(9,10)])
  have "recorded (mx_store w') run (me_digest (among ops env) reason)"
    using pair actor.detect_pairs_recorded [OF pairs wf(2) _ found reason(1)]
      actor.detect_pairs_recorded [OF pairs wf(2) _ found(2,1) reason(1) [unfolded conflict_between_commute [of a]]]
    by blast
  then obtain i c where "map_of (ms_conflicts (mx_store w')) i = Some c" "wc_run c = run" "wc_hash c = me_digest env reason"
    by (auto simp: recorded_def)
  moreover have "{cr_left reason, cr_right reason} = {wa_id a, wa_id b}" using reason(2,3) by (auto simp: min_def max_def)
  ultimately show ?thesis using reason(4) by blast
qed

definition overlapping_world :: "merge_run list multi_world" where
  \<comment> \<open>the second writer owns all of the sources\<close>
  "overlapping_world = multi_session quiet recorder
     [CallWorkspace (demo_workspace ''a''), CallWorkspace (demo_workspace ''b''\<lparr>ww_paths := [''src'']\<rparr>),
      CallAcquire ''ws-a'' ''a'' 60, CallAcquire ''ws-b'' ''b'' 60,
      CallPublish (demo_artifact ''a'' ''src/a/x'') (demo_lease ''a'' 2 1),
      CallPublish (demo_artifact ''b'' ''src/a/x'') (demo_lease ''b'' 3 1)] start_world"

definition detected :: "(multi_error + writer_conflict list) \<times> merge_run list multi_world" where
  "detected = detect_conflicts quiet ''r'' overlapping_world"

theorem detect_finds_every_conflict_witness:
  "\<exists>(reason :: conflict_reason) i c. map_of (ms_conflicts (mx_store (snd detected))) i = Some c \<and> wc_run c = ''r''
     \<and> {cr_left reason, cr_right reason} = {''art-a'', ''art-b''} \<and> ''src/a/x'' \<in> set (cr_paths reason)"
proof -
  have "case fst detected of Inl _ \<Rightarrow> False | Inr _ \<Rightarrow> True" by code_simp
  then obtain cs where run: "detect_conflicts (among (\<lambda>_. []) demo_multi_env) ''r'' overlapping_world = (Inr cs, snd detected)"
    unfolding detected_def quiet_def by (auto split: sum.splits simp: prod_eq_iff)
  have rows: "map_of (ms_artifacts (mx_store overlapping_world)) ''art-a'' = Some (demo_artifact ''a'' ''src/a/x'')"
    "map_of (ms_artifacts (mx_store overlapping_world)) ''art-b'' = Some (demo_artifact ''b'' ''src/a/x'')"
    "map_of (ms_workspaces (mx_store overlapping_world)) ''ws-a'' = Some (demo_workspace ''a'')"
    "map_of (ms_workspaces (mx_store overlapping_world)) ''ws-b'' = Some (demo_workspace ''b''\<lparr>ww_paths := [''src'']\<rparr>)"
    by code_simp+
  let ?a = "demo_artifact ''a'' ''src/a/x''" and ?b = "demo_artifact ''b'' ''src/a/x''"
  let ?v = "demo_workspace ''a''" and ?u = "demo_workspace ''b''\<lparr>ww_paths := [''src'']\<rparr>"
  have names: "wa_id ?a = ''art-a''" "wa_id ?b = ''art-b''" "wa_workspace ?a = ''ws-a''" "wa_workspace ?b = ''ws-b''"
    "ww_run ?v = ''r''" "ww_run ?u = ''r''" "ww_key ?v \<noteq> ww_key ?u"
    "set (wa_changed ?a) \<inter> set (wa_changed ?b) = {''src/a/x''}"
    by (simp_all add: demo_artifact_def demo_workspace_def)
  have wf: "multi_wf (mx_store overlapping_world)" unfolding overlapping_world_def by (intro session_wf start_world_wf)
  have "\<exists>reason i c. map_of (ms_conflicts (mx_store (snd detected))) i = Some c \<and> wc_run c = ''r''
    \<and> wc_hash c = me_digest demo_multi_env reason \<and> {cr_left reason, cr_right reason} = {wa_id ?a, wa_id ?b}
    \<and> set (wa_changed ?a) \<inter> set (wa_changed ?b) \<subseteq> set (cr_paths reason)"
    by (rule detect_finds_every_conflict [OF wf run, where v = ?v and u = ?u]) (simp_all only: names rows, simp_all)
  then obtain reason i c where row: "map_of (ms_conflicts (mx_store (snd detected))) i = Some c" "wc_run c = ''r''"
    and "wc_hash c = me_digest demo_multi_env reason"
    and sides: "{cr_left reason, cr_right reason} = {wa_id ?a, wa_id ?b}"
    and paths: "set (wa_changed ?a) \<inter> set (wa_changed ?b) \<subseteq> set (cr_paths reason)"
    by (elim exE conjE) (rule that)
  have "''src/a/x'' \<in> set (cr_paths reason)" using paths unfolding names by (rule subsetD) (rule singletonI)
  with row sides [unfolded names] show ?thesis by blast
qed

subsection \<open>A merge that never ran\<close>

text \<open>
  The status of a merge run is taken over from the caller: a request that already says that the
  merge succeeded, with a result of the caller's choice, is stored so, though nothing was merged; it
  cannot be finalised any more.
\<close>
theorem created_merge_may_claim_success:
  "let claim = (demo_merge MS_SUCCEEDED)\<lparr>mr_result := Some ''git:fffffff''\<rparr>;
       w = snd (create_merge_run quiet claim (''w'', 1) demo_leases published_world)
   in map (mg_merge \<circ> snd) (ms_merges (mx_store w)) = [claim] \<and> mx_git w = []
     \<and> fst (finalize_merge_run quiet recorder ''mg'' (''w'', 1) demo_leases True w)
         = Inl (MwConflict ''terminal merge runs cannot be finalized again'')"
  by code_simp

end
