(* ===== verification/Dispatch_Gateway.thy ===== *)
theory Dispatch_Gateway
  imports Sched_Worker Sec_Gateway Graph_Loops Sql_Tables
begin

section \<open>Scheduler dispatch: the gateway to the graphs\<close>

text \<open>
  \<open>operant/runtime/scheduler_integration.py\<close>: \<open>SchedulerSecurityService\<close>, the registry of dispatches and
  \<open>GraphSchedulerActionGateway\<close>, the gateway the scheduler's worker runs with. It composes the security
  store, the graph repository and the registry. Each call of one of them is one transaction, before which
  other threads and processes may act (\<open>de_others\<close>); identifiers and clock readings are those of the
  n-th call. The normaliser's host, the digests, the resolver of workspaces and the executor of graph
  runs are parameters.
\<close>

subsection \<open>State\<close>

datatype binding_status = BdPending | BdCompleted

record dispatch_binding =
  bd_source :: string
  bd_key :: string
  bd_hash :: string
  bd_status :: binding_status
  bd_run :: "string option"

type_synonym bindings = "(string \<times> dispatch_binding) list"

record dispatch_world =
  dw_sec :: sec_store
  dw_graph :: graph_store
  dw_bindings :: bindings
  dw_calls :: nat

record dispatch_env =
  de_host :: host_env
  de_digest :: "hash_input \<Rightarrow> string"
  de_redact :: redact_env
  de_bundle :: policy_bundle
  de_principal :: string
  de_ttl :: int
  de_max_ttl :: int
  de_parse :: "string \<Rightarrow> expr option"
  de_sha :: "string \<Rightarrow> string"
  de_workspace :: "workflow_dispatch \<Rightarrow> string + string option"
  de_execute :: "(string \<Rightarrow> dispatch_world \<Rightarrow> dispatch_world) option"
  de_cancel :: "(string \<Rightarrow> dispatch_world \<Rightarrow> dispatch_world) option"
  de_fresh :: "nat \<Rightarrow> string"
  de_nodes :: "nat \<Rightarrow> string list"
  de_clock :: "nat \<Rightarrow> int"
  de_time :: "nat \<Rightarrow> timestamp"
  de_others :: "nat \<Rightarrow> dispatch_world \<Rightarrow> dispatch_world"

type_synonym 'a dx = "(dispatch_world, gateway_error, 'a) sx"

subsection \<open>Calls\<close>

definition sec_exception :: "sec_error \<Rightarrow> string" where
  \<comment> \<open>\<open>type(exc).__name__\<close>\<close>
  "sec_exception e =
     (case e of
        SecValueError m \<Rightarrow>
          if m \<in> {''ActionRequest'', ''NormalizedTarget'', ''CapabilityLease''} then ''ValidationError'' else ''ValueError''
      | SecFileNotFound \<Rightarrow> ''FileNotFoundError''
      | SecCapabilityDenied m \<Rightarrow> ''CapabilityDenied''
      | SecSecretUnavailable m \<Rightarrow> ''SecretUnavailable''
      | SecPolicyDenied \<Rightarrow> ''PolicyDenied''
      | SecConflict m \<Rightarrow> ''ConflictError''
      | SecIdempotencyConflict \<Rightarrow> ''IdempotencyConflictError''
      | SecKeyError \<Rightarrow> ''KeyError'')"

definition graph_exception :: "graph_error \<Rightarrow> string" where
  "graph_exception e =
     (case e of
        GeKeyError \<Rightarrow> ''KeyError''
      | GeConflict m \<Rightarrow> ''GraphConflictError''
      | GeState m \<Rightarrow> ''GraphStateError''
      | GeValueError m \<Rightarrow> ''ValueError''
      | GeIndexError \<Rightarrow> ''IndexError''
      | GeOverflow \<Rightarrow> ''OverflowError''
      | GeTypeError \<Rightarrow> ''TypeError''
      | GeStopIteration \<Rightarrow> ''StopIteration''
      | GeCompilation issues \<Rightarrow> ''GraphCompilationError''
      | GeNoReturn \<Rightarrow> ''RecursionError'')"

definition sec_call :: "dispatch_env \<Rightarrow> (nat \<Rightarrow> 'a sec) \<Rightarrow> 'a dx" where
  "sec_call env f = (\<lambda>w0.
     let w = de_others env (dw_calls w0) w0 in
     case f (dw_calls w0) (dw_sec w) of
       (r, s) \<Rightarrow> (case r of Inl e \<Rightarrow> Inl (GwOther (sec_exception e)) | Inr x \<Rightarrow> Inr x,
         w\<lparr>dw_sec := s, dw_calls := Suc (dw_calls w0)\<rparr>))"

definition graph_call :: "dispatch_env \<Rightarrow> (nat \<Rightarrow> 'a gx) \<Rightarrow> 'a dx" where
  "graph_call env f = (\<lambda>w0.
     let w = de_others env (dw_calls w0) w0 in
     case f (dw_calls w0) (dw_graph w) of
       (r, s) \<Rightarrow> (case r of Inl e \<Rightarrow> Inl (GwOther (graph_exception e)) | Inr x \<Rightarrow> Inr x,
         w\<lparr>dw_graph := s, dw_calls := Suc (dw_calls w0)\<rparr>))"

definition registry_call :: "dispatch_env \<Rightarrow> (bindings, gateway_error, 'a) sx \<Rightarrow> 'a dx" where
  "registry_call env f = (\<lambda>w0.
     let w = de_others env (dw_calls w0) w0 in
     case f (dw_bindings w) of
       (r, s) \<Rightarrow> (r, w\<lparr>dw_bindings := s, dw_calls := Suc (dw_calls w0)\<rparr>))"

definition when_key_error :: "'a dx \<Rightarrow> 'a dx \<Rightarrow> 'a dx" where
  \<comment> \<open>\<open>except KeyError\<close>\<close>
  "when_key_error m handler = sx_catch m (\<lambda>e. if e = GwOther ''KeyError'' then handler else sx_raise e)"

subsection \<open>Authorisation\<close>

definition make_security :: "dispatch_env \<Rightarrow> gateway_error + dispatch_env" where
  "make_security env =
     (if de_principal env = [] then Inl (GwOther ''ValueError'')
      else if de_ttl env < 1 then Inl (GwOther ''ValueError'') else Inr env)"

definition dispatch_proposal :: "dispatch_env \<Rightarrow> nat \<Rightarrow> workflow_dispatch \<Rightarrow> action_proposal" where
  "dispatch_proposal env n d =
     \<lparr>prop_request_id = de_fresh env n, prop_principal = de_principal env, prop_tool = ''scheduler'',
      prop_operation = ''dispatch'',
      prop_arguments = [(''workflow_id'', PStr (wd_workflow d)), (''workflow_version'', PInt (wd_version d)),
        (''workflow_input'', env_to_py (wd_input d)), (''source_run_request_id'', PStr (wd_source d))],
      prop_capabilities = [PROCESS_EXEC_NO_NETWORK], prop_idempotency_key = wd_key d,
      prop_policy_version = bundle_version (de_bundle env), prop_workspace = None,
      prop_workspace_id = Some (''workflow:'' @ wd_workflow d @ '':v'' @ show_int (wd_version d)),
      prop_session_id = None, prop_workflow_run_id = None, prop_node_run_id = None,
      prop_agent_instance_id = None, prop_secret_refs = [], prop_data_classification = ''internal'',
      prop_sandbox_profile = ''local-core'', prop_network_profile = ''none'', prop_dry_run = False\<rparr>"

definition dispatch_audit ::
  "dispatch_env \<Rightarrow> action_request \<Rightarrow> string \<Rightarrow> policy_decision \<Rightarrow> string list \<Rightarrow> py \<Rightarrow> audit_event dx" where
  "dispatch_audit env action event dec rids detail =
     sec_call env (\<lambda>n. append_security_audit (de_redact env)
       (audit_entry (de_fresh env n) action event (Some dec) rids detail))"

definition decision_text :: "policy_decision \<Rightarrow> string" where
  "decision_text dec = (case dec of DENY \<Rightarrow> ''deny'' | ASK \<Rightarrow> ''ask'' | ALLOW \<Rightarrow> ''allow'')"

definition authorize :: "dispatch_env \<Rightarrow> workflow_dispatch \<Rightarrow> (action_request \<times> policy_evaluation) dx" where
  "authorize env d =
     sx_bind (sec_call env (\<lambda>n. sx_lift (normalize_action (de_host env) (de_digest env) (dispatch_proposal env n d))))
       (\<lambda>proposed.
     sx_bind (sec_call env (\<lambda>n. record_security_action (de_redact env) proposed)) (\<lambda>action.
     let evaluation = evaluate (de_bundle env) action in
     sx_bind (dispatch_audit env action ''scheduler.dispatch.policy_evaluated'' (decision evaluation)
         (matched_rule_ids evaluation)
         (PDict [(PStr ''reason_code'', PStr (reason_code evaluation)),
                 (PStr ''source_run_request_id'', PStr (wd_source d))])) (\<lambda>_.
     if decision evaluation \<noteq> ALLOW then
       sx_bind (dispatch_audit env action ''scheduler.dispatch.blocked'' (decision evaluation)
         (matched_rule_ids evaluation) (PDict [(PStr ''fail_closed'', PBool True)])) (\<lambda>_.
       sx_raise (GwDispatch (''scheduler.policy_'' @ decision_text (decision evaluation)) False))
     else
       sx_bind (sec_call env (\<lambda>n. broker_issue (de_max_ttl env) (de_fresh env n) (de_time env n) action evaluation
         PROCESS_EXEC_NO_NETWORK (de_principal env) (de_ttl env) 1)) (\<lambda>lease.
       sx_bind (sec_call env (\<lambda>n. broker_consume (lease_id lease) action PROCESS_EXEC_NO_NETWORK (de_time env n)))
         (\<lambda>consumed.
       sx_bind (dispatch_audit env action ''scheduler.dispatch.capability_consumed'' ALLOW (matched_rule_ids evaluation)
         (PDict [(PStr ''capability'', PStr (capability_value PROCESS_EXEC_NO_NETWORK)),
                 (PStr ''lease_id'', PStr (lease_id consumed)), (PStr ''uses'', PInt (uses consumed))])) (\<lambda>_.
       sx_return (action, evaluation)))))))"

subsection \<open>The registry\<close>

definition find_binding :: "string \<Rightarrow> string \<Rightarrow> string \<Rightarrow> bindings \<Rightarrow> dispatch_binding option" where
  \<comment> \<open>some row that agrees in one of the three; when a row agrees in all, the unique keys leave no other\<close>
  "find_binding source key h bs =
     list_find (\<lambda>b. bd_source b = source \<or> bd_key b = key \<or> bd_hash b = h) (map snd bs)"

definition reserve ::
  "string \<Rightarrow> string \<Rightarrow> string \<Rightarrow> (bindings, gateway_error, dispatch_binding \<times> bool) sx" where
  "reserve source key h =
     sx_transaction
       (sx_bind sx_get (\<lambda>bs.
        case find_binding source key h bs of
          Some b \<Rightarrow>
            if bd_source b \<noteq> source \<or> bd_key b \<noteq> key \<or> bd_hash b \<noteq> h
            then sx_raise (GwConflict ''scheduler graph dispatch idempotency binding conflict'')
            else sx_return (b, False)
        | None \<Rightarrow>
            let b = \<lparr>bd_source = source, bd_key = key, bd_hash = h, bd_status = BdPending, bd_run = None\<rparr> in
            sx_bind (sx_modify (\<lambda>bs. bs @ [(source, b)])) (\<lambda>_. sx_return (b, True))))"

definition complete_binding :: "dispatch_binding \<Rightarrow> string \<Rightarrow> (bindings, gateway_error, dispatch_binding) sx" where
  "complete_binding x run =
     sx_transaction
       (sx_bind sx_get (\<lambda>bs.
        let P = (\<lambda>k b. k = bd_source x \<and> (bd_key b = bd_key x \<and> bd_hash b = bd_hash x \<and> bd_status b = BdPending)) in
        sx_bind (sx_guard (sql_rows P bs = 0 \<or> list_all (\<lambda>(k, b). k = bd_source x \<or> bd_run b \<noteq> Some run) bs)
          (GwOther ''IntegrityError'')) (\<lambda>_.
        sx_bind (sx_modify (sql_update P (\<lambda>b. b\<lparr>bd_status := BdCompleted, bd_run := Some run\<rparr>))) (\<lambda>_.
        sx_bind sx_get (\<lambda>bs'.
        case map_of bs' (bd_source x) of
          None \<Rightarrow> sx_raise (GwConflict ''scheduler graph dispatch binding disappeared'')
        | Some b \<Rightarrow>
            sx_bind (sx_guard (\<not> (sql_rows P bs \<noteq> 1 \<and> (bd_status b \<noteq> BdCompleted \<or> bd_run b \<noteq> Some run)))
              (GwConflict ''scheduler graph dispatch completion conflict'')) (\<lambda>_. sx_return b))))))"

subsection \<open>Dispatch\<close>

definition workspace_from_input ::
  "host_env \<Rightarrow> (string list \<Rightarrow> bool) \<Rightarrow> workflow_dispatch \<Rightarrow> string + string option" where
  \<comment> \<open>the default resolver; the left value is the exception\<close>
  "workspace_from_input host is_dir d =
     (case map_of (wd_input d) ''workspace_or_target'' of
        None \<Rightarrow> Inr None
      | Some PNone \<Rightarrow> Inr None
      | Some (PStr path) \<Rightarrow>
          if \<not> starts_with path ''/'' then Inl ''ValueError''
          else (case resolve_strict host path of
                  None \<Rightarrow> Inl ''FileNotFoundError''
                | Some p \<Rightarrow> if is_dir p then Inr (Some (path_str p)) else Inl ''ValueError'')
      | Some _ \<Rightarrow> Inl ''ValueError'')"

definition dispatch_run_id :: "dispatch_env \<Rightarrow> string \<Rightarrow> string \<Rightarrow> string" where
  "dispatch_run_id env source h = ''graph_run_scheduler_'' @ de_sha env (source @ CHR 0x00 # h)"

definition bound_run :: "dispatch_binding \<Rightarrow> string dx" where
  \<comment> \<open>\<open>assert completed.graph_run_id is not None\<close>\<close>
  "bound_run b = (case bd_run b of None \<Rightarrow> sx_raise (GwOther ''AssertionError'') | Some r \<Rightarrow> sx_return r)"

definition resume_run :: "dispatch_env \<Rightarrow> workflow_dispatch \<Rightarrow> dispatch_binding \<Rightarrow> graph_run \<Rightarrow> string dx" where
  \<comment> \<open>the run of an interrupted dispatch exists\<close>
  "resume_run env d b found =
     sx_bind (sx_guard (gr_definition found = (wd_workflow d, wd_version d) \<and> py_eq (env_to_py (gr_input found)) (env_to_py (wd_input d)))
       (GwDispatch ''scheduler.graph_dispatch_binding_conflict'' True)) (\<lambda>_.
     sx_bind (if gr_status found \<in> {RS_CREATED, RS_QUEUED, RS_INTERRUPTED}
         then graph_call env (\<lambda>n. start_run (de_clock env n) (gr_id found)) else sx_return found) (\<lambda>run.
     sx_bind (registry_call env (complete_binding b (gr_id run))) bound_run))"

definition start_dispatch ::
  "dispatch_env \<Rightarrow> workflow_dispatch \<Rightarrow> workflow_definition \<Rightarrow> string option \<Rightarrow> string \<Rightarrow> dispatch_binding
     \<Rightarrow> action_request \<times> policy_evaluation \<Rightarrow> string dx" where
  "start_dispatch env d def workspace run_id b auth =
     sx_bind
       (sx_catch
         (sx_bind (graph_call env (\<lambda>n. create_run (de_parse env) (de_clock env n) run_id (de_nodes env n) def
            (Some (wd_input d)) workspace None None None 0)) (\<lambda>run.
          sx_bind (graph_call env (\<lambda>n. start_run (de_clock env n) (gr_id run))) (\<lambda>started.
          registry_call env (complete_binding b (gr_id started)))))
         (\<lambda>e. case e of
            GwDispatch code unknown \<Rightarrow> sx_raise e
          | _ \<Rightarrow>
              let code = ''graph.'' @ exception_code (WkGateway e) in
              sx_bind (dispatch_audit env (fst auth) ''scheduler.dispatch.outcome_unknown'' ALLOW
                (matched_rule_ids (snd auth)) (PDict [(PStr ''error_code'', PStr code)])) (\<lambda>_.
              sx_raise (GwDispatch code True)))) (\<lambda>completed.
     sx_bind (dispatch_audit env (fst auth) ''scheduler.dispatch.completed'' ALLOW (matched_rule_ids (snd auth))
       (PDict [(PStr ''graph_run_id'', case bd_run completed of None \<Rightarrow> PNone | Some r \<Rightarrow> PStr r)])) (\<lambda>_.
     bound_run completed))"

definition dispatch_authorized ::
  "dispatch_env \<Rightarrow> workflow_dispatch \<Rightarrow> workflow_definition \<Rightarrow> action_request \<times> policy_evaluation \<Rightarrow> string dx" where
  \<comment> \<open>\<open>dispatch_workflow\<close> after the authorisation\<close>
  "dispatch_authorized env d def auth =
     (case de_workspace env d of
        Inl e \<Rightarrow> sx_raise (GwDispatch ''scheduler.workspace_invalid'' False)
      | Inr workspace \<Rightarrow>
          let h = action_hash (fst auth); run_id = dispatch_run_id env (wd_source d) h in
          sx_bind (registry_call env (reserve (wd_source d) (wd_key d) h)) (\<lambda>(b, created).
          if created then start_dispatch env d def workspace run_id b auth
          else if bd_status b = BdCompleted \<and> (case bd_run b of None \<Rightarrow> False | Some r \<Rightarrow> r \<noteq> []) then
            sx_bind (graph_call env (\<lambda>n. get_run (the (bd_run b)))) (\<lambda>_. sx_return (the (bd_run b)))
          else
            sx_bind (when_key_error (sx_bind (graph_call env (\<lambda>n. get_run run_id)) (\<lambda>r. sx_return (Some r)))
              (sx_return None)) (\<lambda>found.
            case found of
              Some run \<Rightarrow> resume_run env d b run
            | None \<Rightarrow> start_dispatch env d def workspace run_id b auth)))"

definition dispatch_workflow :: "dispatch_env \<Rightarrow> workflow_dispatch \<Rightarrow> string dx" where
  "dispatch_workflow env d =
     sx_bind (when_key_error (graph_call env (\<lambda>n. get_definition (wd_workflow d, wd_version d)))
       (sx_raise (GwDispatch ''scheduler.workflow_not_found'' False))) (\<lambda>def.
     sx_bind (sx_guard (wf_status def = DS_PUBLISHED) (GwDispatch ''scheduler.workflow_not_published'' False)) (\<lambda>_.
     sx_bind (sx_lift (case validate_run (de_parse env) def (Some (wd_input d)) of
          Inl e \<Rightarrow> Inl (GwDispatch (''scheduler.workflow_invalid.'' @ graph_exception e) False)
        | Inr compiled \<Rightarrow> Inr ())) (\<lambda>_.
     sx_bind (authorize env d) (dispatch_authorized env d def))))"

subsection \<open>The gateway of the worker\<close>

definition workflow_status :: "dispatch_env \<Rightarrow> string \<Rightarrow> graph_run_status dx" where
  "workflow_status env i = sx_bind (graph_call env (\<lambda>n. get_run i)) (\<lambda>r. sx_return (gr_status r))"

definition ensure_execution :: "dispatch_env \<Rightarrow> string \<Rightarrow> unit dx" where
  "ensure_execution env i = (case de_execute env of None \<Rightarrow> sx_return () | Some f \<Rightarrow> sx_modify (f i))"

definition cancel_workflow :: "dispatch_env \<Rightarrow> string \<Rightarrow> unit dx" where
  "cancel_workflow env i =
     (case de_cancel env of
        Some f \<Rightarrow> sx_modify (f i)
      | None \<Rightarrow> sx_void (graph_call env (\<lambda>n. cancel_run (de_clock env n) i)))"

definition graph_gateway :: "dispatch_env \<Rightarrow> dispatch_world gateway" where
  "graph_gateway env =
     \<lparr>gw_dispatch = dispatch_workflow env, gw_status = Some (workflow_status env),
      gw_ensure = Some (ensure_execution env), gw_cancel = Some (cancel_workflow env)\<rparr>"

end
