(* ===== verification/Dispatch_Registry.thy ===== *)
theory Dispatch_Registry
  imports Dispatch_Gateway Sec_Guard
begin

section \<open>Scheduler dispatch: the life of the registry\<close>

text \<open>
  A binding is reserved pending and completed once; its source, key and hash never change, and a
  completed binding never does. \<open>registry_evolves\<close> is what every transaction on the registry keeps, and
  what a dispatcher relies on of others.
\<close>

subsection \<open>Bindings\<close>

definition registry_ok :: "bindings \<Rightarrow> bool" where
  \<comment> \<open>the keys and the check of the table\<close>
  "registry_ok bs \<longleftrightarrow>
     distinct (map fst bs)
     \<and> (\<forall>i b. map_of bs i = Some b \<longrightarrow> bd_source b = i \<and> (bd_status b = BdCompleted) = (bd_run b \<noteq> None))
     \<and> (\<forall>i j b c. map_of bs i = Some b \<and> map_of bs j = Some c \<and> i \<noteq> j \<longrightarrow>
          bd_key b \<noteq> bd_key c \<and> bd_hash b \<noteq> bd_hash c \<and> (bd_run b \<noteq> None \<longrightarrow> bd_run b \<noteq> bd_run c))"

inductive binding_step :: "dispatch_binding \<Rightarrow> dispatch_binding \<Rightarrow> bool" where
  finish: "bd_status b = BdPending \<Longrightarrow> binding_step b (b\<lparr>bd_status := BdCompleted, bd_run := Some r\<rparr>)"

definition binding_born :: "dispatch_binding \<Rightarrow> bool" where
  "binding_born b \<longleftrightarrow> bd_status b = BdPending \<and> bd_run b = None"

definition registry_moves :: "bindings \<Rightarrow> bindings \<Rightarrow> bool" where
  "registry_moves s t \<longleftrightarrow> (\<forall>i. descends binding_step binding_born (map_of s i) (map_of t i))"

definition registry_evolves :: "bindings \<Rightarrow> bindings \<Rightarrow> bool" where
  "registry_evolves s t \<longleftrightarrow> (registry_ok s \<longrightarrow> registry_ok t \<and> registry_moves s t)"

interpretation registry: kept_relation registry_evolves
  by unfold_locales (auto simp: registry_evolves_def registry_moves_def intro: descends_trans)

inductive_cases binding_stepE: "binding_step b c"

lemma binding_steps_kept:
  "binding_step\<^sup>*\<^sup>* b c \<Longrightarrow> bd_source c = bd_source b \<and> bd_key c = bd_key b \<and> bd_hash c = bd_hash b
     \<and> (bd_status b = BdCompleted \<longrightarrow> c = b)"
  by (induction rule: rtranclp_induct) (auto elim!: binding_stepE)

lemma completed_stays:
  assumes "registry_evolves s t" and "registry_ok s" and "map_of s i = Some b" and "bd_status b = BdCompleted"
  shows "map_of t i = Some b"
proof -
  from assms(1,2) have "descends binding_step binding_born (map_of s i) (map_of t i)"
    by (simp add: registry_evolves_def registry_moves_def)
  with assms(3) obtain c where "map_of t i = Some c" "binding_step\<^sup>*\<^sup>* b c" by (auto simp: descends_def)
  with binding_steps_kept [of b c] assms(4) show ?thesis by simp
qed

lemma find_binding_None:
  assumes "find_binding source key h bs = None" and "map_of bs i = Some b"
  shows "bd_source b \<noteq> source \<and> bd_key b \<noteq> key \<and> bd_hash b \<noteq> h"
  using assms map_of_SomeD [OF assms(2)] unfolding find_binding_def list_find_None_iff by force

lemma reserve_Inr:
  assumes "reserve source key h bs = (Inr (b, created), bs')" and ok: "registry_ok bs"
  shows "registry_evolves bs bs'" and "map_of bs' source = Some b"
    and "bd_source b = source" and "bd_key b = key" and "bd_hash b = h"
proof -
  let ?new = "\<lparr>bd_source = source, bd_key = key, bd_hash = h, bd_status = BdPending, bd_run = None\<rparr>"
  have "registry_evolves bs bs' \<and> map_of bs' source = Some b \<and> bd_source b = source \<and> bd_key b = key \<and> bd_hash b = h"
  proof (cases "find_binding source key h bs")
    case (Some c)
    then have "bs' = bs" "b = c" "bd_source c = source" "bd_key c = key" "bd_hash c = h"
      using assms(1) by (auto simp: reserve_def sx_simps split: if_splits)
    moreover obtain i where "(i, c) \<in> set bs" using Some by (auto simp: find_binding_def dest!: list_find_SomeD)
    then have "map_of bs i = Some c" using ok by (simp add: registry_ok_def)
    moreover from this have "bd_source c = i" using ok unfolding registry_ok_def by blast
    ultimately show ?thesis by (simp add: registry.kept_refl)
  next
    case None
    then have bs': "bs' = bs @ [(source, ?new)]" and b: "b = ?new"
      using assms(1) by (auto simp: reserve_def sx_simps Let_def)
    have fresh: "map_of bs source = None"
    proof (rule ccontr)
      assume "map_of bs source \<noteq> None"
      then obtain c where c: "map_of bs source = Some c" by blast
      then have "bd_source c = source" using ok unfolding registry_ok_def by blast
      with find_binding_None [OF None c] show False by simp
    qed
    then have rows: "map_of bs' i = (if i = source then Some ?new else map_of bs i)" for i
      by (cases "map_of bs i") (auto simp: bs' map_add_def)
    have "registry_moves bs bs'"
      by (auto simp: registry_moves_def rows fresh binding_born_def intro: descends_born)
    moreover have "registry_ok bs'"
    proof -
      have "distinct (map fst bs')" using ok fresh by (auto simp: bs' registry_ok_def map_of_eq_None_iff)
      moreover have "bd_source c = i \<and> (bd_status c = BdCompleted) = (bd_run c \<noteq> None)" if "map_of bs' i = Some c" for i c
        using that ok unfolding rows registry_ok_def by (auto split: if_splits)
      moreover have "bd_key c \<noteq> bd_key e \<and> bd_hash c \<noteq> bd_hash e \<and> (bd_run c \<noteq> None \<longrightarrow> bd_run c \<noteq> bd_run e)"
        if "map_of bs' i = Some c" "map_of bs' j = Some e" "i \<noteq> j" for i j c e
      proof -
        consider "i = source" | "j = source" | "i \<noteq> source" "j \<noteq> source" by blast
        then show ?thesis
        proof cases
          case 1
          with that rows have "c = ?new" "map_of bs j = Some e" by (auto split: if_splits)
          with find_binding_None [OF None, of j e] show ?thesis by auto
        next
          case 2
          with that rows have "e = ?new" "map_of bs i = Some c" by (auto split: if_splits)
          with find_binding_None [OF None, of i c] show ?thesis by auto
        next
          case 3
          with that rows have "map_of bs i = Some c" "map_of bs j = Some e" by auto
          with ok that(3) show ?thesis unfolding registry_ok_def by blast
        qed
      qed
      ultimately show ?thesis unfolding registry_ok_def by blast
    qed
    ultimately show ?thesis using b rows [of source] by (simp add: registry_evolves_def)
  qed
  then show "registry_evolves bs bs'" "map_of bs' source = Some b" "bd_source b = source" "bd_key b = key" "bd_hash b = h"
    by simp_all
qed

lemma complete_binding_Inr:
  assumes "complete_binding x run bs = (Inr b, bs')" and ok: "registry_ok bs"
  shows "registry_evolves bs bs' \<and> map_of bs' (bd_source x) = Some b \<and> bd_run b = Some run"
proof -
  let ?Q = "\<lambda>b. bd_key b = bd_key x \<and> bd_hash b = bd_hash x \<and> bd_status b = BdPending"
  let ?P = "\<lambda>k b. k = bd_source x \<and> ?Q b"
  let ?f = "\<lambda>b. b\<lparr>bd_status := BdCompleted, bd_run := Some run\<rparr>"
  from assms(1) have bs': "bs' = sql_update ?P ?f bs" and row: "map_of bs' (bd_source x) = Some b"
    and free: "sql_rows ?P bs = 0 \<or> list_all (\<lambda>(k, b). k = bd_source x \<or> bd_run b \<noteq> Some run) bs"
    and closed: "sql_rows ?P bs = 1 \<or> bd_status b = BdCompleted \<and> bd_run b = Some run"
    unfolding complete_binding_def Let_def by (auto simp: sx_Inr sx_transaction_Inr)
  have keys: "distinct (map fst bs)" using ok by (simp add: registry_ok_def)
  have rows: "map_of bs' i = map_option (\<lambda>v. if ?P i v then ?f v else v) (map_of bs i)" for i
    by (simp add: bs' map_of_sql_update)
  have one: "sql_rows ?P bs = 1 \<longleftrightarrow> (\<exists>v. map_of bs (bd_source x) = Some v \<and> ?Q v)"
    by (rule sql_rows_one_iff [OF keys])
  have run: "bd_run b = Some run" using closed one row rows [of "bd_source x"] by auto
  have moves: "registry_moves bs bs'"
    unfolding registry_moves_def bs' by (intro allI descends_sql_update) (auto intro: binding_step.finish)
  have "registry_ok bs'"
  proof (cases "sql_rows ?P bs = 1")
    case True
    have other: "bd_run v \<noteq> Some run" if "map_of bs i = Some v" "i \<noteq> bd_source x" for i v
      using free True map_of_SomeD [OF that(1)] that(2) by (auto simp: list_all_iff)
    have "distinct (map fst bs')" using keys by (simp add: bs' keys_sql_update)
    moreover have "bd_source c = i \<and> (bd_status c = BdCompleted) = (bd_run c \<noteq> None)" if "map_of bs' i = Some c" for i c
      using that ok unfolding rows registry_ok_def by auto
    moreover have "bd_key c \<noteq> bd_key e \<and> bd_hash c \<noteq> bd_hash e \<and> (bd_run c \<noteq> None \<longrightarrow> bd_run c \<noteq> bd_run e)"
      if "map_of bs' i = Some c" "map_of bs' j = Some e" "i \<noteq> j" for i j c e
    proof -
      from that(1,2) obtain c' e' where old: "map_of bs i = Some c'" "map_of bs j = Some e'"
        and new: "c = (if ?P i c' then ?f c' else c')" "e = (if ?P j e' then ?f e' else e')"
        unfolding rows by auto
      have "bd_key c' \<noteq> bd_key e' \<and> bd_hash c' \<noteq> bd_hash e' \<and> (bd_run c' \<noteq> None \<longrightarrow> bd_run c' \<noteq> bd_run e')"
        using ok old that(3) unfolding registry_ok_def by blast
      with other [OF old(1)] other [OF old(2)] that(3) show ?thesis unfolding new by auto
    qed
    ultimately show ?thesis unfolding registry_ok_def by blast
  next
    case False
    with one have "map_of bs' i = map_of bs i" for i unfolding rows by (cases "map_of bs i") auto
    moreover have "distinct (map fst bs')" using keys by (simp add: bs' keys_sql_update)
    ultimately show ?thesis using ok unfolding registry_ok_def by simp
  qed
  with moves row run show ?thesis by (simp add: registry_evolves_def)
qed

lemma reserve_kept: "keeps registry_evolves (reserve source key h)"
proof (rule keepsI)
  fix bs
  obtain r bs' where run: "reserve source key h bs = (r, bs')" by fastforce
  show "registry_evolves bs (snd (reserve source key h bs))"
  proof (cases r)
    case (Inl e)
    with run show ?thesis by (auto simp: reserve_def registry.kept_refl dest: sx_transaction_Inl)
  next
    case (Inr x)
    obtain b created where x: "x = (b, created)" by fastforce
    show ?thesis
    proof (cases "registry_ok bs")
      case True
      from reserve_Inr(1) [OF run [unfolded Inr x] True] run show ?thesis by simp
    qed (simp add: registry_evolves_def)
  qed
qed

lemma complete_binding_kept: "keeps registry_evolves (complete_binding x run)"
proof (rule keepsI)
  fix bs
  obtain r bs' where c: "complete_binding x run bs = (r, bs')" by fastforce
  show "registry_evolves bs (snd (complete_binding x run bs))"
  proof (cases r)
    case (Inl e)
    with c show ?thesis by (auto simp: complete_binding_def registry.kept_refl dest: sx_transaction_Inl)
  next
    case (Inr b)
    show ?thesis
    proof (cases "registry_ok bs")
      case True
      from complete_binding_Inr [OF c [unfolded Inr] True] c show ?thesis by simp
    qed (simp add: registry_evolves_def)
  qed
qed

end
