(* ===== verification/Dispatch_Safety.thy ===== *)
theory Dispatch_Safety
  imports Dispatch_Registry Sec_Runs
begin

section \<open>Scheduler dispatch: what the gateway guarantees\<close>

text \<open>
  The locale \<open>dispatcher\<close> is a gateway among others that keep the life of the registry; inside it every call
  of the gateway keeps it, and a dispatch that returns has bound its request to the run it returns.
\<close>

subsection \<open>The gateway keeps the life of the registry\<close>

definition on_bindings :: "dispatch_world \<Rightarrow> dispatch_world \<Rightarrow> bool" where
  "on_bindings w w' \<longleftrightarrow> registry_evolves (dw_bindings w) (dw_bindings w')"

interpretation reg: kept_relation on_bindings
  by unfold_locales (auto simp: on_bindings_def intro: registry.kept_refl registry.kept_trans)

lemma sx_catch_raises:
  assumes "sx_catch m h s = (Inr y, t)" and "\<And>e s c t. h e s \<noteq> (Inr c, t)"
  shows "m s = (Inr y, t)"
  using assms(1)
proof (cases "m s")
  case (Pair r s')
  with assms show ?thesis by (cases r) (auto simp: sx_catch_def)
qed

definition bound :: "string \<Rightarrow> string \<Rightarrow> dispatch_world \<Rightarrow> bool" where
  \<comment> \<open>the registry has bound the request to the run for good\<close>
  "bound i r w \<longleftrightarrow> (\<exists>b. map_of (dw_bindings w) i = Some b \<and> bd_status b = BdCompleted \<and> bd_run b = Some r)"

lemma bound_stays: "on_bindings w w' \<Longrightarrow> registry_ok (dw_bindings w) \<Longrightarrow> bound i r w \<Longrightarrow> bound i r w'"
  using completed_stays by (auto simp: on_bindings_def bound_def)

lemma bound_unique:
  assumes "registry_ok (dw_bindings w)" and "bound i r w" and "bound j q w"
  shows "i = j \<longleftrightarrow> r = q"
proof -
  obtain b c where b: "map_of (dw_bindings w) i = Some b" "bd_run b = Some r"
    and c: "map_of (dw_bindings w) j = Some c" "bd_run c = Some q"
    using assms(2,3) unfolding bound_def by blast
  have "i \<noteq> j \<Longrightarrow> bd_run b \<noteq> bd_run c" using assms(1) b c unfolding registry_ok_def by blast
  with b c show ?thesis by (cases "i = j") simp_all
qed

lemma on_bindings_ok: "on_bindings w w' \<Longrightarrow> registry_ok (dw_bindings w) \<Longrightarrow> registry_ok (dw_bindings w')"
  by (simp add: on_bindings_def registry_evolves_def)

locale dispatcher =
  fixes env :: dispatch_env
  assumes others_kept: "on_bindings w (de_others env n w)"
    and execute_kept: "de_execute env = Some f \<Longrightarrow> on_bindings w (f i w)"
    and cancel_kept: "de_cancel env = Some f \<Longrightarrow> on_bindings w (f i w)"
begin

lemma calls_kept:
  "keeps on_bindings (sec_call env f)" "keeps on_bindings (graph_call env g)"
  "keeps registry_evolves h \<Longrightarrow> keeps on_bindings (registry_call env h)"
proof -
  have others: "registry_evolves (dw_bindings w) (dw_bindings (de_others env n w))" for w n
    using others_kept by (simp add: on_bindings_def)
  then show "keeps on_bindings (sec_call env f)" "keeps on_bindings (graph_call env g)"
    by (simp_all add: keeps_def on_bindings_def sec_call_def graph_call_def case_prod_beta Let_def)
  show "keeps on_bindings (registry_call env h)" if "keeps registry_evolves h"
  proof (rule keepsI)
    fix w
    have "registry_evolves (dw_bindings (de_others env (dw_calls w) w))
        (snd (h (dw_bindings (de_others env (dw_calls w) w))))"
      using that by (simp add: keeps_def)
    with others show "on_bindings w (snd (registry_call env h w))"
      by (auto simp: on_bindings_def registry_call_def case_prod_beta Let_def intro: registry.kept_trans)
  qed
qed

lemma when_key_error_kept: "keeps on_bindings m \<Longrightarrow> keeps on_bindings h \<Longrightarrow> keeps on_bindings (when_key_error m h)"
  unfolding when_key_error_def by (intro reg.keeps_rules)

lemma authorize_kept: "keeps on_bindings (authorize env d)"
  unfolding authorize_def dispatch_audit_def by (intro reg.keeps_rules calls_kept)

lemma bound_run_kept: "keeps on_bindings (bound_run b)"
  unfolding bound_run_def by (intro reg.keeps_rules)

lemma start_dispatch_kept: "keeps on_bindings (start_dispatch env d def workspace i b auth)"
  unfolding start_dispatch_def dispatch_audit_def
  by (intro reg.keeps_rules calls_kept complete_binding_kept bound_run_kept)
     (auto split: gateway_error.split simp: Let_def intro!: reg.keeps_rules calls_kept)

lemma resume_run_kept: "keeps on_bindings (resume_run env d b found)"
  unfolding resume_run_def by (intro reg.keeps_rules calls_kept complete_binding_kept bound_run_kept)

lemma dispatch_authorized_kept: "keeps on_bindings (dispatch_authorized env d def auth)"
  unfolding dispatch_authorized_def
  by (auto split: sum.split option.split simp: Let_def
      intro!: reg.keeps_rules calls_kept reserve_kept when_key_error_kept start_dispatch_kept resume_run_kept)

lemma dispatch_workflow_kept: "keeps on_bindings (dispatch_workflow env d)"
  unfolding dispatch_workflow_def
  by (intro reg.keeps_rules calls_kept when_key_error_kept authorize_kept dispatch_authorized_kept)

lemma workflow_status_kept: "keeps on_bindings (workflow_status env i)"
  unfolding workflow_status_def by (intro reg.keeps_rules calls_kept)

lemma ensure_execution_kept: "keeps on_bindings (ensure_execution env i)"
  unfolding ensure_execution_def by (intro reg.keeps_rules keeps_modify execute_kept)

lemma cancel_workflow_kept: "keeps on_bindings (cancel_workflow env i)"
  unfolding cancel_workflow_def by (cases "de_cancel env") (auto simp: keeps_void intro: calls_kept keeps_modify cancel_kept)

subsection \<open>A dispatch that returns has bound its request\<close>

lemma call_ok: "keeps on_bindings m \<Longrightarrow> m w = (r, w') \<Longrightarrow> registry_ok (dw_bindings w) \<Longrightarrow> registry_ok (dw_bindings w')"
  by (rule on_bindings_ok) (rule keepsD [of on_bindings])

lemma registry_call_Inr:
  assumes "registry_call env f w = (Inr x, w')" and "registry_ok (dw_bindings w)"
  shows "\<exists>bs. registry_ok bs \<and> f bs = (Inr x, dw_bindings w')"
  using assms others_kept [of w "dw_calls w", THEN on_bindings_ok]
  by (auto simp: registry_call_def Let_def split: prod.splits)

lemma complete_bound:
  assumes "registry_call env (complete_binding b i) w = (Inr c, w')" and "registry_ok (dw_bindings w)"
  shows "bound (bd_source b) i w' \<and> bd_run c = Some i \<and> registry_ok (dw_bindings w')"
proof -
  obtain bs where bs: "registry_ok bs" "complete_binding b i bs = (Inr c, dw_bindings w')"
    using registry_call_Inr [OF assms] by blast
  from complete_binding_Inr [OF bs(2,1)] bs(1)
  have c: "registry_ok (dw_bindings w')" "map_of (dw_bindings w') (bd_source b) = Some c" "bd_run c = Some i"
    by (simp_all add: registry_evolves_def)
  then have "bd_status c = BdCompleted" unfolding registry_ok_def by auto
  with c show ?thesis by (simp add: bound_def)
qed

lemma bound_run_Inr: "bound_run b w = (Inr r, w') \<longleftrightarrow> bd_run b = Some r \<and> w' = w"
  by (auto simp: bound_run_def sx_simps split: option.splits)

lemma start_dispatch_bound:
  assumes "start_dispatch env d def workspace i b auth w = (Inr r, w')" and ok: "registry_ok (dw_bindings w)"
  shows "bound (bd_source b) r w'"
proof -
  let ?create = "graph_call env (\<lambda>n. create_run (de_parse env) (de_clock env n) i (de_nodes env n) def
      (Some (wd_input d)) workspace None None None 0)"
  let ?start = "\<lambda>run. graph_call env (\<lambda>n. start_run (de_clock env n) (gr_id run))"
  let ?complete = "\<lambda>started. registry_call env (complete_binding b (gr_id started))"
  let ?body = "sx_bind ?create (\<lambda>run. sx_bind (?start run) ?complete)"
  let ?handler = "\<lambda>e. case e of GwDispatch code unknown \<Rightarrow> sx_raise e
      | _ \<Rightarrow> let code = ''graph.'' @ exception_code (WkGateway e) in
          sx_bind (dispatch_audit env (fst auth) ''scheduler.dispatch.outcome_unknown'' ALLOW
            (matched_rule_ids (snd auth)) (PDict [(PStr ''error_code'', PStr code)])) (\<lambda>_.
          sx_raise (GwDispatch code True))"
  have raises: "?handler e s \<noteq> (Inr c, t)" for e s c t
    by (cases e) (simp_all add: sx_Inr Let_def)
  from assms(1) obtain c w3 x w4 where caught: "sx_catch ?body ?handler w = (Inr c, w3)"
    and audit: "dispatch_audit env (fst auth) ''scheduler.dispatch.completed'' ALLOW (matched_rule_ids (snd auth))
       (PDict [(PStr ''graph_run_id'', case bd_run c of None \<Rightarrow> PNone | Some r \<Rightarrow> PStr r)]) w3 = (Inr x, w4)"
    and r: "bound_run c w4 = (Inr r, w')"
    unfolding start_dispatch_def sx_bind_Inr_iff by blast
  from caught have "?body w = (Inr c, w3)" by (rule sx_catch_raises) (rule raises)
  then obtain run w1 started w2 where one: "?create w = (Inr run, w1)" and two: "?start run w1 = (Inr started, w2)"
    and three: "?complete started w2 = (Inr c, w3)"
    unfolding sx_bind_Inr_iff by blast
  have "registry_ok (dw_bindings w2)" using call_ok [OF calls_kept(2) two call_ok [OF calls_kept(2) one ok]] .
  note done3 = complete_bound [OF three this]
  have "on_bindings w3 w4" using keepsD [OF calls_kept(1) audit [unfolded dispatch_audit_def]] .
  with done3 r bound_stays show ?thesis by (auto simp: bound_run_Inr)
qed

lemma resume_run_bound:
  assumes "resume_run env d b found w = (Inr r, w')" and ok: "registry_ok (dw_bindings w)"
  shows "bound (bd_source b) r w'"
proof -
  let ?start = "if gr_status found \<in> {RS_CREATED, RS_QUEUED, RS_INTERRUPTED}
         then graph_call env (\<lambda>n. start_run (de_clock env n) (gr_id found)) else sx_return found"
  from assms(1) obtain run w1 c w2 where one: "?start w = (Inr run, w1)"
    and two: "registry_call env (complete_binding b (gr_id run)) w1 = (Inr c, w2)" and r: "bound_run c w2 = (Inr r, w')"
    unfolding resume_run_def sx_bind_Inr_iff by (auto simp: sx_guard_Inr)
  have "keeps on_bindings ?start" by (intro reg.keeps_rules calls_kept)
  then have "registry_ok (dw_bindings w1)" using one ok by (rule call_ok)
  with complete_bound [OF two] r show ?thesis by (auto simp: bound_run_Inr)
qed

lemma dispatch_bound:
  assumes "dispatch_workflow env d w = (Inr r, w')" and ok: "registry_ok (dw_bindings w)"
  shows "bound (wd_source d) r w'"
proof -
  from assms(1) obtain def w1 auth w4
    where one: "when_key_error (graph_call env (\<lambda>n. get_definition (wd_workflow d, wd_version d)))
        (sx_raise (GwDispatch ''scheduler.workflow_not_found'' False)) w = (Inr def, w1)"
      and auth: "authorize env d w1 = (Inr auth, w4)" and rest: "dispatch_authorized env d def auth w4 = (Inr r, w')"
    unfolding dispatch_workflow_def sx_bind_Inr_iff sx_Inr_iff by clarify (rule that; assumption)
  have "keeps on_bindings (when_key_error (graph_call env (\<lambda>n. get_definition (wd_workflow d, wd_version d)))
        (sx_raise (GwDispatch ''scheduler.workflow_not_found'' False)))"
    by (intro when_key_error_kept reg.keeps_rules calls_kept)
  then have "registry_ok (dw_bindings w1)" using one ok by (rule call_ok)
  with authorize_kept auth have ok4: "registry_ok (dw_bindings w4)" by (rule call_ok)
  let ?h = "action_hash (fst auth)"
  let ?i = "dispatch_run_id env (wd_source d) ?h"
  let ?find = "when_key_error (sx_bind (graph_call env (\<lambda>n. get_run ?i)) (\<lambda>r. sx_return (Some r))) (sx_return None)"
  obtain workspace where ws: "de_workspace env d = Inr workspace"
    using rest by (cases "de_workspace env d") (simp_all add: dispatch_authorized_def sx_Inr)
  obtain b created w5 where res: "registry_call env (reserve (wd_source d) (wd_key d) ?h) w4 = (Inr (b, created), w5)"
    and next_step: "(if created then start_dispatch env d def workspace ?i b auth
          else if bd_status b = BdCompleted \<and> (case bd_run b of None \<Rightarrow> False | Some r \<Rightarrow> r \<noteq> []) then
            sx_bind (graph_call env (\<lambda>n. get_run (the (bd_run b)))) (\<lambda>_. sx_return (the (bd_run b)))
          else sx_bind ?find (\<lambda>found. case found of Some run \<Rightarrow> resume_run env d b run
            | None \<Rightarrow> start_dispatch env d def workspace ?i b auth)) w5 = (Inr r, w')"
    using rest unfolding dispatch_authorized_def Let_def ws sum.case sx_bind_Inr_iff [of "registry_call _ _"]
    by (elim exE conjE) (auto intro: that split: prod.splits)
  obtain bs where bs: "registry_ok bs" "reserve (wd_source d) (wd_key d) ?h bs = (Inr (b, created), dw_bindings w5)"
    using registry_call_Inr [OF res ok4] by blast
  note reserved = reserve_Inr [OF bs(2,1)]
  have ok5: "registry_ok (dw_bindings w5)" using reserved(1) bs(1) by (simp add: registry_evolves_def)
  have find_kept: "keeps on_bindings ?find" by (intro when_key_error_kept reg.keeps_rules calls_kept)
  consider "created" | "\<not> created" "bd_status b = BdCompleted" "\<exists>q. bd_run b = Some q \<and> q \<noteq> []"
    | found w6 where "\<not> created" "?find w5 = (Inr found, w6)"
      "(case found of Some run \<Rightarrow> resume_run env d b run | None \<Rightarrow> start_dispatch env d def workspace ?i b auth) w6 = (Inr r, w')"
    using next_step by (auto simp: sx_Inr split: if_splits option.splits)
  then show ?thesis
  proof cases
    case 1
    with next_step have "start_dispatch env d def workspace ?i b auth w5 = (Inr r, w')" by simp
    from start_dispatch_bound [OF this ok5] show ?thesis unfolding reserved(3) .
  next
    case 2
    then obtain q x where q: "bd_run b = Some q" and run: "graph_call env (\<lambda>n. get_run q) w5 = (Inr x, w')" "r = q"
      using next_step by (auto simp: sx_Inr)
    have "bound (wd_source d) q w5" using reserved(2) 2(2) q by (simp add: bound_def)
    with bound_stays [OF keepsD [OF calls_kept(2) run(1)] ok5] run(2) show ?thesis by simp
  next
    case 3
    have "registry_ok (dw_bindings w6)" using call_ok [OF find_kept 3(2) ok5] .
    with 3(3) have "bound (bd_source b) r w'"
      by (cases found) (simp_all only: option.case, (rule start_dispatch_bound resume_run_bound, assumption+)+)
    then show ?thesis unfolding reserved(3) .
  qed
qed

end

end
