(* ===== verification/Dispatch_Steps.thy ===== *)
theory Dispatch_Steps
  imports Dispatch_Safety
begin

section \<open>Scheduler dispatch: others, sessions, authorisation\<close>

text \<open>
  The transactions other processes may run and the interpretation of \<open>dispatcher\<close> for them; any use of
  the gateway; and what one dispatch without others does up to the end of its authorisation.
\<close>

subsection \<open>Transactions of others\<close>

datatype dispatch_op =
    OnSec redact_env sec_op
  | OnGraph "string \<Rightarrow> expr option" int graph_op
  | OnReserve string string string
  | OnComplete dispatch_binding string

fun dispatch_transact :: "dispatch_op \<Rightarrow> dispatch_world \<Rightarrow> dispatch_world" where
  "dispatch_transact (OnSec env c) w = w\<lparr>dw_sec := snd (sec_apply env c (dw_sec w))\<rparr>"
| "dispatch_transact (OnGraph parse now c) w = w\<lparr>dw_graph := snd (graph_apply parse now c (dw_graph w))\<rparr>"
| "dispatch_transact (OnReserve source key h) w = w\<lparr>dw_bindings := snd (reserve source key h (dw_bindings w))\<rparr>"
| "dispatch_transact (OnComplete b r) w = w\<lparr>dw_bindings := snd (complete_binding b r (dw_bindings w))\<rparr>"

definition dispatch_others :: "dispatch_op list \<Rightarrow> dispatch_world \<Rightarrow> dispatch_world" where
  "dispatch_others ops w = fold dispatch_transact ops w"

lemma dispatch_others_kept: "on_bindings w (dispatch_others ops w)"
proof (induction ops arbitrary: w)
  case (Cons c ops)
  have "on_bindings w (dispatch_transact c w)"
    using reserve_kept complete_binding_kept
    by (cases c) (simp_all add: on_bindings_def keeps_def registry.kept_refl)
  then show ?case using Cons reg.kept_trans by (fastforce simp: dispatch_others_def)
qed (simp add: dispatch_others_def reg.kept_refl)

definition dispatch_among ::
  "(nat \<Rightarrow> dispatch_op list) \<Rightarrow> (string \<Rightarrow> dispatch_op list) \<Rightarrow> dispatch_env \<Rightarrow> dispatch_env" where
  \<comment> \<open>others run the transactions \<open>ops n\<close> before the n-th call; the executor runs \<open>work i\<close> when it is given the run \<open>i\<close>\<close>
  "dispatch_among ops work env =
     env\<lparr>de_others := \<lambda>n. dispatch_others (ops n), de_execute := map_option (\<lambda>_ i. dispatch_others (work i)) (de_execute env),
       de_cancel := map_option (\<lambda>_ i. dispatch_others (work i)) (de_cancel env)\<rparr>"

interpretation dispatch: dispatcher "dispatch_among ops work env" for ops work env
  by unfold_locales (auto simp: dispatch_among_def dispatch_others_kept)

datatype gateway_use = UseDispatch workflow_dispatch | UseStatus string | UseEnsure string | UseCancel string

fun gateway_step :: "dispatch_env \<Rightarrow> gateway_use \<Rightarrow> unit dx" where
  "gateway_step env (UseDispatch d) = sx_void (dispatch_workflow env d)"
| "gateway_step env (UseStatus i) = sx_void (workflow_status env i)"
| "gateway_step env (UseEnsure i) = ensure_execution env i"
| "gateway_step env (UseCancel i) = cancel_workflow env i"

definition gateway_session :: "dispatch_env \<Rightarrow> gateway_use list \<Rightarrow> dispatch_world \<Rightarrow> dispatch_world" where
  "gateway_session env us w = fold (\<lambda>u w. snd (gateway_step env u w)) us w"

lemma gateway_session_kept: "on_bindings w (gateway_session (dispatch_among ops work env) us w)"
proof (induction us arbitrary: w)
  case (Cons u us)
  have "keeps on_bindings (gateway_step (dispatch_among ops work env) u)"
    by (cases u) (simp_all add: keeps_void dispatch.dispatch_workflow_kept dispatch.workflow_status_kept
        dispatch.ensure_execution_kept dispatch.cancel_workflow_kept)
  then have "on_bindings w (snd (gateway_step (dispatch_among ops work env) u w))" unfolding keeps_def by (rule spec)
  then show ?case using Cons reg.kept_trans by (fastforce simp: gateway_session_def)
qed (simp add: gateway_session_def reg.kept_refl)

subsection \<open>What a dispatch does before it is authorised\<close>

definition alone :: "dispatch_env \<Rightarrow> dispatch_env" where
  "alone env = env\<lparr>de_others := \<lambda>n w. w\<rparr>"

lemma alone_fields [simp]:
  "de_others (alone env) n w = w" "de_host (alone env) = de_host env" "de_digest (alone env) = de_digest env"
  "de_redact (alone env) = de_redact env" "de_bundle (alone env) = de_bundle env"
  "de_parse (alone env) = de_parse env" "dispatch_proposal (alone env) n d = dispatch_proposal env n d"
  by (simp_all add: alone_def dispatch_proposal_def)

definition same_work :: "dispatch_world \<Rightarrow> dispatch_world \<Rightarrow> bool" where
  "same_work w w' \<longleftrightarrow> dw_graph w' = dw_graph w \<and> dw_bindings w' = dw_bindings w"

interpretation work: kept_relation same_work
  by unfold_locales (simp_all add: same_work_def)

definition same_leases :: "dispatch_world \<Rightarrow> dispatch_world \<Rightarrow> bool" where
  "same_leases w w' \<longleftrightarrow> leases_same (dw_sec w) (dw_sec w')"

interpretation granted: kept_relation same_leases
  by unfold_locales (auto simp: same_leases_def intro: same_leases.kept_trans same_leases.kept_refl)

lemma sec_call_alone:
  "sec_call (alone env) f w = (Inr x, w') \<longleftrightarrow>
     (\<exists>s. f (dw_calls w) (dw_sec w) = (Inr x, s) \<and> w' = w\<lparr>dw_sec := s, dw_calls := Suc (dw_calls w)\<rparr>)"
  by (auto simp: sec_call_def Let_def split: prod.splits sum.splits)

lemma sec_call_work: "keeps same_work (sec_call (alone env) f)"
  by (simp add: keeps_def same_work_def sec_call_def case_prod_beta Let_def)

lemma graph_read_work: "(\<And>n s. snd (f n s) = s) \<Longrightarrow> keeps same_work (graph_call (alone env) f)"
  by (simp add: keeps_def same_work_def graph_call_def case_prod_beta Let_def)

lemma authorize_work: "keeps same_work (authorize (alone env) d)"
  unfolding authorize_def dispatch_audit_def by (intro work.keeps_rules sec_call_work)

lemma audit_leases: "keeps same_leases (dispatch_audit (alone env) action event dec rids detail)"
  unfolding dispatch_audit_def
  by (rule keepsI)
     (simp add: same_leases_def sec_call_def case_prod_beta Let_def same_leases_audit [unfolded keeps_def, THEN spec])

lemma calls_leases: "keeps same_leases (graph_call (alone env) g)" "keeps same_leases (registry_call (alone env) h)"
  by (simp_all add: keeps_def same_leases_def graph_call_def registry_call_def case_prod_beta Let_def same_leases.kept_refl)

lemma start_dispatch_leases: "keeps same_leases (start_dispatch (alone env) d def workspace i b auth)"
  unfolding start_dispatch_def bound_run_def
  by (intro granted.keeps_rules calls_leases audit_leases)
     (auto split: gateway_error.split simp: Let_def intro!: granted.keeps_rules audit_leases)

lemma dispatch_authorized_leases: "keeps same_leases (dispatch_authorized (alone env) d def auth)"
  unfolding dispatch_authorized_def resume_run_def bound_run_def when_key_error_def
  by (auto split: sum.split option.split simp: Let_def
      intro!: granted.keeps_rules calls_leases start_dispatch_leases)

lemma bind_works:
  assumes "\<not> same_work w (snd (sx_bind f k w))" and "keeps same_work f"
  obtains x w1 where "f w = (Inr x, w1)" and "same_work w w1" and "\<not> same_work w1 (snd (k x w1))"
    and "sx_bind f k w = k x w1"
proof -
  obtain r w1 where f: "f w = (r, w1)" by fastforce
  have same: "same_work w w1" using keepsD [OF assms(2) f] .
  from assms(1) f same obtain x where "r = Inr x" by (cases r) (auto simp: sx_bind_def)
  with f same assms(1) show ?thesis by (intro that [of x w1]) (auto simp: sx_bind_def intro: work.kept_trans)
qed

lemma record_hash:
  assumes "record_security_action env p s = (Inr a, t)"
  shows "action_hash a = action_hash p"
  using assms unfolding record_security_action_def
  by (auto simp: sx_Inr sx_transaction_Inr load_action_def split: option.splits if_splits)

lemma record_leases: "keeps leases_same (record_security_action env a)"
  unfolding record_security_action_def insert_action_def
  by (intro same_leases.keeps_rules keeps_modify) (simp_all add: leases_same_def)

lemma consume_lease_Inr:
  assumes "broker_consume lid action cap now s = (Inr l', t)"
  shows "\<exists>l. map_of (lease_rows s) lid = Some l \<and> l' = l\<lparr>uses := uses l + 1\<rparr> \<and> map_of (lease_rows t) lid = Some l'"
  using assms unfolding broker_consume_def consume_capability_lease_def
  by (auto simp: sx_Inr sx_transaction_Inr Let_def map_of_update split: option.splits if_splits)

lemma authorize_Inr:
  assumes "authorize (alone env) d w = (Inr (action, ev), w')"
  shows "ev = evaluate (de_bundle env) action \<and> decision ev = ALLOW
    \<and> (\<exists>n p. normalize_action (de_host env) (de_digest env) (dispatch_proposal env n d) = Inr p
         \<and> action_hash action = action_hash p)
    \<and> (\<exists>l. map_of (lease_rows (dw_sec w)) (lease_id l) = None
         \<and> map_of (lease_rows (dw_sec w')) (lease_id l) = Some l \<and> lease_action_hash l = action_hash action
         \<and> lease_capability l = PROCESS_EXEC_NO_NETWORK \<and> max_uses l = 1 \<and> uses l = 1)"
proof -
  from assms obtain p w1 a w2 x1 w3 lease w4 consumed w5 x2 where
    norm: "sec_call (alone env) (\<lambda>n. sx_lift (normalize_action (de_host env) (de_digest env) (dispatch_proposal env n d))) w = (Inr p, w1)"
    and rec: "sec_call (alone env) (\<lambda>n. record_security_action (de_redact env) p) w1 = (Inr a, w2)"
    and allow: "decision (evaluate (de_bundle env) a) = ALLOW"
    and eval: "dispatch_audit (alone env) a ''scheduler.dispatch.policy_evaluated'' (decision (evaluate (de_bundle env) a))
         (matched_rule_ids (evaluate (de_bundle env) a))
         (PDict [(PStr ''reason_code'', PStr (reason_code (evaluate (de_bundle env) a))),
                 (PStr ''source_run_request_id'', PStr (wd_source d))]) w2 = (Inr x1, w3)"
    and iss: "sec_call (alone env) (\<lambda>n. broker_issue (de_max_ttl (alone env)) (de_fresh (alone env) n) (de_time (alone env) n) a
        (evaluate (de_bundle env) a) PROCESS_EXEC_NO_NETWORK (de_principal (alone env)) (de_ttl (alone env)) 1) w3 = (Inr lease, w4)"
    and used: "sec_call (alone env) (\<lambda>n. broker_consume (lease_id lease) a PROCESS_EXEC_NO_NETWORK (de_time (alone env) n)) w4
        = (Inr consumed, w5)"
    and audit: "dispatch_audit (alone env) a ''scheduler.dispatch.capability_consumed'' ALLOW
        (matched_rule_ids (evaluate (de_bundle env) a))
        (PDict [(PStr ''capability'', PStr (capability_value PROCESS_EXEC_NO_NETWORK)),
                 (PStr ''lease_id'', PStr (lease_id consumed)), (PStr ''uses'', PInt (uses consumed))]) w5 = (Inr x2, w')"
    and res: "action = a" "ev = evaluate (de_bundle env) a"
    unfolding authorize_def Let_def alone_fields
    by (auto simp: sx_Inr split: if_splits)
  obtain s4 where "broker_issue (de_max_ttl (alone env)) (de_fresh (alone env) (dw_calls w3)) (de_time (alone env) (dw_calls w3)) a
        (evaluate (de_bundle env) a) PROCESS_EXEC_NO_NETWORK (de_principal (alone env)) (de_ttl (alone env)) 1 (dw_sec w3)
      = (Inr lease, s4)" and w4: "dw_sec w4 = s4"
    using iss by (auto simp: sec_call_alone)
  note issued = broker_issue_Inr [OF this(1)]
  have "lease_rows (dw_sec w1) = lease_rows (dw_sec w)" using norm by (auto simp: sec_call_alone sx_simps)
  moreover have "lease_rows (dw_sec w2) = lease_rows (dw_sec w1)"
    using rec by (auto simp: sec_call_alone leases_same_def dest!: keepsD [OF record_leases])
  moreover have "lease_rows (dw_sec w3) = lease_rows (dw_sec w2)"
    using keepsD [OF audit_leases eval] by (simp add: same_leases_def leases_same_def)
  ultimately have unused: "map_of (lease_rows (dw_sec w)) (lease_id lease) = None" using issued(8,9) by simp
  obtain s5 where "broker_consume (lease_id lease) a PROCESS_EXEC_NO_NETWORK (de_time (alone env) (dw_calls w4)) (dw_sec w4)
      = (Inr consumed, s5)" and w5: "dw_sec w5 = s5"
    using used by (auto simp: sec_call_alone)
  from consume_lease_Inr [OF this(1)] obtain l where l: "map_of (lease_rows s4) (lease_id lease) = Some l"
    "consumed = l\<lparr>uses := uses l + 1\<rparr>" "map_of (lease_rows s5) (lease_id lease) = Some consumed"
    unfolding w4 by blast
  have same: "l = lease" using l(1) issued(8,9,11) by (simp add: map_add_def)
  have "lease_rows (dw_sec w') = lease_rows s5"
    using keepsD [OF audit_leases audit] w5 by (simp add: same_leases_def leases_same_def)
  then have "map_of (lease_rows (dw_sec w')) (lease_id consumed) = Some consumed \<and> lease_action_hash consumed = action_hash a
      \<and> lease_capability consumed = PROCESS_EXEC_NO_NETWORK \<and> max_uses consumed = 1 \<and> uses consumed = 1"
    using l issued(9) same by simp
  moreover have "map_of (lease_rows (dw_sec w)) (lease_id consumed) = None"
    using unused l(2) same by simp
  moreover have "normalize_action (de_host env) (de_digest env) (dispatch_proposal env (dw_calls w) d) = Inr p"
    using norm by (auto simp: sec_call_alone sx_simps)
  moreover have "action_hash a = action_hash p" using rec by (auto simp: sec_call_alone dest: record_hash)
  ultimately show ?thesis using allow res by blast
qed

end
