(* ===== verification/Dispatch_Properties.thy ===== *)
theory Dispatch_Properties
  imports Dispatch_Steps Sec_Samples Graph_Samples "HOL-Library.Code_Target_Nat"
begin

section \<open>Scheduler dispatch: properties\<close>

text \<open>
  What the scheduler relies on of its gateway: one graph run per request, whatever else happens, and
  nothing without an authorisation. The witnesses run the gateway on a small published graph.
\<close>

subsection \<open>A concrete gateway\<close>

definition dispatch_digest :: "hash_input \<Rightarrow> string" where
  \<comment> \<open>a digest that tells the two requests below apart\<close>
  "dispatch_digest h = replicate 64 (if hash_idempotency_key h = ''key-1'' then CHR ''a'' else CHR ''b'')"

definition dispatch_bundle :: policy_bundle where
  \<comment> \<open>one rule, which allows the scheduler to dispatch\<close>
  "dispatch_bundle =
     \<lparr>bundle_id = ''local'', bundle_version = ''1'', default_decision = DENY, rules =
       [\<lparr>rule_id = ''dispatch'', layer = SYSTEM, rule_decision = ALLOW, capabilities = [PROCESS_EXEC_NO_NETWORK],
         tools = [''scheduler''], operations = [''dispatch''], target_types = [], rule_risk_level = LOW,
         reason = ''dispatches'', hard = False\<rparr>]\<rparr>"

definition demo_dispatch_env :: dispatch_env where
  "demo_dispatch_env =
     \<lparr>de_host = plain_host, de_digest = dispatch_digest, de_redact = plain_redact, de_bundle = dispatch_bundle,
      de_principal = ''scheduler.local'', de_ttl = 60, de_max_ttl = 300, de_parse = no_parser, de_sha = take 6,
      de_workspace = workspace_from_input plain_host (\<lambda>p. True), de_execute = None, de_cancel = None,
      de_fresh = (\<lambda>n. ''id-'' @ show_int (int n)),
      de_nodes = (\<lambda>n. [''x-'' @ show_int (int n), ''y-'' @ show_int (int n)]), de_clock = (\<lambda>n. int n),
      de_time = (\<lambda>n. \<lparr>ts_wall = int n, ts_offset = 0\<rparr>), de_others = (\<lambda>n w. w)\<rparr>"

definition demo_dispatch :: "string \<Rightarrow> string \<Rightarrow> workflow_dispatch" where
  "demo_dispatch key source =
     \<lparr>wd_workflow = ''w'', wd_version = 1, wd_input = [], wd_key = key, wd_source = source\<rparr>"

definition dispatch_start :: dispatch_world where
  "dispatch_start =
     \<lparr>dw_sec = empty_sec_store,
      dw_graph = \<lparr>gs_definitions = [((''w'', 1), demo_graph)], gs_runs = [], gs_nodes = [], gs_attempts = []\<rparr>,
      dw_bindings = [], dw_calls = 0\<rparr>"

text \<open>The names that the dispatcher gives to data hold no secret; this spares their evaluation.\<close>

definition plain_keys :: "string list" where
  "plain_keys = [''workflow_id'', ''workflow_version'', ''workflow_input'', ''source_run_request_id'', ''reason_code'',
     ''capability'', ''lease_id'', ''uses'', ''graph_run_id'']"

lemma plain_keys_shown:
  "\<not> is_sensitive_key ''workflow_id''"
  "\<not> is_sensitive_key ''workflow_version''"
  "\<not> is_sensitive_key ''workflow_input''"
  "\<not> is_sensitive_key ''source_run_request_id''"
  "\<not> is_sensitive_key ''reason_code''"
  "\<not> is_sensitive_key ''capability''"
  "\<not> is_sensitive_key ''lease_id''"
  "\<not> is_sensitive_key ''uses''"
  "\<not> is_sensitive_key ''graph_run_id''"
  by code_simp+

lemma is_sensitive_key_code [code]:
  "is_sensitive_key key =
     (if key \<in> set plain_keys then False
      else
        let normalized = strip_underscores (squash_key (ascii_lower key)); compact = no_underscore normalized in
        if normalized = ''secret_ref'' then False
        else normalized \<in> set sensitive_key_names
          \<or> list_ex (\<lambda>suffix. normalized = suffix \<or> ends_with normalized (CHR ''_'' # suffix)
                \<or> ends_with compact (no_underscore suffix)) sensitive_key_suffixes)"
  using plain_keys_shown unfolding is_sensitive_key_def [symmetric] by (auto simp: plain_keys_def)

definition quiet_dispatch :: dispatch_env where
  "quiet_dispatch = dispatch_among (\<lambda>n. []) (\<lambda>i. []) demo_dispatch_env"

definition first_dispatch :: workflow_dispatch where
  "first_dispatch = demo_dispatch ''key-1'' ''req-1''"

definition second_dispatch :: workflow_dispatch where
  "second_dispatch = demo_dispatch ''key-2'' ''req-2''"

lemma dispatch_start_ok: "registry_ok (dw_bindings dispatch_start)"
  by (simp add: dispatch_start_def registry_ok_def)

subsection \<open>One run per request\<close>

text \<open>
  C9: Two dispatches that succeed answer with the same graph run exactly when they are for the same
  request. Between them, and before each of their calls, other threads and processes may run any
  transactions on the security store, the graphs and the registry, and the gateway may be used in any way.
\<close>
theorem one_run_per_request:
  assumes "registry_ok (dw_bindings w)"
    and "dispatch_workflow (dispatch_among ops work env) d w = (Inr r, w1)"
    and "w2 = gateway_session (dispatch_among ops' work' env') us w1"
    and "dispatch_workflow (dispatch_among ops'' work'' env'') d' w2 = (Inr r', w3)"
  shows "wd_source d = wd_source d' \<longleftrightarrow> r = r'"
proof -
  have ok1: "registry_ok (dw_bindings w1)"
    using on_bindings_ok keepsD [OF dispatch.dispatch_workflow_kept assms(2)] assms(1) by blast
  have "bound (wd_source d) r w1" by (rule dispatch.dispatch_bound [OF assms(2,1)])
  moreover have s: "on_bindings w1 w2" unfolding assms(3) by (rule gateway_session_kept)
  ultimately have "bound (wd_source d) r w2" using bound_stays ok1 by blast
  moreover have ok2: "registry_ok (dw_bindings w2)" using on_bindings_ok [OF s ok1] .
  moreover have second: "on_bindings w2 w3" using keepsD [OF dispatch.dispatch_workflow_kept assms(4)] .
  ultimately have "bound (wd_source d) r w3" using bound_stays by blast
  moreover have "bound (wd_source d') r' w3" by (rule dispatch.dispatch_bound [OF assms(4) ok2])
  ultimately show ?thesis using bound_unique on_bindings_ok [OF second ok2] by blast
qed

lemma two_returns:
  assumes "case m of (Inr r, w) \<Rightarrow> (case fst (k w) of Inr r' \<Rightarrow> True | Inl e \<Rightarrow> False) | (Inl e, w) \<Rightarrow> False"
  shows "\<exists>r w r' w'. m = (Inr r, w) \<and> k w = (Inr r', w')"
proof -
  obtain r w where m: "m = (Inr r, w)" using assms by (cases m) (auto split: sum.splits)
  obtain r' where "fst (k w) = Inr r'" using assms by (auto simp: m split: sum.splits)
  then have "k w = (Inr r', snd (k w))" by (simp add: prod_eq_iff)
  with m show ?thesis by blast
qed

theorem one_run_per_request_witness:
  "\<exists>r w r' w'. dispatch_workflow quiet_dispatch first_dispatch dispatch_start = (Inr r, w)
     \<and> dispatch_workflow quiet_dispatch second_dispatch w = (Inr r', w') \<and> r \<noteq> r'"
proof -
  have "case dispatch_workflow quiet_dispatch first_dispatch dispatch_start of
      (Inr r, w) \<Rightarrow> (case fst (dispatch_workflow quiet_dispatch second_dispatch w) of Inr r' \<Rightarrow> True | Inl e \<Rightarrow> False)
    | (Inl e, w) \<Rightarrow> False" by code_simp
  then have "\<exists>r w r' w'. dispatch_workflow quiet_dispatch first_dispatch dispatch_start = (Inr r, w)
      \<and> dispatch_workflow quiet_dispatch second_dispatch w = (Inr r', w')" by (rule two_returns)
  then obtain r w r' w' where one: "dispatch_workflow quiet_dispatch first_dispatch dispatch_start = (Inr r, w)"
    and two: "dispatch_workflow quiet_dispatch second_dispatch w = (Inr r', w')" by blast
  have "w = gateway_session quiet_dispatch [] w" by (simp add: gateway_session_def)
  from one_run_per_request [OF dispatch_start_ok one [unfolded quiet_dispatch_def] this [unfolded quiet_dispatch_def]
      two [unfolded quiet_dispatch_def]]
  have "r \<noteq> r'" by (simp add: first_dispatch_def second_dispatch_def demo_dispatch_def)
  with one two show ?thesis by blast
qed

subsection \<open>Nothing without an authorisation\<close>



end
