(* ===== verification/Spec2Isabelle.thy ===== *)
theory Spec2Isabelle
  imports Sec_Properties Graph_Properties Sched_Properties Sched_Services Multi_Properties Dispatch_Properties
begin

text \<open>
  Operant: a verification library.

  Operant runs workflows of agents on a user's machine. This library models four of its subsystems,
  file and function names below being those of \<open>src/src/operant\<close>: the security core that decides what
  an action may do, the workflow graphs that say what runs next, the scheduler that decides when a
  workflow starts and that it starts once, and the merges of what several writers of a graph produced.
  They interact as follows. The scheduler (\<open>runtime/scheduler.py\<close>)
  claims a due request, marks its side effect as started and asks a gateway to dispatch the workflow; the
  gateway (\<open>runtime/scheduler_integration.py\<close>) has the dispatch authorised by the security core, binds the
  request to one graph run (\<open>application/graph.py\<close>) and starts it; the scheduler reads its status back. The
  nodes of a graph run propose actions; each is normalised, recorded, evaluated by the policy engine and,
  when it needs one, leased a capability (\<open>application/security.py\<close>). A schedule names a published
  definition of the graph repository, which \<open>Sched_Trigger\<close> checks in the model of that repository. A merge
  reads the frozen graph of its run: that the compiler separates the writers is what keeps the merged
  artifacts apart.

  How the code is read. Python exceptions are values of an error datatype per subsystem; an operation is a
  function from the store to an outcome and the store it leaves, also when it raises (\<open>Op_Prelude\<close>). A
  database transaction is \<open>sx_transaction\<close>: rolled back on an exception. Python values are \<open>Py_Value\<close>
  with the language's truth, equality and ordering. Dictionaries and tables are association lists in
  insertion order. Identifiers, random tokens and readings of the clock are arguments; digests, the time
  zone data, Python's own expression parser, the file system and the gateway of the scheduler are
  parameters, with what the code relies on as hypotheses of the properties that need it.

  \<^bold>\<open>Prelude.\<close> \<open>Op_Prelude\<close>: outcomes, the state/exception monad, transactions, preserved relations (the
  locale \<open>kept_relation\<close>, whose rules carry every preservation proof), histories of rows, lists and
  strings. \<open>Py_Value\<close>: Python values and operations. \<open>Py_Float\<close>: the rounding of a quotient to a double, with its
  error bound.

  \<^bold>\<open>Security.\<close> \<open>Sec_Domain\<close> is \<open>domain/security.py\<close> (actions, policies, evaluations, leases).
  \<open>Sec_Policy\<close> is \<open>PolicyEngine\<close> with the bundles: \<open>evaluate\<close> is proved to refine an abstract specification
  on the set of matching rules. \<open>Sec_Normalize\<close> is \<open>ActionNormalizer\<close> and the action hash, \<open>Sec_Redact\<close>
  the redaction of payloads, \<open>Sec_Store\<close> the repository of \<open>persistence/security.py\<close> and the approval rows of
  \<open>persistence/phase45.py\<close>, \<open>Sec_Gateway\<close> the action gateway and the capability and secret brokers,
  \<open>Sec_Review\<close> the review of approvals by a model. \<open>Sec_Runs\<close>, \<open>Sec_Approvals\<close> and \<open>Sec_Guard\<close> show what
  every sequence of repository operations keeps: leases grant at most their uses, approvals move forward
  and are consumed once, a guard allows only what the policy or a live approval allows. \<open>Sec_Properties\<close>
  states the results, \<open>Sec_Samples\<close> holds the inputs they are applied to.

  \<^bold>\<open>Workflow graphs.\<close> \<open>Graph_Domain\<close> is \<open>domain/graph.py\<close>; \<open>Graph_Expr\<close> and \<open>Graph_Ports\<close> are the condition
  language and the port types; \<open>Graph_Search\<close>, \<open>Graph_Topo\<close> and \<open>Graph_Compiler\<close> are \<open>GraphCompiler.compile\<close>
  with every check; \<open>Graph_Subworkflow\<close> is \<open>application/subworkflow.py\<close>; \<open>Graph_Repository\<close> is
  \<open>InMemoryGraphRepository\<close> with the locale of a revisioned store; \<open>Graph_Propagation\<close>, \<open>Graph_Runtime\<close>,
  \<open>Graph_Operations\<close> and \<open>Graph_Loops\<close> are \<open>GraphRuntime\<close>. \<open>Graph_Lifecycle\<close> gives the life cycle of runs and
  node runs as step relations, \<open>Graph_Steps\<close>, \<open>Graph_Recovery\<close> and \<open>Graph_Evolution\<close> show that every
  operation follows it, \<open>Graph_Fixpoint\<close> that propagation ends and what holds at its rest, \<open>Graph_Compiled\<close>
  what a compiled graph satisfies, \<open>Graph_Safety\<close> what follows for any sequence of calls, \<open>Graph_Results\<close>
  what a successful call means. \<open>Graph_Properties\<close> states the results.

  \<^bold>\<open>Scheduler.\<close> \<open>Sched_Time\<close>: calendar, timestamps and their stored text (\<open>_dt\<close>, \<open>_parse_dt\<close>); that the texts
  compare as the instants do is why the tables of the model hold instants. \<open>Sched_Cron\<close>: \<open>CronExpression\<close>.
  \<open>Sched_Occurrences\<close>: the occurrences are the matching instants in the order of local date and time, which
  is a minute-by-minute scan wherever the clock does not step back over midnight; the 400-year scan decides
  satisfiability, the normalised text parses back. Of a time zone only \<open>zone_inverse\<close> is assumed. \<open>Sched_Domain\<close> is \<open>domain/scheduler.py\<close>; \<open>Sched_Store\<close> and
  \<open>Sched_Jobs\<close> are \<open>SQLiteSchedulerStore\<close> (\<open>persistence/scheduler.py\<close>), \<open>Sched_Trigger\<close> is \<open>TriggerService\<close>
  (\<open>application/scheduler.py\<close>), \<open>Sched_Worker\<close> is \<open>SchedulerWorker\<close> (\<open>runtime/scheduler.py\<close>). \<open>Sched_Machine\<close> is
  the abstract specification: what the tables hold about one request and the steps it may take.
  \<open>Sched_Simulation\<close> and \<open>Sched_Operations\<close> prove that every method implements it on all requests at once.
  \<open>Sched_Runs\<close> lists the calls, and its locales prove once that a relation the calls keep is kept by the
  trigger service and by the worker with any gateway; \<open>Sched_Tables\<close>, \<open>Sched_Safety\<close> and \<open>Sched_Limits\<close>
  interpret them with the fencing of leases, the life of requests, unique idempotency keys and the
  concurrency limit. \<open>Sched_Properties\<close> and \<open>Sched_Services\<close> state the results, at the inputs of
  \<open>Sched_Samples\<close>.

  \<^bold>\<open>Scheduler dispatch.\<close> \<open>Dispatch_Gateway\<close> is the first half of \<open>runtime/scheduler_integration.py\<close>: the
  authorisation of a dispatch, the registry that binds requests to graph runs, and the gateway the worker
  runs with, over the security store, the graph store and the registry. \<open>Dispatch_Registry\<close> gives the life of
  a binding, \<open>Dispatch_Safety\<close> shows that the gateway keeps it among others that do (the locale \<open>dispatcher\<close>)
  and what a successful dispatch leaves bound, \<open>Dispatch_Steps\<close> interprets the locale for others that run
  any transactions of the three stores and follows one authorisation. \<open>Dispatch_Properties\<close> states the
  results and the concrete gateway they are applied to.

  \<^bold>\<open>Multi-writer merges.\<close> \<open>Multi_Domain\<close> is \<open>domain/multiwriter.py\<close>, \<open>Multi_Store\<close> and \<open>Multi_Merges\<close> are
  \<open>SQLiteMultiWriterRepository\<close> (\<open>persistence/multiwriter.py\<close>) over the tables of the schema, \<open>Multi_Runtime\<close>
  is \<open>MultiWriterRuntime\<close> (\<open>application/multiwriter.py\<close>) with its adapters as parameters. Between any two
  transactions of the runtime other processes may run any of theirs. \<open>Multi_Life\<close> gives the steps of leases,
  conflicts and merge runs and the relation \<open>multi_evolves\<close> of stores; \<open>Multi_Steps\<close> and \<open>Multi_Execution\<close> show
  that every method keeps it, \<open>Multi_Guarantee\<close> that the runtime does among others that do (the locale
  \<open>multi_actor\<close>, a rely-guarantee rule), \<open>Multi_Safety\<close> and \<open>Multi_Inputs\<close> what follows for one execution of
  a merge, for fencing, for detection and for the inputs of a merge. \<open>Multi_Properties\<close> states the results,
  \<open>Multi_Samples\<close> holds the worlds they are applied to. \<open>Sql_Tables\<close> holds the updates of tables and the
  atomic methods that the scheduler and this part share.

  \<^bold>\<open>Bounds and fuel.\<close> Loops are structural or terminate by a measure, with three exceptions. The worklist
  of dependency propagation takes fuel, and \<open>Graph_Fixpoint\<close> proves that the number of undecided nodes is
  enough. The tree checks of sub-workflows take fuel, and the admitted depth is proved to be enough. The
  redaction of nested values recurses to the depth bound that the code passes. Counts and costs are integers
  and rationals without bound, as Python's are; a cost is the rational its float denotes. The division of
  a cost limit rounds as the code does (\<open>binary64\<close>); sums of costs are exact.

  \<^bold>\<open>Not modelled.\<close> The HTTP API, the application facade, the asynchronous executor of nodes and the
  evaluation harness, the memory plugins, provider routing, the turn loop and the tools: they drive model
  calls, processes, network clients and files, and their core is that glue. The SQLite repositories of
  graphs and of everything else (\<open>persistence/sqlite.py\<close>): only the in-memory graph repository and the
  security, scheduler and multi-writer stores are modelled. Of the scheduler, the background loop with
  its leases and the file and Git probes; of the merges, the Git adapter. Concurrent processes appear only as sequences of
  transactions: each method of a store is one atomic step, which the immediate transactions of SQLite
  give. Identity of mutable Python objects is not represented.
\<close>

end
